(* ===== verification/Prelude.thy ===== *)
theory Prelude
  imports Main "HOL-Library.Word" "HOL-Library.List_Lexorder" "HOL-Library.Char_ord"
    "HOL-Library.AList"
begin

text \<open>
  The shared vocabulary of the development: machine integers and byte strings, the two
  kinds of keyed collections the sources use (\<open>BTreeMap\<close>, iterated in key order, and
  \<open>HashMap\<close>, iterated in an unspecified order), the values that stand for panics and for
  loops that do not return, retried calls, and three generic interfaces stated as locales:
  keyed collections, systems of steps with an invariant, and systems of steps that only
  move up in a preorder. Every component theory instantiates them.
\<close>

named_theorems exec_simps \<open>unfolding of the sequencing operators\<close>
named_theorems map_simps \<open>lookups after updates of keyed collections\<close>

section \<open>Names of the basic types\<close>

type_synonym u8 = "8 word"
type_synonym u32 = "32 word"
type_synonym u64 = "64 word"
type_synonym bytes = "u8 list"
type_synonym AccountId = string

text \<open>The public keys of \<^verbatim>\<open>near_crypto\<close>, by curve.\<close>

datatype near_public_key = ED25519 bytes | SECP256K1 bytes

text \<open>The bytes of a string: the characters of HOL are the 256 bytes.\<close>

definition string_bytes :: "string \<Rightarrow> bytes" where
  "string_bytes s = map of_char s"

lemma inj_byte_of_char: "inj (of_char :: char \<Rightarrow> u8)"
proof (rule injI)
  fix c d :: char
  assume "(of_char c :: u8) = of_char d"
  then have "(of_nat (of_char c) :: u8) = of_nat (of_char d)" by (simp only: of_nat_of_char)
  then have "unat (of_nat (of_char c) :: u8) = unat (of_nat (of_char d) :: u8)" by simp
  then have "(of_char c :: nat) mod 256 = of_char d mod 256"
    unfolding unat_of_nat by (simp add: take_bit_eq_mod)
  then show "c = d" by simp
qed

lemma inj_string_bytes: "string_bytes s = string_bytes t \<longleftrightarrow> s = t"
  unfolding string_bytes_def by (rule inj_map_eq_map [OF inj_byte_of_char])

section \<open>Keyed collections\<close>

text \<open>
  A \<open>BTreeMap\<close> is the list of its entries in increasing key order: that list is what
  \<open>iter\<close>, \<open>keys\<close>, \<open>values\<close> and \<open>into_iter\<close> traverse, and the position of an entry in it
  is observable (the node numbers the participants by it).
\<close>

type_synonym ('k, 'v) btree = "('k \<times> 'v) list"

fun bt_insert :: "'k::linorder \<Rightarrow> 'v \<Rightarrow> ('k, 'v) btree \<Rightarrow> ('k, 'v) btree" where
  "bt_insert k v [] = [(k, v)]"
| "bt_insert k v (e # m) =
     (if k < fst e then (k, v) # e # m
      else if k = fst e then (k, v) # m
      else e # bt_insert k v m)"

fun bt_remove :: "'k \<Rightarrow> ('k, 'v) btree \<Rightarrow> ('k, 'v) btree" where
  "bt_remove k [] = []"
| "bt_remove k (e # m) = (if fst e = k then m else e # bt_remove k m)"

abbreviation bt_get :: "('k, 'v) btree \<Rightarrow> 'k \<Rightarrow> 'v option" where
  "bt_get \<equiv> map_of"

abbreviation bt_keys :: "('k, 'v) btree \<Rightarrow> 'k list" where
  "bt_keys m \<equiv> map fst m"

definition bt_contains_key :: "('k, 'v) btree \<Rightarrow> 'k \<Rightarrow> bool" where
  "bt_contains_key m k \<longleftrightarrow> map_of m k \<noteq> None"

definition bt_wf :: "('k::linorder, 'v) btree \<Rightarrow> bool" where
  "bt_wf m \<longleftrightarrow> sorted_wrt (<) (map fst m)"

text \<open>
  A \<open>HashMap\<close> is a list of entries with distinct keys, in the order an iteration would
  visit them. The library leaves that order open; the statements about iterations hold for
  every list.
\<close>

type_synonym ('k, 'v) hmap = "('k \<times> 'v) list"

abbreviation hm_get :: "('k, 'v) hmap \<Rightarrow> 'k \<Rightarrow> 'v option" where
  "hm_get \<equiv> map_of"

abbreviation hm_insert :: "'k \<Rightarrow> 'v \<Rightarrow> ('k, 'v) hmap \<Rightarrow> ('k, 'v) hmap" where
  "hm_insert \<equiv> AList.update"

abbreviation hm_remove :: "'k \<Rightarrow> ('k, 'v) hmap \<Rightarrow> ('k, 'v) hmap" where
  "hm_remove \<equiv> AList.delete"

definition hm_contains_key :: "('k, 'v) hmap \<Rightarrow> 'k \<Rightarrow> bool" where
  "hm_contains_key m k \<longleftrightarrow> map_of m k \<noteq> None"

definition hm_wf :: "('k, 'v) hmap \<Rightarrow> bool" where
  "hm_wf m \<longleftrightarrow> distinct (map fst m)"

text \<open>\<open>entry(k).or_default()\<close>: the stored value, or the default when there is none.\<close>

definition or_default :: "'v \<Rightarrow> 'v option \<Rightarrow> 'v" where
  "or_default d o' = (case o' of None \<Rightarrow> d | Some v \<Rightarrow> v)"

lemma or_default_simps [simp]:
  "or_default d None = d" "or_default d (Some v) = v"
  by (simp_all add: or_default_def)

subsection \<open>The interface of a keyed collection\<close>

locale keyed_map =
  fixes emp :: "'m"
    and ins :: "'k \<Rightarrow> 'v \<Rightarrow> 'm \<Rightarrow> 'm"
    and rem :: "'k \<Rightarrow> 'm \<Rightarrow> 'm"
    and get :: "'m \<Rightarrow> 'k \<Rightarrow> 'v option"
    and wf :: "'m \<Rightarrow> bool"
  assumes wf_emp: "wf emp"
    and wf_ins: "wf m \<Longrightarrow> wf (ins k v m)"
    and wf_rem: "wf m \<Longrightarrow> wf (rem k m)"
    and get_emp: "get emp k = None"
    and get_ins: "wf m \<Longrightarrow> get (ins k v m) j = (if j = k then Some v else get m j)"
    and get_rem: "wf m \<Longrightarrow> get (rem k m) j = (if j = k then None else get m j)"
begin

lemma dom_ins: "wf m \<Longrightarrow> dom (get (ins k v m)) = insert k (dom (get m))"
  by (auto simp: dom_def get_ins)

lemma dom_rem: "wf m \<Longrightarrow> dom (get (rem k m)) = dom (get m) - {k}"
  by (auto simp: dom_def get_rem split: if_splits)

lemma get_fold_ins:
  "wf m \<Longrightarrow> wf (fold (\<lambda>(k, v). ins k v) es m) \<and>
     get (fold (\<lambda>(k, v). ins k v) es m) = get m ++ map_of (rev es)"
proof (induction es arbitrary: m)
  case (Cons e es)
  obtain k v where e: "e = (k, v)" by (cases e)
  from Cons.prems have "wf (ins k v m)" by (rule wf_ins)
  with Cons.IH [of "ins k v m"] Cons.prems show ?case
    by (auto simp: e map_add_def get_ins fun_eq_iff split: option.splits)
qed simp

end

lemma bt_wf_Nil [simp]: "bt_wf []"
  by (simp add: bt_wf_def)

lemma bt_wf_Cons: "bt_wf (e # m) \<longleftrightarrow> (\<forall>x \<in> set m. fst e < fst x) \<and> bt_wf m"
  by (simp add: bt_wf_def)

lemma bt_wf_distinct: "bt_wf m \<Longrightarrow> distinct (map fst m)"
  by (simp add: bt_wf_def strict_sorted_iff)

lemma set_bt_insert:
  "set (bt_insert k v m) \<subseteq> insert (k, v) (set m)"
  by (induction m) auto

lemma bt_wf_insert: "bt_wf m \<Longrightarrow> bt_wf (bt_insert k v m)"
proof (induction m)
  case (Cons e m)
  then show ?case
    using set_bt_insert [of k v m] by (fastforce simp: bt_wf_Cons)
qed (simp add: bt_wf_Cons)

lemma set_bt_remove: "set (bt_remove k m) \<subseteq> set m"
  by (induction m) auto

lemma bt_wf_remove: "bt_wf m \<Longrightarrow> bt_wf (bt_remove k m)"
proof (induction m)
  case (Cons e m)
  then show ?case
    using set_bt_remove [of k m] by (auto simp: bt_wf_Cons)
qed simp

lemma bt_get_insert: "bt_get (bt_insert k v m) j = (if j = k then Some v else bt_get m j)"
  by (induction m) (auto simp: less_imp_neq)

lemma bt_get_None_less: "bt_wf (e # m) \<Longrightarrow> bt_get m (fst e) = None"
  by (force simp: bt_wf_Cons map_of_eq_None_iff)

lemma bt_get_remove:
  "bt_wf m \<Longrightarrow> bt_get (bt_remove k m) j = (if j = k then None else bt_get m j)"
proof (induction m)
  case (Cons e m)
  then show ?case
    using bt_get_None_less [OF Cons.prems] by (cases e) (auto simp: bt_wf_Cons)
qed simp

interpretation bt: keyed_map "[]" bt_insert bt_remove bt_get bt_wf
  by unfold_locales (auto simp: bt_wf_insert bt_wf_remove bt_get_insert bt_get_remove)

interpretation hm: keyed_map "[]" hm_insert hm_remove hm_get hm_wf
  by unfold_locales
    (auto simp: hm_wf_def distinct_update distinct_delete update_conv' delete_conv' fun_upd_def)

lemmas map_laws [map_simps] =
  bt.get_ins bt.get_rem bt.wf_ins bt.wf_rem hm.get_ins hm.get_rem hm.wf_ins hm.wf_rem

lemma bt_contains_iff: "bt_contains_key m k \<longleftrightarrow> k \<in> fst ` set m"
  by (auto simp: bt_contains_key_def map_of_eq_None_iff)

lemma hm_contains_iff: "hm_contains_key m k \<longleftrightarrow> k \<in> fst ` set m"
  by (auto simp: hm_contains_key_def map_of_eq_None_iff)

lemma hm_wf_Nil [simp]: "hm_wf []"
  by (simp add: hm_wf_def)

lemma hm_wf_insert [simp]: "hm_wf m \<Longrightarrow> hm_wf (hm_insert k v m)"
  and hm_wf_remove [simp]: "hm_wf m \<Longrightarrow> hm_wf (hm_remove k m)"
  by (simp_all add: hm.wf_ins hm.wf_rem)

lemma hm_keys_insert: "fst ` set (hm_insert k v m) = insert k (fst ` set m)"
  by (induction m) auto

lemma hm_set_insert: "hm_wf m \<Longrightarrow> set (hm_insert k v m) = insert (k, v) {e \<in> set m. fst e \<noteq> k}"
  unfolding hm_wf_def by (induction m) (auto simp: image_iff)

lemma hm_set_remove: "set (hm_remove k m) = {e \<in> set m. fst e \<noteq> k}"
  by (auto simp: AList.delete_eq)

lemma hm_length_insert:
  "length (hm_insert k v m) = (if hm_contains_key m k then length m else Suc (length m))"
  unfolding hm_contains_key_def by (induction m) auto

lemma hm_contains_remove: "hm_contains_key (hm_remove k m) j \<longleftrightarrow> j \<noteq> k \<and> hm_contains_key m j"
  by (auto simp: hm_contains_key_def delete_conv')

lemma hm_contains_insert: "hm_contains_key (hm_insert k v m) j \<longleftrightarrow> j = k \<or> hm_contains_key m j"
  by (auto simp: hm_contains_key_def update_conv')

lemma hm_get_remove: "hm_get (hm_remove k m) j = (if j = k then None else hm_get m j)"
  by (simp add: delete_conv')

lemma hm_get_insert: "hm_get (hm_insert k v m) j = (if j = k then Some v else hm_get m j)"
  by (simp add: update_conv')

text \<open>Collecting entries whose keys arrive in increasing order gives the entries themselves.\<close>

lemma bt_insert_snoc: "\<forall>x \<in> set m. fst x < k \<Longrightarrow> bt_insert k v m = m @ [(k, v)]"
  by (induction m) auto

lemma bt_collect_sorted:
  "bt_wf (m @ es) \<Longrightarrow> fold (\<lambda>(k, v). bt_insert k v) es m = m @ es"
proof (induction es arbitrary: m)
  case (Cons e es)
  obtain k v where e: "e = (k, v)" by (cases e)
  from Cons.prems have "\<forall>x \<in> set m. fst x < k"
    by (auto simp: e bt_wf_def sorted_wrt_append)
  with Cons.IH [of "m @ [e]"] Cons.prems show ?case
    by (simp add: e bt_insert_snoc)
qed simp

definition bt_collect :: "('k::linorder \<times> 'v) list \<Rightarrow> ('k, 'v) btree" where
  "bt_collect es = fold (\<lambda>(k, v). bt_insert k v) es []"

lemma bt_wf_collect: "bt_wf (bt_collect es)"
  unfolding bt_collect_def using bt.get_fold_ins [of "[]" es] by simp

lemma bt_collect_id: "bt_wf es \<Longrightarrow> bt_collect es = es"
  unfolding bt_collect_def using bt_collect_sorted [of "[]" es] by simp

section \<open>Panics and loops that do not return\<close>

text \<open>
  A call of the code either never returns (a loop that goes on for ever), or stops the
  task with a panic (\<open>unwrap\<close> on the wrong variant, \<open>panic!\<close>, an index out of range), or is
  done with a value; a \<open>Result\<close> of the source is a sum inside that value.
\<close>

datatype 'a exec = Loops | Panics string | Done 'a

definition exec_bind :: "'a exec \<Rightarrow> ('a \<Rightarrow> 'b exec) \<Rightarrow> 'b exec" where
  "exec_bind m f = (case m of Loops \<Rightarrow> Loops | Panics p \<Rightarrow> Panics p | Done x \<Rightarrow> f x)"

definition of_option :: "'a option \<Rightarrow> 'a exec" where
  "of_option o' = (case o' of None \<Rightarrow> Loops | Some x \<Rightarrow> Done x)"

definition unwrap :: "string \<Rightarrow> 'a option \<Rightarrow> 'a exec" where
  "unwrap msg o' = (case o' of None \<Rightarrow> Panics msg | Some x \<Rightarrow> Done x)"

definition res_bind :: "'e + 'a \<Rightarrow> ('a \<Rightarrow> 'e + 'b) \<Rightarrow> 'e + 'b" where
  "res_bind r f = (case r of Inl e \<Rightarrow> Inl e | Inr x \<Rightarrow> f x)"

lemma exec_bind_simps [simp, exec_simps]:
  "exec_bind Loops f = Loops" "exec_bind (Panics p) f = Panics p" "exec_bind (Done x) f = f x"
  by (simp_all add: exec_bind_def)

lemma of_option_simps [simp, exec_simps]:
  "of_option None = Loops" "of_option (Some x) = Done x"
  by (simp_all add: of_option_def)

lemma unwrap_simps [simp, exec_simps]:
  "unwrap msg None = Panics msg" "unwrap msg (Some x) = Done x"
  by (simp_all add: unwrap_def)

lemma res_bind_simps [simp, exec_simps]:
  "res_bind (Inl e) f = Inl e" "res_bind (Inr x) f = f x"
  by (simp_all add: res_bind_def)

lemma exec_bind_eq_Done [exec_simps]:
  "exec_bind m f = Done y \<longleftrightarrow> (\<exists>x. m = Done x \<and> f x = Done y)"
  by (cases m) auto

lemma res_bind_eq_Inr [exec_simps]:
  "res_bind r f = Inr y \<longleftrightarrow> (\<exists>x. r = Inr x \<and> f x = Inr y)"
  by (cases r) auto

lemma of_option_eq_Done [simp]: "of_option o' = Done x \<longleftrightarrow> o' = Some x"
  by (cases o') auto

lemma unwrap_eq_Done [simp]: "unwrap msg o' = Done x \<longleftrightarrow> o' = Some x"
  by (cases o') auto

text \<open>What holds of the value of a call, if it returns.\<close>

definition ends_in :: "('a \<Rightarrow> bool) \<Rightarrow> 'a exec \<Rightarrow> bool" where
  "ends_in P m \<longleftrightarrow> (\<forall>x. m = Done x \<longrightarrow> P x)"

lemma ends_in_simps [simp]:
  "ends_in P Loops" "ends_in P (Panics e)" "ends_in P (Done x) \<longleftrightarrow> P x"
  by (simp_all add: ends_in_def)

lemma ends_in_bind: "(\<And>x. m = Done x \<Longrightarrow> ends_in P (f x)) \<Longrightarrow> ends_in P (exec_bind m f)"
  by (cases m) auto

lemma ends_inD: "ends_in P m \<Longrightarrow> m = Done x \<Longrightarrow> P x"
  by (simp add: ends_in_def)

text \<open>A loop over a list whose body may panic, and one whose body may return early with an error.\<close>

fun exec_map :: "('a \<Rightarrow> 'b exec) \<Rightarrow> 'a list \<Rightarrow> 'b list exec" where
  "exec_map f [] = Done []"
| "exec_map f (x # xs) =
     exec_bind (f x) (\<lambda>y. exec_bind (exec_map f xs) (\<lambda>ys. Done (y # ys)))"

fun res_map :: "('a \<Rightarrow> 'e + 'b) \<Rightarrow> 'a list \<Rightarrow> 'e + 'b list" where
  "res_map f [] = Inr []"
| "res_map f (x # xs) = res_bind (f x) (\<lambda>y. res_bind (res_map f xs) (\<lambda>ys. Inr (y # ys)))"

lemma exec_map_Done: "(\<And>x. x \<in> set xs \<Longrightarrow> f x = Done (g x)) \<Longrightarrow> exec_map f xs = Done (map g xs)"
  by (induction xs) auto

lemma exec_map_cong [fundef_cong]:
  "xs = ys \<Longrightarrow> (\<And>x. x \<in> set ys \<Longrightarrow> f x = g x) \<Longrightarrow> exec_map f xs = exec_map g ys"
  by (induction ys arbitrary: xs) auto

lemma exec_map_map: "exec_map f (map g xs) = exec_map (\<lambda>x. f (g x)) xs"
  by (induction xs) auto

lemma exec_map_bind:
  "exec_bind (exec_map f xs) (\<lambda>ys. Done (map g ys)) =
     exec_map (\<lambda>x. exec_bind (f x) (\<lambda>y. Done (g y))) xs"
proof (induction xs)
  case (Cons x xs)
  show ?case
    unfolding exec_map.simps Cons.IH [symmetric]
    by (cases "f x"; cases "exec_map f xs") auto
qed simp

lemma exec_map_eq_Done:
  "exec_map f xs = Done ys \<longleftrightarrow> list_all2 (\<lambda>x y. f x = Done y) xs ys"
  by (induction xs arbitrary: ys) (auto simp: exec_bind_eq_Done list_all2_Cons1)

lemma exec_bind_eq_Loops [simp]:
  "exec_bind m f = Loops \<longleftrightarrow> m = Loops \<or> (\<exists>x. m = Done x \<and> f x = Loops)"
  by (cases m) auto

lemma exec_map_not_Loops: "(\<And>x. x \<in> set xs \<Longrightarrow> f x \<noteq> Loops) \<Longrightarrow> exec_map f xs \<noteq> Loops"
  by (induction xs) auto

lemma unwrap_not_Loops [simp]: "unwrap msg o' \<noteq> Loops"
  by (cases o') auto

lemma exec_map_Panics:
  assumes "x \<in> set xs" and "f x = Panics m" and "\<And>x. x \<in> set xs \<Longrightarrow> f x \<noteq> Loops"
  shows "\<exists>m. exec_map f xs = Panics m"
proof (cases "exec_map f xs")
  case (Done ys)
  with assms(1,2) show ?thesis
    by (auto simp: exec_map_eq_Done list_all2_conv_all_nth in_set_conv_nth)
qed (use assms(3) exec_map_not_Loops [of xs f] in auto)

lemma res_map_eq_Inr:
  "res_map f xs = Inr ys \<longleftrightarrow> list_all2 (\<lambda>x y. f x = Inr y) xs ys"
  by (induction xs arbitrary: ys) (auto simp: res_bind_eq_Inr list_all2_Cons1)

section \<open>Systems of steps\<close>

text \<open>
  A component that serves calls one after the other is a step function from an event and a
  state to a state; a run is the fold of the steps. The two locales lift a fact about one
  step to every run.
\<close>

locale invariant_system =
  fixes step :: "'e \<Rightarrow> 's \<Rightarrow> 's" and I :: "'s \<Rightarrow> bool"
  assumes step_inv: "I s \<Longrightarrow> I (step e s)"
begin

lemma run_inv: "I s \<Longrightarrow> I (fold step es s)"
  by (induction es arbitrary: s) (auto intro: step_inv)

end

locale monotone_system = invariant_system +
  fixes R :: "'s \<Rightarrow> 's \<Rightarrow> bool"
  assumes rel_refl: "R s s"
    and rel_trans: "R s t \<Longrightarrow> R t u \<Longrightarrow> R s u"
    and step_rel: "I s \<Longrightarrow> R s (step e s)"
begin

lemma run_rel: "I s \<Longrightarrow> R s (fold step es s)"
proof (induction es arbitrary: s)
  case (Cons e es)
  then have "R s (step e s)" and "R (step e s) (fold step es (step e s))"
    by (auto intro: step_inv step_rel)
  then show ?case by (auto intro: rel_trans)
qed (simp add: rel_refl)

lemma run_rel_between:
  "I s \<Longrightarrow> R (fold step es s) (fold step (es @ fs) s)"
  by (simp add: run_rel run_inv)

end

end
