(* ===== verification/Contract.thy ===== *)
theory Contract
  imports Prelude
begin

text \<open>
  The on-chain contract of the multichain network, \<^verbatim>\<open>contract/src/lib.rs\<close> with its data
  types of \<^verbatim>\<open>contract/src/primitives.rs\<close>: candidates and participants, the four protocol
  states, the voting methods that move between them and the table of pending signature
  requests. A method is a function from the caller's environment and the contract to a
  panic message or the new contract with the method's result; the runtime discards the
  changes of a call that panics (\<open>contract_exec\<close>).

  Account ids are strings, public keys their bytes (the curve tag first), and the
  counters \<open>epoch\<close> and \<open>old_epoch\<close> 64-bit words whose addition wraps, as in the release
  profile the contract is built with.
\<close>

named_theorems contract_simps \<open>unfolding of the contract's methods\<close>

section \<open>Data types of \<^verbatim>\<open>primitives.rs\<close>\<close>

record ParticipantInfo =
  pi_account_id :: AccountId
  pi_url :: string
  pi_cipher_pk :: bytes
  pi_sign_pk :: bytes

record CandidateInfo =
  ci_account_id :: AccountId
  ci_url :: string
  ci_cipher_pk :: bytes
  ci_sign_pk :: bytes

definition ParticipantInfo_from :: "CandidateInfo \<Rightarrow> ParticipantInfo" where
  "ParticipantInfo_from candidate_info =
     \<lparr>pi_account_id = ci_account_id candidate_info, pi_url = ci_url candidate_info,
      pi_cipher_pk = ci_cipher_pk candidate_info, pi_sign_pk = ci_sign_pk candidate_info\<rparr>"

type_synonym Participants = "(AccountId, ParticipantInfo) btree"
type_synonym Candidates = "(AccountId, CandidateInfo) btree"
type_synonym Votes = "(AccountId, AccountId set) btree"
type_synonym PkVotes = "(bytes, AccountId set) btree"

definition Participants_new :: Participants where
  "Participants_new = []"

definition Participants_contains_key :: "Participants \<Rightarrow> AccountId \<Rightarrow> bool" where
  "Participants_contains_key = bt_contains_key"

definition Participants_insert :: "AccountId \<Rightarrow> ParticipantInfo \<Rightarrow> Participants \<Rightarrow> Participants" where
  "Participants_insert = bt_insert"

definition Participants_remove :: "AccountId \<Rightarrow> Participants \<Rightarrow> Participants" where
  "Participants_remove = bt_remove"

definition Participants_get :: "Participants \<Rightarrow> AccountId \<Rightarrow> ParticipantInfo option" where
  "Participants_get = bt_get"

definition Participants_iter :: "Participants \<Rightarrow> (AccountId \<times> ParticipantInfo) list" where
  "Participants_iter participants = participants"

definition Participants_keys :: "Participants \<Rightarrow> AccountId list" where
  "Participants_keys = bt_keys"

definition Participants_len :: "Participants \<Rightarrow> nat" where
  "Participants_len = length"

definition Participants_is_empty :: "Participants \<Rightarrow> bool" where
  "Participants_is_empty participants \<longleftrightarrow> participants = []"

text \<open>The loop of \<open>From<Candidates> for Participants\<close>, entry by entry.\<close>

definition Participants_from :: "Candidates \<Rightarrow> Participants" where
  "Participants_from candidates =
     fold (\<lambda>(account_id, candidate_info).
             Participants_insert account_id (ParticipantInfo_from candidate_info))
       candidates Participants_new"

definition Candidates_new :: Candidates where
  "Candidates_new = []"

definition Candidates_contains_key :: "Candidates \<Rightarrow> AccountId \<Rightarrow> bool" where
  "Candidates_contains_key = bt_contains_key"

definition Candidates_insert :: "AccountId \<Rightarrow> CandidateInfo \<Rightarrow> Candidates \<Rightarrow> Candidates" where
  "Candidates_insert = bt_insert"

definition Candidates_remove :: "AccountId \<Rightarrow> Candidates \<Rightarrow> Candidates" where
  "Candidates_remove = bt_remove"

definition Candidates_get :: "Candidates \<Rightarrow> AccountId \<Rightarrow> CandidateInfo option" where
  "Candidates_get = bt_get"

definition Votes_new :: Votes where
  "Votes_new = []"

text \<open>
  \<open>entry\<close> hands out a mutable reference to the stored set, created empty when absent. The
  callers insert one voter through it, so the model reads the set and writes it back.
\<close>

definition Votes_entry :: "Votes \<Rightarrow> AccountId \<Rightarrow> AccountId set" where
  "Votes_entry votes account_id = or_default {} (bt_get votes account_id)"

definition PkVotes_new :: PkVotes where
  "PkVotes_new = []"

definition PkVotes_entry :: "PkVotes \<Rightarrow> bytes \<Rightarrow> AccountId set" where
  "PkVotes_entry votes public_key = or_default {} (bt_get votes public_key)"

section \<open>The protocol states\<close>

record InitializingContractState =
  ics_candidates :: Candidates
  ics_threshold :: nat
  ics_pk_votes :: PkVotes

record RunningContractState =
  rcs_epoch :: u64
  rcs_participants :: Participants
  rcs_threshold :: nat
  rcs_public_key :: bytes
  rcs_candidates :: Candidates
  rcs_join_votes :: Votes
  rcs_leave_votes :: Votes

record ResharingContractState =
  scs_old_epoch :: u64
  scs_old_participants :: Participants
  scs_new_participants :: Participants
  scs_threshold :: nat
  scs_public_key :: bytes
  scs_finished_votes :: "AccountId set"

datatype ProtocolContractState =
    NotInitialized
  | Initializing InitializingContractState
  | Running RunningContractState
  | Resharing ResharingContractState

record MpcContract =
  protocol_state :: ProtocolContractState
  pending_requests :: "bytes \<rightharpoonup> (string \<times> string) option"

text \<open>What a method reads of its environment (\<open>near_sdk::env\<close>).\<close>

record contract_env =
  signer_account_id :: AccountId
  predecessor_account_id :: AccountId
  current_account_id :: AccountId

datatype promise_or_value =
    PromiseSignHelper bytes nat
  | PValue "string \<times> string"

section \<open>The methods\<close>

text \<open>
  \<open>init\<close> is an \<open>#[init(ignore_state)]\<close> method: it ignores the previous protocol state.
  The \<open>LookupMap\<close> it creates is a view of the storage under the prefix \<open>m\<close>, so entries
  stored there before remain visible; the model keeps the table.
\<close>

definition contract_init :: "nat \<Rightarrow> Candidates \<Rightarrow> (bytes \<rightharpoonup> (string \<times> string) option) \<Rightarrow> MpcContract" where
  "contract_init threshold candidates stored =
     \<lparr>protocol_state = Initializing
        \<lparr>ics_candidates = candidates, ics_threshold = threshold, ics_pk_votes = PkVotes_new\<rparr>,
      pending_requests = stored\<rparr>"

definition contract_state :: "MpcContract \<Rightarrow> ProtocolContractState" where
  "contract_state self = protocol_state self"

definition contract_join ::
  "contract_env \<Rightarrow> string \<Rightarrow> bytes \<Rightarrow> bytes \<Rightarrow> MpcContract \<Rightarrow> string + MpcContract" where
  "contract_join env url cipher_pk sign_pk self =
     (case protocol_state self of
        Running r \<Rightarrow>
          (let signer = signer_account_id env in
           if Participants_contains_key (rcs_participants r) signer
           then Inl ''this participant is already in the participant set''
           else Inr (self\<lparr>protocol_state := Running (r\<lparr>rcs_candidates :=
                  Candidates_insert signer
                    \<lparr>ci_account_id = signer, ci_url = url, ci_cipher_pk = cipher_pk,
                     ci_sign_pk = sign_pk\<rparr> (rcs_candidates r)\<rparr>)\<rparr>))
      | _ \<Rightarrow> Inl ''protocol state can't accept new participants right now'')"

definition contract_vote_join ::
  "contract_env \<Rightarrow> AccountId \<Rightarrow> MpcContract \<Rightarrow> string + MpcContract \<times> bool" where
  "contract_vote_join env candidate_account_id self =
     (case protocol_state self of
        Running r \<Rightarrow>
          (let signer = signer_account_id env in
           if \<not> Participants_contains_key (rcs_participants r) signer
           then Inl ''calling account is not in the participant set''
           else (case Candidates_get (rcs_candidates r) candidate_account_id of
              None \<Rightarrow> Inl ''candidate is not registered''
            | Some candidate_info \<Rightarrow>
                (let voted = insert signer (Votes_entry (rcs_join_votes r) candidate_account_id) in
                 if rcs_threshold r \<le> card voted
                 then Inr (self\<lparr>protocol_state := Resharing
                        \<lparr>scs_old_epoch = rcs_epoch r,
                         scs_old_participants = rcs_participants r,
                         scs_new_participants =
                           Participants_insert candidate_account_id
                             (ParticipantInfo_from candidate_info) (rcs_participants r),
                         scs_threshold = rcs_threshold r,
                         scs_public_key = rcs_public_key r,
                         scs_finished_votes = {}\<rparr>\<rparr>, True)
                 else Inr (self\<lparr>protocol_state := Running (r\<lparr>rcs_join_votes :=
                        bt_insert candidate_account_id voted (rcs_join_votes r)\<rparr>)\<rparr>, False))))
      | _ \<Rightarrow> Inl ''protocol state can't accept new participants right now'')"

definition contract_vote_leave ::
  "contract_env \<Rightarrow> AccountId \<Rightarrow> MpcContract \<Rightarrow> string + MpcContract \<times> bool" where
  "contract_vote_leave env acc_id_to_leave self =
     (case protocol_state self of
        Running r \<Rightarrow>
          (let signer = signer_account_id env in
           if \<not> Participants_contains_key (rcs_participants r) signer
           then Inl ''calling account is not in the participant set''
           else if \<not> Participants_contains_key (rcs_participants r) acc_id_to_leave
           then Inl ''account to leave is not in the participant set''
           else
             (let voted = insert signer (Votes_entry (rcs_leave_votes r) acc_id_to_leave) in
              if rcs_threshold r \<le> card voted
              then Inr (self\<lparr>protocol_state := Resharing
                     \<lparr>scs_old_epoch = rcs_epoch r,
                      scs_old_participants = rcs_participants r,
                      scs_new_participants =
                        Participants_remove acc_id_to_leave (rcs_participants r),
                      scs_threshold = rcs_threshold r,
                      scs_public_key = rcs_public_key r,
                      scs_finished_votes = {}\<rparr>\<rparr>, True)
              else Inr (self\<lparr>protocol_state := Running (r\<lparr>rcs_leave_votes :=
                     bt_insert acc_id_to_leave voted (rcs_leave_votes r)\<rparr>)\<rparr>, False)))
      | _ \<Rightarrow> Inl ''protocol state can't kick participants right now'')"

definition contract_vote_pk ::
  "contract_env \<Rightarrow> bytes \<Rightarrow> MpcContract \<Rightarrow> string + MpcContract \<times> bool" where
  "contract_vote_pk env public_key self =
     (case protocol_state self of
        Initializing i \<Rightarrow>
          (let signer = signer_account_id env in
           if \<not> Candidates_contains_key (ics_candidates i) signer
           then Inl ''calling account is not in the participant set''
           else
             (let voted = insert signer (PkVotes_entry (ics_pk_votes i) public_key) in
              if ics_threshold i \<le> card voted
              then Inr (self\<lparr>protocol_state := Running
                     \<lparr>rcs_epoch = 0,
                      rcs_participants = Participants_from (ics_candidates i),
                      rcs_threshold = ics_threshold i,
                      rcs_public_key = public_key,
                      rcs_candidates = Candidates_new,
                      rcs_join_votes = Votes_new,
                      rcs_leave_votes = Votes_new\<rparr>\<rparr>, True)
              else Inr (self\<lparr>protocol_state := Initializing (i\<lparr>ics_pk_votes :=
                     bt_insert public_key voted (ics_pk_votes i)\<rparr>)\<rparr>, False)))
      | Running r \<Rightarrow>
          (if rcs_public_key r = public_key then Inr (self, True)
           else Inl ''can't change public key anymore'')
      | Resharing s \<Rightarrow>
          (if scs_public_key s = public_key then Inr (self, True)
           else Inl ''can't change public key anymore'')
      | NotInitialized \<Rightarrow> Inl ''can't change public key anymore'')"

definition contract_vote_reshared ::
  "contract_env \<Rightarrow> u64 \<Rightarrow> MpcContract \<Rightarrow> string + MpcContract \<times> bool" where
  "contract_vote_reshared env epoch self =
     (case protocol_state self of
        Resharing s \<Rightarrow>
          (if scs_old_epoch s + 1 \<noteq> epoch then Inl ''mismatched epochs''
           else
             (let signer = signer_account_id env in
              if \<not> Participants_contains_key (scs_old_participants s) signer
              then Inl ''calling account is not in the old participant set''
              else
                (let finished = insert signer (scs_finished_votes s) in
                 if scs_threshold s \<le> card finished
                 then Inr (self\<lparr>protocol_state := Running
                        \<lparr>rcs_epoch = scs_old_epoch s + 1,
                         rcs_participants = scs_new_participants s,
                         rcs_threshold = scs_threshold s,
                         rcs_public_key = scs_public_key s,
                         rcs_candidates = Candidates_new,
                         rcs_join_votes = Votes_new,
                         rcs_leave_votes = Votes_new\<rparr>\<rparr>, True)
                 else Inr (self\<lparr>protocol_state :=
                        Resharing (s\<lparr>scs_finished_votes := finished\<rparr>)\<rparr>, False))))
      | Running r \<Rightarrow>
          (if rcs_epoch r = epoch then Inr (self, True)
           else Inl ''protocol is not resharing right now'')
      | _ \<Rightarrow> Inl ''protocol is not resharing right now'')"

definition contract_sign ::
  "bytes \<Rightarrow> string \<Rightarrow> MpcContract \<Rightarrow> string + MpcContract \<times> promise_or_value" where
  "contract_sign payload path self =
     (case pending_requests self payload of
        None \<Rightarrow> Inr (self\<lparr>pending_requests := (pending_requests self)(payload \<mapsto> None)\<rparr>,
                     PromiseSignHelper payload 0)
      | Some _ \<Rightarrow> Inl ''Signature for this payload already requested'')"

text \<open>\<open>#[private]\<close>: only the contract itself may make the call.\<close>

definition contract_sign_helper ::
  "contract_env \<Rightarrow> bytes \<Rightarrow> nat \<Rightarrow> MpcContract \<Rightarrow> string + MpcContract \<times> promise_or_value" where
  "contract_sign_helper env payload depth self =
     (if current_account_id env \<noteq> predecessor_account_id env
      then Inl ''Method sign_helper is private''
      else (case pending_requests self payload of
         Some (Some signature) \<Rightarrow>
           Inr (self\<lparr>pending_requests := (pending_requests self)(payload := None)\<rparr>,
                PValue signature)
       | Some None \<Rightarrow> Inr (self, PromiseSignHelper payload (depth + 1))
       | None \<Rightarrow> Inl ''unexpected request''))"

definition contract_respond :: "bytes \<Rightarrow> string \<Rightarrow> string \<Rightarrow> MpcContract \<Rightarrow> MpcContract" where
  "contract_respond payload big_r s self =
     self\<lparr>pending_requests := (pending_requests self)(payload \<mapsto> Some (big_r, s))\<rparr>"

text \<open>
  \<open>clean\<close> removes raw storage keys. The entry of a payload is stored under the prefix
  byte \<open>m\<close> followed by the payload.
\<close>

definition contract_clean :: "contract_env \<Rightarrow> bytes list \<Rightarrow> MpcContract \<Rightarrow> string + MpcContract" where
  "contract_clean env keys self =
     (if current_account_id env \<noteq> predecessor_account_id env
      then Inl ''Method clean is private''
      else Inr \<lparr>protocol_state = NotInitialized,
                pending_requests =
                  (\<lambda>payload. if 0x6D # payload \<in> set keys then None
                             else pending_requests self payload)\<rparr>)"

definition contract_public_key :: "MpcContract \<Rightarrow> string + bytes" where
  "contract_public_key self =
     (case protocol_state self of
        Running r \<Rightarrow> Inr (rcs_public_key r)
      | Resharing s \<Rightarrow> Inr (scs_public_key s)
      | _ \<Rightarrow> Inl ''public key not available (protocol is not running or resharing)'')"

lemmas contract_method_defs [contract_simps] =
  contract_join_def contract_vote_join_def contract_vote_leave_def contract_vote_pk_def
  contract_vote_reshared_def contract_sign_def contract_sign_helper_def contract_respond_def
  Let_def

lemmas contract_data_defs [contract_simps] =
  Participants_new_def Participants_contains_key_def Participants_insert_def
  Participants_remove_def Candidates_new_def Candidates_contains_key_def Candidates_insert_def
  Candidates_get_def Votes_new_def PkVotes_new_def

section \<open>Runs of the contract\<close>

datatype contract_call =
    CJoin string bytes bytes
  | CVoteJoin AccountId
  | CVoteLeave AccountId
  | CVotePk bytes
  | CVoteReshared u64
  | CSign bytes string
  | CSignHelper bytes nat
  | CRespond bytes string string

text \<open>
  One transaction: the runtime keeps the changes of a method that returns and drops those
  of a method that panics. Re-initialisation (\<open>init\<close>, \<open>clean\<close>) is not among the calls: a
  run is the life of one initialised contract.
\<close>

fun contract_call_result :: "contract_env \<Rightarrow> contract_call \<Rightarrow> MpcContract \<Rightarrow> string + MpcContract" where
  "contract_call_result env (CJoin url cpk spk) c = contract_join env url cpk spk c"
| "contract_call_result env (CVoteJoin a) c = map_sum id fst (contract_vote_join env a c)"
| "contract_call_result env (CVoteLeave a) c = map_sum id fst (contract_vote_leave env a c)"
| "contract_call_result env (CVotePk pk) c = map_sum id fst (contract_vote_pk env pk c)"
| "contract_call_result env (CVoteReshared n) c = map_sum id fst (contract_vote_reshared env n c)"
| "contract_call_result env (CSign p path) c = map_sum id fst (contract_sign p path c)"
| "contract_call_result env (CSignHelper p d) c = map_sum id fst (contract_sign_helper env p d c)"
| "contract_call_result env (CRespond p r s) c = Inr (contract_respond p r s c)"

definition contract_exec :: "contract_env \<times> contract_call \<Rightarrow> MpcContract \<Rightarrow> MpcContract" where
  "contract_exec e c = (case contract_call_result (fst e) (snd e) c of Inl _ \<Rightarrow> c | Inr c' \<Rightarrow> c')"

end
