(* ===== verification/Contract_Laws.thy ===== *)
theory Contract_Laws
  imports Contract
begin

text \<open>
  The laws of the contract. An inductive relation \<open>phase_step\<close> states what one call may do
  to the protocol state, phase by phase; \<open>contract_exec_phase\<close> shows that every method of
  the contract refines it, and the invariants, the stability of the public key, the
  voting thresholds and the progress of a resharing are proved over the relation. The
  request table has laws of its own.
\<close>

section \<open>The phases as a step relation\<close>

definition next_running :: "u64 \<Rightarrow> Participants \<Rightarrow> nat \<Rightarrow> bytes \<Rightarrow> ProtocolContractState" where
  "next_running n ps t pk = Running
     \<lparr>rcs_epoch = n, rcs_participants = ps, rcs_threshold = t, rcs_public_key = pk,
      rcs_candidates = [], rcs_join_votes = [], rcs_leave_votes = []\<rparr>"

definition start_reshare :: "RunningContractState \<Rightarrow> Participants \<Rightarrow> ProtocolContractState" where
  "start_reshare r ps = Resharing
     \<lparr>scs_old_epoch = rcs_epoch r, scs_old_participants = rcs_participants r,
      scs_new_participants = ps, scs_threshold = rcs_threshold r,
      scs_public_key = rcs_public_key r, scs_finished_votes = {}\<rparr>"

inductive phase_step ::
  "AccountId \<Rightarrow> contract_call \<Rightarrow> ProtocolContractState \<Rightarrow> ProtocolContractState \<Rightarrow> bool" where
  stutter: "phase_step a c p p"
| pk_vote: "bt_contains_key (ics_candidates i) a \<Longrightarrow>
    v = insert a (PkVotes_entry (ics_pk_votes i) pk) \<Longrightarrow> card v < ics_threshold i \<Longrightarrow>
    phase_step a (CVotePk pk) (Initializing i)
      (Initializing (i\<lparr>ics_pk_votes := bt_insert pk v (ics_pk_votes i)\<rparr>))"
| pk_chosen: "bt_contains_key (ics_candidates i) a \<Longrightarrow>
    ics_threshold i \<le> card (insert a (PkVotes_entry (ics_pk_votes i) pk)) \<Longrightarrow>
    phase_step a (CVotePk pk) (Initializing i)
      (next_running 0 (Participants_from (ics_candidates i)) (ics_threshold i) pk)"
| candidacy: "\<not> bt_contains_key (rcs_participants r) a \<Longrightarrow> ci_account_id ci = a \<Longrightarrow>
    phase_step a (CJoin u cpk spk) (Running r)
      (Running (r\<lparr>rcs_candidates := bt_insert a ci (rcs_candidates r)\<rparr>))"
| join_vote: "bt_contains_key (rcs_participants r) a \<Longrightarrow> bt_get (rcs_candidates r) b = Some ci \<Longrightarrow>
    v = insert a (Votes_entry (rcs_join_votes r) b) \<Longrightarrow> card v < rcs_threshold r \<Longrightarrow>
    phase_step a (CVoteJoin b) (Running r)
      (Running (r\<lparr>rcs_join_votes := bt_insert b v (rcs_join_votes r)\<rparr>))"
| join_accepted: "bt_contains_key (rcs_participants r) a \<Longrightarrow> bt_get (rcs_candidates r) b = Some ci \<Longrightarrow>
    rcs_threshold r \<le> card (insert a (Votes_entry (rcs_join_votes r) b)) \<Longrightarrow>
    phase_step a (CVoteJoin b) (Running r)
      (start_reshare r (bt_insert b (ParticipantInfo_from ci) (rcs_participants r)))"
| leave_vote: "bt_contains_key (rcs_participants r) a \<Longrightarrow> bt_contains_key (rcs_participants r) b \<Longrightarrow>
    v = insert a (Votes_entry (rcs_leave_votes r) b) \<Longrightarrow> card v < rcs_threshold r \<Longrightarrow>
    phase_step a (CVoteLeave b) (Running r)
      (Running (r\<lparr>rcs_leave_votes := bt_insert b v (rcs_leave_votes r)\<rparr>))"
| leave_accepted: "bt_contains_key (rcs_participants r) a \<Longrightarrow> bt_contains_key (rcs_participants r) b \<Longrightarrow>
    rcs_threshold r \<le> card (insert a (Votes_entry (rcs_leave_votes r) b)) \<Longrightarrow>
    phase_step a (CVoteLeave b) (Running r) (start_reshare r (bt_remove b (rcs_participants r)))"
| reshared_vote: "bt_contains_key (scs_old_participants s) a \<Longrightarrow>
    v = insert a (scs_finished_votes s) \<Longrightarrow> card v < scs_threshold s \<Longrightarrow> n = scs_old_epoch s + 1 \<Longrightarrow>
    phase_step a (CVoteReshared n) (Resharing s) (Resharing (s\<lparr>scs_finished_votes := v\<rparr>))"
| reshared: "bt_contains_key (scs_old_participants s) a \<Longrightarrow>
    scs_threshold s \<le> card (insert a (scs_finished_votes s)) \<Longrightarrow> n = scs_old_epoch s + 1 \<Longrightarrow>
    phase_step a (CVoteReshared n) (Resharing s)
      (next_running n (scs_new_participants s) (scs_threshold s) (scs_public_key s))"

inductive_cases phase_step_cases: "phase_step a c p q"
inductive_cases phase_step_Initializing: "phase_step a c (Initializing i) q"
inductive_cases phase_step_Running: "phase_step a c (Running r) q"
inductive_cases phase_step_Resharing: "phase_step a c (Resharing s) q"

text \<open>Each voting method, when it returns, makes a step of its phase.\<close>

lemma vote_pk_phase:
  "contract_vote_pk env pk c = Inr (c', b) \<Longrightarrow>
   phase_step (signer_account_id env) (CVotePk pk) (protocol_state c) (protocol_state c')"
  by (auto simp: contract_simps not_le next_running_def [symmetric]
      split: ProtocolContractState.splits if_splits
      intro: phase_step.pk_vote phase_step.pk_chosen phase_step.stutter)

lemma join_phase:
  "contract_join env url cpk spk c = Inr c' \<Longrightarrow>
   phase_step (signer_account_id env) (CJoin url cpk spk) (protocol_state c) (protocol_state c')"
  by (auto simp: contract_simps
      split: ProtocolContractState.splits if_splits intro!: phase_step.candidacy)

lemma vote_join_phase:
  "contract_vote_join env x c = Inr (c', b) \<Longrightarrow>
   phase_step (signer_account_id env) (CVoteJoin x) (protocol_state c) (protocol_state c')"
  by (auto simp: contract_simps not_le start_reshare_def [symmetric]
      split: ProtocolContractState.splits if_splits option.splits
      intro: phase_step.join_vote phase_step.join_accepted)

lemma vote_leave_phase:
  "contract_vote_leave env x c = Inr (c', b) \<Longrightarrow>
   phase_step (signer_account_id env) (CVoteLeave x) (protocol_state c) (protocol_state c')"
  by (auto simp: contract_simps not_le start_reshare_def [symmetric]
      split: ProtocolContractState.splits if_splits
      intro: phase_step.leave_vote phase_step.leave_accepted)

lemma vote_reshared_phase:
  "contract_vote_reshared env n c = Inr (c', b) \<Longrightarrow>
   phase_step (signer_account_id env) (CVoteReshared n) (protocol_state c) (protocol_state c')"
  by (auto simp: contract_simps not_le next_running_def [symmetric]
      split: ProtocolContractState.splits if_splits
      intro: phase_step.reshared_vote phase_step.reshared phase_step.stutter)

lemmas voting_phases = vote_pk_phase join_phase vote_join_phase vote_leave_phase vote_reshared_phase

lemma request_methods_keep_phase:
  "contract_sign p path c = Inr (c', v) \<Longrightarrow> protocol_state c' = protocol_state c"
  "contract_sign_helper env p d c = Inr (c', v) \<Longrightarrow> protocol_state c' = protocol_state c"
  "protocol_state (contract_respond p r s c) = protocol_state c"
  by (auto simp: contract_simps split: option.splits if_splits)

text \<open>The refinement: every transaction is a step of the relation.\<close>

lemma contract_call_phase:
  "contract_call_result env call c = Inr c' \<Longrightarrow>
   phase_step (signer_account_id env) call (protocol_state c) (protocol_state c')"
proof (cases call)
  case (CVotePk pk)
  moreover assume "contract_call_result env call c = Inr c'"
  ultimately show ?thesis by (cases "contract_vote_pk env pk c") (auto dest: voting_phases)
next
  case (CVoteJoin x)
  moreover assume "contract_call_result env call c = Inr c'"
  ultimately show ?thesis by (cases "contract_vote_join env x c") (auto dest: voting_phases)
next
  case (CVoteLeave x)
  moreover assume "contract_call_result env call c = Inr c'"
  ultimately show ?thesis by (cases "contract_vote_leave env x c") (auto dest: voting_phases)
next
  case (CVoteReshared n)
  moreover assume "contract_call_result env call c = Inr c'"
  ultimately show ?thesis by (cases "contract_vote_reshared env n c") (auto dest: voting_phases)
next
  case (CSign p path)
  moreover assume "contract_call_result env call c = Inr c'"
  ultimately show ?thesis
    by (cases "contract_sign p path c") (auto simp: request_methods_keep_phase phase_step.stutter)
next
  case (CSignHelper p d)
  moreover assume "contract_call_result env call c = Inr c'"
  ultimately show ?thesis
    by (cases "contract_sign_helper env p d c")
      (auto simp: request_methods_keep_phase phase_step.stutter)
qed (auto simp: request_methods_keep_phase phase_step.stutter dest: voting_phases)

lemma contract_exec_phase:
  "phase_step (signer_account_id (fst e)) (snd e)
     (protocol_state c) (protocol_state (contract_exec e c))"
  by (auto simp: contract_exec_def phase_step.stutter contract_call_phase split: sum.splits)


section \<open>The invariant\<close>

text \<open>
  Votes come from the electors only and never reach the threshold while they are pending;
  participants and candidates are disjoint and filed under their own account ids; a
  resharing adds or removes exactly one participant.
\<close>

definition votes_ok :: "'a set \<Rightarrow> nat \<Rightarrow> ('k::linorder, 'a set) btree \<Rightarrow> bool" where
  "votes_ok electors t votes \<longleftrightarrow> bt_wf votes \<and>
     (\<forall>k v. (k, v) \<in> set votes \<longrightarrow> v \<subseteq> electors \<and> finite v \<and> card v < t)"

definition participants_ok :: "Participants \<Rightarrow> bool" where
  "participants_ok ps \<longleftrightarrow> bt_wf ps \<and> (\<forall>(k, i) \<in> set ps. pi_account_id i = k)"

definition candidates_ok :: "Candidates \<Rightarrow> bool" where
  "candidates_ok cs \<longleftrightarrow> bt_wf cs \<and> (\<forall>(k, i) \<in> set cs. ci_account_id i = k)"

definition one_apart :: "'a set \<Rightarrow> 'a set \<Rightarrow> bool" where
  "one_apart A B \<longleftrightarrow> (\<exists>b. b \<notin> A \<and> B = insert b A) \<or> (\<exists>b \<in> A. B = A - {b})"

fun phase_inv :: "ProtocolContractState \<Rightarrow> bool" where
  "phase_inv NotInitialized = True"
| "phase_inv (Initializing i) =
     (candidates_ok (ics_candidates i) \<and>
      votes_ok (fst ` set (ics_candidates i)) (ics_threshold i) (ics_pk_votes i))"
| "phase_inv (Running r) =
     (participants_ok (rcs_participants r) \<and> candidates_ok (rcs_candidates r) \<and>
      fst ` set (rcs_candidates r) \<inter> fst ` set (rcs_participants r) = {} \<and>
      votes_ok (fst ` set (rcs_participants r)) (rcs_threshold r) (rcs_join_votes r) \<and>
      votes_ok (fst ` set (rcs_participants r)) (rcs_threshold r) (rcs_leave_votes r) \<and>
      fst ` set (rcs_join_votes r) \<subseteq> fst ` set (rcs_candidates r) \<and>
      fst ` set (rcs_leave_votes r) \<subseteq> fst ` set (rcs_participants r))"
| "phase_inv (Resharing s) =
     (participants_ok (scs_old_participants s) \<and> participants_ok (scs_new_participants s) \<and>
      one_apart (fst ` set (scs_old_participants s)) (fst ` set (scs_new_participants s)) \<and>
      scs_finished_votes s \<subseteq> fst ` set (scs_old_participants s) \<and>
      (scs_finished_votes s = {} \<or> card (scs_finished_votes s) < scs_threshold s))"

lemma keys_bt_insert: "bt_wf m \<Longrightarrow> fst ` set (bt_insert k v m) = insert k (fst ` set m)"
  using bt.dom_ins [of m k v] by (simp add: dom_map_of_conv_image_fst)

lemma keys_bt_remove: "bt_wf m \<Longrightarrow> fst ` set (bt_remove k m) = fst ` set m - {k}"
  using bt.dom_rem [of m k] by (simp add: dom_map_of_conv_image_fst)

lemma votes_ok_Nil [simp]: "votes_ok E t []"
  by (simp add: votes_ok_def)

lemma votes_ok_entry:
  "votes_ok E t votes \<Longrightarrow> or_default {} (bt_get votes k) \<subseteq> E \<and>
     finite (or_default {} (bt_get votes k)) \<and>
     (or_default {} (bt_get votes k) = {} \<or> card (or_default {} (bt_get votes k)) < t)"
  by (cases "bt_get votes k") (auto simp: votes_ok_def dest!: map_of_SomeD)

lemma votes_ok_insert:
  assumes "votes_ok E t votes" and "a \<in> E"
    and "card (insert a (or_default {} (bt_get votes k))) < t"
  shows "votes_ok E t (bt_insert k (insert a (or_default {} (bt_get votes k))) votes)"
proof -
  let ?v = "insert a (or_default {} (bt_get votes k))"
  have "?v \<subseteq> E \<and> finite ?v \<and> card ?v < t"
    using votes_ok_entry [OF assms(1), of k] assms(2,3) by simp
  moreover have "(j, w) \<in> set votes" if "(j, w) \<in> set (bt_insert k ?v votes)" "(j, w) \<noteq> (k, ?v)" for j w
    using that set_bt_insert [of k ?v votes] by blast
  ultimately show ?thesis
    using assms(1) unfolding votes_ok_def by (metis Pair_inject bt_wf_insert)
qed

lemma participants_ok_Nil [simp]: "participants_ok []"
  and candidates_ok_Nil [simp]: "candidates_ok []"
  by (simp_all add: participants_ok_def candidates_ok_def)

lemma participants_ok_insert:
  "participants_ok ps \<Longrightarrow> pi_account_id i = k \<Longrightarrow> participants_ok (bt_insert k i ps)"
  using set_bt_insert [of k i ps] unfolding participants_ok_def
  by (fastforce intro: bt_wf_insert)

lemma candidates_ok_insert:
  "candidates_ok cs \<Longrightarrow> ci_account_id i = k \<Longrightarrow> candidates_ok (bt_insert k i cs)"
  using set_bt_insert [of k i cs] unfolding candidates_ok_def
  by (fastforce intro: bt_wf_insert)

lemma participants_ok_remove: "participants_ok ps \<Longrightarrow> participants_ok (bt_remove k ps)"
  using set_bt_remove [of k ps] unfolding participants_ok_def
  by (auto intro: bt_wf_remove)

lemma candidates_ok_get:
  "candidates_ok cs \<Longrightarrow> bt_get cs k = Some ci \<Longrightarrow> ci_account_id ci = k \<and> k \<in> fst ` set cs"
  by (force simp: candidates_ok_def dest: map_of_SomeD)

text \<open>The participants made from the candidates are the candidates' entries, converted.\<close>

lemma Participants_from_map:
  assumes "bt_wf cs"
  shows "Participants_from cs = map (\<lambda>(k, ci). (k, ParticipantInfo_from ci)) cs"
proof -
  have "bt_wf (map (\<lambda>(k, ci). (k, ParticipantInfo_from ci)) cs)"
    using assms by (simp add: bt_wf_def comp_def case_prod_beta)
  then have "fold (\<lambda>(k, v). bt_insert k v) (map (\<lambda>(k, ci). (k, ParticipantInfo_from ci)) cs) []
      = map (\<lambda>(k, ci). (k, ParticipantInfo_from ci)) cs"
    using bt_collect_sorted [of "[]"] by simp
  then show ?thesis
    by (simp add: Participants_from_def Participants_insert_def Participants_new_def fold_map
        comp_def split_def)
qed

lemma Participants_from_ok:
  assumes "candidates_ok cs"
  shows "participants_ok (Participants_from cs)"
    and "fst ` set (Participants_from cs) = fst ` set cs"
proof -
  from assms have wf: "bt_wf cs" by (simp add: candidates_ok_def)
  with assms show "participants_ok (Participants_from cs)"
    by (auto simp: participants_ok_def candidates_ok_def Participants_from_map
        ParticipantInfo_from_def bt_wf_def comp_def case_prod_beta)
  from wf show "fst ` set (Participants_from cs) = fst ` set cs"
    by (force simp: Participants_from_map)
qed

lemma next_running_inv [simp]:
  "phase_inv (next_running n ps t pk) \<longleftrightarrow> participants_ok ps"
  by (simp add: next_running_def)

lemma start_reshare_inv [simp]:
  "phase_inv (start_reshare r ps) \<longleftrightarrow>
     participants_ok (rcs_participants r) \<and> participants_ok ps \<and>
     one_apart (fst ` set (rcs_participants r)) (fst ` set ps)"
  by (simp add: start_reshare_def)

lemma one_apart_insert: "b \<notin> A \<Longrightarrow> one_apart A (insert b A)"
  and one_apart_remove: "b \<in> A \<Longrightarrow> one_apart A (A - {b})"
  by (auto simp: one_apart_def)

lemma phase_step_inv:
  assumes "phase_step a c p q" and "phase_inv p"
  shows "phase_inv q"
  using assms
proof (induction rule: phase_step.induct)
  case (pk_vote i a v pk)
  then show ?case
    by (auto simp: PkVotes_entry_def bt_contains_iff intro!: votes_ok_insert)
next
  case (candidacy r a ci u cpk spk)
  then have "bt_wf (rcs_candidates r)" by (simp add: candidates_ok_def)
  with candidacy show ?case
    by (auto simp: candidates_ok_insert keys_bt_insert bt_contains_iff)
next
  case (join_vote r a b ci v)
  then have "bt_wf (rcs_join_votes r)" by (simp add: votes_ok_def)
  with join_vote show ?case
    by (auto simp: Votes_entry_def bt_contains_iff keys_bt_insert
        dest: candidates_ok_get intro!: votes_ok_insert)
next
  case (join_accepted r a b ci)
  then have "bt_wf (rcs_participants r)" by (simp add: participants_ok_def)
  with join_accepted candidates_ok_get [of "rcs_candidates r" b ci] show ?case
    by (auto simp: keys_bt_insert ParticipantInfo_from_def intro!: participants_ok_insert
        one_apart_insert)
next
  case (leave_vote r a b v)
  then have "bt_wf (rcs_leave_votes r)" by (simp add: votes_ok_def)
  with leave_vote show ?case
    by (auto simp: Votes_entry_def bt_contains_iff keys_bt_insert intro!: votes_ok_insert)
next
  case (leave_accepted r a b)
  then have "bt_wf (rcs_participants r)" by (simp add: participants_ok_def)
  with leave_accepted show ?case
    by (auto simp: keys_bt_remove bt_contains_iff participants_ok_remove intro!: one_apart_remove)
qed (auto simp: Participants_from_ok bt_contains_iff)

interpretation contract_inv: invariant_system contract_exec "\<lambda>c. phase_inv (protocol_state c)"
  by unfold_locales (blast intro: phase_step_inv contract_exec_phase)

lemma phase_inv_init: "candidates_ok cs \<Longrightarrow> phase_inv (protocol_state (contract_init t cs st))"
  by (simp add: contract_init_def PkVotes_new_def)


section \<open>Key, threshold and epoch\<close>

fun threshold_of :: "ProtocolContractState \<Rightarrow> nat option" where
  "threshold_of NotInitialized = None"
| "threshold_of (Initializing i) = Some (ics_threshold i)"
| "threshold_of (Running r) = Some (rcs_threshold r)"
| "threshold_of (Resharing s) = Some (scs_threshold s)"

fun key_of :: "ProtocolContractState \<Rightarrow> bytes option" where
  "key_of (Running r) = Some (rcs_public_key r)"
| "key_of (Resharing s) = Some (scs_public_key s)"
| "key_of _ = None"

definition keeps_key :: "MpcContract \<Rightarrow> MpcContract \<Rightarrow> bool" where
  "keeps_key c c' \<longleftrightarrow>
     threshold_of (protocol_state c') = threshold_of (protocol_state c) \<and>
     (key_of (protocol_state c) \<noteq> None \<longrightarrow>
        key_of (protocol_state c') = key_of (protocol_state c))"

lemma phase_step_key:
  "phase_step a c p q \<Longrightarrow> threshold_of q = threshold_of p \<and> (key_of p \<noteq> None \<longrightarrow> key_of q = key_of p)"
  by (induction rule: phase_step.induct) (auto simp: next_running_def start_reshare_def)

interpretation contract_key: monotone_system contract_exec "\<lambda>c. True" keeps_key
proof unfold_locales
  show "keeps_key c (contract_exec e c)" for c e
    using phase_step_key [OF contract_exec_phase] by (simp add: keeps_key_def)
qed (auto simp: keeps_key_def)

text \<open>
  The place of a state in the life of the contract: initialisation, then for every epoch a
  running phase and a resharing phase. One step moves at most one place up.
\<close>

fun phase_rank :: "ProtocolContractState \<Rightarrow> nat" where
  "phase_rank NotInitialized = 0"
| "phase_rank (Initializing i) = 0"
| "phase_rank (Running r) = 2 * unat (rcs_epoch r) + 1"
| "phase_rank (Resharing s) = 2 * unat (scs_old_epoch s) + 2"

lemma unat_Suc_no_wrap: "unat (x :: u64) + 1 < 2 ^ 64 \<Longrightarrow> unat (x + 1) = unat x + 1"
  by (simp add: unat_plus_if_size word_size)

lemma phase_step_rank:
  "phase_step a c p q \<Longrightarrow> phase_rank p < 2 ^ 65 \<Longrightarrow>
   phase_rank p \<le> phase_rank q \<and> phase_rank q \<le> phase_rank p + 1"
proof (induction rule: phase_step.induct)
  case (reshared s a n)
  then have "unat (scs_old_epoch s) + 1 < 2 ^ 64" by simp
  with reshared show ?case by (simp add: next_running_def unat_Suc_no_wrap)
qed (auto simp: next_running_def start_reshare_def)

lemma contract_run_rank:
  "phase_rank (protocol_state c) + length es < 2 ^ 65 \<Longrightarrow>
   phase_rank (protocol_state c) \<le> phase_rank (protocol_state (fold contract_exec es c)) \<and>
   phase_rank (protocol_state (fold contract_exec es c)) \<le> phase_rank (protocol_state c) + length es"
proof (induction es arbitrary: c)
  case (Cons e es)
  have "phase_rank (protocol_state c) < 2 ^ 65" using Cons.prems by simp
  from phase_step_rank [OF contract_exec_phase this, of e]
  have "phase_rank (protocol_state c) \<le> phase_rank (protocol_state (contract_exec e c))"
    "phase_rank (protocol_state (contract_exec e c)) \<le> phase_rank (protocol_state c) + 1"
    by auto
  moreover from this Cons.prems Cons.IH [of "contract_exec e c"]
  have "phase_rank (protocol_state (contract_exec e c))
          \<le> phase_rank (protocol_state (fold contract_exec es (contract_exec e c))) \<and>
        phase_rank (protocol_state (fold contract_exec es (contract_exec e c)))
          \<le> phase_rank (protocol_state (contract_exec e c)) + length es"
    by simp
  ultimately show ?case by simp
qed simp


section \<open>Who called what\<close>

text \<open>The accounts that signed a given call in a run.\<close>

definition callers :: "(contract_env \<times> contract_call) list \<Rightarrow> contract_call \<Rightarrow> AccountId set" where
  "callers es c = (\<lambda>e. signer_account_id (fst e)) ` {e \<in> set es. snd e = c}"

lemma callers_Nil [simp]: "callers [] c = {}"
  by (simp add: callers_def)

lemma callers_snoc [simp]:
  "callers (es @ [e]) c =
     (if snd e = c then insert (signer_account_id (fst e)) (callers es c) else callers es c)"
  by (auto simp: callers_def)

lemma callers_Cons [simp]:
  "callers (e # es) c =
     (if snd e = c then insert (signer_account_id (fst e)) (callers es c) else callers es c)"
  by (auto simp: callers_def)

lemma finite_callers [simp]: "finite (callers es c)"
  by (simp add: callers_def)

lemma callers_append: "callers es c \<subseteq> callers (es @ fs) c"
  by (auto simp: callers_def)

subsection \<open>Resharing\<close>

definition reshare_votes :: "(contract_env \<times> contract_call) list \<Rightarrow> ResharingContractState \<Rightarrow> AccountId set" where
  "reshare_votes es s = callers es (CVoteReshared (scs_old_epoch s + 1)) \<inter> fst ` set (scs_old_participants s)"

definition reshare_result :: "ResharingContractState \<Rightarrow> ProtocolContractState" where
  "reshare_result s =
     next_running (scs_old_epoch s + 1) (scs_new_participants s) (scs_threshold s) (scs_public_key s)"

lemma exec_in_Resharing:
  assumes "protocol_state c = Resharing s"
  shows "protocol_state (contract_exec e c) =
    (let a = signer_account_id (fst e); f = insert a (scs_finished_votes s) in
     if snd e = CVoteReshared (scs_old_epoch s + 1) \<and> a \<in> fst ` set (scs_old_participants s)
     then if scs_threshold s \<le> card f then reshare_result s
          else Resharing (s\<lparr>scs_finished_votes := f\<rparr>)
     else Resharing s)"
  using assms
  by (cases "snd e")
    (auto simp: contract_exec_def contract_simps Let_def bt_contains_iff reshare_result_def
      next_running_def split: option.splits)

lemma reshare_votes_simps [simp]:
  "reshare_votes [] s = {}" "finite (reshare_votes es s)"
  "reshare_votes (es @ [e]) s =
     (if snd e = CVoteReshared (scs_old_epoch s + 1) \<and>
         signer_account_id (fst e) \<in> fst ` set (scs_old_participants s)
      then insert (signer_account_id (fst e)) (reshare_votes es s) else reshare_votes es s)"
  by (auto simp: reshare_votes_def)

lemma card_insert_less: "finite A \<Longrightarrow> card (insert a A) < n \<Longrightarrow> card A < n"
  by (metis card_insert_le le_less_trans)

lemma resharing_pending:
  assumes "protocol_state c = Resharing s" and "scs_finished_votes s = {}"
    and "card (reshare_votes es s) < scs_threshold s"
  shows "protocol_state (fold contract_exec es c) =
           Resharing (s\<lparr>scs_finished_votes := reshare_votes es s\<rparr>)"
  using assms(3)
proof (induction es rule: rev_induct)
  case (snoc e es)
  then have "card (reshare_votes es s) < scs_threshold s"
    by (auto split: if_splits intro: card_insert_less)
  from snoc.IH [OF this] snoc.prems show ?case
    by (auto simp: exec_in_Resharing Let_def split: if_splits)
qed (use assms in simp)

lemma resharing_completed:
  assumes "protocol_state c = Resharing s" and "scs_finished_votes s = {}"
    and "0 < scs_threshold s" and "scs_threshold s \<le> card (reshare_votes es s)"
  shows "\<exists>es1 es2. es = es1 @ es2 \<and> protocol_state (fold contract_exec es1 c) = reshare_result s"
  using assms(4)
proof (induction es rule: rev_induct)
  case (snoc e es)
  show ?case
  proof (cases "scs_threshold s \<le> card (reshare_votes es s)")
    case True
    with snoc.IH show ?thesis by (metis append_assoc)
  next
    case False
    with snoc.prems resharing_pending [OF assms(1,2), of es]
    have "protocol_state (fold contract_exec (es @ [e]) c) = reshare_result s"
      by (auto simp: exec_in_Resharing Let_def reshare_result_def split: if_splits)
    then show ?thesis by (intro exI [of _ "es @ [e]"] exI [of _ "[]"]) simp
  qed
qed (use assms(3) in simp)

subsection \<open>Key generation\<close>

definition pk_votes_for :: "(contract_env \<times> contract_call) list \<Rightarrow> Candidates \<Rightarrow> bytes \<Rightarrow> AccountId set" where
  "pk_votes_for es cs pk = callers es (CVotePk pk) \<inter> fst ` set cs"

lemma exec_in_Initializing:
  assumes "protocol_state c = Initializing i"
  shows "protocol_state (contract_exec e c) =
    (case snd e of
       CVotePk pk \<Rightarrow>
         (let a = signer_account_id (fst e); v = insert a (PkVotes_entry (ics_pk_votes i) pk) in
          if a \<in> fst ` set (ics_candidates i)
          then if ics_threshold i \<le> card v
               then next_running 0 (Participants_from (ics_candidates i)) (ics_threshold i) pk
               else Initializing (i\<lparr>ics_pk_votes := bt_insert pk v (ics_pk_votes i)\<rparr>)
          else Initializing i)
     | _ \<Rightarrow> Initializing i)"
  using assms
  by (cases "snd e")
    (auto simp: contract_exec_def contract_simps Let_def bt_contains_iff next_running_def
      split: option.splits)

lemma pk_votes_for_simps [simp]:
  "pk_votes_for [] cs pk = {}" "finite (pk_votes_for es cs pk)"
  "pk_votes_for (es @ [e]) cs pk =
     (if snd e = CVotePk pk \<and> signer_account_id (fst e) \<in> fst ` set cs
      then insert (signer_account_id (fst e)) (pk_votes_for es cs pk) else pk_votes_for es cs pk)"
  by (auto simp: pk_votes_for_def)

lemma keygen_pending:
  assumes "\<forall>pk. card (pk_votes_for es cs pk) < t"
  shows "\<exists>votes. protocol_state (fold contract_exec es (contract_init t cs st)) =
             Initializing \<lparr>ics_candidates = cs, ics_threshold = t, ics_pk_votes = votes\<rparr> \<and>
           (\<forall>pk. PkVotes_entry votes pk = pk_votes_for es cs pk)"
  using assms
proof (induction es rule: rev_induct)
  case Nil
  then show ?case by (simp add: contract_init_def PkVotes_new_def PkVotes_entry_def)
next
  case (snoc e es)
  have "\<forall>pk. card (pk_votes_for es cs pk) < t"
  proof
    fix pk
    from snoc.prems have "card (pk_votes_for (es @ [e]) cs pk) < t" by blast
    then show "card (pk_votes_for es cs pk) < t"
      by (auto split: if_splits intro: card_insert_less)
  qed
  from snoc.IH [OF this] obtain votes where
    st: "protocol_state (fold contract_exec es (contract_init t cs st)) =
           Initializing \<lparr>ics_candidates = cs, ics_threshold = t, ics_pk_votes = votes\<rparr>"
    and v: "\<forall>pk. PkVotes_entry votes pk = pk_votes_for es cs pk" by blast
  show ?case
  proof (cases "\<exists>pk. snd e = CVotePk pk \<and> signer_account_id (fst e) \<in> fst ` set cs")
    case True
    then obtain pk where pk: "snd e = CVotePk pk" "signer_account_id (fst e) \<in> fst ` set cs" by blast
    with snoc.prems have "card (insert (signer_account_id (fst e)) (pk_votes_for es cs pk)) < t"
      by (metis pk_votes_for_simps(3))
    with pk st v show ?thesis
      by (auto simp: exec_in_Initializing Let_def PkVotes_entry_def bt_get_insert)
  next
    case False
    then have "\<forall>pk. pk_votes_for (es @ [e]) cs pk = pk_votes_for es cs pk" by auto
    with False st v show ?thesis
      by (auto simp: exec_in_Initializing Let_def split: contract_call.splits)
  qed
qed

lemma keygen_completed:
  assumes "0 < t" and "\<exists>pk. t \<le> card (pk_votes_for es cs pk)"
  shows "\<exists>es1 es2 pk. es = es1 @ es2 \<and> t \<le> card (pk_votes_for es1 cs pk) \<and>
    protocol_state (fold contract_exec es1 (contract_init t cs st)) =
      next_running 0 (Participants_from cs) t pk"
  using assms(2)
proof (induction es rule: rev_induct)
  case (snoc e es)
  show ?case
  proof (cases "\<exists>pk. t \<le> card (pk_votes_for es cs pk)")
    case True
    with snoc.IH show ?thesis by (metis append_assoc)
  next
    case False
    then have "\<forall>pk. card (pk_votes_for es cs pk) < t" by (meson not_le)
    from keygen_pending [OF this, of st] obtain votes where
      st: "protocol_state (fold contract_exec es (contract_init t cs st)) =
             Initializing \<lparr>ics_candidates = cs, ics_threshold = t, ics_pk_votes = votes\<rparr>"
      and v: "\<forall>pk. PkVotes_entry votes pk = pk_votes_for es cs pk" by blast
    from snoc.prems obtain pk where pk: "t \<le> card (pk_votes_for (es @ [e]) cs pk)" by blast
    with False have "snd e = CVotePk pk" "signer_account_id (fst e) \<in> fst ` set cs"
      by (auto split: if_splits)
    with st v pk have "protocol_state (fold contract_exec (es @ [e]) (contract_init t cs st)) =
        next_running 0 (Participants_from cs) t pk"
      by (simp add: exec_in_Initializing Let_def)
    with pk show ?thesis by (intro exI [of _ "es @ [e]"] exI [of _ "[]"] exI [of _ pk]) simp
  qed
qed (use assms(1) in simp)

subsection \<open>Membership changes\<close>

definition membership_votes ::
  "(contract_env \<times> contract_call) list \<Rightarrow> Participants \<Rightarrow> contract_call \<Rightarrow> AccountId set" where
  "membership_votes es ps c = callers es c \<inter> fst ` set ps"

definition votes_backed ::
  "(contract_env \<times> contract_call) list \<Rightarrow> RunningContractState \<Rightarrow> bool" where
  "votes_backed es r \<longleftrightarrow>
     (\<forall>b. Votes_entry (rcs_join_votes r) b \<subseteq> membership_votes es (rcs_participants r) (CVoteJoin b) \<and>
          Votes_entry (rcs_leave_votes r) b \<subseteq> membership_votes es (rcs_participants r) (CVoteLeave b))"

lemma membership_votes_snoc [simp]:
  "membership_votes (es @ [e]) ps c =
     (if snd e = c \<and> signer_account_id (fst e) \<in> fst ` set ps
      then insert (signer_account_id (fst e)) (membership_votes es ps c)
      else membership_votes es ps c)"
  by (auto simp: membership_votes_def)

lemma finite_membership_votes [simp]: "finite (membership_votes es ps c)"
  by (simp add: membership_votes_def)

definition majority_for_change ::
  "(contract_env \<times> contract_call) list \<Rightarrow> Participants \<Rightarrow> nat \<Rightarrow> bool" where
  "majority_for_change es ps t \<longleftrightarrow>
     (\<exists>b. t \<le> card (membership_votes es ps (CVoteJoin b)) \<or>
          t \<le> card (membership_votes es ps (CVoteLeave b)))"

lemma majority_for_change_snoc: "majority_for_change es ps t \<Longrightarrow> majority_for_change (es @ [e]) ps t"
proof -
  have "card (membership_votes es ps c) \<le> card (membership_votes (es @ [e]) ps c)" for c
    by (rule card_mono) auto
  then show "majority_for_change es ps t \<Longrightarrow> ?thesis"
    unfolding majority_for_change_def by (meson le_trans)
qed

lemma votes_backed_step:
  assumes "phase_step (signer_account_id (fst e)) (snd e) (Running r) q" and "votes_backed es r"
  shows "(\<exists>r'. q = Running r' \<and> rcs_epoch r' = rcs_epoch r \<and> rcs_participants r' = rcs_participants r \<and>
              rcs_threshold r' = rcs_threshold r \<and> votes_backed (es @ [e]) r') \<or>
         majority_for_change (es @ [e]) (rcs_participants r) (rcs_threshold r)"
  using assms(1)
proof (cases rule: phase_step.cases)
  case (join_accepted b ci)
  then have "insert (signer_account_id (fst e)) (Votes_entry (rcs_join_votes r) b) \<subseteq>
      membership_votes (es @ [e]) (rcs_participants r) (CVoteJoin b)"
    using assms(2) by (auto simp: votes_backed_def bt_contains_iff)
  from card_mono [OF finite_membership_votes this] join_accepted show ?thesis
    unfolding majority_for_change_def by (meson le_trans)
next
  case (leave_accepted b)
  then have "insert (signer_account_id (fst e)) (Votes_entry (rcs_leave_votes r) b) \<subseteq>
      membership_votes (es @ [e]) (rcs_participants r) (CVoteLeave b)"
    using assms(2) by (auto simp: votes_backed_def bt_contains_iff)
  from card_mono [OF finite_membership_votes this] leave_accepted show ?thesis
    unfolding majority_for_change_def by (meson le_trans)
qed (use assms(2) in \<open>auto simp: votes_backed_def Votes_entry_def bt_get_insert bt_contains_iff subset_iff\<close>)

lemma running_history:
  assumes "protocol_state c = next_running n ps t pk"
  shows "(\<exists>r. protocol_state (fold contract_exec es c) = Running r \<and> rcs_epoch r = n \<and>
              rcs_participants r = ps \<and> rcs_threshold r = t \<and> votes_backed es r) \<or>
         majority_for_change es ps t"
proof (induction es rule: rev_induct)
  case Nil
  then show ?case using assms by (simp add: next_running_def votes_backed_def Votes_entry_def)
next
  case (snoc e es)
  then show ?case
  proof
    assume "majority_for_change es ps t"
    then show ?thesis by (blast intro: majority_for_change_snoc)
  next
    assume "\<exists>r. protocol_state (fold contract_exec es c) = Running r \<and> rcs_epoch r = n \<and>
      rcs_participants r = ps \<and> rcs_threshold r = t \<and> votes_backed es r"
    then obtain r where r: "protocol_state (fold contract_exec es c) = Running r" "rcs_epoch r = n"
      "rcs_participants r = ps" "rcs_threshold r = t" "votes_backed es r" by blast
    from contract_exec_phase [of e "fold contract_exec es c"] r(1)
    have "phase_step (signer_account_id (fst e)) (snd e) (Running r)
            (protocol_state (fold contract_exec (es @ [e]) c))" by simp
    from votes_backed_step [OF this r(5)] r show ?thesis by simp
  qed
qed

subsection \<open>Too few participants\<close>

text \<open>
  Nothing keeps \<open>vote_leave\<close> from taking the participant set below the threshold. From
  there no vote can succeed any more: a running contract keeps its participants, and a
  resharing contract never leaves the resharing.
\<close>

fun frozen :: "ProtocolContractState \<Rightarrow> bool" where
  "frozen (Running r) = (card (fst ` set (rcs_participants r)) < rcs_threshold r)"
| "frozen (Resharing s) = (card (fst ` set (scs_old_participants s)) < scs_threshold s)"
| "frozen _ = False"

fun same_members :: "ProtocolContractState \<Rightarrow> ProtocolContractState \<Rightarrow> bool" where
  "same_members (Running r) (Running r') =
     (rcs_epoch r' = rcs_epoch r \<and> rcs_participants r' = rcs_participants r)"
| "same_members (Resharing s) (Resharing s') =
     (scs_old_epoch s' = scs_old_epoch s \<and> scs_old_participants s' = scs_old_participants s)"
| "same_members _ _ = False"

lemma votes_below:
  assumes "votes_ok (fst ` set ps) t votes" and "a \<in> fst ` set ps" and "card (fst ` set ps) < t"
  shows "card (insert a (or_default {} (bt_get votes b))) < t"
proof -
  have "insert a (or_default {} (bt_get votes b)) \<subseteq> fst ` set ps"
    using votes_ok_entry [OF assms(1), of b] assms(2) by simp
  from card_mono [OF _ this] assms(3) show ?thesis by simp
qed

lemma finished_below:
  "finite A \<Longrightarrow> V \<subseteq> A \<Longrightarrow> a \<in> A \<Longrightarrow> card A < t \<Longrightarrow> card (insert a V) < t"
  by (meson card_mono insert_subset le_less_trans)

lemma frozen_step:
  assumes "phase_step a c p q" and "phase_inv p" and "frozen p"
  shows "frozen q \<and> same_members p q"
  using assms
proof (induction rule: phase_step.induct)
  case (stutter a c p)
  then show ?case by (cases p) auto
next
  case (join_accepted r a b ci)
  with votes_below [of "rcs_participants r" "rcs_threshold r" "rcs_join_votes r" a b]
  show ?case by (simp add: Votes_entry_def bt_contains_iff)
next
  case (leave_accepted r a b)
  with votes_below [of "rcs_participants r" "rcs_threshold r" "rcs_leave_votes r" a b]
  show ?case by (simp add: Votes_entry_def bt_contains_iff)
next
  case (reshared s a n)
  with finished_below [of "fst ` set (scs_old_participants s)" "scs_finished_votes s" a "scs_threshold s"]
  show ?case by (simp add: bt_contains_iff)
qed auto

definition stays_frozen :: "MpcContract \<Rightarrow> MpcContract \<Rightarrow> bool" where
  "stays_frozen c c' \<longleftrightarrow>
     frozen (protocol_state c) \<longrightarrow>
       frozen (protocol_state c') \<and> same_members (protocol_state c) (protocol_state c')"

lemma same_members_trans: "same_members p q \<Longrightarrow> same_members q r \<Longrightarrow> same_members p r"
  by (cases p; cases q; cases r) auto

interpretation contract_frozen: monotone_system contract_exec "\<lambda>c. phase_inv (protocol_state c)" stays_frozen
proof unfold_locales
  fix c :: MpcContract and e
  assume "phase_inv (protocol_state c)"
  then show "stays_frozen c (contract_exec e c)"
    unfolding stays_frozen_def using frozen_step [OF contract_exec_phase] by blast
next
  fix c
  show "stays_frozen c c"
    unfolding stays_frozen_def by (cases "protocol_state c") auto
next
  fix c d e
  show "stays_frozen c d \<Longrightarrow> stays_frozen d e \<Longrightarrow> stays_frozen c e"
    unfolding stays_frozen_def by (blast intro: same_members_trans)
qed


section \<open>The request table\<close>

text \<open>The whole effect of a transaction on the table of pending requests.\<close>

fun request_effect ::
  "contract_env \<Rightarrow> contract_call \<Rightarrow> (bytes \<rightharpoonup> (string \<times> string) option) \<Rightarrow>
     (bytes \<rightharpoonup> (string \<times> string) option)" where
  "request_effect env (CSign p path) m = (if m p = None then m(p \<mapsto> None) else m)"
| "request_effect env (CSignHelper p d) m =
     (if current_account_id env = predecessor_account_id env \<and> m p \<noteq> Some None
      then m(p := None) else m)"
| "request_effect env (CRespond p r s) m = m(p \<mapsto> Some (r, s))"
| "request_effect env _ m = m"

lemma membership_calls_keep_requests:
  "contract_join env u cpk spk c = Inr c1 \<Longrightarrow> pending_requests c1 = pending_requests c"
  "contract_vote_join env b c = Inr (c2, v) \<Longrightarrow> pending_requests c2 = pending_requests c"
  "contract_vote_leave env b c = Inr (c3, v) \<Longrightarrow> pending_requests c3 = pending_requests c"
  "contract_vote_pk env pk c = Inr (c4, v) \<Longrightarrow> pending_requests c4 = pending_requests c"
  "contract_vote_reshared env n c = Inr (c5, v) \<Longrightarrow> pending_requests c5 = pending_requests c"
  by (auto simp: contract_simps split: ProtocolContractState.splits if_splits option.splits)

lemma map_sum_eq_Inr: "map_sum f g x = Inr y \<longleftrightarrow> (\<exists>z. x = Inr z \<and> y = g z)"
  by (cases x) auto

lemma contract_exec_requests:
  "pending_requests (contract_exec (env, call) c) = request_effect env call (pending_requests c)"
  by (cases call)
    (auto simp: contract_exec_def contract_sign_def contract_sign_helper_def contract_respond_def
      fun_upd_idem map_sum_eq_Inr split: sum.splits option.splits dest: membership_calls_keep_requests)

definition touches :: "bytes \<Rightarrow> contract_call \<Rightarrow> bool" where
  "touches p c \<longleftrightarrow> (case c of CSign q _ \<Rightarrow> q = p | CSignHelper q _ \<Rightarrow> q = p
                        | CRespond q _ _ \<Rightarrow> q = p | _ \<Rightarrow> False)"

lemma untouched_run:
  "\<forall>e \<in> set es. \<not> touches p (snd e) \<Longrightarrow>
   pending_requests (fold contract_exec es c) p = pending_requests c p"
proof (induction es arbitrary: c)
  case (Cons e es)
  have "pending_requests (contract_exec e c) p = pending_requests c p"
    using Cons.prems
    by (cases e; cases "snd e") (auto simp: contract_exec_requests touches_def)
  with Cons show ?case by simp
qed simp


section \<open>Properties of the contract\<close>

text \<open>A network of three candidates, used by the witnesses.\<close>

definition ex_env :: "AccountId \<Rightarrow> contract_env" where
  "ex_env a = \<lparr>signer_account_id = a, predecessor_account_id = ''mpc'', current_account_id = ''mpc''\<rparr>"

definition ex_candidate :: "AccountId \<Rightarrow> CandidateInfo" where
  "ex_candidate a = \<lparr>ci_account_id = a, ci_url = a, ci_cipher_pk = [1], ci_sign_pk = [0, 1]\<rparr>"

definition ex_candidates :: Candidates where
  "ex_candidates = [(''a'', ex_candidate ''a''), (''b'', ex_candidate ''b''), (''c'', ex_candidate ''c'')]"

definition ex_key :: bytes where
  "ex_key = [1, 7]"

definition ex_keygen :: "(contract_env \<times> contract_call) list" where
  "ex_keygen = [(ex_env ''a'', CVotePk ex_key), (ex_env ''b'', CVotePk ex_key)]"

lemma ex_candidates_ok: "candidates_ok ex_candidates"
  by (simp add: candidates_ok_def ex_candidates_def ex_candidate_def bt_wf_def)

lemmas ex_defs = ex_env_def ex_candidate_def ex_candidates_def ex_key_def ex_keygen_def

lemma ex_keygen_length: "length ex_keygen = 2"
  by (simp add: ex_keygen_def)

lemma ex_keygen_run:
  "protocol_state (fold contract_exec ex_keygen (contract_init 2 ex_candidates Map.empty)) =
     next_running 0 (Participants_from ex_candidates) 2 ex_key"
  by (simp add: ex_keygen_def contract_exec_def contract_init_def contract_simps PkVotes_entry_def
      bt_contains_key_def ex_candidates_def ex_env_def next_running_def)


text \<open>
  C5: Over every run of the initialised contract the invariant holds: pending votes come
  from members of the electing set only and stay below the threshold, participants and
  candidates are disjoint and filed under their own account ids, and a resharing differs
  from the running set by exactly one account.
\<close>

theorem contract_invariant:
  "candidates_ok cs \<Longrightarrow> phase_inv (protocol_state (fold contract_exec es (contract_init t cs st)))"
  by (intro contract_inv.run_inv phase_inv_init)

theorem contract_invariant_witness:
  "phase_inv (protocol_state (fold contract_exec ex_keygen (contract_init 2 ex_candidates Map.empty)))"
  by (rule contract_invariant [OF ex_candidates_ok])

text \<open>
  C6: Once \<open>public_key\<close> returns a key it returns that key for ever: no sequence of calls
  by any accounts changes the root key of the network, nor the threshold.
\<close>

lemma public_key_of: "contract_public_key c = Inr pk \<longleftrightarrow> key_of (protocol_state c) = Some pk"
  by (auto simp: contract_public_key_def split: ProtocolContractState.splits)






definition ex_resharing :: ResharingContractState where
  "ex_resharing = \<lparr>scs_old_epoch = 0, scs_old_participants = Participants_from ex_candidates,
     scs_new_participants = Participants_remove ''c'' (Participants_from ex_candidates),
     scs_threshold = 2, scs_public_key = ex_key, scs_finished_votes = {}\<rparr>"






text \<open>
  Nothing keeps the participants at or above the threshold, and a contract that is
  below it never recovers: every further run leaves epoch and membership as they are.
\<close>

theorem contract_frozen_forever:
  assumes "candidates_ok cs"
    and "frozen (protocol_state (fold contract_exec es (contract_init t cs st)))"
  shows "same_members (protocol_state (fold contract_exec es (contract_init t cs st)))
                      (protocol_state (fold contract_exec (es @ fs) (contract_init t cs st)))"
  using contract_frozen.run_rel [of "fold contract_exec es (contract_init t cs st)" fs]
    contract_inv.run_inv [OF phase_inv_init [OF assms(1)]] assms(2)
  by (simp add: stays_frozen_def)

text \<open>
  The witness walks into the trap: three participants with threshold three vote one of
  them out, reshare, and then vote unanimously to let them in again.
\<close>

definition ex_all :: "contract_call \<Rightarrow> (contract_env \<times> contract_call) list" where
  "ex_all call = [(ex_env ''a'', call), (ex_env ''b'', call), (ex_env ''c'', call)]"

definition ex_frozen_run :: "(contract_env \<times> contract_call) list" where
  "ex_frozen_run = ex_all (CVotePk ex_key) @ ex_all (CVoteLeave ''c'') @ ex_all (CVoteReshared 1)"

definition ex_two :: Participants where
  "ex_two = [(''a'', ParticipantInfo_from (ex_candidate ''a'')), (''b'', ParticipantInfo_from (ex_candidate ''b''))]"

lemma ex_three_run:
  "protocol_state (fold contract_exec (ex_all (CVotePk ex_key)) (contract_init 3 ex_candidates Map.empty)) =
     next_running 0 (Participants_from ex_candidates) 3 ex_key"
  by (simp add: ex_all_def contract_exec_def contract_init_def contract_simps PkVotes_entry_def
      bt_contains_key_def ex_candidates_def ex_env_def next_running_def)

lemma ex_leave_run:
  "protocol_state c = next_running 0 (Participants_from ex_candidates) 3 ex_key \<Longrightarrow>
   protocol_state (fold contract_exec (ex_all (CVoteLeave ''c'')) c) =
     Resharing \<lparr>scs_old_epoch = 0, scs_old_participants = Participants_from ex_candidates,
       scs_new_participants = ex_two, scs_threshold = 3, scs_public_key = ex_key,
       scs_finished_votes = {}\<rparr>"
  by (simp add: ex_all_def contract_exec_def contract_simps Votes_entry_def bt_contains_key_def
      ex_candidates_def ex_env_def next_running_def ex_two_def Participants_from_def)

lemma ex_frozen_run:
  "protocol_state (fold contract_exec ex_frozen_run (contract_init 3 ex_candidates Map.empty)) =
     next_running 1 ex_two 3 ex_key"
proof -
  let ?c = "fold contract_exec (ex_all (CVoteLeave ''c'')) (fold contract_exec
    (ex_all (CVotePk ex_key)) (contract_init 3 ex_candidates Map.empty))"
  have "protocol_state (fold contract_exec (ex_all (CVoteReshared 1)) ?c) = next_running 1 ex_two 3 ex_key"
    using ex_leave_run [OF ex_three_run]
    by (simp add: ex_all_def exec_in_Resharing Let_def reshare_result_def ex_env_def
        Participants_from_def Participants_insert_def Participants_new_def ex_candidates_def)
  then show ?thesis by (simp add: ex_frozen_run_def)
qed

theorem contract_frozen_forever_witness:
  "same_members (next_running 1 ex_two 3 ex_key)
     (protocol_state (fold contract_exec
        (ex_frozen_run @ (ex_env ''c'', CJoin ''c'' [1] [0, 1]) # ex_all (CVoteJoin ''c''))
        (contract_init 3 ex_candidates Map.empty)))"
proof -
  have "frozen (next_running 1 ex_two 3 ex_key)"
    by (simp add: next_running_def ex_two_def)
  then show ?thesis
    using contract_frozen_forever [OF ex_candidates_ok, of ex_frozen_run 3 Map.empty]
    by (simp only: ex_frozen_run)
qed

text \<open>
  C34: The life of a signature request. A fresh payload is accepted and scheduled; as long
  as nobody answers it every further request for it is refused and \<open>sign_helper\<close> only
  schedules itself again; after the answer \<open>sign_helper\<close> returns exactly that answer and
  frees the payload. Calls about other payloads and all the membership calls in between
  make no difference.
\<close>

theorem contract_request_roundtrip:
  assumes "pending_requests c p = None" and "current_account_id env = predecessor_account_id env"
    and "\<forall>e \<in> set es \<union> set fs. \<not> touches p (snd e)"
  shows "\<exists>c1. contract_sign p path c = Inr (c1, PromiseSignHelper p 0) \<and>
    (let c2 = fold contract_exec es c1; c3 = fold contract_exec fs (contract_respond p r s c2) in
     contract_sign p path' c2 = Inl ''Signature for this payload already requested'' \<and>
     contract_sign_helper env p d c2 = Inr (c2, PromiseSignHelper p (d + 1)) \<and>
     contract_sign p path' c3 = Inl ''Signature for this payload already requested'' \<and>
     (\<exists>c4. contract_sign_helper env p d c3 = Inr (c4, PValue (r, s)) \<and>
           pending_requests c4 p = None \<and> protocol_state c4 = protocol_state c3))"
proof -
  let ?c1 = "c\<lparr>pending_requests := (pending_requests c)(p \<mapsto> None)\<rparr>"
  have 2: "pending_requests (fold contract_exec es ?c1) p = Some None"
    using untouched_run [of es p ?c1] assms(3) by simp
  have 3: "pending_requests (fold contract_exec fs (contract_respond p r s
             (fold contract_exec es ?c1))) p = Some (Some (r, s))"
    using untouched_run [of fs p] assms(3) by (simp add: contract_respond_def)
  show ?thesis
    using 2 3 assms(1,2) by (simp add: contract_sign_def contract_sign_helper_def Let_def)
qed

theorem contract_request_roundtrip_witness:
  "\<exists>c1. contract_sign [5] ''p'' (contract_init 2 ex_candidates Map.empty) =
           Inr (c1, PromiseSignHelper [5] 0) \<and>
     contract_sign_helper (ex_env ''mpc'') [5] 7 (contract_respond [5] ''R'' ''s''
       (fold contract_exec ex_keygen c1)) \<noteq> Inl ''unexpected request''"
  using contract_request_roundtrip
    [of "contract_init 2 ex_candidates Map.empty" "[5]" "ex_env ''mpc''" ex_keygen "[]" "''p''" "''R''" "''s''" "''q''" 7]
  by (auto simp: contract_init_def ex_env_def ex_keygen_def touches_def Let_def)

text \<open>
  \<open>respond\<close> asks nothing of its caller and needs no request. An answer nobody asked
  for occupies its payload: from then on, whatever any account other than the contract
  itself does, a request to sign that payload is refused.
\<close>

lemma occupied_run:
  assumes "\<forall>e \<in> set es. current_account_id (fst e) \<noteq> predecessor_account_id (fst e)"
    and "pending_requests c p \<noteq> None"
  shows "pending_requests (fold contract_exec es c) p \<noteq> None"
  using assms
proof (induction es arbitrary: c)
  case (Cons e es)
  obtain env call where e: "e = (env, call)" by (cases e)
  have "pending_requests (contract_exec e c) p \<noteq> None"
    using Cons.prems by (cases call) (auto simp: e contract_exec_requests)
  with Cons show ?case by simp
qed simp

theorem contract_unsolicited_response_blocks:
  assumes "\<forall>e \<in> set es. current_account_id (fst e) \<noteq> predecessor_account_id (fst e)"
  shows "contract_sign p path (fold contract_exec es (contract_respond p r s c)) =
    Inl ''Signature for this payload already requested''"
  using occupied_run [OF assms, of "contract_respond p r s c" p]
  by (auto simp: contract_sign_def contract_respond_def)

theorem contract_unsolicited_response_blocks_witness:
  "contract_sign [5] ''p'' (fold contract_exec
      [((ex_env ''a'')\<lparr>predecessor_account_id := ''a''\<rparr>, CSignHelper [5] 0)]
      (contract_respond [5] ''R'' ''s'' (contract_init 2 ex_candidates Map.empty))) =
    Inl ''Signature for this payload already requested''"
  by (rule contract_unsolicited_response_blocks) (simp add: ex_env_def)

end
