(* ===== verification/Node_Contract.thy ===== *)
theory Node_Contract
  imports Contract_Laws
begin

text \<open>
  The node's view of the contract, \<^verbatim>\<open>node/src/protocol/contract/\<close> and the key conversions
  of \<^verbatim>\<open>node/src/util.rs\<close>. The node numbers the participants by their position in the
  contract's ordered map and rebuilds every collection under those numbers; the
  conversions panic on values they cannot decode.

  What the sources take from other crates is the argument \<open>L\<close>: parsing account ids,
  decoding hpke and near keys, and the curve's encodings. Keys, points and scalars of those
  crates are opaque byte strings here.
\<close>

named_theorems node_contract_simps \<open>unfolding of the node's conversions\<close>

section \<open>Values of other crates\<close>

type_synonym Participant = u32
type_synonym AffinePoint = bytes

record near_lib =
  account_id_from_str :: "string \<Rightarrow> AccountId option"
  hpke_deserialize :: "bytes \<Rightarrow> bytes option"
  near_key_deserialize :: "bytes \<Rightarrow> near_public_key option"
  secp256k1_try_from :: "bytes \<Rightarrow> bytes option"
  encoded_point_from_bytes :: "bytes \<Rightarrow> bytes option"
  affine_from_encoded_point :: "bytes \<Rightarrow> AffinePoint option"
  affine_to_encoded_point :: "AffinePoint \<Rightarrow> bytes"

section \<open>Keys (\<^verbatim>\<open>util.rs\<close>)\<close>

text \<open>\<open>bytes[0] = 0x04\<close> panics on an empty vector.\<close>

definition near_sdk_into_affine_point :: "near_lib \<Rightarrow> bytes \<Rightarrow> AffinePoint exec" where
  "near_sdk_into_affine_point L key =
     (case key of
        [] \<Rightarrow> Panics ''index out of bounds''
      | _ # rest \<Rightarrow>
          exec_bind (unwrap ''EncodedPoint'' (encoded_point_from_bytes L (0x04 # rest))) (\<lambda>point.
          unwrap ''from_encoded_point'' (affine_from_encoded_point L point)))"

definition secp256k1_into_affine_point :: "near_lib \<Rightarrow> bytes \<Rightarrow> AffinePoint exec" where
  "secp256k1_into_affine_point L key =
     exec_bind (unwrap ''EncodedPoint'' (encoded_point_from_bytes L (0x04 # key))) (\<lambda>point.
     unwrap ''from_encoded_point'' (affine_from_encoded_point L point))"

definition near_crypto_into_affine_point :: "near_lib \<Rightarrow> near_public_key \<Rightarrow> AffinePoint exec" where
  "near_crypto_into_affine_point L key =
     (case key of
        SECP256K1 public_key \<Rightarrow> secp256k1_into_affine_point L public_key
      | ED25519 _ \<Rightarrow> Panics ''unsupported key type'')"

text \<open>The slice \<open>[1..65]\<close> panics when the encoding is shorter.\<close>

definition encoded_coordinates :: "near_lib \<Rightarrow> AffinePoint \<Rightarrow> bytes exec" where
  "encoded_coordinates L point =
     (let enc = affine_to_encoded_point L point in
      if length enc < 65 then Panics ''range end index 65 out of range''
      else unwrap ''Secp256K1PublicKey'' (secp256k1_try_from L (take 64 (drop 1 enc))))"

definition into_near_public_key :: "near_lib \<Rightarrow> AffinePoint \<Rightarrow> near_public_key exec" where
  "into_near_public_key L point =
     exec_bind (encoded_coordinates L point) (\<lambda>key. Done (SECP256K1 key))"

section \<open>Participants\<close>

record NParticipantInfo =
  np_id :: u32
  np_account_id :: AccountId
  np_url :: string
  np_cipher_pk :: bytes
  np_sign_pk :: near_public_key

type_synonym NParticipants = "(Participant, NParticipantInfo) btree"

record NCandidateInfo =
  nc_account_id :: AccountId
  nc_url :: string
  nc_cipher_pk :: bytes
  nc_sign_pk :: near_public_key

type_synonym NCandidates = "(AccountId, NCandidateInfo) btree"

definition participant_entry ::
  "near_lib \<Rightarrow> nat \<times> AccountId \<times> ParticipantInfo \<Rightarrow> (Participant \<times> NParticipantInfo) exec" where
  "participant_entry L = (\<lambda>(participant_id, participant).
     (let contract_participant_info = snd participant in
      exec_bind (unwrap ''AccountId'' (account_id_from_str L (pi_account_id contract_participant_info))) (\<lambda>account_id.
      exec_bind (unwrap ''invalid bytes'' (hpke_deserialize L (pi_cipher_pk contract_participant_info))) (\<lambda>cipher_pk.
      exec_bind (unwrap ''PublicKey'' (near_key_deserialize L (pi_sign_pk contract_participant_info))) (\<lambda>sign_pk.
      Done (of_nat participant_id,
        \<lparr>np_id = of_nat participant_id, np_account_id = account_id,
         np_url = pi_url contract_participant_info, np_cipher_pk = cipher_pk,
         np_sign_pk = sign_pk\<rparr>))))))"

definition NParticipants_from_contract :: "near_lib \<Rightarrow> Participants \<Rightarrow> NParticipants exec" where
  "NParticipants_from_contract L contract_participants =
     exec_bind (exec_map (participant_entry L) (enumerate 0 contract_participants)) (\<lambda>entries.
     Done (bt_collect entries))"

definition NParticipants_from_candidates :: "NCandidates \<Rightarrow> NParticipants" where
  "NParticipants_from_candidates candidates =
     bt_collect (map (\<lambda>(participant_id, account_id, candidate_info).
       (of_nat participant_id,
        \<lparr>np_id = of_nat participant_id, np_account_id = account_id,
         np_url = nc_url candidate_info, np_cipher_pk = nc_cipher_pk candidate_info,
         np_sign_pk = nc_sign_pk candidate_info\<rparr>)) (enumerate 0 candidates))"

definition NParticipants_into_iter :: "NParticipants \<Rightarrow> (Participant \<times> NParticipantInfo) list" where
  "NParticipants_into_iter participants = participants"

definition NParticipants_get :: "NParticipants \<Rightarrow> Participant \<Rightarrow> NParticipantInfo option" where
  "NParticipants_get = bt_get"

definition NParticipants_contains_key :: "NParticipants \<Rightarrow> Participant \<Rightarrow> bool" where
  "NParticipants_contains_key = bt_contains_key"

definition NParticipants_keys :: "NParticipants \<Rightarrow> Participant list" where
  "NParticipants_keys = bt_keys"

definition find_participant :: "NParticipants \<Rightarrow> AccountId \<Rightarrow> Participant option" where
  "find_participant participants account_id =
     map_option fst (List.find (\<lambda>(_, info). np_account_id info = account_id) participants)"

definition find_participant_info :: "NParticipants \<Rightarrow> AccountId \<Rightarrow> NParticipantInfo option" where
  "find_participant_info participants account_id =
     List.find (\<lambda>info. np_account_id info = account_id) (map snd participants)"

definition contains_account_id :: "NParticipants \<Rightarrow> AccountId \<Rightarrow> bool" where
  "contains_account_id participants account_id =
     list_ex (\<lambda>info. np_account_id info = account_id) (map snd participants)"

definition account_ids :: "NParticipants \<Rightarrow> AccountId list" where
  "account_ids participants = map (\<lambda>info. np_account_id info) (map snd participants)"

section \<open>Candidates and votes\<close>

definition candidate_entry ::
  "near_lib \<Rightarrow> AccountId \<times> CandidateInfo \<Rightarrow> (AccountId \<times> NCandidateInfo) exec" where
  "candidate_entry L = (\<lambda>(account_id, candidate_info).
     exec_bind (unwrap ''AccountId'' (account_id_from_str L account_id)) (\<lambda>key.
     exec_bind (unwrap ''AccountId'' (account_id_from_str L (ci_account_id candidate_info))) (\<lambda>account_id'.
     exec_bind (unwrap ''invalid bytes'' (hpke_deserialize L (ci_cipher_pk candidate_info))) (\<lambda>cipher_pk.
     exec_bind (unwrap ''PublicKey'' (near_key_deserialize L (ci_sign_pk candidate_info))) (\<lambda>sign_pk.
     Done (key, \<lparr>nc_account_id = account_id', nc_url = ci_url candidate_info,
                 nc_cipher_pk = cipher_pk, nc_sign_pk = sign_pk\<rparr>))))))"

definition NCandidates_from_contract :: "near_lib \<Rightarrow> Candidates \<Rightarrow> NCandidates exec" where
  "NCandidates_from_contract L contract_candidates =
     exec_bind (exec_map (candidate_entry L) contract_candidates) (\<lambda>entries.
     Done (bt_collect entries))"

definition NCandidates_get :: "NCandidates \<Rightarrow> AccountId \<Rightarrow> NCandidateInfo option" where
  "NCandidates_get = bt_get"

definition NCandidates_contains_key :: "NCandidates \<Rightarrow> AccountId \<Rightarrow> bool" where
  "NCandidates_contains_key = bt_contains_key"

definition NCandidates_keys :: "NCandidates \<Rightarrow> AccountId list" where
  "NCandidates_keys = bt_keys"

definition find_candidate :: "NCandidates \<Rightarrow> AccountId \<Rightarrow> NCandidateInfo option" where
  "find_candidate = bt_get"

text \<open>
  A set of accounts is parsed element by element; the first element that does not parse
  panics, so the result does not depend on the order of the iteration.
\<close>

definition accounts_from_contract :: "near_lib \<Rightarrow> AccountId set \<Rightarrow> AccountId set exec" where
  "accounts_from_contract L accounts =
     (if \<exists>a \<in> accounts. account_id_from_str L a = None then Panics ''AccountId''
      else Done ((\<lambda>a. the (account_id_from_str L a)) ` accounts))"

text \<open>
  The map of the public key votes is keyed by \<open>near_crypto\<close> keys. All of them are built
  with the same constructor here, so the model keeps the bytes under it.
\<close>

type_synonym NPkVotes = "(bytes, AccountId set) btree"
type_synonym NVotes = "(AccountId, AccountId set) btree"

definition pk_vote_entry :: "near_lib \<Rightarrow> bytes \<times> AccountId set \<Rightarrow> (bytes \<times> AccountId set) exec" where
  "pk_vote_entry L = (\<lambda>(pk, participants).
     exec_bind (unwrap ''Secp256K1PublicKey'' (secp256k1_try_from L (drop 1 pk))) (\<lambda>key.
     exec_bind (accounts_from_contract L participants) (\<lambda>accounts.
     Done (key, accounts))))"

definition NPkVotes_from_contract :: "near_lib \<Rightarrow> PkVotes \<Rightarrow> NPkVotes exec" where
  "NPkVotes_from_contract L contract_votes =
     exec_bind (exec_map (pk_vote_entry L) contract_votes) (\<lambda>entries.
     Done (bt_collect entries))"

definition NPkVotes_get :: "NPkVotes \<Rightarrow> near_public_key \<Rightarrow> AccountId set option" where
  "NPkVotes_get votes key =
     (case key of SECP256K1 k \<Rightarrow> bt_get votes k | ED25519 _ \<Rightarrow> None)"

definition NVotes_from_contract :: "near_lib \<Rightarrow> Votes \<Rightarrow> NVotes exec" where
  "NVotes_from_contract L contract_votes =
     exec_bind (exec_map (\<lambda>(account_id, participants).
         exec_bind (unwrap ''AccountId'' (account_id_from_str L account_id)) (\<lambda>key.
         exec_bind (accounts_from_contract L participants) (\<lambda>accounts.
         Done (key, accounts)))) contract_votes) (\<lambda>entries.
     Done (bt_collect entries))"

definition NVotes_get :: "NVotes \<Rightarrow> AccountId \<Rightarrow> AccountId set option" where
  "NVotes_get = bt_get"

section \<open>Protocol states\<close>

record NInitializingContractState =
  nic_candidates :: NCandidates
  nic_threshold :: nat
  nic_pk_votes :: NPkVotes

record NRunningContractState =
  nrc_epoch :: u64
  nrc_participants :: NParticipants
  nrc_threshold :: nat
  nrc_public_key :: AffinePoint
  nrc_candidates :: NCandidates
  nrc_join_votes :: NVotes
  nrc_leave_votes :: NVotes

record NResharingContractState =
  nsc_old_epoch :: u64
  nsc_old_participants :: NParticipants
  nsc_new_participants :: NParticipants
  nsc_threshold :: nat
  nsc_public_key :: AffinePoint
  nsc_finished_votes :: "AccountId set"

datatype ProtocolState =
    PSInitializing NInitializingContractState
  | PSRunning NRunningContractState
  | PSResharing NResharingContractState

definition NInitializing_from ::
  "near_lib \<Rightarrow> InitializingContractState \<Rightarrow> NInitializingContractState exec" where
  "NInitializing_from L s =
     exec_bind (NCandidates_from_contract L (ics_candidates s)) (\<lambda>candidates.
     exec_bind (NPkVotes_from_contract L (ics_pk_votes s)) (\<lambda>pk_votes.
     Done \<lparr>nic_candidates = candidates, nic_threshold = ics_threshold s, nic_pk_votes = pk_votes\<rparr>))"

definition NRunning_from :: "near_lib \<Rightarrow> RunningContractState \<Rightarrow> NRunningContractState exec" where
  "NRunning_from L s =
     exec_bind (NParticipants_from_contract L (rcs_participants s)) (\<lambda>participants.
     exec_bind (near_sdk_into_affine_point L (rcs_public_key s)) (\<lambda>public_key.
     exec_bind (NCandidates_from_contract L (rcs_candidates s)) (\<lambda>candidates.
     exec_bind (NVotes_from_contract L (rcs_join_votes s)) (\<lambda>join_votes.
     exec_bind (NVotes_from_contract L (rcs_leave_votes s)) (\<lambda>leave_votes.
     Done \<lparr>nrc_epoch = rcs_epoch s, nrc_participants = participants,
           nrc_threshold = rcs_threshold s, nrc_public_key = public_key,
           nrc_candidates = candidates, nrc_join_votes = join_votes,
           nrc_leave_votes = leave_votes\<rparr>)))))"

definition NResharing_from :: "near_lib \<Rightarrow> ResharingContractState \<Rightarrow> NResharingContractState exec" where
  "NResharing_from L s =
     exec_bind (NParticipants_from_contract L (scs_old_participants s)) (\<lambda>old_participants.
     exec_bind (NParticipants_from_contract L (scs_new_participants s)) (\<lambda>new_participants.
     exec_bind (near_sdk_into_affine_point L (scs_public_key s)) (\<lambda>public_key.
     exec_bind (accounts_from_contract L (scs_finished_votes s)) (\<lambda>finished_votes.
     Done \<lparr>nsc_old_epoch = scs_old_epoch s, nsc_old_participants = old_participants,
           nsc_new_participants = new_participants, nsc_threshold = scs_threshold s,
           nsc_public_key = public_key, nsc_finished_votes = finished_votes\<rparr>))))"

fun ProtocolState_public_key :: "ProtocolState \<Rightarrow> AffinePoint option" where
  "ProtocolState_public_key (PSInitializing _) = None"
| "ProtocolState_public_key (PSRunning s) = Some (nrc_public_key s)"
| "ProtocolState_public_key (PSResharing s) = Some (nsc_public_key s)"

fun ProtocolState_threshold :: "ProtocolState \<Rightarrow> nat" where
  "ProtocolState_threshold (PSInitializing s) = nic_threshold s"
| "ProtocolState_threshold (PSRunning s) = nrc_threshold s"
| "ProtocolState_threshold (PSResharing s) = nsc_threshold s"

fun ProtocolState_try_from :: "near_lib \<Rightarrow> ProtocolContractState \<Rightarrow> (unit + ProtocolState) exec" where
  "ProtocolState_try_from L (Initializing s) =
     exec_bind (NInitializing_from L s) (\<lambda>s'. Done (Inr (PSInitializing s')))"
| "ProtocolState_try_from L (Running s) =
     exec_bind (NRunning_from L s) (\<lambda>s'. Done (Inr (PSRunning s')))"
| "ProtocolState_try_from L (Resharing s) =
     exec_bind (NResharing_from L s) (\<lambda>s'. Done (Inr (PSResharing s')))"
| "ProtocolState_try_from L NotInitialized = Done (Inl ())"

end
