(* ===== verification/Node_Contract_Laws.thy ===== *)
theory Node_Contract_Laws
  imports Node_Contract
begin

text \<open>
  The laws of the node's view: numbering by position, lookups by account, the agreement of
  the two ways a node learns the participants of epoch 0, and what happens to the numbers
  when the membership changes.
\<close>

section \<open>Numbering by position\<close>

lemma of_nat_u32_less:
  "i < 2 ^ 32 \<Longrightarrow> j < 2 ^ 32 \<Longrightarrow> (of_nat i :: u32) < of_nat j \<longleftrightarrow> i < j"
  by (simp add: word_less_nat_alt unat_of_nat take_bit_nat_eq_self)

lemma of_nat_u32_inject:
  "i < 2 ^ 32 \<Longrightarrow> j < 2 ^ 32 \<Longrightarrow> (of_nat i :: u32) = of_nat j \<longleftrightarrow> i = j"
  by (metis of_nat_u32_less linorder_neq_iff)

definition numbered :: "'v list \<Rightarrow> (Participant, 'v) btree" where
  "numbered vs = map (\<lambda>(i, v). (of_nat i, v)) (enumerate 0 vs)"

lemma numbered_nth: "i < length vs \<Longrightarrow> numbered vs ! i = (of_nat i, vs ! i)"
  by (simp add: numbered_def nth_enumerate_eq)

lemma length_numbered [simp]: "length (numbered vs) = length vs"
  by (simp add: numbered_def)

lemma keys_numbered: "map fst (numbered vs) = map of_nat [0..<length vs]"
  by (rule nth_equalityI) (simp_all add: numbered_nth)

lemma numbered_wf: "length vs \<le> 2 ^ 32 \<Longrightarrow> bt_wf (numbered vs)"
  by (auto simp: bt_wf_def keys_numbered sorted_wrt_iff_nth_less of_nat_u32_less)

lemma numbered_collect: "length vs \<le> 2 ^ 32 \<Longrightarrow> bt_collect (numbered vs) = numbered vs"
  by (simp add: bt_collect_id numbered_wf)

text \<open>The position of an account in an ordered map of the contract.\<close>

fun position :: "('k \<times> 'v) list \<Rightarrow> 'k \<Rightarrow> nat option" where
  "position [] a = None"
| "position (e # m) a = (if fst e = a then Some 0 else map_option Suc (position m a))"

lemma position_None: "position m a = None \<longleftrightarrow> a \<notin> fst ` set m"
  by (induction m) auto

lemma position_nth: "position m a = Some i \<Longrightarrow> i < length m \<and> fst (m ! i) = a"
  by (induction m arbitrary: i) (auto split: if_splits)

lemma position_of_nth:
  "distinct (map fst m) \<Longrightarrow> i < length m \<Longrightarrow> position m (fst (m ! i)) = Some i"
proof (induction m arbitrary: i)
  case (Cons e m)
  then show ?case by (cases i) (auto simp: image_iff dest: nth_mem)
qed simp

lemma position_insert:
  "bt_wf m \<Longrightarrow> b \<notin> fst ` set m \<Longrightarrow> a \<in> fst ` set m \<Longrightarrow>
   position (bt_insert b v m) a = map_option (\<lambda>i. if b < a then Suc i else i) (position m a)"
proof (induction m)
  case (Cons e m)
  show ?case
  proof (cases "a = fst e")
    case True
    with Cons.prems show ?thesis by auto
  next
    case False
    with Cons.prems have a: "a \<in> fst ` set m" "fst e < a" by (auto simp: bt_wf_Cons)
    with False Cons show ?thesis
      by (auto simp: bt_wf_Cons option.map_comp comp_def intro!: option.map_cong)
  qed
qed simp

lemma position_remove:
  "bt_wf m \<Longrightarrow> a \<noteq> b \<Longrightarrow> b \<in> fst ` set m \<Longrightarrow>
   position (bt_remove b m) a = map_option (\<lambda>i. if b < a then i - 1 else i) (position m a)"
proof (induction m)
  case (Cons e m)
  have pos: "position m a = Some i \<Longrightarrow> fst e < a" for i
    using Cons.prems(1) position_nth [of m a i] by (auto simp: bt_wf_Cons)
  show ?case
  proof (cases "fst e = b")
    case True
    with Cons.prems pos show ?thesis
      by (cases "position m a") auto
  next
    case False
    with Cons.prems have b: "b \<in> fst ` set m" "fst e < b" by (auto simp: bt_wf_Cons)
    have gt: "i > 0" if "position m a = Some i" "b < a" for i
    proof (rule ccontr)
      assume "\<not> 0 < i"
      with that position_nth [of m a i] have "a = fst (hd m)" "m \<noteq> []"
        by (cases m; auto)+
      moreover from Cons.prems(1) \<open>m \<noteq> []\<close> b(1) have "fst (hd m) \<le> b"
        by (cases m) (auto simp: bt_wf_Cons)
      ultimately show False using that(2) by simp
    qed
    from b False Cons gt show ?thesis
      by (cases "position m a") (auto simp: bt_wf_Cons)
  qed
qed simp

section \<open>Conversions that return\<close>

definition lib_accepts :: "near_lib \<Rightarrow> Participants \<Rightarrow> bool" where
  "lib_accepts L ps \<longleftrightarrow> (\<forall>(k, i) \<in> set ps.
     account_id_from_str L (pi_account_id i) = Some (pi_account_id i) \<and>
     hpke_deserialize L (pi_cipher_pk i) \<noteq> None \<and> near_key_deserialize L (pi_sign_pk i) \<noteq> None)"

definition node_info :: "near_lib \<Rightarrow> nat \<Rightarrow> ParticipantInfo \<Rightarrow> NParticipantInfo" where
  "node_info L n i = \<lparr>np_id = of_nat n, np_account_id = pi_account_id i, np_url = pi_url i,
     np_cipher_pk = the (hpke_deserialize L (pi_cipher_pk i)),
     np_sign_pk = the (near_key_deserialize L (pi_sign_pk i))\<rparr>"

definition node_participants :: "near_lib \<Rightarrow> Participants \<Rightarrow> NParticipants" where
  "node_participants L ps = numbered (map (\<lambda>(n, k, i). node_info L n i) (enumerate 0 ps))"

lemma node_participants_map:
  "node_participants L ps = map (\<lambda>(n, k, i). (of_nat n, node_info L n i)) (enumerate 0 ps)"
  by (rule nth_equalityI)
    (simp_all add: node_participants_def numbered_nth nth_enumerate_eq case_prod_beta)

lemma NParticipants_from_contract_Done:
  assumes "lib_accepts L ps" and "length ps \<le> 2 ^ 32"
  shows "NParticipants_from_contract L ps = Done (node_participants L ps)"
proof -
  have "exec_map (participant_entry L) (enumerate 0 ps) =
      Done (map (\<lambda>(n, k, i). (of_nat n, node_info L n i)) (enumerate 0 ps))"
  proof (rule exec_map_Done)
    fix x
    assume "x \<in> set (enumerate 0 ps)"
    then obtain n k i where x: "x = (n, k, i)" "(k, i) \<in> set ps"
      by (auto simp: in_set_enumerate_eq) (metis nth_mem prod.collapse)
    with assms(1) have "account_id_from_str L (pi_account_id i) = Some (pi_account_id i)"
      "hpke_deserialize L (pi_cipher_pk i) \<noteq> None" "near_key_deserialize L (pi_sign_pk i) \<noteq> None"
      unfolding lib_accepts_def by auto
    then show "participant_entry L x = Done ((\<lambda>(n, k, i). (of_nat n, node_info L n i)) x)"
      by (auto simp: x participant_entry_def node_info_def)
  qed
  then have "NParticipants_from_contract L ps = Done (bt_collect (node_participants L ps))"
    by (simp add: NParticipants_from_contract_def node_participants_map)
  also have "\<dots> = Done (node_participants L ps)"
    unfolding node_participants_def using assms(2) by (simp add: numbered_collect)
  finally show ?thesis .
qed

lemma find_in_enumerated:
  assumes "\<forall>(k, i) \<in> set ps. pi_account_id i = k"
  shows "map_option fst (List.find (\<lambda>(_, info). np_account_id info = a)
      (map (\<lambda>(n, k, i). (of_nat n :: u32, node_info L n i)) (enumerate m ps))) =
    map_option (\<lambda>i. of_nat (m + i)) (position ps a)"
  using assms
proof (induction ps arbitrary: m)
  case (Cons e ps)
  then show ?case
    by (auto simp: node_info_def option.map_comp comp_def add_ac)
qed simp

lemma find_participant_position:
  "participants_ok ps \<Longrightarrow> find_participant (node_participants L ps) a = map_option of_nat (position ps a)"
  using find_in_enumerated [of ps a L 0]
  by (simp add: find_participant_def node_participants_map participants_ok_def)

lemma accounts_of_node_participants:
  "participants_ok ps \<Longrightarrow> account_ids (node_participants L ps) = map fst ps"
  by (rule nth_equalityI)
    (auto simp: account_ids_def node_participants_def numbered_nth nth_enumerate_eq node_info_def
      participants_ok_def case_prod_beta dest!: nth_mem)

section \<open>Two ways to the participants of epoch 0\<close>

definition parses_to_itself :: "near_lib \<Rightarrow> AccountId \<Rightarrow> bool" where
  "parses_to_itself L a \<longleftrightarrow> account_id_from_str L a = None \<or> account_id_from_str L a = Some a"

definition numbered_candidate :: "nat \<Rightarrow> AccountId \<times> NCandidateInfo \<Rightarrow> Participant \<times> NParticipantInfo" where
  "numbered_candidate n e = (of_nat n,
     \<lparr>np_id = of_nat n, np_account_id = fst e, np_url = nc_url (snd e),
      np_cipher_pk = nc_cipher_pk (snd e), np_sign_pk = nc_sign_pk (snd e)\<rparr>)"

lemma participant_entry_of_candidate:
  assumes "ci_account_id ci = k" and "parses_to_itself L k"
  shows "participant_entry L (n, k, ParticipantInfo_from ci) =
    exec_bind (candidate_entry L (k, ci)) (\<lambda>e. Done (numbered_candidate n e))"
  using assms
  by (cases "hpke_deserialize L (ci_cipher_pk ci)"; cases "near_key_deserialize L (ci_sign_pk ci)")
    (auto simp: participant_entry_def candidate_entry_def ParticipantInfo_from_def
      numbered_candidate_def parses_to_itself_def)

lemma exec_map_enumerate:
  assumes "\<And>n x. x \<in> set xs \<Longrightarrow> f (n, g x) = exec_bind (h x) (\<lambda>y. Done (c n y))"
  shows "exec_map f (enumerate m (map g xs)) =
    exec_bind (exec_map h xs) (\<lambda>ys. Done (map (\<lambda>(n, y). c n y) (enumerate m ys)))"
  using assms
proof (induction xs arbitrary: m)
  case (Cons x xs)
  then have "exec_map f (enumerate (Suc m) (map g xs)) =
      exec_bind (exec_map h xs) (\<lambda>ys. Done (map (\<lambda>(n, y). c n y) (enumerate (Suc m) ys)))" by simp
  with Cons.prems [of x m] show ?case
    by (cases "h x"; cases "exec_map h xs") auto
qed simp

lemma candidate_entry_key:
  "candidate_entry L e = Done e' \<Longrightarrow> parses_to_itself L (fst e) \<Longrightarrow> fst e' = fst e"
  by (auto simp: candidate_entry_def parses_to_itself_def exec_bind_eq_Done split: prod.splits)

lemma candidate_entries_keys:
  assumes "exec_map (candidate_entry L) cs = Done es" and "\<forall>e \<in> set cs. parses_to_itself L (fst e)"
  shows "map fst es = map fst cs"
  using assms
proof (induction cs arbitrary: es)
  case (Cons e cs)
  then show ?case by (auto simp: exec_bind_eq_Done dest: candidate_entry_key)
qed simp

lemma participants_commute:
  assumes "candidates_ok cs" and "\<forall>e \<in> set cs. parses_to_itself L (fst e)"
  shows "exec_bind (NCandidates_from_contract L cs) (\<lambda>ncs. Done (NParticipants_from_candidates ncs)) =
    NParticipants_from_contract L (Participants_from cs)"
proof -
  have wf: "bt_wf cs" using assms(1) by (simp add: candidates_ok_def)
  have "exec_map (participant_entry L) (enumerate 0 (Participants_from cs)) =
      exec_bind (exec_map (candidate_entry L) cs) (\<lambda>ys. Done (map (\<lambda>(n, y). numbered_candidate n y) (enumerate 0 ys)))"
    unfolding Participants_from_map [OF wf]
    using assms by (intro exec_map_enumerate)
      (auto simp: candidates_ok_def intro!: participant_entry_of_candidate)
  moreover have "bt_collect es = es" if "exec_map (candidate_entry L) cs = Done es" for es
    using candidate_entries_keys [OF that assms(2)] wf by (simp add: bt_collect_id bt_wf_def)
  ultimately show ?thesis
    by (cases "exec_map (candidate_entry L) cs")
      (simp_all add: NCandidates_from_contract_def NParticipants_from_contract_def
        NParticipants_from_candidates_def numbered_candidate_def split_def)
qed

section \<open>Properties of the node's view\<close>

text \<open>A library that decodes everything of the right length, for the witnesses.\<close>

definition ex_lib :: near_lib where
  "ex_lib = \<lparr>account_id_from_str = Some, hpke_deserialize = Some,
     near_key_deserialize = (\<lambda>b. case b of t # d \<Rightarrow> Some (if t = 0 then ED25519 d else SECP256K1 d) | [] \<Rightarrow> None),
     secp256k1_try_from = (\<lambda>b. if length b = 64 then Some b else None),
     encoded_point_from_bytes = (\<lambda>b. if length b = 65 then Some b else None),
     affine_from_encoded_point = Some, affine_to_encoded_point = id\<rparr>"

text \<open>
  The node numbers the participants of the contract by their positions: the conversion
  returns, keeps all the accounts in their order, and looking an account up gives the
  position of the account in the contract's map, or nothing for a stranger. Distinct
  accounts get distinct numbers.
\<close>

theorem node_participants_numbered:
  assumes "participants_ok ps" and "lib_accepts L ps" and "length ps \<le> 2 ^ 32"
  shows "\<exists>nps. NParticipants_from_contract L ps = Done nps \<and> bt_wf nps \<and>
    account_ids nps = map fst ps \<and>
    (\<forall>a. find_participant nps a = map_option of_nat (position ps a)) \<and>
    (\<forall>a b p. find_participant nps a = Some p \<and> find_participant nps b = Some p \<longrightarrow> a = b)"
proof -
  let ?nps = "node_participants L ps"
  have inj: "a = b" if "find_participant ?nps a = Some p" "find_participant ?nps b = Some p" for a b p
  proof -
    from that assms(1) obtain i j where ij: "position ps a = Some i" "position ps b = Some j"
      "(of_nat i :: u32) = of_nat j" by (auto simp: find_participant_position)
    with position_nth [of ps] assms(3) have "i < 2 ^ 32" "j < 2 ^ 32" by fastforce+
    with ij have "i = j" by (simp add: of_nat_u32_inject)
    with ij position_nth [of ps] show "a = b" by metis
  qed
  moreover have "bt_wf ?nps"
    unfolding node_participants_def using assms(3) by (simp add: numbered_wf)
  ultimately show ?thesis
    using NParticipants_from_contract_Done [OF assms(2,3)] accounts_of_node_participants [OF assms(1)]
      find_participant_position [OF assms(1)] by blast
qed

theorem node_participants_numbered_witness:
  "\<exists>nps. NParticipants_from_contract ex_lib ex_two = Done nps \<and> find_participant nps ''b'' = Some 1"
proof -
  have "participants_ok ex_two" and "lib_accepts ex_lib ex_two"
    by (auto simp: ex_two_def ex_lib_def lib_accepts_def participants_ok_def bt_wf_def
        ParticipantInfo_from_def ex_candidate_def)
  from node_participants_numbered [OF this] obtain nps where
    "NParticipants_from_contract ex_lib ex_two = Done nps"
    "find_participant nps ''b'' = map_option of_nat (position ex_two ''b'')"
    by (auto simp: ex_two_def simp del: position.simps)
  then show ?thesis by (simp add: ex_two_def)
qed

text \<open>
  C31: During key generation a node derives the participants from the candidates on its
  own, afterwards it reads the participants the contract made of the candidates. Both ways
  give the same participants under the same numbers, and panic on the same inputs.
\<close>

theorem node_participants_agree_with_contract:
  assumes "candidates_ok cs" and "\<forall>e \<in> set cs. parses_to_itself L (fst e)"
  shows "exec_bind (NCandidates_from_contract L cs) (\<lambda>ncs. Done (NParticipants_from_candidates ncs)) =
    NParticipants_from_contract L (Participants_from cs)"
  by (rule participants_commute [OF assms])

theorem node_participants_agree_with_contract_witness:
  "exec_bind (NCandidates_from_contract ex_lib ex_candidates)
      (\<lambda>ncs. Done (NParticipants_from_candidates ncs)) =
    NParticipants_from_contract ex_lib (Participants_from ex_candidates)"
  by (rule node_participants_agree_with_contract [OF ex_candidates_ok])
    (simp add: ex_lib_def parses_to_itself_def)

text \<open>
  The numbers are not stable under a change of the membership: when an account joins,
  every participant whose account sorts after it moves up by one, and when an account
  leaves, every participant after it moves down by one.
\<close>

theorem node_numbers_shift:
  assumes "participants_ok ps" and "position ps a = Some i"
  shows "(b \<notin> fst ` set ps \<and> pi_account_id info = b \<longrightarrow>
      find_participant (node_participants L (Participants_insert b info ps)) a =
        Some (of_nat (if b < a then i + 1 else i))) \<and>
    (b \<in> fst ` set ps \<and> b \<noteq> a \<longrightarrow>
      find_participant (node_participants L (Participants_remove b ps)) a =
        Some (of_nat (if b < a then i - 1 else i)))"
proof -
  have wf: "bt_wf ps" using assms(1) by (simp add: participants_ok_def)
  have a: "a \<in> fst ` set ps" using assms(2) position_None [of ps a] by auto
  have "position (bt_remove b ps) a = Some (if b < a then i - 1 else i)"
    if "b \<in> fst ` set ps \<and> b \<noteq> a"
    using position_remove [OF wf not_sym [OF conjunct2 [OF that]] conjunct1 [OF that]] assms(2) by simp
  moreover have "position (bt_insert b info ps) a = Some (if b < a then i + 1 else i)"
    if "b \<notin> fst ` set ps \<and> pi_account_id info = b"
    using position_insert [OF wf _ a] that assms(2) by simp
  ultimately show ?thesis
    using assms(1)
    by (simp add: Participants_insert_def Participants_remove_def participants_ok_insert
        participants_ok_remove find_participant_position del: if_split)
qed

theorem node_numbers_shift_witness:
  "find_participant (node_participants ex_lib (Participants_remove ''a'' ex_two)) ''b'' = Some 0"
proof -
  have "participants_ok ex_two"
    by (auto simp: ex_two_def participants_ok_def bt_wf_def ParticipantInfo_from_def ex_candidate_def)
  from node_numbers_shift [OF this, of "''b''" 1 "''a''" _ ex_lib] show ?thesis
    by (simp add: ex_two_def)
qed

text \<open>
  C40: Votes for a key are not checked for the curve, but the nodes read every vote as a
  secp256k1 key. Once a candidate has voted for a key whose bytes after the tag
  are not a secp256k1 key (an ed25519 key, say), and that vote did not decide, every node panics when it
  reads the contract.
\<close>

theorem node_panics_on_foreign_key_vote:
  assumes "contract_vote_pk env pk c = Inr (c', False)"
    and "secp256k1_try_from L (drop 1 pk) = None"
  shows "\<exists>msg. ProtocolState_try_from L (protocol_state c') = Panics msg"
proof -
  from assms(1) obtain i where c: "protocol_state c = Initializing i"
    by (auto simp: contract_vote_pk_def Let_def split: ProtocolContractState.splits if_splits)
  let ?v = "insert (signer_account_id env) (PkVotes_entry (ics_pk_votes i) pk)"
  let ?i = "i\<lparr>ics_pk_votes := bt_insert pk ?v (ics_pk_votes i)\<rparr>"
  have c': "protocol_state c' = Initializing ?i"
    using assms(1) c by (auto simp: contract_vote_pk_def Let_def split: if_splits)
  have "(pk, ?v) \<in> set (ics_pk_votes ?i)"
    using bt_get_insert [of pk ?v "ics_pk_votes i" pk] by (simp add: map_of_SomeD)
  moreover have "pk_vote_entry L (pk, ?v) = Panics ''Secp256K1PublicKey''"
    by (simp only: pk_vote_entry_def prod.case assms(2)) simp
  ultimately have "\<exists>m. exec_map (pk_vote_entry L) (ics_pk_votes ?i) = Panics m"
    by (rule exec_map_Panics) (auto simp: pk_vote_entry_def accounts_from_contract_def split: if_splits)
  moreover have "exec_map (candidate_entry L) (ics_candidates i) \<noteq> Loops"
    by (rule exec_map_not_Loops) (auto simp: candidate_entry_def)
  ultimately show ?thesis
    unfolding c'
    by (cases "exec_map (candidate_entry L) (ics_candidates i)")
      (auto simp: NInitializing_from_def NCandidates_from_contract_def NPkVotes_from_contract_def)
qed

theorem node_panics_on_foreign_key_vote_witness:
  "\<exists>c' msg. contract_vote_pk (ex_env ''a'') (0 # replicate 32 1)
        (contract_init 2 ex_candidates Map.empty) = Inr (c', False) \<and>
     ProtocolState_try_from ex_lib (protocol_state c') = Panics msg"
proof -
  obtain c' where c': "contract_vote_pk (ex_env ''a'') (0 # replicate 32 1)
      (contract_init 2 ex_candidates Map.empty) = Inr (c', False)"
    by (simp add: contract_vote_pk_def contract_init_def ex_env_def ex_candidates_def
        Candidates_contains_key_def bt_contains_key_def PkVotes_entry_def PkVotes_new_def Let_def)
  from node_panics_on_foreign_key_vote [OF this, of ex_lib] c' show ?thesis
    by (simp add: ex_lib_def)
qed

end
