(* ===== verification/Protocols.thy ===== *)
theory Protocols
  imports Node_Contract_Laws
begin

text \<open>
  The multi-party protocols a node runs are state machines of another crate: they are
  poked for their next action and are given the messages that arrive. Here they are
  elements of a codatatype that may do anything at all, so what is shown of the code
  that drives them holds for every protocol. All the managers drive a protocol in a loop
  that ends when it waits, returns or fails (\<open>drive\<close>), and keep in their tables the
  protocols that wait (\<open>retain_poke\<close>).
\<close>

section \<open>Protocol objects\<close>

datatype 'o Action = Wait | SendMany bytes | SendPrivate Participant bytes | Return 'o

type_synonym ProtocolError = string
type_synonym InitializationError = string

text \<open>\<open>poke\<close> returns an action or an error and changes the object; \<open>message\<close> only changes it.\<close>

codatatype 'o protocol = Protocol
  (poke_of: "(ProtocolError + 'o Action) \<times> 'o protocol")
  (message_of: "Participant \<Rightarrow> bytes \<Rightarrow> 'o protocol")

section \<open>Driving a protocol\<close>

datatype send = ToAll bytes | ToOne Participant bytes

datatype 'o outcome = Waiting "'o protocol" | Failed ProtocolError | Returned 'o

partial_function (option) drive :: "'o protocol \<Rightarrow> (send list \<times> 'o outcome) option" where
  "drive p =
     (case fst (poke_of p) of
        Inl e \<Rightarrow> Some ([], Failed e)
      | Inr Wait \<Rightarrow> Some ([], Waiting (snd (poke_of p)))
      | Inr (SendMany data) \<Rightarrow>
          Option.bind (drive (snd (poke_of p))) (\<lambda>(sends, out). Some (ToAll data # sends, out))
      | Inr (SendPrivate to data) \<Rightarrow>
          Option.bind (drive (snd (poke_of p))) (\<lambda>(sends, out). Some (ToOne to data # sends, out))
      | Inr (Return output) \<Rightarrow> Some ([], Returned output))"

text \<open>A protocol settles when finitely many pokes make it wait, return or fail.\<close>

inductive settles :: "'o protocol \<Rightarrow> bool" where
  failed: "fst (poke_of p) = Inl e \<Longrightarrow> settles p"
| waits: "fst (poke_of p) = Inr Wait \<Longrightarrow> settles p"
| returns: "fst (poke_of p) = Inr (Return out) \<Longrightarrow> settles p"
| sends_many: "fst (poke_of p) = Inr (SendMany d) \<Longrightarrow> settles (snd (poke_of p)) \<Longrightarrow> settles p"
| sends_one: "fst (poke_of p) = Inr (SendPrivate q d) \<Longrightarrow> settles (snd (poke_of p)) \<Longrightarrow> settles p"

lemma settles_drive: "settles p \<Longrightarrow> drive p \<noteq> None"
proof (induction rule: settles.induct)
  case (sends_many p d)
  then show ?case by (subst drive.simps) (auto split: prod.splits)
next
  case (sends_one p q d)
  then show ?case by (subst drive.simps) (auto split: prod.splits)
qed (subst drive.simps, simp)+

lemma drive_settles:
  assumes "drive p = Some r"
  shows "settles p"
proof (rule drive.raw_induct [OF _ assms])
  fix drv :: "'a protocol \<Rightarrow> (send list \<times> 'a outcome) option" and q s
  assume IH: "\<And>x y. drv x = Some y \<Longrightarrow> settles x"
    and body: "(case fst (poke_of q) of
        Inl e \<Rightarrow> Some ([], Failed e)
      | Inr Wait \<Rightarrow> Some ([], Waiting (snd (poke_of q)))
      | Inr (SendMany data) \<Rightarrow>
          Option.bind (drv (snd (poke_of q))) (\<lambda>(sends, out). Some (ToAll data # sends, out))
      | Inr (SendPrivate to data) \<Rightarrow>
          Option.bind (drv (snd (poke_of q))) (\<lambda>(sends, out). Some (ToOne to data # sends, out))
      | Inr (Return output) \<Rightarrow> Some ([], Returned output)) = Some s"
  show "settles q"
  proof (cases "fst (poke_of q)")
    case (Inr a)
    with IH body show ?thesis
      by (cases a) (auto intro: settles.intros split: Option.bind_splits)
  qed (rule settles.failed)
qed

lemma drive_returns_iff: "(\<exists>r. drive p = Some r) \<longleftrightarrow> settles p"
  using settles_drive drive_settles by blast

section \<open>Poking a table of protocols\<close>

text \<open>
  \<open>generators.retain(...)\<close>: every entry is driven in turn by \<open>one\<close>, which returns the
  manager, the entry to keep, the messages to send and the error, if any. Of several
  errors the last one remains in \<open>result\<close>.
\<close>

fun retain_poke ::
  "('m \<Rightarrow> 'k \<Rightarrow> 'g \<Rightarrow> ('m \<times> 'g option \<times> 'msg list \<times> ProtocolError option) exec) \<Rightarrow>
     'm \<Rightarrow> ('k \<times> 'g) list \<Rightarrow> ('m \<times> ('k \<times> 'g) list \<times> 'msg list \<times> ProtocolError option) exec" where
  "retain_poke one m [] = Done (m, [], [], None)"
| "retain_poke one m ((k, g) # gs) =
     exec_bind (one m k g) (\<lambda>(m1, keep, msgs1, err1).
     exec_bind (retain_poke one m1 gs) (\<lambda>(m2, kept, msgs2, err2).
     Done (m2, (case keep of Some g' \<Rightarrow> (k, g') # kept | None \<Rightarrow> kept), msgs1 @ msgs2,
           (case err2 of Some e \<Rightarrow> Some e | None \<Rightarrow> err1))))"

definition poke_result :: "'msg list \<Rightarrow> ProtocolError option \<Rightarrow> ProtocolError + 'msg list" where
  "poke_result msgs err = (case err of None \<Rightarrow> Inr msgs | Some e \<Rightarrow> Inl e)"

text \<open>
  The interface of a manager's step \<open>one\<close>: it either keeps an entry, or drops it with an
  error, or drops it and files its output under the entry's key; \<open>keys_of\<close> are the keys
  under which the manager has filed outputs.
\<close>

locale poking =
  fixes one :: "'m \<Rightarrow> 'k \<Rightarrow> 'g \<Rightarrow> ('m \<times> 'g option \<times> 'msg list \<times> ProtocolError option) exec"
    and keys_of :: "'m \<Rightarrow> 'k set"
  assumes one_kept: "one m k g = Done (m', Some g', msgs, err) \<Longrightarrow> keys_of m' = keys_of m \<and> err = None"
    and one_failed: "one m k g = Done (m', None, msgs, Some e) \<Longrightarrow> keys_of m' = keys_of m"
    and one_filed: "one m k g = Done (m', None, msgs, None) \<Longrightarrow> keys_of m' = insert k (keys_of m)"
begin

lemma retain_poke_kept_subset:
  "retain_poke one m gs = Done (m', kept, msgs, err) \<Longrightarrow> fst ` set kept \<subseteq> fst ` set gs"
proof (induction gs arbitrary: m m' kept msgs err)
  case (Cons kg gs)
  obtain k g where kg: "kg = (k, g)" by (cases kg)
  from Cons.prems obtain m1 keep msgs1 err1 kept2 msgs2 err2 where
    "one m k g = Done (m1, keep, msgs1, err1)"
    "retain_poke one m1 gs = Done (m', kept2, msgs2, err2)"
    "kept = (case keep of Some g' \<Rightarrow> (k, g') # kept2 | None \<Rightarrow> kept2)"
    by (auto simp: kg exec_bind_eq_Done split: prod.splits)
  with Cons.IH [of m1 m' kept2 msgs2 err2] show ?case
    by (auto simp: kg split: option.splits)
qed simp

lemma retain_poke_keys:
  "retain_poke one m gs = Done (m', kept, msgs, None) \<Longrightarrow>
   distinct (map fst gs) \<Longrightarrow>
   keys_of m' = keys_of m \<union> (fst ` set gs - fst ` set kept) \<and> distinct (map fst kept)"
proof (induction gs arbitrary: m m' kept msgs)
  case (Cons kg gs)
  obtain k g where kg: "kg = (k, g)" by (cases kg)
  from Cons.prems obtain m1 keep msgs1 kept2 msgs2 where
    one: "one m k g = Done (m1, keep, msgs1, None)" and
    rest: "retain_poke one m1 gs = Done (m', kept2, msgs2, None)" and
    kept: "kept = (case keep of Some g' \<Rightarrow> (k, g') # kept2 | None \<Rightarrow> kept2)"
    by (auto simp: kg exec_bind_eq_Done split: prod.splits option.splits)
  from Cons.prems(2) have d: "k \<notin> fst ` set gs" "distinct (map fst gs)" by (auto simp: kg)
  from Cons.IH [OF rest d(2)]
  have IH: "keys_of m' = keys_of m1 \<union> (fst ` set gs - fst ` set kept2)" "distinct (map fst kept2)" by auto
  have sub: "fst ` set kept2 \<subseteq> fst ` set gs" by (rule retain_poke_kept_subset [OF rest])
  then have nk: "k \<notin> fst ` set kept2" using d(1) by blast
  show ?case
  proof (cases keep)
    case None
    with one_filed one have "keys_of m1 = insert k (keys_of m)" by blast
    with None kept IH nk show ?thesis by (auto simp: kg)
  next
    case (Some g')
    with one_kept one have "keys_of m1 = keys_of m" by blast
    with Some kept IH nk d show ?thesis by (auto simp: kg image_iff)
  qed
qed simp

lemma retain_poke_distinct:
  "retain_poke one m gs = Done (m', kept, msgs, err) \<Longrightarrow> distinct (map fst gs) \<Longrightarrow> distinct (map fst kept)"
proof (induction gs arbitrary: m m' kept msgs err)
  case (Cons kg gs)
  obtain k g where kg: "kg = (k, g)" by (cases kg)
  from Cons.prems obtain m1 keep msgs1 err1 kept2 msgs2 err2 where
    rest: "retain_poke one m1 gs = Done (m', kept2, msgs2, err2)" and
    "kept = (case keep of Some g' \<Rightarrow> (k, g') # kept2 | None \<Rightarrow> kept2)"
    by (auto simp: kg exec_bind_eq_Done split: prod.splits)
  with Cons.IH [OF rest] Cons.prems(2) retain_poke_kept_subset [OF rest] show ?case
    by (auto simp: kg split: option.splits)
qed simp

end

text \<open>
  When every protocol of the table settles and the manager's step is done with every
  outcome, the loop is done; it reports an error exactly when some protocol failed, and
  otherwise the messages of all the protocols in the order of the table.
\<close>

locale total_poking = poking +
  fixes ready :: "'a \<Rightarrow> 'b \<Rightarrow> 'c \<Rightarrow> bool"
    and fails :: "'c \<Rightarrow> bool"
    and sent :: "'a \<Rightarrow> 'b \<Rightarrow> 'c \<Rightarrow> 'd list"
  assumes one_total: "ready m k g \<Longrightarrow>
      \<exists>m' keep err. one m k g = Done (m', keep, sent m k g, err) \<and> (err = None \<longleftrightarrow> \<not> fails g) \<and>
        ready m' = ready m \<and> sent m' = sent m"
begin

lemma retain_poke_total:
  "\<forall>(k, g) \<in> set gs. ready m k g \<Longrightarrow>
   \<exists>m' kept err. retain_poke one m gs = Done (m', kept, concat (map (\<lambda>(k, g). sent m k g) gs), err) \<and>
     (err = None \<longleftrightarrow> (\<forall>(k, g) \<in> set gs. \<not> fails g))"
proof (induction gs arbitrary: m)
  case (Cons kg gs)
  obtain k g where kg: "kg = (k, g)" by (cases kg)
  from Cons.prems have "ready m k g" by (simp add: kg)
  then obtain m1 keep err where one: "one m k g = Done (m1, keep, sent m k g, err)"
    "err = None \<longleftrightarrow> \<not> fails g" "ready m1 = ready m" "sent m1 = sent m"
    using one_total by blast
  with Cons.prems have "\<forall>(k, g) \<in> set gs. ready m1 k g" by simp
  from Cons.IH [OF this] obtain m2 kept err2 where
    "retain_poke one m1 gs = Done (m2, kept, concat (map (\<lambda>(k, g). sent m1 k g) gs), err2)"
    "err2 = None \<longleftrightarrow> (\<forall>(k, g) \<in> set gs. \<not> fails g)" by blast
  with one show ?case by (auto simp: kg split: option.splits)
qed simp

end

end
