(* ===== verification/Triple.thy ===== *)
theory Triple
  imports Protocols
begin

text \<open>
  The manager of Beaver triples, \<^verbatim>\<open>node/src/protocol/triple.rs\<close>. The protocol that
  generates a triple, the hash that assigns a finished triple to its owner and the random
  ids are arguments: \<open>T\<close> holds the functions of other crates, and each call of \<open>generate\<close>
  is given the id drawn for it.
\<close>

section \<open>Data\<close>

type_synonym TripleId = u64
type_synonym TripleShare = bytes

record TriplePub =
  tp_big_a :: AffinePoint
  tp_big_b :: AffinePoint
  tp_big_c :: AffinePoint

type_synonym TripleOutput = "TripleShare \<times> TriplePub"

record Triple =
  t_id :: TripleId
  t_share :: TripleShare
  t_public :: TriplePub

record TripleManager =
  tm_triples :: "(TripleId, Triple) hmap"
  tm_generators :: "(TripleId, TripleOutput protocol) hmap"
  tm_mine :: "TripleId list"
  tm_participants :: "Participant list"
  tm_me :: Participant
  tm_threshold :: nat
  tm_epoch :: u64

record TripleMessage =
  tmsg_id :: TripleId
  tmsg_epoch :: u64
  tmsg_from :: Participant
  tmsg_data :: bytes

text \<open>
  Functions of other crates: cait-sith's constructor, the point encoding and HighwayHash. The
  constructor draws random coins; it is given the id so that every protocol may have its own.
\<close>

record triple_lib =
  generate_triple :: "TripleId \<Rightarrow> Participant list \<Rightarrow> Participant \<Rightarrow> nat \<Rightarrow> InitializationError + TripleOutput protocol"
  point_to_bytes :: "AffinePoint \<Rightarrow> bytes"
  hash64 :: "bytes \<Rightarrow> u64"

section \<open>Operations\<close>

definition TripleManager_new :: "Participant list \<Rightarrow> Participant \<Rightarrow> nat \<Rightarrow> u64 \<Rightarrow> TripleManager" where
  "TripleManager_new participants me threshold epoch =
     \<lparr>tm_triples = [], tm_generators = [], tm_mine = [], tm_participants = participants,
      tm_me = me, tm_threshold = threshold, tm_epoch = epoch\<rparr>"

definition triple_len :: "TripleManager \<Rightarrow> nat" where
  "triple_len m = length (tm_triples m)"

definition triple_my_len :: "TripleManager \<Rightarrow> nat" where
  "triple_my_len m = length (tm_mine m)"

definition triple_potential_len :: "TripleManager \<Rightarrow> nat" where
  "triple_potential_len m = triple_len m + length (tm_generators m)"

definition triple_generate ::
  "triple_lib \<Rightarrow> TripleId \<Rightarrow> TripleManager \<Rightarrow> TripleManager \<times> (InitializationError + unit)" where
  "triple_generate T tid m =
     (case generate_triple T tid (tm_participants m) (tm_me m) (tm_threshold m) of
        Inl e \<Rightarrow> (m, Inl e)
      | Inr protocol \<Rightarrow> (m\<lparr>tm_generators := hm_insert tid protocol (tm_generators m)\<rparr>, Inr ()))"

text \<open>The second \<open>remove\<close> acts on the map without the first triple.\<close>

definition take_two ::
  "TripleId \<Rightarrow> TripleId \<Rightarrow> TripleManager \<Rightarrow> (TripleManager \<times> (TripleId + Triple \<times> Triple)) exec" where
  "take_two id0 id1 m =
     (if \<not> hm_contains_key (tm_triples m) id0 then Done (m, Inl id0)
      else if \<not> hm_contains_key (tm_triples m) id1 then Done (m, Inl id1)
      else
        exec_bind (unwrap ''triple'' (hm_get (tm_triples m) id0)) (\<lambda>t0.
        let ts = hm_remove id0 (tm_triples m) in
        exec_bind (unwrap ''triple'' (hm_get ts id1)) (\<lambda>t1.
        Done (m\<lparr>tm_triples := hm_remove id1 ts\<rparr>, Inr (t0, t1)))))"

definition take_two_mine :: "TripleManager \<Rightarrow> (TripleManager \<times> (Triple \<times> Triple) option) exec" where
  "take_two_mine m =
     (case tm_mine m of
        id0 # id1 # rest \<Rightarrow>
          exec_bind (take_two id0 id1 (m\<lparr>tm_mine := rest\<rparr>)) (\<lambda>(m', r).
          Done (m', case r of Inl _ \<Rightarrow> None | Inr ts \<Rightarrow> Some ts))
      | _ \<Rightarrow> Done (m, None))"

text \<open>
  The result \<open>Some protocol\<close> of \<open>get_or_generate\<close> is a reference to the entry in the
  table, through which the caller delivers a message; the model returns whether there is
  one, and \<open>triple_message\<close> delivers.
\<close>

definition triple_get_or_generate ::
  "triple_lib \<Rightarrow> TripleId \<Rightarrow> TripleManager \<Rightarrow> TripleManager \<times> (InitializationError + bool)" where
  "triple_get_or_generate T tid m =
     (if hm_contains_key (tm_triples m) tid then (m, Inr False)
      else (case hm_get (tm_generators m) tid of
          None \<Rightarrow>
            (case generate_triple T tid (tm_participants m) (tm_me m) (tm_threshold m) of
               Inl e \<Rightarrow> (m, Inl e)
             | Inr protocol \<Rightarrow> (m\<lparr>tm_generators := hm_insert tid protocol (tm_generators m)\<rparr>, Inr True))
        | Some _ \<Rightarrow> (m, Inr True)))"

definition triple_message :: "TripleId \<Rightarrow> Participant \<Rightarrow> bytes \<Rightarrow> TripleManager \<Rightarrow> TripleManager" where
  "triple_message tid from data m =
     (case hm_get (tm_generators m) tid of
        None \<Rightarrow> m
      | Some protocol \<Rightarrow>
          m\<lparr>tm_generators := hm_insert tid (message_of protocol from data) (tm_generators m)\<rparr>)"

text \<open>The messages of one action of a protocol, in the order they are pushed.\<close>

fun triple_sends :: "TripleManager \<Rightarrow> TripleId \<Rightarrow> send \<Rightarrow> (Participant \<times> TripleMessage) list" where
  "triple_sends m tid (ToAll data) =
     map (\<lambda>p. (p, \<lparr>tmsg_id = tid, tmsg_epoch = tm_epoch m, tmsg_from = tm_me m, tmsg_data = data\<rparr>))
       (tm_participants m)"
| "triple_sends m tid (ToOne p data) =
     [(p, \<lparr>tmsg_id = tid, tmsg_epoch = tm_epoch m, tmsg_from = tm_me m, tmsg_data = data\<rparr>)]"

text \<open>
  The owner of a finished triple. \<open>entropy % num_participants\<close> panics when there are no
  participants.
\<close>

definition triple_owner :: "triple_lib \<Rightarrow> Participant list \<Rightarrow> TriplePub \<Rightarrow> Participant exec" where
  "triple_owner T participants public =
     (let entropy = unat (hash64 T (point_to_bytes T (tp_big_c public)));
          num_participants = length participants
      in if num_participants = 0 then Panics ''remainder with a divisor of zero''
         else Done (participants ! (entropy mod num_participants)))"

definition triple_poke_one ::
  "triple_lib \<Rightarrow> TripleManager \<Rightarrow> TripleId \<Rightarrow> TripleOutput protocol \<Rightarrow>
     (TripleManager \<times> TripleOutput protocol option \<times> (Participant \<times> TripleMessage) list \<times>
      ProtocolError option) exec" where
  "triple_poke_one T m tid protocol =
     exec_bind (of_option (drive protocol)) (\<lambda>(sends, out).
     let messages = concat (map (triple_sends m tid) sends) in
     case out of
       Failed e \<Rightarrow> Done (m, None, messages, Some e)
     | Waiting protocol' \<Rightarrow> Done (m, Some protocol', messages, None)
     | Returned output \<Rightarrow>
         exec_bind (triple_owner T (tm_participants m) (snd output)) (\<lambda>owner.
         let triple = \<lparr>t_id = tid, t_share = fst output, t_public = snd output\<rparr>;
             m1 = (if owner = tm_me m then m\<lparr>tm_mine := tm_mine m @ [tid]\<rparr> else m)
         in Done (m1\<lparr>tm_triples := hm_insert tid triple (tm_triples m1)\<rparr>, None, messages, None)))"

definition triple_poke ::
  "triple_lib \<Rightarrow> TripleManager \<Rightarrow>
     (TripleManager \<times> (ProtocolError + (Participant \<times> TripleMessage) list)) exec" where
  "triple_poke T m =
     exec_bind (retain_poke (triple_poke_one T) m (tm_generators m)) (\<lambda>(m', kept, messages, err).
     Done (m'\<lparr>tm_generators := kept\<rparr>, poke_result messages err))"

section \<open>Laws\<close>

definition triples_ok :: "TripleManager \<Rightarrow> bool" where
  "triples_ok m \<longleftrightarrow> hm_wf (tm_triples m) \<and> hm_wf (tm_generators m) \<and>
     (\<forall>(k, t) \<in> set (tm_triples m). t_id t = k)"

lemma triple_poke_one_cases:
  assumes "triple_poke_one T m k g = Done (m', keep, msgs, err)"
  shows "(m' = m \<and> keep \<noteq> None \<and> err = None) \<or> (m' = m \<and> keep = None \<and> err \<noteq> None) \<or>
    (\<exists>t mine. keep = None \<and> err = None \<and> t_id t = k \<and>
      m' = m\<lparr>tm_mine := mine, tm_triples := hm_insert k t (tm_triples m)\<rparr>)"
proof -
  obtain sends out where d: "drive g = Some (sends, out)"
    using assms by (cases "drive g") (auto simp: triple_poke_one_def)
  show ?thesis
  proof (cases out)
    case (Returned res)
    with assms d obtain own where "triple_owner T (tm_participants m) (snd res) = Done own"
      by (cases "triple_owner T (tm_participants m) (snd res)") (auto simp: triple_poke_one_def)
    with assms d Returned show ?thesis
      by (auto simp: triple_poke_one_def Let_def
          intro!: exI [of _ "\<lparr>t_id = k, t_share = fst res, t_public = snd res\<rparr>"]
            exI [of _ "if own = tm_me m then tm_mine m @ [k] else tm_mine m"])
  qed (use assms d in \<open>auto simp: triple_poke_one_def\<close>)
qed

interpretation triple_poking: poking "triple_poke_one T" "\<lambda>m. fst ` set (tm_triples m)"
  by unfold_locales (drule triple_poke_one_cases, elim disjE exE conjE, simp_all add: hm_keys_insert)+

lemma triple_poke_one_ok:
  "triple_poke_one T m k g = Done (m', keep, msgs, err) \<Longrightarrow> triples_ok m \<Longrightarrow>
   triples_ok m' \<and> tm_generators m' = tm_generators m"
  by (auto dest!: triple_poke_one_cases simp: triples_ok_def hm_set_insert)

lemma triple_retain_ok:
  "retain_poke (triple_poke_one T) m gs = Done (m', kept, msgs, err) \<Longrightarrow> triples_ok m \<Longrightarrow>
   triples_ok m'"
proof (induction gs arbitrary: m m' kept msgs err)
  case (Cons kg gs)
  obtain k g where kg: "kg = (k, g)" by (cases kg)
  from Cons.prems(1) obtain m1 keep msgs1 err1 kept2 msgs2 err2 where
    "triple_poke_one T m k g = Done (m1, keep, msgs1, err1)"
    "retain_poke (triple_poke_one T) m1 gs = Done (m', kept2, msgs2, err2)"
    by (auto simp: kg exec_bind_eq_Done split: prod.splits)
  with Cons.IH [of m1 m' kept2 msgs2 err2] Cons.prems(2) triple_poke_one_ok [of T m k g m1]
  show ?case by blast
qed simp

lemma card_hm_keys: "hm_wf m \<Longrightarrow> card (fst ` set m) = length m"
  unfolding hm_wf_def by (metis distinct_card length_map list.set_map)

lemma triple_poke_accounting:
  assumes "triples_ok m" and "fst ` set (tm_triples m) \<inter> fst ` set (tm_generators m) = {}"
    and "triple_poke T m = Done (m', Inr msgs)"
  shows "triples_ok m'" and "fst ` set (tm_triples m') \<inter> fst ` set (tm_generators m') = {}"
    and "triple_potential_len m' = triple_potential_len m"
proof -
  from assms(3) obtain m1 kept where
    r: "retain_poke (triple_poke_one T) m (tm_generators m) = Done (m1, kept, msgs, None)" and
    m': "m' = m1\<lparr>tm_generators := kept\<rparr>"
    by (auto simp: triple_poke_def exec_bind_eq_Done poke_result_def split: prod.splits option.splits)
  have wf: "hm_wf (tm_generators m)" "hm_wf (tm_triples m)" using assms(1) by (auto simp: triples_ok_def)
  have keys: "fst ` set (tm_triples m1) = fst ` set (tm_triples m) \<union> (fst ` set (tm_generators m) - fst ` set kept)"
    and dk: "distinct (map fst kept)"
    using triple_poking.retain_poke_keys [OF r] wf by (auto simp: hm_wf_def)
  have sub: "fst ` set kept \<subseteq> fst ` set (tm_generators m)"
    by (rule triple_poking.retain_poke_kept_subset [OF r])
  have ok1: "triples_ok m1" by (rule triple_retain_ok [OF r assms(1)])
  with dk show "triples_ok m'" by (simp add: m' triples_ok_def hm_wf_def)
  from keys sub assms(2) show "fst ` set (tm_triples m') \<inter> fst ` set (tm_generators m') = {}"
    by (auto simp: m')
  have "length (tm_triples m1) = card (fst ` set (tm_triples m1))"
    using ok1 by (simp add: triples_ok_def card_hm_keys)
  also have "\<dots> = card (fst ` set (tm_triples m)) + card (fst ` set (tm_generators m) - fst ` set kept)"
    unfolding keys using assms(2) by (intro card_Un_disjoint) auto
  also have "\<dots> = length (tm_triples m) + (length (tm_generators m) - length kept)"
    using sub dk wf by (simp add: card_Diff_subset card_hm_keys hm_wf_def)
  moreover have "length kept \<le> length (tm_generators m)"
    using sub dk wf card_mono [OF _ sub] by (simp add: card_hm_keys hm_wf_def)
  ultimately show "triple_potential_len m' = triple_potential_len m"
    by (simp add: triple_potential_len_def triple_len_def m')
qed

lemma triple_sends_cong:
  "tm_participants m' = tm_participants m \<Longrightarrow> tm_me m' = tm_me m \<Longrightarrow> tm_epoch m' = tm_epoch m \<Longrightarrow>
   triple_sends m' = triple_sends m"
  by (intro ext, case_tac xa) auto

definition protocol_fails :: "'o protocol \<Rightarrow> bool" where
  "protocol_fails g \<longleftrightarrow> (\<exists>sends e. drive g = Some (sends, Failed e))"

definition triple_sent :: "TripleManager \<Rightarrow> TripleId \<Rightarrow> TripleOutput protocol \<Rightarrow> (Participant \<times> TripleMessage) list" where
  "triple_sent m k g = (case drive g of None \<Rightarrow> [] | Some (sends, _) \<Rightarrow> concat (map (triple_sends m k) sends))"

interpretation triple_total: total_poking "triple_poke_one T" "\<lambda>m. fst ` set (tm_triples m)"
  "\<lambda>m k g. settles g \<and> tm_participants m \<noteq> []" protocol_fails triple_sent
proof unfold_locales
  fix m :: TripleManager and k and g :: "TripleOutput protocol"
  assume a: "settles g \<and> tm_participants m \<noteq> []"
  then obtain sends out where d: "drive g = Some (sends, out)"
    using settles_drive by (metis option.exhaust surj_pair)
  have c: "triple_sent m' = triple_sent m"
    if "tm_participants m' = tm_participants m" "tm_me m' = tm_me m" "tm_epoch m' = tm_epoch m" for m'
    unfolding triple_sent_def fun_eq_iff triple_sends_cong [OF that] by simp
  show "\<exists>m' keep err. triple_poke_one T m k g = Done (m', keep, triple_sent m k g, err) \<and>
      (err = None \<longleftrightarrow> \<not> protocol_fails g) \<and>
      (\<lambda>k g. settles g \<and> tm_participants m' \<noteq> []) = (\<lambda>k g. settles g \<and> tm_participants m \<noteq> []) \<and>
      triple_sent m' = triple_sent m"
  proof (cases out)
    case (Returned res)
    with a d obtain own where own: "triple_owner T (tm_participants m) (snd res) = Done own"
      by (auto simp: triple_owner_def Let_def)
    let ?m1 = "if own = tm_me m then m\<lparr>tm_mine := tm_mine m @ [k]\<rparr> else m"
    let ?m' = "?m1\<lparr>tm_triples := hm_insert k
      \<lparr>t_id = k, t_share = fst res, t_public = snd res\<rparr> (tm_triples ?m1)\<rparr>"
    have "triple_poke_one T m k g = Done (?m', None, triple_sent m k g, None)"
      using Returned d own by (simp add: triple_poke_one_def triple_sent_def Let_def)
    moreover have "triple_sent ?m' = triple_sent m" by (rule c) simp_all
    moreover have "\<not> protocol_fails g" using Returned d by (simp add: protocol_fails_def)
    moreover have "tm_participants ?m' = tm_participants m" by simp
    ultimately show ?thesis by metis
  qed (use d in \<open>auto simp: triple_poke_one_def triple_sent_def protocol_fails_def\<close>)
qed

lemma take_two_cases:
  "take_two id0 id1 m =
    (if \<not> hm_contains_key (tm_triples m) id0 then Done (m, Inl id0)
     else if \<not> hm_contains_key (tm_triples m) id1 then Done (m, Inl id1)
     else if id0 = id1 then Panics ''triple''
     else Done (m\<lparr>tm_triples := hm_remove id1 (hm_remove id0 (tm_triples m))\<rparr>,
                Inr (the (hm_get (tm_triples m) id0), the (hm_get (tm_triples m) id1))))"
  by (auto simp: take_two_def hm_contains_key_def Let_def hm_get_remove)


section \<open>Properties of the triple manager\<close>

text \<open>
  \<open>take_two\<close> on every branch. It removes both triples and returns them when both ids
  are present and different; it changes nothing and names an absent id when one is
  missing; asked for one present id twice it panics, since the second removal finds
  nothing. The triples it returned are no longer in the manager, all others are.
\<close>

theorem take_two_exact:
  "case take_two id0 id1 m of
     Loops \<Rightarrow> False
   | Panics _ \<Rightarrow> id0 = id1 \<and> hm_get (tm_triples m) id0 \<noteq> None
   | Done (m', Inl missing) \<Rightarrow> m' = m \<and> missing \<in> {id0, id1} \<and> hm_get (tm_triples m) missing = None
   | Done (m', Inr (t0, t1)) \<Rightarrow>
       id0 \<noteq> id1 \<and> hm_get (tm_triples m) id0 = Some t0 \<and> hm_get (tm_triples m) id1 = Some t1 \<and>
       hm_get (tm_triples m') = (hm_get (tm_triples m))(id0 := None, id1 := None) \<and>
       tm_mine m' = tm_mine m \<and> tm_generators m' = tm_generators m"
  by (auto simp: take_two_cases hm_contains_key_def hm_get_remove fun_eq_iff)

text \<open>
  A finished triple is owned by exactly one node. Whatever the participants' own
  protocol objects returned for it, as long as they agree on the public point, exactly
  one of the participants files the id among its own triples.
\<close>

theorem triple_owned_once:
  assumes "distinct ps" and "ps \<noteq> []"
    and "\<forall>p \<in> set ps. tm_me (m p) = p \<and> tm_participants (m p) = ps \<and>
           (\<exists>sends share pub. drive (g p) = Some (sends, Returned (share, pub)) \<and> tp_big_c pub = big_c)"
  shows "\<exists>!p. p \<in> set ps \<and>
    (\<exists>m' msgs. triple_poke_one T (m p) k (g p) = Done (m', None, msgs, None) \<and>
               tm_mine m' = tm_mine (m p) @ [k])"
proof -
  let ?o = "ps ! (unat (hash64 T (point_to_bytes T big_c)) mod length ps)"
  have poke: "triple_poke_one T (m p) k (g p) = Done (m', None, msgs, None) \<and>
        tm_mine m' = tm_mine (m p) @ [k] \<Longrightarrow> p = ?o"
    "\<exists>m' msgs. triple_poke_one T (m ?o) k (g ?o) = Done (m', None, msgs, None) \<and>
        tm_mine m' = tm_mine (m ?o) @ [k]" if "p \<in> set ps" for p m' msgs
  proof -
    have r: "\<exists>sends share pub. drive (g q) = Some (sends, Returned (share, pub)) \<and>
        triple_owner T (tm_participants (m q)) pub = Done ?o \<and> tm_me (m q) = q" if "q \<in> set ps" for q
      using assms(2,3) that by (auto simp: triple_owner_def Let_def)
    show "triple_poke_one T (m p) k (g p) = Done (m', None, msgs, None) \<and>
        tm_mine m' = tm_mine (m p) @ [k] \<Longrightarrow> p = ?o"
      using r [OF that] by (auto simp: triple_poke_one_def Let_def split: if_splits)
    have "?o \<in> set ps" using assms(2) by (simp add: nth_mem)
    from r [OF this] show "\<exists>m' msgs. triple_poke_one T (m ?o) k (g ?o) = Done (m', None, msgs, None) \<and>
        tm_mine m' = tm_mine (m ?o) @ [k]"
      by (auto simp: triple_poke_one_def Let_def)
  qed
  have o: "?o \<in> set ps" using assms(2) by (simp add: nth_mem)
  show ?thesis
    by (rule ex1I [of _ ?o]) (use poke o in blast)+
qed

text \<open>A protocol that returns at once, and the managers of a network of two.\<close>

primcorec ex_returns :: "'o \<Rightarrow> 'o protocol" where
  "ex_returns out = Protocol (Inr (Return out), ex_returns out) (\<lambda>_ _. ex_returns out)"

primcorec ex_sends :: "bytes \<Rightarrow> 'o protocol \<Rightarrow> 'o protocol" where
  "ex_sends d p = Protocol (Inr (SendMany d), p) (\<lambda>_ _. ex_sends d p)"

primcorec ex_fails :: "ProtocolError \<Rightarrow> 'o protocol" where
  "ex_fails e = Protocol (Inl e, ex_fails e) (\<lambda>_ _. ex_fails e)"

lemma drive_ex [simp]:
  "drive (ex_returns out) = Some ([], Returned out)" "drive (ex_fails e) = Some ([], Failed e)"
  "drive (ex_sends d (ex_returns out)) = Some ([ToAll d], Returned out)"
proof -
  show 1: "drive (ex_returns out) = Some ([], Returned out)" by (subst drive.simps) simp
  show "drive (ex_fails e) = Some ([], Failed e)" by (subst drive.simps) simp
  show "drive (ex_sends d (ex_returns out)) = Some ([ToAll d], Returned out)"
    by (subst drive.simps) (simp add: 1)
qed

definition ex_pub :: TriplePub where
  "ex_pub = \<lparr>tp_big_a = [], tp_big_b = [], tp_big_c = [3]\<rparr>"

definition ex_triple_lib :: triple_lib where
  "ex_triple_lib = \<lparr>generate_triple = (\<lambda>_ _ _ _. Inr (ex_sends [9] (ex_returns ([], ex_pub)))),
     point_to_bytes = id, hash64 = (\<lambda>b. of_nat (length b))\<rparr>"

theorem triple_owned_once_witness:
  "\<exists>!p. p \<in> set [0, 1] \<and>
    (\<exists>m' msgs. triple_poke_one ex_triple_lib (TripleManager_new [0, 1] p 2 0) 7 (ex_returns ([], ex_pub)) =
        Done (m', None, msgs, None) \<and> tm_mine m' = tm_mine (TripleManager_new [0, 1] p 2 0) @ [7])"
  by (rule triple_owned_once [of "[0, 1]" "\<lambda>p. TripleManager_new [0, 1] p 2 0" "\<lambda>_. ex_returns ([], ex_pub)" "[3]"])
    (simp_all add: TripleManager_new_def ex_pub_def)

text \<open>
  C26: Poking loses nothing while no protocol fails: the finished triples plus the running
  protocols are as many as before, their ids stay disjoint, and every triple is filed
  under its own id.
\<close>

theorem triple_poke_conserves:
  assumes "triples_ok m" and "fst ` set (tm_triples m) \<inter> fst ` set (tm_generators m) = {}"
    and "triple_poke T m = Done (m', Inr msgs)"
  shows "triple_potential_len m' = triple_potential_len m \<and> triples_ok m' \<and>
    fst ` set (tm_triples m') \<inter> fst ` set (tm_generators m') = {}"
  using triple_poke_accounting [OF assms] by blast

definition ex_triple_manager :: "TripleOutput protocol \<Rightarrow> TripleManager" where
  "ex_triple_manager p = (TripleManager_new [0, 1] 0 2 0)\<lparr>tm_generators := [(7, p)]\<rparr>"

theorem triple_poke_conserves_witness:
  "\<exists>m' msgs. triple_poke ex_triple_lib (ex_triple_manager (ex_returns ([], ex_pub))) = Done (m', Inr msgs) \<and>
     triple_potential_len m' = 1"
proof -
  obtain m' msgs where p: "triple_poke ex_triple_lib (ex_triple_manager (ex_returns ([], ex_pub))) = Done (m', Inr msgs)"
    by (simp add: triple_poke_def ex_triple_manager_def TripleManager_new_def triple_poke_one_def
        triple_owner_def Let_def poke_result_def)
  from triple_poke_conserves [OF _ _ this] p show ?thesis
    by (simp add: ex_triple_manager_def TripleManager_new_def triples_ok_def hm_wf_def
        triple_potential_len_def triple_len_def)
qed

text \<open>
  C27: Poking returns whenever the running protocols settle. If none of them fails the
  result is the list of all their messages, in the order of the table; if one of them
  fails the result is an error, and the messages of all the others, whose protocols have
  moved on, are gone.
\<close>

theorem triple_poke_total:
  assumes "\<forall>(k, g) \<in> set (tm_generators m). settles g" and "tm_participants m \<noteq> []"
  shows "\<exists>m'. if \<exists>(k, g) \<in> set (tm_generators m). protocol_fails g
    then \<exists>e. triple_poke T m = Done (m', Inl e)
    else triple_poke T m = Done (m', Inr (concat (map (\<lambda>(k, g). triple_sent m k g) (tm_generators m))))"
proof -
  have "\<forall>(k, g) \<in> set (tm_generators m). settles g \<and> tm_participants m \<noteq> []"
    using assms by auto
  from triple_total.retain_poke_total [OF this, of T] obtain m1 kept err where
    "retain_poke (triple_poke_one T) m (tm_generators m) =
       Done (m1, kept, concat (map (\<lambda>(k, g). triple_sent m k g) (tm_generators m)), err)"
    "err = None \<longleftrightarrow> (\<forall>(k, g) \<in> set (tm_generators m). \<not> protocol_fails g)" by blast
  then show ?thesis
    by (cases err) (auto simp: triple_poke_def poke_result_def)
qed

theorem triple_poke_total_witness:
  "\<exists>m' e. triple_poke ex_triple_lib ((ex_triple_manager (ex_sends [9] (ex_returns ([], ex_pub))))
     \<lparr>tm_generators := [(7, ex_sends [9] (ex_returns ([], ex_pub))), (8, ex_fails ''bad'')]\<rparr>) = Done (m', Inl e)"
proof -
  let ?m = "(ex_triple_manager (ex_sends [9] (ex_returns ([], ex_pub))))
     \<lparr>tm_generators := [(7, ex_sends [9] (ex_returns ([], ex_pub))), (8, ex_fails ''bad'')]\<rparr>"
  have "settles (ex_sends [9] (ex_returns ([], ex_pub)))" "settles (ex_fails ''bad'' :: TripleOutput protocol)"
    by (auto intro!: drive_settles)
  then have "\<forall>(k, g) \<in> set (tm_generators ?m). settles g" by simp
  moreover have "tm_participants ?m \<noteq> []" by (simp add: ex_triple_manager_def TripleManager_new_def)
  moreover have "protocol_fails (ex_fails ''bad'' :: TripleOutput protocol)" by (simp add: protocol_fails_def)
  ultimately show ?thesis
    using triple_poke_total [of ?m ex_triple_lib] by (simp split: if_splits)
qed

end
