(* ===== verification/Presignature.thy ===== *)
theory Presignature
  imports Triple
begin

text \<open>
  The manager of presignatures, \<^verbatim>\<open>node/src/protocol/presignature.rs\<close>. A presignature is
  generated from two triples, which leave the triple manager for good.
\<close>

section \<open>Data\<close>

type_synonym PresignatureId = u64
type_synonym Scalar = int
type_synonym SecretKeyShare = Scalar
type_synonym PublicKey = AffinePoint

record PresignOutput =
  po_big_r :: AffinePoint
  po_k :: Scalar
  po_sigma :: Scalar

record Presignature =
  ps_id :: PresignatureId
  ps_output :: PresignOutput

record PresignatureGenerator =
  pg_protocol :: "PresignOutput protocol"
  pg_triple0 :: TripleId
  pg_triple1 :: TripleId
  pg_mine :: bool

datatype GenerationError =
    AlreadyGenerated
  | TripleIsMissing TripleId
  | CaitSithInitializationError InitializationError

record PresignatureManager =
  pm_presignatures :: "(PresignatureId, Presignature) hmap"
  pm_generators :: "(PresignatureId, PresignatureGenerator) hmap"
  pm_mine :: "PresignatureId list"
  pm_participants :: "Participant list"
  pm_me :: Participant
  pm_threshold :: nat
  pm_epoch :: u64

record PresignatureMessage =
  pmsg_id :: PresignatureId
  pmsg_triple0 :: TripleId
  pmsg_triple1 :: TripleId
  pmsg_epoch :: u64
  pmsg_from :: Participant
  pmsg_data :: bytes

text \<open>\<open>PresignArguments\<close> of cait-sith, and its constructor \<open>presign\<close>.\<close>

record PresignArguments =
  pa_triple0 :: TripleOutput
  pa_triple1 :: TripleOutput
  pa_private_share :: SecretKeyShare
  pa_public_key :: PublicKey
  pa_threshold :: nat

type_synonym presign_lib =
  "Participant list \<Rightarrow> Participant \<Rightarrow> PresignArguments \<Rightarrow> InitializationError + PresignOutput protocol"

section \<open>Operations\<close>

definition PresignatureManager_new ::
  "Participant list \<Rightarrow> Participant \<Rightarrow> nat \<Rightarrow> u64 \<Rightarrow> PresignatureManager" where
  "PresignatureManager_new participants me threshold epoch =
     \<lparr>pm_presignatures = [], pm_generators = [], pm_mine = [], pm_participants = participants,
      pm_me = me, pm_threshold = threshold, pm_epoch = epoch\<rparr>"

definition presignature_len :: "PresignatureManager \<Rightarrow> nat" where
  "presignature_len m = length (pm_presignatures m)"

definition presignature_my_len :: "PresignatureManager \<Rightarrow> nat" where
  "presignature_my_len m = length (pm_mine m)"

definition presignature_potential_len :: "PresignatureManager \<Rightarrow> nat" where
  "presignature_potential_len m = length (pm_presignatures m) + length (pm_generators m)"

definition presignature_generate_internal ::
  "presign_lib \<Rightarrow> Participant list \<Rightarrow> Participant \<Rightarrow> nat \<Rightarrow> Triple \<Rightarrow> Triple \<Rightarrow> PublicKey \<Rightarrow>
     SecretKeyShare \<Rightarrow> bool \<Rightarrow> InitializationError + PresignatureGenerator" where
  "presignature_generate_internal presign participants me threshold triple0 triple1 public_key
       private_share mine =
     res_bind (presign participants me
        \<lparr>pa_triple0 = (t_share triple0, t_public triple0),
         pa_triple1 = (t_share triple1, t_public triple1),
         pa_private_share = private_share, pa_public_key = public_key,
         pa_threshold = threshold\<rparr>) (\<lambda>protocol.
     Inr \<lparr>pg_protocol = protocol, pg_triple0 = t_id triple0, pg_triple1 = t_id triple1,
          pg_mine = mine\<rparr>)"

definition presignature_generate ::
  "presign_lib \<Rightarrow> PresignatureId \<Rightarrow> Triple \<Rightarrow> Triple \<Rightarrow> PublicKey \<Rightarrow> SecretKeyShare \<Rightarrow>
     PresignatureManager \<Rightarrow> PresignatureManager \<times> (InitializationError + unit)" where
  "presignature_generate presign pid triple0 triple1 public_key private_share m =
     (case presignature_generate_internal presign (pm_participants m) (pm_me m) (pm_threshold m)
             triple0 triple1 public_key private_share True of
        Inl e \<Rightarrow> (m, Inl e)
      | Inr generator \<Rightarrow> (m\<lparr>pm_generators := hm_insert pid generator (pm_generators m)\<rparr>, Inr ()))"

text \<open>
  As for the triples, the returned reference is the entry of the table under the id. The
  triple manager changes even when the constructor of the protocol then fails.
\<close>

definition presignature_get_or_generate ::
  "presign_lib \<Rightarrow> PresignatureId \<Rightarrow> TripleId \<Rightarrow> TripleId \<Rightarrow> PublicKey \<Rightarrow> SecretKeyShare \<Rightarrow>
     TripleManager \<Rightarrow> PresignatureManager \<Rightarrow>
     (TripleManager \<times> PresignatureManager \<times> (GenerationError + unit)) exec" where
  "presignature_get_or_generate presign pid triple0 triple1 public_key private_share tm m =
     (if hm_contains_key (pm_presignatures m) pid then Done (tm, m, Inl AlreadyGenerated)
      else (case hm_get (pm_generators m) pid of
          None \<Rightarrow>
            exec_bind (take_two triple0 triple1 tm) (\<lambda>(tm', r).
            case r of
              Inl missing_triple_id \<Rightarrow> Done (tm', m, Inl (TripleIsMissing missing_triple_id))
            | Inr (t0, t1) \<Rightarrow>
                (case presignature_generate_internal presign (pm_participants m) (pm_me m)
                        (pm_threshold m) t0 t1 public_key private_share False of
                   Inl e \<Rightarrow> Done (tm', m, Inl (CaitSithInitializationError e))
                 | Inr generator \<Rightarrow>
                     Done (tm', m\<lparr>pm_generators := hm_insert pid generator (pm_generators m)\<rparr>, Inr ())))
        | Some _ \<Rightarrow> Done (tm, m, Inr ())))"

definition presignature_message ::
  "PresignatureId \<Rightarrow> Participant \<Rightarrow> bytes \<Rightarrow> PresignatureManager \<Rightarrow> PresignatureManager" where
  "presignature_message pid from data m =
     (case hm_get (pm_generators m) pid of
        None \<Rightarrow> m
      | Some g \<Rightarrow> m\<lparr>pm_generators :=
          hm_insert pid (g\<lparr>pg_protocol := message_of (pg_protocol g) from data\<rparr>) (pm_generators m)\<rparr>)"

definition take_mine :: "PresignatureManager \<Rightarrow> (PresignatureManager \<times> Presignature option) exec" where
  "take_mine m =
     (case pm_mine m of
        [] \<Rightarrow> Done (m, None)
      | my_presignature_id # rest \<Rightarrow>
          exec_bind (unwrap ''presignature'' (hm_get (pm_presignatures m) my_presignature_id)) (\<lambda>p.
          Done (m\<lparr>pm_mine := rest,
                  pm_presignatures := hm_remove my_presignature_id (pm_presignatures m)\<rparr>, Some p)))"

definition presignature_take ::
  "PresignatureId \<Rightarrow> PresignatureManager \<Rightarrow> PresignatureManager \<times> Presignature option" where
  "presignature_take pid m =
     (m\<lparr>pm_presignatures := hm_remove pid (pm_presignatures m)\<rparr>, hm_get (pm_presignatures m) pid)"

fun presignature_sends ::
  "PresignatureManager \<Rightarrow> PresignatureId \<Rightarrow> PresignatureGenerator \<Rightarrow> send \<Rightarrow>
     (Participant \<times> PresignatureMessage) list" where
  "presignature_sends m pid g (ToAll data) =
     map (\<lambda>p. (p, \<lparr>pmsg_id = pid, pmsg_triple0 = pg_triple0 g, pmsg_triple1 = pg_triple1 g,
                   pmsg_epoch = pm_epoch m, pmsg_from = pm_me m, pmsg_data = data\<rparr>))
       (pm_participants m)"
| "presignature_sends m pid g (ToOne p data) =
     [(p, \<lparr>pmsg_id = pid, pmsg_triple0 = pg_triple0 g, pmsg_triple1 = pg_triple1 g,
           pmsg_epoch = pm_epoch m, pmsg_from = pm_me m, pmsg_data = data\<rparr>)]"

definition presignature_poke_one ::
  "PresignatureManager \<Rightarrow> PresignatureId \<Rightarrow> PresignatureGenerator \<Rightarrow>
     (PresignatureManager \<times> PresignatureGenerator option \<times>
      (Participant \<times> PresignatureMessage) list \<times> ProtocolError option) exec" where
  "presignature_poke_one m pid g =
     exec_bind (of_option (drive (pg_protocol g))) (\<lambda>(sends, out).
     let messages = concat (map (presignature_sends m pid g) sends) in
     case out of
       Failed e \<Rightarrow> Done (m, None, messages, Some e)
     | Waiting protocol' \<Rightarrow> Done (m, Some (g\<lparr>pg_protocol := protocol'\<rparr>), messages, None)
     | Returned output \<Rightarrow>
         (let m1 = m\<lparr>pm_presignatures :=
                hm_insert pid \<lparr>ps_id = pid, ps_output = output\<rparr> (pm_presignatures m)\<rparr>
          in Done (if pg_mine g then m1\<lparr>pm_mine := pm_mine m1 @ [pid]\<rparr> else m1, None, messages, None)))"

definition presignature_poke ::
  "PresignatureManager \<Rightarrow>
     (PresignatureManager \<times> (ProtocolError + (Participant \<times> PresignatureMessage) list)) exec" where
  "presignature_poke m =
     exec_bind (retain_poke presignature_poke_one m (pm_generators m)) (\<lambda>(m', kept, messages, err).
     Done (m'\<lparr>pm_generators := kept\<rparr>, poke_result messages err))"

section \<open>Laws\<close>

lemma presignature_poke_one_cases:
  assumes "presignature_poke_one m k g = Done (m', keep, msgs, err)"
  shows "(m' = m \<and> keep \<noteq> None \<and> err = None) \<or> (m' = m \<and> keep = None \<and> err \<noteq> None) \<or>
    (\<exists>p. keep = None \<and> err = None \<and> ps_id p = k \<and>
      m' = m\<lparr>pm_mine := (if pg_mine g then pm_mine m @ [k] else pm_mine m),
             pm_presignatures := hm_insert k p (pm_presignatures m)\<rparr>)"
proof -
  obtain sends out where d: "drive (pg_protocol g) = Some (sends, out)"
    using assms by (cases "drive (pg_protocol g)") (auto simp: presignature_poke_one_def)
  show ?thesis
  proof (cases out)
    case (Returned res)
    with assms d show ?thesis
      by (intro disjI2 exI [of _ "\<lparr>ps_id = k, ps_output = res\<rparr>"])
        (auto simp: presignature_poke_one_def Let_def)
  qed (use assms d in \<open>auto simp: presignature_poke_one_def\<close>)
qed

interpretation presignature_poking: poking presignature_poke_one "\<lambda>m. fst ` set (pm_presignatures m)"
  by unfold_locales
    (drule presignature_poke_one_cases, elim disjE exE conjE, simp_all add: hm_keys_insert)+

text \<open>
  The presignatures of this node: the ids of \<open>mine\<close> are filed, as long as nobody takes one
  of them by id.
\<close>

definition filed_ok :: "PresignatureManager \<Rightarrow> PresignatureId set \<Rightarrow> bool" where
  "filed_ok m running \<longleftrightarrow> hm_wf (pm_presignatures m) \<and> distinct (pm_mine m) \<and>
     set (pm_mine m) \<subseteq> fst ` set (pm_presignatures m) \<and>
     fst ` set (pm_presignatures m) \<inter> running = {}"

definition mine_ok :: "PresignatureManager \<Rightarrow> bool" where
  "mine_ok m \<longleftrightarrow> hm_wf (pm_generators m) \<and> filed_ok m (fst ` set (pm_generators m))"

lemma filed_ok_one:
  assumes "presignature_poke_one m k g = Done (m', keep, msgs, err)"
    and "filed_ok m (insert k G)" and "k \<notin> G"
  shows "filed_ok m' (if keep = None then G else insert k G)"
  using presignature_poke_one_cases [OF assms(1)]
proof (elim disjE exE conjE)
  fix p
  assume "keep = None" and m': "m' = m\<lparr>pm_mine := (if pg_mine g then pm_mine m @ [k] else pm_mine m),
    pm_presignatures := hm_insert k p (pm_presignatures m)\<rparr>"
  have "k \<notin> fst ` set (pm_presignatures m)" "k \<notin> set (pm_mine m)"
    using assms(2) by (auto simp: filed_ok_def)
  with assms(2,3) \<open>keep = None\<close> show ?thesis
    unfolding m' filed_ok_def by (auto simp: hm_keys_insert)
qed (use assms(2) in \<open>auto simp: filed_ok_def\<close>)

lemma filed_ok_retain:
  "retain_poke presignature_poke_one m gs = Done (m', kept, msgs, err) \<Longrightarrow>
   filed_ok m (fst ` set gs \<union> H) \<Longrightarrow> distinct (map fst gs) \<Longrightarrow> H \<inter> fst ` set gs = {} \<Longrightarrow>
   filed_ok m' (fst ` set kept \<union> H)"
proof (induction gs arbitrary: m m' kept msgs err H)
  case (Cons kg gs)
  obtain k g where kg: "kg = (k, g)" by (cases kg)
  from Cons.prems(1) obtain m1 keep msgs1 err1 kept2 msgs2 err2 where
    one: "presignature_poke_one m k g = Done (m1, keep, msgs1, err1)" and
    rest: "retain_poke presignature_poke_one m1 gs = Done (m', kept2, msgs2, err2)" and
    kept: "kept = (case keep of Some g' \<Rightarrow> (k, g') # kept2 | None \<Rightarrow> kept2)"
    by (auto simp: kg exec_bind_eq_Done split: prod.splits)
  have k: "k \<notin> fst ` set gs \<union> H" "distinct (map fst gs)"
    using Cons.prems(3,4) by (auto simp: kg)
  have "filed_ok m (insert k (fst ` set gs \<union> H))" using Cons.prems(2) by (simp add: kg)
  from filed_ok_one [OF one this k(1)]
  have step: "filed_ok m1 (if keep = None then fst ` set gs \<union> H else fst ` set gs \<union> insert k H)" by (cases keep) simp_all
  show ?case
  proof (cases keep)
    case None
    with Cons.IH [OF rest _ k(2), of H] step Cons.prems(4) kept show ?thesis by (simp add: kg)
  next
    case (Some g')
    with Cons.IH [OF rest _ k(2), of "insert k H"] step Cons.prems(4) k kept show ?thesis by (simp add: kg)
  qed
qed simp

lemma mine_ok_poke:
  assumes "mine_ok m" and "presignature_poke m = Done (m', r)"
  shows "mine_ok m'"
proof -
  from assms(2) obtain m1 kept msgs err where
    r: "retain_poke presignature_poke_one m (pm_generators m) = Done (m1, kept, msgs, err)" and
    m': "m' = m1\<lparr>pm_generators := kept\<rparr>"
    by (auto simp: presignature_poke_def exec_bind_eq_Done split: prod.splits)
  from assms(1) have "distinct (map fst (pm_generators m))" by (simp add: mine_ok_def hm_wf_def)
  with filed_ok_retain [OF r, of "{}"] presignature_poking.retain_poke_distinct [OF r] assms(1) show ?thesis
    by (simp add: m' mine_ok_def hm_wf_def filed_ok_def)
qed

lemma mine_ok_generate:
  assumes "mine_ok m" and "pid \<notin> fst ` set (pm_presignatures m)"
  shows "mine_ok (m\<lparr>pm_generators := hm_insert pid g (pm_generators m)\<rparr>)"
  using assms by (simp add: mine_ok_def filed_ok_def hm_keys_insert)

lemma mine_ok_get_or_generate:
  assumes "mine_ok m"
    and "presignature_get_or_generate presign pid t0 t1 pk sk tm m = Done (tm', m', r)"
  shows "mine_ok m'"
proof (cases "m' = m")
  case False
  have n: "pid \<notin> fst ` set (pm_presignatures m)" "hm_get (pm_generators m) pid = None"
    using assms(2) False
    by (auto simp: presignature_get_or_generate_def hm_contains_iff split: if_splits option.splits)
  with assms(2) False obtain tm1 a b where t: "take_two t0 t1 tm = Done (tm1, Inr (a, b))"
    by (cases "take_two t0 t1 tm")
      (auto simp: presignature_get_or_generate_def hm_contains_iff split: sum.splits)
  with assms(2) False n obtain g where "m' = m\<lparr>pm_generators := hm_insert pid g (pm_generators m)\<rparr>"
    by (auto simp: presignature_get_or_generate_def hm_contains_iff split: sum.splits)
  with mine_ok_generate [OF assms(1) n(1)] show ?thesis by blast
qed (use assms in simp)

lemma hm_keys_remove: "fst ` set (hm_remove k m) = fst ` set m - {k}"
  by (auto simp: hm_set_remove image_iff)

lemma take_mine_ok:
  assumes "mine_ok m"
  shows "\<exists>m' r. take_mine m = Done (m', r) \<and> mine_ok m' \<and> (r = None \<longleftrightarrow> pm_mine m = [])"
proof (cases "pm_mine m")
  case (Cons a rest)
  with assms have "a \<in> fst ` set (pm_presignatures m)" by (auto simp: mine_ok_def filed_ok_def)
  then obtain p where "hm_get (pm_presignatures m) a = Some p"
    by (metis hm_contains_iff hm_contains_key_def not_None_eq)
  with Cons assms show ?thesis
    by (auto simp: take_mine_def mine_ok_def filed_ok_def hm_keys_remove)
qed (use assms in \<open>simp add: take_mine_def\<close>)

section \<open>Properties of the presignature manager\<close>

text \<open>
  The node's own calls on the manager: it generates under fresh random ids, joins the
  protocols of others, pokes, and takes presignatures of its own.
\<close>

datatype presignature_call =
    PGenerate presign_lib PresignatureId Triple Triple PublicKey SecretKeyShare
  | PJoin presign_lib PresignatureId TripleId TripleId PublicKey SecretKeyShare TripleManager
  | PMessage PresignatureId Participant bytes
  | PPoke
  | PTakeMine

fun presignature_call_result ::
  "presignature_call \<Rightarrow> PresignatureManager \<Rightarrow> PresignatureManager exec" where
  "presignature_call_result (PGenerate presign pid t0 t1 pk sk) m =
     Done (fst (presignature_generate presign pid t0 t1 pk sk m))"
| "presignature_call_result (PJoin presign pid t0 t1 pk sk tm) m =
     exec_bind (presignature_get_or_generate presign pid t0 t1 pk sk tm m) (\<lambda>(_, m', _). Done m')"
| "presignature_call_result (PMessage pid from data) m = Done (presignature_message pid from data m)"
| "presignature_call_result PPoke m = exec_bind (presignature_poke m) (\<lambda>(m', _). Done m')"
| "presignature_call_result PTakeMine m = exec_bind (take_mine m) (\<lambda>(m', _). Done m')"

text \<open>A random id is fresh when it is not the id of a finished presignature.\<close>

fun fresh_call :: "presignature_call \<Rightarrow> PresignatureManager \<Rightarrow> bool" where
  "fresh_call (PGenerate presign pid t0 t1 pk sk) m = (\<not> hm_contains_key (pm_presignatures m) pid)"
| "fresh_call _ m = True"

inductive presignature_reach :: "PresignatureManager \<Rightarrow> PresignatureManager \<Rightarrow> bool" where
  start: "presignature_reach m m"
| step: "presignature_reach m m1 \<Longrightarrow> fresh_call c m1 \<Longrightarrow> presignature_call_result c m1 = Done m2 \<Longrightarrow>
    presignature_reach m m2"

lemma mine_ok_message: "mine_ok m \<Longrightarrow> mine_ok (presignature_message pid from data m)"
proof (cases "hm_get (pm_generators m) pid")
  case (Some g)
  assume ok: "mine_ok m"
  have "pid \<in> fst ` set (pm_generators m)" using Some by (force dest: map_of_SomeD)
  with ok have "pid \<notin> fst ` set (pm_presignatures m)" by (auto simp: mine_ok_def filed_ok_def)
  with mine_ok_generate [OF ok] show ?thesis by (simp add: presignature_message_def Some)
qed (simp add: presignature_message_def)

lemma mine_ok_call:
  assumes "mine_ok m" and "fresh_call c m" and "presignature_call_result c m = Done m'"
  shows "mine_ok m'"
proof (cases c)
  case (PGenerate presign pid t0 t1 pk sk)
  with assms mine_ok_generate [OF assms(1), of pid] show ?thesis
    by (auto simp: presignature_generate_def hm_contains_iff split: sum.splits)
next
  case (PJoin presign pid t0 t1 pk sk tm)
  with assms obtain tm' r where "presignature_get_or_generate presign pid t0 t1 pk sk tm m = Done (tm', m', r)"
    by (auto simp: exec_bind_eq_Done)
  with assms(1) show ?thesis by (rule mine_ok_get_or_generate)
next
  case PPoke
  with assms obtain r where "presignature_poke m = Done (m', r)"
    by (auto simp: exec_bind_eq_Done)
  with assms(1) show ?thesis by (rule mine_ok_poke)
next
  case PTakeMine
  with assms take_mine_ok [OF assms(1)] show ?thesis by auto
qed (use assms mine_ok_message in auto)

lemma mine_ok_reach: "presignature_reach m m' \<Longrightarrow> mine_ok m \<Longrightarrow> mine_ok m'"
  by (induction rule: presignature_reach.induct) (auto intro: mine_ok_call)

lemma mine_ok_new: "mine_ok (PresignatureManager_new ps me t e)"
  by (simp add: PresignatureManager_new_def mine_ok_def filed_ok_def)

text \<open>
  C28: As long as only the node itself takes its presignatures, \<open>take_mine\<close> never panics:
  over all runs of generating, joining, delivering messages, poking and taking, its
  unchecked removal finds the presignature, returns one whenever \<open>my_len\<close> is positive, and
  never hands out the same entry twice, for the entry is gone.
\<close>

theorem take_mine_safe:
  assumes "presignature_reach (PresignatureManager_new ps me t e) m"
  shows "\<exists>m' r. take_mine m = Done (m', r) \<and> (r = None \<longleftrightarrow> presignature_my_len m = 0) \<and>
    (case r of None \<Rightarrow> True
     | Some p \<Rightarrow> hm_get (pm_presignatures m) (hd (pm_mine m)) = Some p \<and>
         \<not> hm_contains_key (pm_presignatures m') (hd (pm_mine m)) \<and> hd (pm_mine m) \<notin> set (pm_mine m'))"
proof -
  have ok: "mine_ok m" by (rule mine_ok_reach [OF assms mine_ok_new])
  from take_mine_ok [OF ok] obtain m' r where
    r: "take_mine m = Done (m', r)" "r = None \<longleftrightarrow> pm_mine m = []" by blast
  show ?thesis
  proof (cases "pm_mine m")
    case Nil
    with r show ?thesis by (simp add: presignature_my_len_def)
  next
    case (Cons a rest)
    with r obtain p where p: "r = Some p" by auto
    with r Cons have "hm_get (pm_presignatures m) a = Some p"
      "m' = m\<lparr>pm_mine := rest, pm_presignatures := hm_remove a (pm_presignatures m)\<rparr>"
      by (auto simp: take_mine_def exec_bind_eq_Done)
    with r p Cons ok show ?thesis
      by (simp add: presignature_my_len_def hm_contains_remove mine_ok_def filed_ok_def)
  qed
qed

definition ex_presign :: presign_lib where
  "ex_presign _ _ _ = Inr (ex_returns \<lparr>po_big_r = [1], po_k = 2, po_sigma = 3\<rparr>)"

definition ex_triple :: "TripleId \<Rightarrow> Triple" where
  "ex_triple i = \<lparr>t_id = i, t_share = [], t_public = ex_pub\<rparr>"

definition ex_presig_manager :: PresignatureManager where
  "ex_presig_manager =
     (PresignatureManager_new [0, 1] 0 2 0)\<lparr>pm_presignatures :=
        [(5, \<lparr>ps_id = 5, ps_output = \<lparr>po_big_r = [1], po_k = 2, po_sigma = 3\<rparr>\<rparr>)], pm_mine := [5]\<rparr>"

lemma ex_presig_reach: "presignature_reach (PresignatureManager_new [0, 1] 0 2 0) ex_presig_manager"
proof -
  let ?m0 = "PresignatureManager_new [0, 1] 0 2 0"
  let ?m1 = "fst (presignature_generate ex_presign 5 (ex_triple 1) (ex_triple 2) [1] 4 ?m0)"
  have "presignature_reach ?m0 ?m1"
    by (rule presignature_reach.step [OF presignature_reach.start,
          of "PGenerate ex_presign 5 (ex_triple 1) (ex_triple 2) [1] 4"])
      (simp_all add: PresignatureManager_new_def hm_contains_key_def)
  moreover have "presignature_call_result PPoke ?m1 = Done ex_presig_manager"
    by (simp add: presignature_generate_def presignature_generate_internal_def ex_presign_def
        presignature_poke_def presignature_poke_one_def PresignatureManager_new_def
        ex_presig_manager_def Let_def)
  ultimately show ?thesis using presignature_reach.step [of ?m0 ?m1 PPoke] by simp
qed

theorem take_mine_safe_witness:
  "\<exists>m' r. take_mine ex_presig_manager = Done (m', Some r)"
  using take_mine_safe [OF ex_presig_reach]
  by (auto simp: ex_presig_manager_def presignature_my_len_def)

text \<open>
  But a presignature can also be taken by id, on behalf of another node's signature
  message. When the id taken that way is the first of the node's own, the next
  \<open>take_mine\<close> panics.
\<close>

theorem take_then_take_mine_panics:
  assumes "pm_mine m = pid # rest" and "hm_wf (pm_presignatures m)"
  shows "take_mine (fst (presignature_take pid m)) = Panics ''presignature''"
  using assms by (simp add: take_mine_def presignature_take_def hm_get_remove)

theorem take_then_take_mine_panics_witness:
  "take_mine (fst (presignature_take 5 ex_presig_manager)) = Panics ''presignature''"
  by (rule take_then_take_mine_panics [of _ _ "[]"])
    (simp_all add: ex_presig_manager_def PresignatureManager_new_def hm_wf_def)

text \<open>
  Joining the presignature protocol of another node takes its two triples exactly
  when the protocol is new and both triples are there. An id that is finished or running
  consumes nothing; a missing triple consumes nothing and is named; otherwise both triples
  leave the manager, also when the protocol then cannot be constructed.
\<close>

theorem presignature_join_exact:
  assumes "t0 \<noteq> t1"
  shows "\<exists>tm' m' r. presignature_get_or_generate presign pid t0 t1 pk sk tm m = Done (tm', m', r) \<and>
    (if hm_contains_key (pm_presignatures m) pid then tm' = tm \<and> m' = m \<and> r = Inl AlreadyGenerated
     else if hm_contains_key (pm_generators m) pid then tm' = tm \<and> m' = m \<and> r = Inr ()
     else if \<not> hm_contains_key (tm_triples tm) t0 then tm' = tm \<and> m' = m \<and> r = Inl (TripleIsMissing t0)
     else if \<not> hm_contains_key (tm_triples tm) t1 then tm' = tm \<and> m' = m \<and> r = Inl (TripleIsMissing t1)
     else \<not> hm_contains_key (tm_triples tm') t0 \<and> \<not> hm_contains_key (tm_triples tm') t1 \<and>
          (r = Inr () \<longleftrightarrow> hm_contains_key (pm_generators m') pid) \<and>
          (\<forall>e. r = Inl e \<longrightarrow> m' = m \<and> (\<exists>i. e = CaitSithInitializationError i)))"
proof -
  consider "hm_contains_key (pm_presignatures m) pid"
    | "\<not> hm_contains_key (pm_presignatures m) pid" "hm_contains_key (pm_generators m) pid"
    | "\<not> hm_contains_key (pm_presignatures m) pid" "\<not> hm_contains_key (pm_generators m) pid" by blast
  then show ?thesis
  proof cases
    case 3
    then show ?thesis
      using assms
      by (cases "presignature_generate_internal presign (pm_participants m) (pm_me m) (pm_threshold m)
            (the (hm_get (tm_triples tm) t0)) (the (hm_get (tm_triples tm) t1)) pk sk False")
        (auto simp: presignature_get_or_generate_def take_two_cases hm_contains_remove
          hm_contains_insert hm_contains_key_def [of "pm_generators m"])
  qed (auto simp: presignature_get_or_generate_def hm_contains_key_def)
qed

theorem presignature_join_exact_witness:
  "\<exists>tm' m' r. presignature_get_or_generate ex_presign 5 1 2 [1] 4 (TripleManager_new [0, 1] 0 2 0)
     ex_presig_manager = Done (tm', m', r) \<and> r = Inl AlreadyGenerated"
  using presignature_join_exact [of 1 2 ex_presign 5 "[1]" 4 "TripleManager_new [0, 1] 0 2 0" ex_presig_manager]
  by (auto simp: ex_presig_manager_def PresignatureManager_new_def hm_contains_key_def)

end
