(* ===== verification/Kdf.thy ===== *)
theory Kdf
  imports Presignature
begin

text \<open>
  Key derivation, \<^verbatim>\<open>node/src/kdf.rs\<close>, with the scalar constructor of \<^verbatim>\<open>node/src/util.rs\<close>.
  Scalars and points of the curve are opaque values; their operations, the hash functions
  and the text form of a receipt id are the argument \<open>C\<close>.
\<close>

record curve_lib =
  from_le_slice :: "bytes \<Rightarrow> nat"
  from_uint_unchecked :: "nat \<Rightarrow> Scalar"
  sc_add :: "Scalar \<Rightarrow> Scalar \<Rightarrow> Scalar"
  sc_mul :: "Scalar \<Rightarrow> Scalar \<Rightarrow> Scalar"
  sc_invert :: "Scalar \<Rightarrow> Scalar option"
  pt_generator :: AffinePoint
  pt_add :: "AffinePoint \<Rightarrow> AffinePoint \<Rightarrow> AffinePoint"
  pt_mul :: "AffinePoint \<Rightarrow> Scalar \<Rightarrow> AffinePoint"
  sha256 :: "bytes \<Rightarrow> bytes"
  hkdf_expand :: "bytes \<Rightarrow> bytes \<Rightarrow> nat \<Rightarrow> bytes option"
  crypto_hash_to_string :: "bytes \<Rightarrow> string"

definition Scalar_from_bytes :: "curve_lib \<Rightarrow> bytes \<Rightarrow> Scalar" where
  "Scalar_from_bytes C b = from_uint_unchecked C (from_le_slice C b)"

definition EPSILON_DERIVATION_PREFIX :: string where
  "EPSILON_DERIVATION_PREFIX = ''near-mpc-recovery v0.1.0 epsilon derivation:''"

definition DELTA_DERIVATION_PREFIX :: string where
  "DELTA_DERIVATION_PREFIX = ''near-mpc-recovery v0.1.0 delta derivation:''"

definition derivation_path :: "AccountId \<Rightarrow> string \<Rightarrow> string" where
  "derivation_path signer_id path = EPSILON_DERIVATION_PREFIX @ signer_id @ '','' @ path"

definition derive_epsilon :: "curve_lib \<Rightarrow> AccountId \<Rightarrow> string \<Rightarrow> Scalar" where
  "derive_epsilon C signer_id path =
     Scalar_from_bytes C (sha256 C (string_bytes (derivation_path signer_id path)))"

definition delta_info :: "curve_lib \<Rightarrow> bytes \<Rightarrow> string" where
  "delta_info C receipt_id = DELTA_DERIVATION_PREFIX @ '':'' @ crypto_hash_to_string C receipt_id"

definition derive_delta :: "curve_lib \<Rightarrow> bytes \<Rightarrow> bytes \<Rightarrow> Scalar exec" where
  "derive_delta C receipt_id entropy =
     exec_bind (unwrap ''InvalidLength'' (hkdf_expand C entropy (string_bytes (delta_info C receipt_id)) 32)) (\<lambda>okm.
     Done (Scalar_from_bytes C okm))"

definition derive_key :: "curve_lib \<Rightarrow> PublicKey \<Rightarrow> Scalar \<Rightarrow> PublicKey" where
  "derive_key C public_key epsilon = pt_add C (pt_mul C (pt_generator C) epsilon) public_key"

section \<open>Laws\<close>

lemma split_at_comma:
  "a @ CHR '','' # p = b @ CHR '','' # q \<Longrightarrow> CHR '','' \<notin> set a \<Longrightarrow> CHR '','' \<notin> set b \<Longrightarrow> a = b \<and> p = q"
  by (induction a arbitrary: b) (auto simp: Cons_eq_append_conv append_eq_Cons_conv)

lemma derivation_path_inj:
  assumes "CHR '','' \<notin> set a" and "CHR '','' \<notin> set b"
  shows "derivation_path a p = derivation_path b q \<longleftrightarrow> a = b \<and> p = q"
  using split_at_comma [OF _ assms] by (auto simp: derivation_path_def)

text \<open>
  Every pair of an account and a path has a tweak of its own. Account ids contain no
  comma, so different pairs are hashed from different byte strings; two accounts share a
  tweak only through a collision of the hash or of the reduction to a scalar.
\<close>

theorem derive_epsilon_separates:
  assumes "CHR '','' \<notin> set a" and "CHR '','' \<notin> set b"
    and "inj_on (\<lambda>m. Scalar_from_bytes C (sha256 C m))
           {string_bytes (derivation_path a p), string_bytes (derivation_path b q)}"
  shows "derive_epsilon C a p = derive_epsilon C b q \<longleftrightarrow> a = b \<and> p = q"
proof
  assume "derive_epsilon C a p = derive_epsilon C b q"
  with assms(3) have "string_bytes (derivation_path a p) = string_bytes (derivation_path b q)"
    unfolding derive_epsilon_def inj_on_def by blast
  with derivation_path_inj [OF assms(1,2)] show "a = b \<and> p = q" by (simp add: inj_string_bytes)
qed simp

definition ex_curve :: curve_lib where
  "ex_curve = \<lparr>from_le_slice = length, from_uint_unchecked = int,
     sc_add = (\<lambda>a b. (a + b) mod 7), sc_mul = (\<lambda>a b. (a * b) mod 7),
     sc_invert = (\<lambda>a. if a mod 7 = 0 then None else Some (a ^ 5 mod 7)),
     pt_generator = [1], pt_add = (\<lambda>p q. [hd p + hd q]),
     pt_mul = (\<lambda>p a. [of_int ((uint (hd p) * a) mod 7)]),
     sha256 = id, hkdf_expand = (\<lambda>_ info _. Some info), crypto_hash_to_string = (\<lambda>_. ''r'')\<rparr>"

theorem derive_epsilon_separates_witness:
  "derive_epsilon ex_curve ''alice.near'' ''x'' \<noteq> derive_epsilon ex_curve ''bob'' ''y''"
  using derive_epsilon_separates [of "''alice.near''" "''bob''" ex_curve "''x''" "''y''"]
  by (simp add: ex_curve_def inj_on_def Scalar_from_bytes_def string_bytes_def derivation_path_def)

end
