(* ===== verification/Signature.thy ===== *)
theory Signature
  imports Kdf
begin

text \<open>
  Signature requests and the manager of signatures, \<^verbatim>\<open>node/src/protocol/signature.rs\<close>. A
  request from the chain carries its own entropy, from which every node draws the same
  subset of signers and the same proposer; a presignature is re-randomised with the
  request's tweaks before it is used; the proposer publishes the finished signature. The
  generator of random subsets and cait-sith's constructor \<open>sign\<close> are arguments.
\<close>

section \<open>Data\<close>

type_synonym CryptoHash = bytes

record SignRequest =
  sr_receipt_id :: CryptoHash
  sr_msg_hash :: bytes
  sr_epsilon :: Scalar
  sr_delta :: Scalar
  sr_entropy :: bytes

record SignQueue =
  sq_unorganized_requests :: "SignRequest list"
  sq_requests :: "(Participant, (CryptoHash, SignRequest) hmap) hmap"

record FullSignature =
  fs_big_r :: AffinePoint
  fs_s :: Scalar

record SignatureGenerator =
  sg_protocol :: "FullSignature protocol"
  sg_proposer :: Participant
  sg_presignature_id :: PresignatureId
  sg_msg_hash :: bytes
  sg_epsilon :: Scalar
  sg_delta :: Scalar

record SignatureManager =
  sm_generators :: "(CryptoHash, SignatureGenerator) hmap"
  sm_signatures :: "(CryptoHash \<times> bytes \<times> FullSignature) list"
  sm_participants :: "Participant list"
  sm_me :: Participant
  sm_public_key :: PublicKey
  sm_epoch :: u64

record SignatureMessage =
  smsg_receipt_id :: CryptoHash
  smsg_proposer :: Participant
  smsg_presignature_id :: PresignatureId
  smsg_msg_hash :: bytes
  smsg_epsilon :: Scalar
  smsg_delta :: Scalar
  smsg_epoch :: u64
  smsg_from :: Participant
  smsg_data :: bytes

text \<open>The seeded generator of the \<open>rand\<close> crate; its states are opaque.\<close>

record rng_lib =
  from_seed :: "bytes \<Rightarrow> bytes"
  choose_multiple :: "bytes \<Rightarrow> Participant list \<Rightarrow> nat \<Rightarrow> Participant list \<times> bytes"
  choose_one :: "bytes \<Rightarrow> Participant list \<Rightarrow> Participant option"

type_synonym sign_lib =
  "Participant list \<Rightarrow> Participant \<Rightarrow> PublicKey \<Rightarrow> PresignOutput \<Rightarrow> Scalar \<Rightarrow>
     InitializationError + FullSignature protocol"

section \<open>The queue of requests\<close>

definition SignQueue_new :: SignQueue where
  "SignQueue_new = \<lparr>sq_unorganized_requests = [], sq_requests = []\<rparr>"

definition SignQueue_add :: "SignRequest \<Rightarrow> SignQueue \<Rightarrow> SignQueue" where
  "SignQueue_add request q =
     q\<lparr>sq_unorganized_requests := sq_unorganized_requests q @ [request]\<rparr>"

text \<open>The subset of signers and the proposer of one request.\<close>

definition signers :: "rng_lib \<Rightarrow> Participant list \<Rightarrow> nat \<Rightarrow> bytes \<Rightarrow> (Participant list \<times> Participant) exec" where
  "signers R participants threshold entropy =
     (let rng = from_seed R entropy;
          (subset, rng') = choose_multiple R rng participants threshold
      in exec_bind (unwrap ''choose'' (choose_one R rng' subset)) (\<lambda>proposer. Done (subset, proposer)))"

fun organize_loop ::
  "rng_lib \<Rightarrow> Participant list \<Rightarrow> nat \<Rightarrow> Participant \<Rightarrow> SignRequest list \<Rightarrow>
     (Participant, (CryptoHash, SignRequest) hmap) hmap \<Rightarrow>
     (Participant, (CryptoHash, SignRequest) hmap) hmap exec" where
  "organize_loop R participants threshold me [] requests = Done requests"
| "organize_loop R participants threshold me (request # rest) requests =
     exec_bind (signers R participants threshold (sr_entropy request)) (\<lambda>(subset, proposer).
     organize_loop R participants threshold me rest
       (if me \<in> set subset
        then hm_insert proposer
               (hm_insert (sr_receipt_id request) request
                  (or_default [] (hm_get requests proposer))) requests
        else requests))"

text \<open>\<open>organize\<close> reads the participants and the threshold of the running state.\<close>

definition organize ::
  "rng_lib \<Rightarrow> NParticipants \<Rightarrow> nat \<Rightarrow> Participant \<Rightarrow> SignQueue \<Rightarrow> SignQueue exec" where
  "organize R participants threshold me q =
     exec_bind (organize_loop R (NParticipants_keys participants) threshold me
                  (sq_unorganized_requests q) (sq_requests q)) (\<lambda>requests.
     Done \<lparr>sq_unorganized_requests = [], sq_requests = requests\<rparr>)"

definition SignQueue_contains :: "Participant \<Rightarrow> CryptoHash \<Rightarrow> SignQueue \<Rightarrow> bool" where
  "SignQueue_contains participant receipt_id q =
     (case hm_get (sq_requests q) participant of
        None \<Rightarrow> False
      | Some participant_requests \<Rightarrow> hm_contains_key participant_requests receipt_id)"

text \<open>\<open>my_requests\<close> hands out the node's own table, created when absent; the caller writes it back.\<close>

definition my_requests :: "Participant \<Rightarrow> SignQueue \<Rightarrow> (CryptoHash, SignRequest) hmap" where
  "my_requests me q = or_default [] (hm_get (sq_requests q) me)"

definition set_my_requests ::
  "Participant \<Rightarrow> (CryptoHash, SignRequest) hmap \<Rightarrow> SignQueue \<Rightarrow> SignQueue" where
  "set_my_requests me requests q = q\<lparr>sq_requests := hm_insert me requests (sq_requests q)\<rparr>"

section \<open>The manager\<close>

definition SignatureManager_new ::
  "Participant list \<Rightarrow> Participant \<Rightarrow> PublicKey \<Rightarrow> u64 \<Rightarrow> SignatureManager" where
  "SignatureManager_new participants me public_key epoch =
     \<lparr>sm_generators = [], sm_signatures = [], sm_participants = participants, sm_me = me,
      sm_public_key = public_key, sm_epoch = epoch\<rparr>"

definition rerandomize :: "curve_lib \<Rightarrow> PresignOutput \<Rightarrow> Scalar \<Rightarrow> Scalar \<Rightarrow> PresignOutput exec" where
  "rerandomize C out epsilon delta =
     exec_bind (unwrap ''invert'' (sc_invert C delta)) (\<lambda>delta_inv.
     Done \<lparr>po_big_r = pt_mul C (po_big_r out) delta,
           po_k = sc_mul C (po_k out) delta_inv,
           po_sigma = sc_mul C (sc_add C (po_sigma out) (sc_mul C epsilon (po_k out))) delta_inv\<rparr>)"

definition signature_generate_internal ::
  "curve_lib \<Rightarrow> sign_lib \<Rightarrow> Participant list \<Rightarrow> Participant \<Rightarrow> PublicKey \<Rightarrow> Participant \<Rightarrow>
     Presignature \<Rightarrow> bytes \<Rightarrow> Scalar \<Rightarrow> Scalar \<Rightarrow> (InitializationError + SignatureGenerator) exec" where
  "signature_generate_internal C sign participants me public_key proposer presignature msg_hash
       epsilon delta =
     exec_bind (rerandomize C (ps_output presignature) epsilon delta) (\<lambda>out.
     Done (res_bind (sign participants me (derive_key C public_key epsilon) out
                       (Scalar_from_bytes C msg_hash)) (\<lambda>protocol.
       Inr \<lparr>sg_protocol = protocol, sg_proposer = proposer,
            sg_presignature_id = ps_id presignature, sg_msg_hash = msg_hash,
            sg_epsilon = epsilon, sg_delta = delta\<rparr>)))"

definition signature_generate ::
  "curve_lib \<Rightarrow> sign_lib \<Rightarrow> CryptoHash \<Rightarrow> Presignature \<Rightarrow> PublicKey \<Rightarrow> bytes \<Rightarrow> Scalar \<Rightarrow> Scalar \<Rightarrow>
     SignatureManager \<Rightarrow> (SignatureManager \<times> (InitializationError + unit)) exec" where
  "signature_generate C sign receipt_id presignature public_key msg_hash epsilon delta m =
     exec_bind (signature_generate_internal C sign (sm_participants m) (sm_me m) public_key (sm_me m)
                  presignature msg_hash epsilon delta) (\<lambda>r.
     case r of
       Inl e \<Rightarrow> Done (m, Inl e)
     | Inr generator \<Rightarrow>
         Done (m\<lparr>sm_generators := hm_insert receipt_id generator (sm_generators m)\<rparr>, Inr ()))"

text \<open>\<open>Inr False\<close> is the \<open>None\<close> of the source: the presignature is missing.\<close>

definition signature_get_or_generate ::
  "curve_lib \<Rightarrow> sign_lib \<Rightarrow> CryptoHash \<Rightarrow> Participant \<Rightarrow> PresignatureId \<Rightarrow> bytes \<Rightarrow> Scalar \<Rightarrow> Scalar \<Rightarrow>
     PresignatureManager \<Rightarrow> SignatureManager \<Rightarrow>
     (PresignatureManager \<times> SignatureManager \<times> (InitializationError + bool)) exec" where
  "signature_get_or_generate C sign receipt_id proposer presignature_id msg_hash epsilon delta pm m =
     (case hm_get (sm_generators m) receipt_id of
        Some _ \<Rightarrow> Done (pm, m, Inr True)
      | None \<Rightarrow>
          (let (pm', taken) = presignature_take presignature_id pm in
           case taken of
             None \<Rightarrow> Done (pm', m, Inr False)
           | Some presignature \<Rightarrow>
               exec_bind (signature_generate_internal C sign (sm_participants m) (sm_me m)
                            (sm_public_key m) proposer presignature msg_hash epsilon delta) (\<lambda>r.
               case r of
                 Inl e \<Rightarrow> Done (pm', m, Inl e)
               | Inr generator \<Rightarrow>
                   Done (pm', m\<lparr>sm_generators := hm_insert receipt_id generator (sm_generators m)\<rparr>,
                         Inr True))))"

definition signature_message ::
  "CryptoHash \<Rightarrow> Participant \<Rightarrow> bytes \<Rightarrow> SignatureManager \<Rightarrow> SignatureManager" where
  "signature_message receipt_id from data m =
     (case hm_get (sm_generators m) receipt_id of
        None \<Rightarrow> m
      | Some g \<Rightarrow> m\<lparr>sm_generators :=
          hm_insert receipt_id (g\<lparr>sg_protocol := message_of (sg_protocol g) from data\<rparr>) (sm_generators m)\<rparr>)"

definition signature_message_of ::
  "SignatureManager \<Rightarrow> CryptoHash \<Rightarrow> SignatureGenerator \<Rightarrow> bytes \<Rightarrow> SignatureMessage" where
  "signature_message_of m receipt_id g data =
     \<lparr>smsg_receipt_id = receipt_id, smsg_proposer = sg_proposer g,
      smsg_presignature_id = sg_presignature_id g, smsg_msg_hash = sg_msg_hash g,
      smsg_epsilon = sg_epsilon g, smsg_delta = sg_delta g, smsg_epoch = sm_epoch m,
      smsg_from = sm_me m, smsg_data = data\<rparr>"

fun signature_sends ::
  "SignatureManager \<Rightarrow> CryptoHash \<Rightarrow> SignatureGenerator \<Rightarrow> send \<Rightarrow> (Participant \<times> SignatureMessage) list" where
  "signature_sends m receipt_id g (ToAll data) =
     map (\<lambda>p. (p, signature_message_of m receipt_id g data)) (sm_participants m)"
| "signature_sends m receipt_id g (ToOne p data) = [(p, signature_message_of m receipt_id g data)]"

definition signature_poke_one ::
  "SignatureManager \<Rightarrow> CryptoHash \<Rightarrow> SignatureGenerator \<Rightarrow>
     (SignatureManager \<times> SignatureGenerator option \<times> (Participant \<times> SignatureMessage) list \<times>
      ProtocolError option) exec" where
  "signature_poke_one m receipt_id g =
     exec_bind (of_option (drive (sg_protocol g))) (\<lambda>(sends, out).
     let messages = concat (map (signature_sends m receipt_id g) sends) in
     case out of
       Failed e \<Rightarrow> Done (m, None, messages, Some e)
     | Waiting protocol' \<Rightarrow> Done (m, Some (g\<lparr>sg_protocol := protocol'\<rparr>), messages, None)
     | Returned output \<Rightarrow>
         Done (if sg_proposer g = sm_me m
               then m\<lparr>sm_signatures := sm_signatures m @ [(receipt_id, sg_msg_hash g, output)]\<rparr>
               else m, None, messages, None))"

definition signature_poke ::
  "SignatureManager \<Rightarrow>
     (SignatureManager \<times> (ProtocolError + (Participant \<times> SignatureMessage) list)) exec" where
  "signature_poke m =
     exec_bind (retain_poke signature_poke_one m (sm_generators m)) (\<lambda>(m', kept, messages, err).
     Done (m'\<lparr>sm_generators := kept\<rparr>, poke_result messages err))"

text \<open>
  \<open>publish\<close> drains the signatures and calls \<open>respond\<close> for each. The first call that fails
  ends the loop, and dropping the iterator removes the rest of the drained range. The
  transactions that were sent are part of the result; \<open>send_tx\<close> says which of them fail.
\<close>

fun publish_loop ::
  "(bytes \<times> FullSignature \<Rightarrow> string option) \<Rightarrow> (CryptoHash \<times> bytes \<times> FullSignature) list \<Rightarrow>
     (bytes \<times> FullSignature) list \<times> (string + unit)" where
  "publish_loop send_tx [] = ([], Inr ())"
| "publish_loop send_tx ((receipt_id, payload, signature) # rest) =
     (case send_tx (payload, signature) of
        Some e \<Rightarrow> ([(payload, signature)], Inl e)
      | None \<Rightarrow> (let (sent, r) = publish_loop send_tx rest in ((payload, signature) # sent, r)))"

definition publish ::
  "(bytes \<times> FullSignature \<Rightarrow> string option) \<Rightarrow> SignatureManager \<Rightarrow>
     SignatureManager \<times> (bytes \<times> FullSignature) list \<times> (string + unit)" where
  "publish send_tx m = (m\<lparr>sm_signatures := []\<rparr>, publish_loop send_tx (sm_signatures m))"

section \<open>Laws\<close>

definition filed :: "(Participant, (CryptoHash, SignRequest) hmap) hmap \<Rightarrow> Participant \<Rightarrow> CryptoHash \<Rightarrow> bool" where
  "filed requests p rid \<longleftrightarrow> hm_contains_key (or_default [] (hm_get requests p)) rid"

lemma contains_filed: "SignQueue_contains p rid q \<longleftrightarrow> filed (sq_requests q) p rid"
  by (auto simp: SignQueue_contains_def filed_def hm_contains_key_def split: option.splits)

lemma filed_insert:
  "filed (hm_insert p (hm_insert rid r (or_default [] (hm_get requests p))) requests) p' rid' \<longleftrightarrow>
     (p' = p \<and> rid' = rid) \<or> filed requests p' rid'"
  by (auto simp: filed_def hm_get_insert hm_contains_insert)

lemma organize_loop_exact:
  "\<forall>r \<in> set rs. \<exists>sub p. signers R ps t (sr_entropy r) = Done (sub, p) \<Longrightarrow>
   \<exists>requests'. organize_loop R ps t me rs requests = Done requests' \<and>
     (\<forall>p rid. filed requests' p rid \<longleftrightarrow> filed requests p rid \<or>
        (\<exists>r \<in> set rs. sr_receipt_id r = rid \<and>
           (\<exists>sub. signers R ps t (sr_entropy r) = Done (sub, p) \<and> me \<in> set sub)))"
proof (induction rs arbitrary: requests)
  case (Cons r rs)
  then obtain sub p where s: "signers R ps t (sr_entropy r) = Done (sub, p)" by auto
  let ?requests = "if me \<in> set sub
      then hm_insert p (hm_insert (sr_receipt_id r) r (or_default [] (hm_get requests p))) requests
      else requests"
  from Cons.prems have "\<forall>r \<in> set rs. \<exists>sub p. signers R ps t (sr_entropy r) = Done (sub, p)" by simp
  from Cons.IH [OF this, of ?requests] obtain requests' where
    "organize_loop R ps t me rs ?requests = Done requests'"
    "\<forall>p rid. filed requests' p rid \<longleftrightarrow> filed ?requests p rid \<or>
        (\<exists>r \<in> set rs. sr_receipt_id r = rid \<and>
           (\<exists>sub. signers R ps t (sr_entropy r) = Done (sub, p) \<and> me \<in> set sub))" by blast
  with s show ?case by (auto simp: filed_insert split: if_splits)
qed simp

lemma publish_loop_exact:
  "publish_loop send_tx sigs =
     (let calls = map (\<lambda>(_, payload, signature). (payload, signature)) sigs;
          good = takeWhile (\<lambda>c. send_tx c = None) calls
      in if length good = length calls then (calls, Inr ())
         else (take (length good + 1) calls, Inl (the (send_tx (calls ! length good)))))"
  by (induction send_tx sigs rule: publish_loop.induct) (auto simp: Let_def split: option.splits)

text \<open>The finished signatures of a table of generators that this node proposed.\<close>

definition proposed :: "Participant \<Rightarrow> CryptoHash \<times> SignatureGenerator \<Rightarrow> (CryptoHash \<times> bytes \<times> FullSignature) list" where
  "proposed me e = (case drive (sg_protocol (snd e)) of
       Some (_, Returned output) \<Rightarrow>
         if sg_proposer (snd e) = me then [(fst e, sg_msg_hash (snd e), output)] else []
     | _ \<Rightarrow> [])"

lemma signature_poke_one_proposed:
  "signature_poke_one m k g = Done (m', keep, msgs, err) \<Longrightarrow>
   m' = m\<lparr>sm_signatures := sm_signatures m @ proposed (sm_me m) (k, g)\<rparr>"
  by (cases "drive (sg_protocol g)")
    (auto simp: signature_poke_one_def proposed_def Let_def split: outcome.splits)

lemma signature_retain_proposed:
  "retain_poke signature_poke_one m gs = Done (m', kept, msgs, err) \<Longrightarrow>
   m' = m\<lparr>sm_signatures := sm_signatures m @ concat (map (proposed (sm_me m)) gs)\<rparr>"
proof (induction gs arbitrary: m m' kept msgs err)
  case (Cons kg gs)
  obtain k g where kg: "kg = (k, g)" by (cases kg)
  from Cons.prems obtain m1 keep msgs1 err1 kept2 msgs2 err2 where
    one: "signature_poke_one m k g = Done (m1, keep, msgs1, err1)" and
    rest: "retain_poke signature_poke_one m1 gs = Done (m', kept2, msgs2, err2)"
    by (auto simp: kg exec_bind_eq_Done split: prod.splits)
  from Cons.IH [OF rest] signature_poke_one_proposed [OF one] show ?case by (simp add: kg)
qed simp

section \<open>Properties\<close>

text \<open>
  C29: The nodes agree on who signs. Organising files a request under the proposer drawn
  from the request's entropy, and it does so on exactly the nodes of the drawn subset; the
  draw depends on the participants, the threshold and the entropy, never on the node. All
  earlier requests stay filed and none remains unorganised.
\<close>

theorem organize_agreement:
  assumes "\<forall>r \<in> set (sq_unorganized_requests q).
      \<exists>subset proposer. signers R (NParticipants_keys ps) t (sr_entropy r) = Done (subset, proposer)"
  shows "\<exists>q'. organize R ps t me q = Done q' \<and> sq_unorganized_requests q' = [] \<and>
    (\<forall>p rid. SignQueue_contains p rid q' \<longleftrightarrow> SignQueue_contains p rid q \<or>
       (\<exists>r \<in> set (sq_unorganized_requests q). sr_receipt_id r = rid \<and>
          (\<exists>subset. signers R (NParticipants_keys ps) t (sr_entropy r) = Done (subset, p) \<and>
                    me \<in> set subset)))"
  using organize_loop_exact [OF assms, of me "sq_requests q"]
  by (auto simp: organize_def contains_filed)

definition ex_rng :: rng_lib where
  "ex_rng = \<lparr>from_seed = id, choose_multiple = (\<lambda>rng ps t. (take t ps, rng)),
     choose_one = (\<lambda>rng ps. if ps = [] then None else Some (last ps))\<rparr>"

definition ex_request :: SignRequest where
  "ex_request = \<lparr>sr_receipt_id = [1], sr_msg_hash = [2], sr_epsilon = 3, sr_delta = 4, sr_entropy = [5]\<rparr>"

definition ex_nodes :: NParticipants where
  "ex_nodes = numbered [node_info ex_lib 0 (ParticipantInfo_from (ex_candidate ''a'')),
     node_info ex_lib 1 (ParticipantInfo_from (ex_candidate ''b'')),
     node_info ex_lib 2 (ParticipantInfo_from (ex_candidate ''c''))]"

theorem organize_agreement_witness:
  "\<exists>q'. organize ex_rng ex_nodes 2 0 (SignQueue_add ex_request SignQueue_new) = Done q' \<and>
     SignQueue_contains 1 [1] q'"
proof -
  have s: "signers ex_rng (NParticipants_keys ex_nodes) 2 (sr_entropy ex_request) = Done ([0, 1], 1)"
    by (simp add: signers_def ex_rng_def NParticipants_keys_def ex_nodes_def keys_numbered)
  have q: "sq_unorganized_requests (SignQueue_add ex_request SignQueue_new) = [ex_request]"
    by (simp add: SignQueue_add_def SignQueue_new_def)
  have "sr_receipt_id ex_request = [1]" by (simp add: ex_request_def)
  with organize_agreement [of "SignQueue_add ex_request SignQueue_new" ex_rng ex_nodes 2 0] s q
  show ?thesis by auto
qed


text \<open>The field of two elements acting on itself satisfies the laws.\<close>

definition ex_field :: curve_lib where
  "ex_field = ex_curve\<lparr>sc_add := (\<lambda>a b. (a + b) mod 2), sc_mul := (\<lambda>a b. (a * b) mod 2),
     sc_invert := (\<lambda>a. if a = 0 then None else Some a),
     pt_mul := (\<lambda>p a. if a = 0 then [0] else p), pt_generator := [1]\<rparr>"


text \<open>
  \<open>publish\<close> answers the finished signatures in order up to the first transaction that
  fails. That failure is returned, and every signature after the failed one, as
  well as the failed one itself, is dropped from the manager without having been published.
\<close>

theorem publish_exact:
  "\<exists>sent r. publish send_tx m = (m\<lparr>sm_signatures := []\<rparr>, sent, r) \<and>
    (let calls = map (\<lambda>(_, payload, signature). (payload, signature)) (sm_signatures m);
         good = takeWhile (\<lambda>c. send_tx c = None) calls
     in (r = Inr () \<longleftrightarrow> good = calls) \<and> sent = take (length good + 1) calls)"
proof -
  let ?calls = "map (\<lambda>(_, payload, signature). (payload, signature)) (sm_signatures m)"
  let ?good = "takeWhile (\<lambda>c. send_tx c = None) ?calls"
  have "?good = ?calls \<longleftrightarrow> length ?good = length ?calls"
    by (metis takeWhile_eq_take take_all_iff length_takeWhile_le)
  then show ?thesis
    by (cases "length ?good = length ?calls") (auto simp: publish_def publish_loop_exact Let_def)
qed

text \<open>
  Only the proposer publishes. Whenever poking returns, the signatures to publish grow
  by exactly those finished protocols of the table that this node proposed, each with the
  payload it was requested for.
\<close>

theorem signature_poke_files_proposed:
  assumes "signature_poke m = Done (m', r)"
  shows "sm_signatures m' = sm_signatures m @ concat (map (proposed (sm_me m)) (sm_generators m))"
  using assms
  by (auto simp: signature_poke_def exec_bind_eq_Done split: prod.splits dest!: signature_retain_proposed)

definition ex_signature_manager :: SignatureManager where
  "ex_signature_manager = (SignatureManager_new [0, 1] 0 [1] 0)\<lparr>sm_generators :=
     [([1], \<lparr>sg_protocol = ex_returns \<lparr>fs_big_r = [1], fs_s = 2\<rparr>, sg_proposer = 0, sg_presignature_id = 5,
             sg_msg_hash = [2], sg_epsilon = 3, sg_delta = 4\<rparr>)]\<rparr>"

theorem signature_poke_files_proposed_witness:
  "\<exists>m' r. signature_poke ex_signature_manager = Done (m', r) \<and>
     sm_signatures m' = [([1], [2], \<lparr>fs_big_r = [1], fs_s = 2\<rparr>)]"
proof -
  obtain m' r where p: "signature_poke ex_signature_manager = Done (m', r)"
    by (simp add: signature_poke_def ex_signature_manager_def SignatureManager_new_def
        signature_poke_one_def Let_def)
  from signature_poke_files_proposed [OF p] p show ?thesis
    by (simp add: ex_signature_manager_def SignatureManager_new_def proposed_def)
qed

end
