(* ===== verification/Node_State.thy ===== *)
theory Node_State
  imports Signature
begin

text \<open>
  The states of a node, \<^verbatim>\<open>node/src/protocol/state.rs\<close>, with the protocol wrappers of
  \<^verbatim>\<open>node/src/types.rs\<close>, the messages of \<^verbatim>\<open>node/src/protocol/message.rs\<close> and the outgoing
  queue of \<^verbatim>\<open>node/src/http_client.rs\<close>.

  The managers, protocols and queues of a state are shared references in the source. A
  state is cloned only by the main loop, which works on the clone and stores it back, so
  the model keeps their contents inside the state; \<open>Node_Run\<close> says what is stored when a
  step fails half way.
\<close>

section \<open>Key generation and resharing protocols (\<^verbatim>\<open>types.rs\<close>)\<close>

record KeygenOutput =
  ko_private_share :: SecretKeyShare
  ko_public_key :: PublicKey

record KeygenProtocol =
  kp_me :: Participant
  kp_threshold :: nat
  kp_participants :: "Participant list"
  kp_protocol :: "KeygenOutput protocol"

record ReshareProtocol =
  rp_old_participants :: "Participant list"
  rp_new_participants :: "Participant list"
  rp_me :: Participant
  rp_threshold :: nat
  rp_private_share :: "SecretKeyShare option"
  rp_protocol :: "SecretKeyShare protocol"
  rp_root_pk :: PublicKey

text \<open>The constructors of cait-sith for both.\<close>

record key_lib =
  cs_keygen :: "Participant list \<Rightarrow> Participant \<Rightarrow> nat \<Rightarrow> InitializationError + KeygenOutput protocol"
  cs_reshare :: "Participant list \<Rightarrow> nat \<Rightarrow> Participant list \<Rightarrow> nat \<Rightarrow> Participant \<Rightarrow>
     SecretKeyShare option \<Rightarrow> PublicKey \<Rightarrow> InitializationError + SecretKeyShare protocol"

definition KeygenProtocol_new ::
  "key_lib \<Rightarrow> Participant list \<Rightarrow> Participant \<Rightarrow> nat \<Rightarrow> InitializationError + KeygenProtocol" where
  "KeygenProtocol_new K participants me threshold =
     res_bind (cs_keygen K participants me threshold) (\<lambda>protocol.
     Inr \<lparr>kp_me = me, kp_threshold = threshold, kp_participants = participants,
          kp_protocol = protocol\<rparr>)"

text \<open>\<open>refresh\<close> replaces the protocol by a new one, or leaves it when that fails.\<close>

definition KeygenProtocol_refresh ::
  "key_lib \<Rightarrow> KeygenProtocol \<Rightarrow> KeygenProtocol \<times> (InitializationError + unit)" where
  "KeygenProtocol_refresh K p =
     (case cs_keygen K (kp_participants p) (kp_me p) (kp_threshold p) of
        Inl e \<Rightarrow> (p, Inl e)
      | Inr protocol \<Rightarrow> (p\<lparr>kp_protocol := protocol\<rparr>, Inr ()))"

definition ReshareProtocol_new ::
  "key_lib \<Rightarrow> SecretKeyShare option \<Rightarrow> Participant \<Rightarrow> NResharingContractState \<Rightarrow>
     InitializationError + ReshareProtocol" where
  "ReshareProtocol_new K private_share me cstate =
     (let old_participants = NParticipants_keys (nsc_old_participants cstate);
          new_participants = NParticipants_keys (nsc_new_participants cstate)
      in res_bind (cs_reshare K old_participants (nsc_threshold cstate) new_participants
                     (nsc_threshold cstate) me private_share
                     (nsc_public_key cstate)) (\<lambda>protocol.
         Inr \<lparr>rp_old_participants = old_participants, rp_new_participants = new_participants,
              rp_me = me, rp_threshold = nsc_threshold cstate,
              rp_private_share = private_share, rp_protocol = protocol,
              rp_root_pk = nsc_public_key cstate\<rparr>))"

definition ReshareProtocol_refresh ::
  "key_lib \<Rightarrow> ReshareProtocol \<Rightarrow> ReshareProtocol \<times> (InitializationError + unit)" where
  "ReshareProtocol_refresh K p =
     (case cs_reshare K (rp_old_participants p) (rp_threshold p) (rp_new_participants p)
             (rp_threshold p) (rp_me p) (rp_private_share p) (rp_root_pk p) of
        Inl e \<Rightarrow> (p, Inl e)
      | Inr protocol \<Rightarrow> (p\<lparr>rp_protocol := protocol\<rparr>, Inr ()))"

section \<open>Messages\<close>

record GeneratingMessage =
  gmsg_from :: Participant
  gmsg_data :: bytes

record ResharingMessage =
  rmsg_epoch :: u64
  rmsg_from :: Participant
  rmsg_data :: bytes

datatype MpcMessage =
    MGenerating GeneratingMessage
  | MResharing ResharingMessage
  | MTriple TripleMessage
  | MPresignature PresignatureMessage
  | MSignature SignatureMessage

type_synonym MessageQueue = "(NParticipantInfo \<times> MpcMessage) list"

section \<open>Errors\<close>

datatype SendError =
    Unsuccessful string
  | DataConversionError string
  | ReqwestClientError string
  | ReqwestBodyError string
  | MalformedResponse string
  | EncryptionError string

datatype CryptographicError =
    CE_SendError SendError
  | CE_UnknownParticipant Participant
  | CE_RpcError string
  | CE_CaitSithInitializationError InitializationError
  | CE_CaitSithProtocolError ProtocolError
  | CE_SyncError string
  | CE_DataConversion string
  | CE_Encryption string
  | CE_InvalidStateHandle string
  | CE_SecretStorageError string

section \<open>Node states\<close>

record PersistentNodeData =
  pd_epoch :: u64
  pd_private_share :: SecretKeyShare
  pd_public_key :: PublicKey

record GeneratingState =
  gs_participants :: NParticipants
  gs_threshold :: nat
  gs_protocol :: KeygenProtocol
  gs_messages :: MessageQueue

record WaitingForConsensusState =
  ws_epoch :: u64
  ws_participants :: NParticipants
  ws_threshold :: nat
  ws_private_share :: SecretKeyShare
  ws_public_key :: PublicKey
  ws_messages :: MessageQueue

text \<open>
  The queue of sign requests of a running state is the one queue of the process, shared with the indexer;
  it is passed separately.
\<close>

record RunningState =
  rs_epoch :: u64
  rs_participants :: NParticipants
  rs_threshold :: nat
  rs_private_share :: SecretKeyShare
  rs_public_key :: PublicKey
  rs_triple_manager :: TripleManager
  rs_presignature_manager :: PresignatureManager
  rs_signature_manager :: SignatureManager
  rs_messages :: MessageQueue

record ResharingState =
  hs_old_epoch :: u64
  hs_old_participants :: NParticipants
  hs_new_participants :: NParticipants
  hs_threshold :: nat
  hs_public_key :: PublicKey
  hs_protocol :: ReshareProtocol
  hs_messages :: MessageQueue

record JoiningState =
  js_participants :: NParticipants
  js_public_key :: PublicKey

datatype NodeState =
    NSStarting
  | NSStarted "PersistentNodeData option"
  | NSGenerating GeneratingState
  | NSWaitingForConsensus WaitingForConsensusState
  | NSRunning RunningState
  | NSResharing ResharingState
  | NSJoining JoiningState

definition fetch_participant :: "Participant \<Rightarrow> NParticipants \<Rightarrow> CryptographicError + NParticipantInfo" where
  "fetch_participant p participants =
     (case NParticipants_get participants p of
        None \<Rightarrow> Inl (CE_UnknownParticipant p)
      | Some info \<Rightarrow> Inr info)"

definition ResharingState_fetch_participant ::
  "ResharingState \<Rightarrow> Participant \<Rightarrow> CryptographicError + NParticipantInfo" where
  "ResharingState_fetch_participant s p =
     (case fetch_participant p (hs_new_participants s) of
        Inr info \<Rightarrow> Inr info
      | Inl _ \<Rightarrow> fetch_participant p (hs_old_participants s))"

fun NodeState_fetch_participant :: "NodeState \<Rightarrow> Participant \<Rightarrow> CryptographicError + NParticipantInfo" where
  "NodeState_fetch_participant (NSRunning s) p = fetch_participant p (rs_participants s)"
| "NodeState_fetch_participant (NSGenerating s) p = fetch_participant p (gs_participants s)"
| "NodeState_fetch_participant (NSWaitingForConsensus s) p = fetch_participant p (ws_participants s)"
| "NodeState_fetch_participant (NSResharing s) p = ResharingState_fetch_participant s p"
| "NodeState_fetch_participant (NSJoining s) p = fetch_participant p (js_participants s)"
| "NodeState_fetch_participant _ p = Inl (CE_UnknownParticipant p)"

fun NodeState_find_participant_info :: "NodeState \<Rightarrow> AccountId \<Rightarrow> NParticipantInfo option" where
  "NodeState_find_participant_info NSStarting a = None"
| "NodeState_find_participant_info (NSStarted _) a = None"
| "NodeState_find_participant_info (NSGenerating s) a = find_participant_info (gs_participants s) a"
| "NodeState_find_participant_info (NSWaitingForConsensus s) a = find_participant_info (ws_participants s) a"
| "NodeState_find_participant_info (NSRunning s) a = find_participant_info (rs_participants s) a"
| "NodeState_find_participant_info (NSResharing s) a =
     (case find_participant_info (hs_new_participants s) a of
        Some info \<Rightarrow> Some info
      | None \<Rightarrow> find_participant_info (hs_old_participants s) a)"
| "NodeState_find_participant_info (NSJoining s) a = find_participant_info (js_participants s) a"

section \<open>Sending (\<^verbatim>\<open>http_client.rs\<close>)\<close>

text \<open>What one http request may come back with.\<close>

datatype http_response =
    NoConnection string
  | BrokenBody string
  | NotUtf8 string
  | Response bool string

text \<open>
  The world of one flush of the queue: whether a message can be encrypted, whether a url
  parses, and the outcome of every attempt (the number of the message sent in this flush,
  and the number of the attempt).
\<close>

record net =
  encrypt_error :: "NParticipantInfo \<times> MpcMessage \<Rightarrow> string option"
  url_error :: "string \<Rightarrow> string option"
  post :: "nat \<Rightarrow> nat \<Rightarrow> http_response"

text \<open>\<open>Retry::spawn\<close> with a strategy of \<open>n\<close> delays: one attempt and up to \<open>n\<close> more.\<close>

fun retry :: "nat \<Rightarrow> (nat \<Rightarrow> 'e option) \<Rightarrow> nat \<Rightarrow> 'e option" where
  "retry 0 f i = f i"
| "retry (Suc n) f i = (case f i of None \<Rightarrow> None | Some _ \<Rightarrow> retry n f (Suc i))"

fun msg_response_error :: "http_response \<Rightarrow> SendError option" where
  "msg_response_error (NoConnection e) = Some (ReqwestClientError e)"
| "msg_response_error (BrokenBody e) = Some (ReqwestBodyError e)"
| "msg_response_error (NotUtf8 e) = Some (MalformedResponse e)"
| "msg_response_error (Response ok body) = (if ok then None else Some (Unsuccessful body))"

text \<open>One message: \<open>None\<close> when it was delivered.\<close>

definition send_encrypted_one ::
  "net \<Rightarrow> nat \<Rightarrow> NParticipantInfo \<times> MpcMessage \<Rightarrow> SendError option" where
  "send_encrypted_one N i m =
     (case encrypt_error N m of
        Some e \<Rightarrow> Some (EncryptionError e)
      | None \<Rightarrow>
          (case url_error N (np_url (fst m)) of
             Some e \<Rightarrow> Some (ReqwestClientError e)
           | None \<Rightarrow> retry 3 (\<lambda>k. msg_response_error (post N i k)) 0))"

text \<open>
  \<open>join\<close> reads the body of the response only when the status is not a success: a success
  with a broken body counts as delivered. The attempt's outcome says both.
\<close>

datatype join_response =
    JNoConnection string
  | JSuccess
  | JBrokenBody string
  | JNotUtf8 string
  | JRejected string

fun join_response_error :: "join_response \<Rightarrow> SendError option" where
  "join_response_error (JNoConnection e) = Some (ReqwestClientError e)"
| "join_response_error JSuccess = None"
| "join_response_error (JBrokenBody e) = Some (ReqwestBodyError e)"
| "join_response_error (JNotUtf8 e) = Some (MalformedResponse e)"
| "join_response_error (JRejected body) = Some (Unsuccessful body)"

definition http_join :: "(string \<Rightarrow> string option) \<Rightarrow> (nat \<Rightarrow> join_response) \<Rightarrow> string \<Rightarrow> SendError option" where
  "http_join url_err attempts url =
     (case url_err url of
        Some e \<Rightarrow> Some (ReqwestClientError e)
      | None \<Rightarrow> retry 3 (\<lambda>k. join_response_error (attempts k)) 0)"

definition MessageQueue_len :: "MessageQueue \<Rightarrow> nat" where
  "MessageQueue_len q = length q"

definition MessageQueue_is_empty :: "MessageQueue \<Rightarrow> bool" where
  "MessageQueue_is_empty q \<longleftrightarrow> q = []"

definition MessageQueue_push :: "NParticipantInfo \<Rightarrow> MpcMessage \<Rightarrow> MessageQueue \<Rightarrow> MessageQueue" where
  "MessageQueue_push info msg q = q @ [(info, msg)]"

text \<open>The loop of \<open>MessageQueue::send_encrypted\<close>: what remains, what was delivered, the error.\<close>

fun MessageQueue_send ::
  "net \<Rightarrow> nat \<Rightarrow> MessageQueue \<Rightarrow> MessageQueue \<times> (NParticipantInfo \<times> MpcMessage) list \<times> (SendError + unit)" where
  "MessageQueue_send N i [] = ([], [], Inr ())"
| "MessageQueue_send N i (m # q) =
     (case send_encrypted_one N i m of
        Some err \<Rightarrow> (m # q, [], Inl err)
      | None \<Rightarrow> (let (rest, sent, r) = MessageQueue_send N (Suc i) q in (rest, m # sent, r)))"

section \<open>Properties\<close>

lemma retry_None_iff: "retry n f i = None \<longleftrightarrow> (\<exists>k \<le> n. f (i + k) = None)"
proof (induction n arbitrary: i)
  case (Suc n)
  have "(\<exists>k \<le> Suc n. f (i + k) = None) \<longleftrightarrow> f i = None \<or> (\<exists>k \<le> n. f (Suc i + k) = None)"
    by (metis Suc_le_mono add.right_neutral add_Suc_right add_Suc le0 not0_implies_Suc)
  with Suc.IH [of "Suc i"] show ?case by (auto split: option.splits)
qed simp

lemma MessageQueue_send_split:
  "MessageQueue_send N i q = (rest, sent, r) \<Longrightarrow>
   sent @ rest = q \<and> (r = Inr () \<longleftrightarrow> rest = []) \<and>
   (\<forall>j < length sent. send_encrypted_one N (i + j) (q ! j) = None) \<and>
   (\<forall>e. r = Inl e \<longrightarrow> send_encrypted_one N (i + length sent) (hd rest) = Some e)"
proof (induction q arbitrary: i rest sent r)
  case (Cons m q)
  show ?case
  proof (cases "send_encrypted_one N i m")
    case None
    with Cons.prems obtain sent' where
      *: "MessageQueue_send N (Suc i) q = (rest, sent', r)" "sent = m # sent'"
      by (auto split: prod.splits)
    from Cons.IH [OF *(1)] None *(2) show ?thesis
      by (auto simp: less_Suc_eq_0_disj)
  qed (use Cons.prems in auto)
qed simp

text \<open>
  Outgoing messages are neither lost, nor duplicated in the queue, nor reordered. A flush delivers a prefix
  of the queue in order and keeps the rest; it reports an error exactly when something
  remains, and then the first message kept is the one whose encryption, address or all
  four attempts failed: everything behind it waits.
\<close>

theorem message_queue_fifo:
  "\<exists>rest sent r. MessageQueue_send N 0 q = (rest, sent, r) \<and> sent @ rest = q \<and>
    (r = Inr () \<longleftrightarrow> rest = []) \<and>
    (\<forall>j < length sent. send_encrypted_one N j (q ! j) = None) \<and>
    (rest \<noteq> [] \<longrightarrow> r = Inl (the (send_encrypted_one N (length sent) (hd rest))))"
proof -
  obtain rest sent r where s: "MessageQueue_send N 0 q = (rest, sent, r)" by (cases "MessageQueue_send N 0 q") auto
  from MessageQueue_send_split [OF this] show ?thesis
    by (intro exI [of _ rest] exI [of _ sent] exI [of _ r]) (auto simp: s; cases r; auto)
qed

definition ex_net :: net where
  "ex_net = \<lparr>encrypt_error = (\<lambda>_. None), url_error = (\<lambda>_. None),
     post = (\<lambda>i k. if i = 0 \<and> k = 3 then Response True [] else NoConnection [])\<rparr>"

definition ex_mail :: "NParticipantInfo \<times> MpcMessage" where
  "ex_mail = (node_info ex_lib 0 (ParticipantInfo_from (ex_candidate ''a'')),
     MGenerating \<lparr>gmsg_from = 1, gmsg_data = [7]\<rparr>)"

theorem message_queue_fifo_witness:
  "\<exists>rest sent r. MessageQueue_send ex_net 0 [ex_mail, ex_mail] = (rest, sent, r) \<and>
     rest = [ex_mail] \<and> sent = [ex_mail] \<and> r = Inl (ReqwestClientError [])"
proof -
  have 1: "send_encrypted_one ex_net 0 ex_mail = None"
    and 2: "send_encrypted_one ex_net 1 ex_mail = Some (ReqwestClientError [])"
    by (simp_all add: send_encrypted_one_def ex_net_def numeral_3_eq_3)
  have "MessageQueue_send ex_net 0 [ex_mail, ex_mail] = ([ex_mail], [ex_mail], Inl (ReqwestClientError []))"
    using 1 2 by simp
  with message_queue_fifo [of ex_net "[ex_mail, ex_mail]"] show ?thesis by simp
qed

end
