(* ===== verification/Messages.thy ===== *)
theory Messages
  imports Node_State
begin

text \<open>
  Incoming messages, \<^verbatim>\<open>node/src/protocol/message.rs\<close>: the queue that sorts them by kind,
  epoch and protocol, and the handlers that deliver them to the protocols of the current
  state. A handler returns the state and the queue it leaves behind together with its
  result; an early return leaves both half way, as in the source.
\<close>

section \<open>The queue\<close>

record MpcMessageQueue =
  mq_generating :: "GeneratingMessage list"
  mq_resharing_bins :: "(u64, ResharingMessage list) hmap"
  mq_triple_bins :: "(u64, (TripleId, TripleMessage list) hmap) hmap"
  mq_presignature_bins :: "(u64, (PresignatureId, PresignatureMessage list) hmap) hmap"
  mq_signature_bins :: "(u64, (CryptoHash, SignatureMessage list) hmap) hmap"

definition MpcMessageQueue_default :: MpcMessageQueue where
  "MpcMessageQueue_default = \<lparr>mq_generating = [], mq_resharing_bins = [], mq_triple_bins = [],
     mq_presignature_bins = [], mq_signature_bins = []\<rparr>"

text \<open>\<open>entry(k).or_default().push_back(v)\<close>\<close>

definition bin_push :: "'k \<Rightarrow> 'v \<Rightarrow> ('k, 'v list) hmap \<Rightarrow> ('k, 'v list) hmap" where
  "bin_push k v bins = hm_insert k (or_default [] (hm_get bins k) @ [v]) bins"

definition bin_push2 ::
  "u64 \<Rightarrow> 'k \<Rightarrow> 'v \<Rightarrow> (u64, ('k, 'v list) hmap) hmap \<Rightarrow> (u64, ('k, 'v list) hmap) hmap" where
  "bin_push2 e k v bins = hm_insert e (bin_push k v (or_default [] (hm_get bins e))) bins"

fun MpcMessageQueue_push :: "MpcMessage \<Rightarrow> MpcMessageQueue \<Rightarrow> MpcMessageQueue" where
  "MpcMessageQueue_push (MGenerating m) q = q\<lparr>mq_generating := mq_generating q @ [m]\<rparr>"
| "MpcMessageQueue_push (MResharing m) q =
     q\<lparr>mq_resharing_bins := bin_push (rmsg_epoch m) m (mq_resharing_bins q)\<rparr>"
| "MpcMessageQueue_push (MTriple m) q =
     q\<lparr>mq_triple_bins := bin_push2 (tmsg_epoch m) (tmsg_id m) m (mq_triple_bins q)\<rparr>"
| "MpcMessageQueue_push (MPresignature m) q =
     q\<lparr>mq_presignature_bins := bin_push2 (pmsg_epoch m) (pmsg_id m) m (mq_presignature_bins q)\<rparr>"
| "MpcMessageQueue_push (MSignature m) q =
     q\<lparr>mq_signature_bins := bin_push2 (smsg_epoch m) (smsg_receipt_id m) m (mq_signature_bins q)\<rparr>"

section \<open>Errors of a handler\<close>

datatype MessageHandleError =
    ME_CaitSithInitializationError InitializationError
  | ME_CaitSithProtocolError ProtocolError
  | ME_SyncError string
  | ME_SendError SendError
  | ME_UnknownParticipant Participant
  | ME_DataConversion string
  | ME_Encryption string
  | ME_InvalidStateHandle string
  | ME_RpcError string
  | ME_SecretStorageError string

fun MessageHandleError_from :: "CryptographicError \<Rightarrow> MessageHandleError" where
  "MessageHandleError_from (CE_CaitSithInitializationError e) = ME_CaitSithInitializationError e"
| "MessageHandleError_from (CE_CaitSithProtocolError e) = ME_CaitSithProtocolError e"
| "MessageHandleError_from (CE_SyncError e) = ME_SyncError e"
| "MessageHandleError_from (CE_SendError e) = ME_SendError e"
| "MessageHandleError_from (CE_UnknownParticipant p) = ME_UnknownParticipant p"
| "MessageHandleError_from (CE_DataConversion e) = ME_DataConversion e"
| "MessageHandleError_from (CE_Encryption e) = ME_Encryption e"
| "MessageHandleError_from (CE_InvalidStateHandle e) = ME_InvalidStateHandle e"
| "MessageHandleError_from (CE_RpcError e) = ME_RpcError e"
| "MessageHandleError_from (CE_SecretStorageError e) = ME_SecretStorageError e"

section \<open>Key generation and resharing\<close>

definition GeneratingState_handle ::
  "GeneratingState \<Rightarrow> MpcMessageQueue \<Rightarrow> GeneratingState \<times> MpcMessageQueue" where
  "GeneratingState_handle s q =
     (let kp = gs_protocol s;
          protocol = fold (\<lambda>msg p. message_of p (gmsg_from msg) (gmsg_data msg))
                       (mq_generating q) (kp_protocol kp)
      in (s\<lparr>gs_protocol := kp\<lparr>kp_protocol := protocol\<rparr>\<rparr>, q\<lparr>mq_generating := []\<rparr>))"

definition ResharingState_handle ::
  "ResharingState \<Rightarrow> MpcMessageQueue \<Rightarrow> ResharingState \<times> MpcMessageQueue" where
  "ResharingState_handle s q =
     (let msgs = or_default [] (hm_get (mq_resharing_bins q) (hs_old_epoch s));
          rp = hs_protocol s;
          protocol = fold (\<lambda>msg p. message_of p (rmsg_from msg) (rmsg_data msg)) msgs (rp_protocol rp)
      in (s\<lparr>hs_protocol := rp\<lparr>rp_protocol := protocol\<rparr>\<rparr>,
          q\<lparr>mq_resharing_bins := hm_insert (hs_old_epoch s) [] (mq_resharing_bins q)\<rparr>))"

section \<open>Running\<close>

text \<open>The functions of cait-sith and of the curve a running node uses.\<close>

record run_lib =
  lib_triple :: triple_lib
  lib_presign :: presign_lib
  lib_sign :: sign_lib
  lib_curve :: curve_lib
  lib_rng :: rng_lib

text \<open>The loop over the bins of triple messages of the current epoch.\<close>

fun handle_triples ::
  "triple_lib \<Rightarrow> TripleManager \<Rightarrow> (TripleId \<times> TripleMessage list) list \<Rightarrow>
     TripleManager \<times> (TripleId \<times> TripleMessage list) list \<times> (InitializationError + unit)" where
  "handle_triples T tm [] = (tm, [], Inr ())"
| "handle_triples T tm ((tid, msgs) # bins) =
     (case triple_get_or_generate T tid tm of
        (tm1, Inl e) \<Rightarrow> (tm1, (tid, msgs) # bins, Inl e)
      | (tm1, Inr True) \<Rightarrow>
          (let tm2 = fold (\<lambda>msg. triple_message tid (tmsg_from msg) (tmsg_data msg)) msgs tm1;
               (tm3, bins', r) = handle_triples T tm2 bins
           in (tm3, (tid, []) # bins', r))
      | (tm1, Inr False) \<Rightarrow>
          (let (tm3, bins', r) = handle_triples T tm1 bins in (tm3, (tid, msgs) # bins', r)))"

text \<open>
  The loop over the messages of one bin of presignature messages. \<open>leftover\<close> are the
  messages to store again; an early return loses them, and the message at hand.
\<close>

fun handle_presignature_bin ::
  "presign_lib \<Rightarrow> PublicKey \<Rightarrow> SecretKeyShare \<Rightarrow> PresignatureId \<Rightarrow> TripleManager \<Rightarrow>
     PresignatureManager \<Rightarrow> PresignatureMessage list \<Rightarrow> PresignatureMessage list \<Rightarrow>
     (TripleManager \<times> PresignatureManager \<times> PresignatureMessage list \<times> (InitializationError + unit)) exec" where
  "handle_presignature_bin presign pk sk pid tm pm leftover [] = Done (tm, pm, leftover, Inr ())"
| "handle_presignature_bin presign pk sk pid tm pm leftover (msg # msgs) =
     exec_bind (presignature_get_or_generate presign pid (pmsg_triple0 msg) (pmsg_triple1 msg) pk sk tm pm)
       (\<lambda>(tm1, pm1, r).
        case r of
          Inr () \<Rightarrow>
            handle_presignature_bin presign pk sk pid tm1
              (presignature_message pid (pmsg_from msg) (pmsg_data msg) pm1) leftover msgs
        | Inl AlreadyGenerated \<Rightarrow> handle_presignature_bin presign pk sk pid tm1 pm1 leftover msgs
        | Inl (TripleIsMissing _) \<Rightarrow>
            handle_presignature_bin presign pk sk pid tm1 pm1 (leftover @ [msg]) msgs
        | Inl (CaitSithInitializationError e) \<Rightarrow> Done (tm1, pm1, msgs, Inl e))"

fun handle_presignatures ::
  "presign_lib \<Rightarrow> PublicKey \<Rightarrow> SecretKeyShare \<Rightarrow> TripleManager \<Rightarrow> PresignatureManager \<Rightarrow>
     (PresignatureId \<times> PresignatureMessage list) list \<Rightarrow>
     (TripleManager \<times> PresignatureManager \<times> (PresignatureId \<times> PresignatureMessage list) list \<times>
      (InitializationError + unit)) exec" where
  "handle_presignatures presign pk sk tm pm [] = Done (tm, pm, [], Inr ())"
| "handle_presignatures presign pk sk tm pm ((pid, msgs) # bins) =
     exec_bind (handle_presignature_bin presign pk sk pid tm pm [] msgs) (\<lambda>(tm1, pm1, msgs', r).
     case r of
       Inl e \<Rightarrow> Done (tm1, pm1, (pid, msgs') # bins, Inl e)
     | Inr () \<Rightarrow>
         exec_bind (handle_presignatures presign pk sk tm1 pm1 bins) (\<lambda>(tm2, pm2, bins', r').
         Done (tm2, pm2, (pid, msgs') # bins', r')))"

fun handle_signature_bin ::
  "curve_lib \<Rightarrow> sign_lib \<Rightarrow> CryptoHash \<Rightarrow> PresignatureManager \<Rightarrow> SignatureManager \<Rightarrow>
     SignatureMessage list \<Rightarrow> SignatureMessage list \<Rightarrow>
     (PresignatureManager \<times> SignatureManager \<times> SignatureMessage list \<times> (InitializationError + unit)) exec" where
  "handle_signature_bin C sign rid pm sm leftover [] = Done (pm, sm, leftover, Inr ())"
| "handle_signature_bin C sign rid pm sm leftover (msg # msgs) =
     exec_bind (signature_get_or_generate C sign rid (smsg_proposer msg) (smsg_presignature_id msg)
                  (smsg_msg_hash msg) (smsg_epsilon msg) (smsg_delta msg) pm sm) (\<lambda>(pm1, sm1, r).
     case r of
       Inl e \<Rightarrow> Done (pm1, sm1, msgs, Inl e)
     | Inr True \<Rightarrow>
         handle_signature_bin C sign rid pm1
           (signature_message rid (smsg_from msg) (smsg_data msg) sm1) leftover msgs
     | Inr False \<Rightarrow> handle_signature_bin C sign rid pm1 sm1 (leftover @ [msg]) msgs)"

fun handle_signatures ::
  "curve_lib \<Rightarrow> sign_lib \<Rightarrow> PresignatureManager \<Rightarrow> SignatureManager \<Rightarrow>
     (CryptoHash \<times> SignatureMessage list) list \<Rightarrow>
     (PresignatureManager \<times> SignatureManager \<times> (CryptoHash \<times> SignatureMessage list) list \<times>
      (InitializationError + unit)) exec" where
  "handle_signatures C sign pm sm [] = Done (pm, sm, [], Inr ())"
| "handle_signatures C sign pm sm ((rid, msgs) # bins) =
     exec_bind (handle_signature_bin C sign rid pm sm [] msgs) (\<lambda>(pm1, sm1, msgs', r).
     case r of
       Inl e \<Rightarrow> Done (pm1, sm1, (rid, msgs') # bins, Inl e)
     | Inr () \<Rightarrow>
         exec_bind (handle_signatures C sign pm1 sm1 bins) (\<lambda>(pm2, sm2, bins', r').
         Done (pm2, sm2, (rid, msgs') # bins', r')))"

text \<open>The whole handler: triples, then presignatures, then signatures.\<close>

definition RunningState_handle ::
  "run_lib \<Rightarrow> RunningState \<Rightarrow> MpcMessageQueue \<Rightarrow>
     (RunningState \<times> MpcMessageQueue \<times> (MessageHandleError + unit)) exec" where
  "RunningState_handle R s q =
     (let e = rs_epoch s;
          (tm1, tbins, r1) = handle_triples (lib_triple R) (rs_triple_manager s)
                               (or_default [] (hm_get (mq_triple_bins q) e));
          s1 = s\<lparr>rs_triple_manager := tm1\<rparr>;
          q1 = q\<lparr>mq_triple_bins := hm_insert e tbins (mq_triple_bins q)\<rparr>
      in case r1 of
           Inl err \<Rightarrow> Done (s1, q1, Inl (MessageHandleError_from (CE_CaitSithInitializationError err)))
         | Inr () \<Rightarrow>
             exec_bind (handle_presignatures (lib_presign R) (rs_public_key s) (rs_private_share s)
                          tm1 (rs_presignature_manager s1)
                          (or_default [] (hm_get (mq_presignature_bins q1) e))) (\<lambda>(tm2, pm2, pbins, r2).
             let s2 = s1\<lparr>rs_triple_manager := tm2, rs_presignature_manager := pm2\<rparr>;
                 q2 = q1\<lparr>mq_presignature_bins := hm_insert e pbins (mq_presignature_bins q1)\<rparr>
             in case r2 of
                  Inl err \<Rightarrow> Done (s2, q2, Inl (ME_CaitSithInitializationError err))
                | Inr () \<Rightarrow>
                    exec_bind (handle_signatures (lib_curve R) (lib_sign R) pm2
                                 (rs_signature_manager s2)
                                 (or_default [] (hm_get (mq_signature_bins q2) e))) (\<lambda>(pm3, sm3, sbins, r3).
                    let s3 = s2\<lparr>rs_presignature_manager := pm3, rs_signature_manager := sm3\<rparr>;
                        q3 = q2\<lparr>mq_signature_bins := hm_insert e sbins (mq_signature_bins q2)\<rparr>
                    in Done (s3, q3, map_sum ME_CaitSithInitializationError id r3))))"

fun NodeState_handle ::
  "run_lib \<Rightarrow> NodeState \<Rightarrow> MpcMessageQueue \<Rightarrow>
     (NodeState \<times> MpcMessageQueue \<times> (MessageHandleError + unit)) exec" where
  "NodeState_handle R (NSGenerating s) q =
     (let (s', q') = GeneratingState_handle s q in Done (NSGenerating s', q', Inr ()))"
| "NodeState_handle R (NSResharing s) q =
     (let (s', q') = ResharingState_handle s q in Done (NSResharing s', q', Inr ()))"
| "NodeState_handle R (NSRunning s) q =
     exec_bind (RunningState_handle R s q) (\<lambda>(s', q', r). Done (NSRunning s', q', r))"
| "NodeState_handle R s q = Done (s, q, Inr ())"

section \<open>Encryption (\<^verbatim>\<open>keys/src/hpke.rs\<close>)\<close>

definition INFO_ENTROPY :: bytes where
  "INFO_ENTROPY = string_bytes ''mpc-key-v1''"

record Ciphered =
  c_encapped_key :: bytes
  c_text :: bytes
  c_tag :: bytes

text \<open>
  The \<open>hpke\<close> crate: key derivation, encapsulation and the authenticated cipher. A context is
  opaque; the coins of the encapsulation are the first argument.
\<close>

record hpke_lib =
  setup_sender :: "nat \<Rightarrow> bytes \<Rightarrow> bytes \<Rightarrow> string + bytes \<times> bytes"
  seal :: "bytes \<Rightarrow> bytes \<Rightarrow> bytes \<Rightarrow> string + bytes \<times> bytes"
  setup_receiver :: "bytes \<Rightarrow> bytes \<Rightarrow> bytes \<Rightarrow> string + bytes"
  open_sealed :: "bytes \<Rightarrow> bytes \<Rightarrow> bytes \<Rightarrow> bytes \<Rightarrow> string + bytes"

definition hpke_encrypt :: "hpke_lib \<Rightarrow> nat \<Rightarrow> bytes \<Rightarrow> bytes \<Rightarrow> bytes \<Rightarrow> string + Ciphered" where
  "hpke_encrypt H coins pk msg associated_data =
     res_bind (setup_sender H coins pk INFO_ENTROPY) (\<lambda>(encapped_key, sender_ctx).
     res_bind (seal H sender_ctx msg associated_data) (\<lambda>(ciphertext, tag).
     Inr \<lparr>c_encapped_key = encapped_key, c_text = ciphertext, c_tag = tag\<rparr>))"

definition hpke_decrypt :: "hpke_lib \<Rightarrow> bytes \<Rightarrow> Ciphered \<Rightarrow> bytes \<Rightarrow> string + bytes" where
  "hpke_decrypt H sk cipher associated_data =
     res_bind (setup_receiver H sk (c_encapped_key cipher) INFO_ENTROPY) (\<lambda>receiver_ctx.
     open_sealed H receiver_ctx (c_text cipher) associated_data (c_tag cipher))"

section \<open>Signed messages\<close>

definition ASSOCIATED_DATA :: bytes where
  "ASSOCIATED_DATA = []"

text \<open>Serialisation by \<open>serde_json\<close> and the signatures of \<open>near_crypto\<close>.\<close>

record wire_lib =
  msg_to_vec :: "MpcMessage \<Rightarrow> string + bytes"
  msg_from_slice :: "bytes \<Rightarrow> string + MpcMessage"
  signed_to_vec :: "bytes \<times> bytes \<times> Participant \<Rightarrow> string + bytes"
  signed_from_slice :: "bytes \<Rightarrow> string + bytes \<times> bytes \<times> Participant"
  sk_sign :: "bytes \<Rightarrow> bytes \<Rightarrow> bytes"
  sig_verify :: "bytes \<Rightarrow> bytes \<Rightarrow> near_public_key \<Rightarrow> bool"

definition map_err :: "('e \<Rightarrow> 'f) \<Rightarrow> 'e + 'a \<Rightarrow> 'f + 'a" where
  "map_err f r = map_sum f id r"

definition SignedMessage_encrypt ::
  "wire_lib \<Rightarrow> hpke_lib \<Rightarrow> nat \<Rightarrow> MpcMessage \<Rightarrow> Participant \<Rightarrow> bytes \<Rightarrow> bytes \<Rightarrow>
     CryptographicError + Ciphered" where
  "SignedMessage_encrypt W H coins msg from sign_sk cipher_pk =
     res_bind (map_err CE_DataConversion (msg_to_vec W msg)) (\<lambda>msg1.
     let sig = sk_sign W sign_sk msg1 in
     res_bind (map_err CE_DataConversion (signed_to_vec W (msg1, sig, from))) (\<lambda>msg2.
     map_err CE_Encryption (hpke_encrypt H coins cipher_pk msg2 ASSOCIATED_DATA)))"

definition SignedMessage_decrypt ::
  "wire_lib \<Rightarrow> hpke_lib \<Rightarrow> bytes \<Rightarrow> NodeState \<Rightarrow> Ciphered \<Rightarrow> CryptographicError + MpcMessage" where
  "SignedMessage_decrypt W H cipher_sk protocol_state' encrypted =
     res_bind (map_err CE_Encryption (hpke_decrypt H cipher_sk encrypted ASSOCIATED_DATA)) (\<lambda>message.
     res_bind (map_err CE_DataConversion (signed_from_slice W message)) (\<lambda>(msg, sig, from).
     res_bind (NodeState_fetch_participant protocol_state' from) (\<lambda>info.
     if \<not> sig_verify W sig msg (np_sign_pk info)
     then Inl (CE_Encryption ''invalid signature while verifying authenticity of encrypted '')
     else map_err CE_DataConversion (msg_from_slice W msg))))"

section \<open>Borsh form of the encryption keys\<close>

text \<open>
  \<open>serialize\<close> writes the 32 bytes of a key as an array; \<open>deserialize\<close> reads a vector of
  bytes and hands it to \<open>from_bytes\<close>, which panics on bytes that are not a key. \<open>V\<close> is borsh's
  reader of vectors: the bytes read and the bytes left.
\<close>

definition PublicKey_borsh_serialize :: "bytes \<Rightarrow> bytes" where
  "PublicKey_borsh_serialize to_bytes = to_bytes"

definition PublicKey_borsh_deserialize ::
  "near_lib \<Rightarrow> (bytes \<Rightarrow> string + bytes \<times> bytes) \<Rightarrow> bytes \<Rightarrow> (string + bytes \<times> bytes) exec" where
  "PublicKey_borsh_deserialize L V buf =
     (case V buf of
        Inl e \<Rightarrow> Done (Inl e)
      | Inr (bs, rest) \<Rightarrow>
          exec_bind (unwrap ''invalid bytes'' (hpke_deserialize L bs)) (\<lambda>pk. Done (Inr (pk, rest))))"

section \<open>Laws\<close>

lemma triple_message_keeps:
  "tm_triples (triple_message tid from data tm) = tm_triples tm"
  "hm_contains_key (tm_generators (triple_message tid from data tm)) j \<longleftrightarrow>
     hm_contains_key (tm_generators tm) j"
  by (auto simp: triple_message_def hm_get_insert hm_contains_key_def split: option.splits)

lemma triple_messages_keep:
  "tm_triples (fold (\<lambda>msg. triple_message tid (tmsg_from msg) (tmsg_data msg)) msgs tm) = tm_triples tm \<and>
   (hm_contains_key (tm_generators (fold (\<lambda>msg. triple_message tid (tmsg_from msg) (tmsg_data msg)) msgs tm)) j \<longleftrightarrow>
      hm_contains_key (tm_generators tm) j)"
  by (induction msgs arbitrary: tm) (simp_all add: triple_message_keeps)

lemma get_or_generate_keeps:
  assumes "triple_get_or_generate T tid tm = (tm', Inr b)"
  shows "tm_triples tm' = tm_triples tm"
    and "hm_contains_key (tm_generators tm) j \<Longrightarrow> hm_contains_key (tm_generators tm') j"
    and "b \<Longrightarrow> hm_contains_key (tm_generators tm') tid"
    and "\<not> b \<Longrightarrow> hm_contains_key (tm_triples tm) tid"
  using assms
  by (auto simp: triple_get_or_generate_def hm_get_insert hm_contains_key_def
      split: if_splits option.splits sum.splits)

lemma handle_triples_Cons_Ok:
  assumes "handle_triples T tm ((tid, msgs) # bins) = (tm', bins', Inr ())"
  obtains tm1 tm2 b bins2 where "triple_get_or_generate T tid tm = (tm1, Inr b)"
    "tm2 = (if b then fold (\<lambda>msg. triple_message tid (tmsg_from msg) (tmsg_data msg)) msgs tm1 else tm1)"
    "handle_triples T tm2 bins = (tm', bins2, Inr ())" "map fst bins' = tid # map fst bins2"
proof -
  obtain tm1 r where g: "triple_get_or_generate T tid tm = (tm1, r)" by (cases "triple_get_or_generate T tid tm")
  with assms obtain b where r: "r = Inr b" by (cases r) auto
  let ?tm2 = "if b then fold (\<lambda>msg. triple_message tid (tmsg_from msg) (tmsg_data msg)) msgs tm1 else tm1"
  obtain tm3 bins2 r3 where h: "handle_triples T ?tm2 bins = (tm3, bins2, r3)"
    by (cases "handle_triples T ?tm2 bins") auto
  have "tm3 = tm'" "r3 = Inr ()" "map fst bins' = tid # map fst bins2"
    using assms g r h by (cases b; auto)+
  then show thesis using that [of tm1 b ?tm2 bins2] g r h by (simp only:)
qed

lemma handle_triples_restart:
  "handle_triples T tm bins = (tm', bins', Inr ()) \<Longrightarrow>
   map fst bins' = map fst bins \<and> tm_triples tm' = tm_triples tm \<and>
   (\<forall>j. hm_contains_key (tm_generators tm) j \<longrightarrow> hm_contains_key (tm_generators tm') j) \<and>
   (\<forall>j \<in> fst ` set bins. hm_contains_key (tm_triples tm) j \<or> hm_contains_key (tm_generators tm') j)"
proof (induction bins arbitrary: tm bins')
  case (Cons bin bins)
  obtain tid msgs where bin: "bin = (tid, msgs)" by (cases bin)
  obtain tm1 tm2 b bins2 where g: "triple_get_or_generate T tid tm = (tm1, Inr b)"
    and tm2: "tm2 = (if b then fold (\<lambda>msg. triple_message tid (tmsg_from msg) (tmsg_data msg)) msgs tm1 else tm1)"
    and h: "handle_triples T tm2 bins = (tm', bins2, Inr ())" and k: "map fst bins' = tid # map fst bins2"
    by (rule handle_triples_Cons_Ok [OF Cons.prems [unfolded bin]])
  have t: "tm_triples tm2 = tm_triples tm" "\<And>j. hm_contains_key (tm_generators tm2) j \<longleftrightarrow> hm_contains_key (tm_generators tm1) j"
    using get_or_generate_keeps(1) [OF g] by (auto simp: tm2 triple_messages_keep)
  from Cons.IH [OF h] t get_or_generate_keeps [OF g] k show ?case by (cases b) (auto simp: bin)
qed simp

section \<open>Properties\<close>

text \<open>
  The bins of triple messages are emptied but never removed, and every round asks the
  manager for a protocol for each of them. So a triple that was spent is generated once
  more: after a round that returned, every id for which a message has ever arrived in this
  epoch and whose triple is gone has a running protocol, even with no message left for it.
\<close>

theorem spent_triples_restart:
  assumes "handle_triples T tm bins = (tm', bins', Inr ())" and "(tid, msgs) \<in> set bins"
    and "\<not> hm_contains_key (tm_triples tm) tid"
  shows "tid \<in> fst ` set bins' \<and> tm_triples tm' = tm_triples tm \<and> hm_contains_key (tm_generators tm') tid"
proof -
  have "tid \<in> fst ` set bins" using assms(2) by force
  with handle_triples_restart [OF assms(1)] assms(3) show ?thesis
    by (metis list.set_map)
qed

theorem spent_triples_restart_witness:
  "\<exists>tm' bins'. handle_triples ex_triple_lib (TripleManager_new [0, 1] 0 2 0) [(7, [])] = (tm', bins', Inr ()) \<and>
     hm_contains_key (tm_generators tm') 7"
proof -
  obtain tm' bins' where h: "handle_triples ex_triple_lib (TripleManager_new [0, 1] 0 2 0) [(7, [])] = (tm', bins', Inr ())"
    by (simp add: triple_get_or_generate_def TripleManager_new_def ex_triple_lib_def hm_contains_key_def)
  from spent_triples_restart [OF h, of 7 "[]"] h show ?thesis
    by (simp add: TripleManager_new_def hm_contains_key_def)
qed

text \<open>
  A message that is decrypted was signed by a participant of the current state: the
  sealed content names a sender the state knows, and the signature over the message
  verifies under that sender's key.
\<close>

theorem decrypted_message_authenticated:
  assumes "SignedMessage_decrypt W H cipher_sk st encrypted = Inr msg"
  shows "\<exists>payload signature sender info.
    res_bind (hpke_decrypt H cipher_sk encrypted ASSOCIATED_DATA) (signed_from_slice W) = Inr (payload, signature, sender) \<and>
    NodeState_fetch_participant st sender = Inr info \<and>
    sig_verify W signature payload (np_sign_pk info) \<and> msg_from_slice W payload = Inr msg"
  using assms
  by (auto simp: SignedMessage_decrypt_def map_err_def res_bind_eq_Inr map_sum_eq_Inr split: if_splits)

text \<open>A trivial wire, for the witnesses: nothing is encrypted, and one message is all there is.\<close>

definition ex_wire :: "MpcMessage \<Rightarrow> Participant \<Rightarrow> wire_lib" where
  "ex_wire msg sender = \<lparr>msg_to_vec = (\<lambda>_. Inr [1]), msg_from_slice = (\<lambda>_. Inr msg),
     signed_to_vec = (\<lambda>_. Inr [2]), signed_from_slice = (\<lambda>_. Inr ([1], [9], sender)),
     sk_sign = (\<lambda>_ _. [9]), sig_verify = (\<lambda>sig _ _. sig = [9])\<rparr>"

definition ex_hpke :: hpke_lib where
  "ex_hpke = \<lparr>setup_sender = (\<lambda>_ _ _. Inr ([], [])), seal = (\<lambda>_ m _. Inr (m, [])),
     setup_receiver = (\<lambda>_ _ _. Inr []), open_sealed = (\<lambda>_ c _ _. Inr c)\<rparr>"

definition ex_joining :: NodeState where
  "ex_joining = NSJoining \<lparr>js_participants = ex_nodes, js_public_key = []\<rparr>"

lemma ex_joining_fetch: "\<exists>info. NodeState_fetch_participant ex_joining 1 = Inr info"
  by (simp add: ex_joining_def fetch_participant_def NParticipants_get_def ex_nodes_def numbered_def)

theorem decrypted_message_authenticated_witness:
  "\<exists>payload signature sender info.
    res_bind (hpke_decrypt ex_hpke [] \<lparr>c_encapped_key = [], c_text = [2], c_tag = []\<rparr> ASSOCIATED_DATA)
      (signed_from_slice (ex_wire (snd ex_mail) 1)) = Inr (payload, signature, sender) \<and>
    NodeState_fetch_participant ex_joining sender = Inr info \<and>
    sig_verify (ex_wire (snd ex_mail) 1) signature payload (np_sign_pk info) \<and>
    msg_from_slice (ex_wire (snd ex_mail) 1) payload = Inr (snd ex_mail)"
proof (rule decrypted_message_authenticated)
  show "SignedMessage_decrypt (ex_wire (snd ex_mail) 1) ex_hpke [] ex_joining
      \<lparr>c_encapped_key = [], c_text = [2], c_tag = []\<rparr> = Inr (snd ex_mail)"
    using ex_joining_fetch
    by (auto simp: SignedMessage_decrypt_def hpke_decrypt_def ex_hpke_def ex_wire_def map_err_def)
qed

text \<open>
  C23: Encryption and decryption are inverse for a sender the receiver knows, whatever the
  message: what a node sends arrives unchanged. In particular the sender named inside the
  message is not compared with the sender that signed it, so a participant can deliver
  messages in the name of another one.
\<close>

theorem signed_message_roundtrip:
  assumes "msg_to_vec W msg = Inr b" and "msg_from_slice W b = Inr msg"
    and "signed_to_vec W (b, sk_sign W sign_sk b, sender) = Inr b'"
    and "signed_from_slice W b' = Inr (b, sk_sign W sign_sk b, sender)"
    and "\<forall>m ad. \<exists>ek ctx ct tag. setup_sender H coins cipher_pk INFO_ENTROPY = Inr (ek, ctx) \<and>
           seal H ctx m ad = Inr (ct, tag) \<and>
           (\<exists>ctx'. setup_receiver H cipher_sk ek INFO_ENTROPY = Inr ctx' \<and> open_sealed H ctx' ct ad tag = Inr m)"
    and "NodeState_fetch_participant st sender = Inr info"
    and "sig_verify W (sk_sign W sign_sk b) b (np_sign_pk info)"
  shows "\<exists>c. SignedMessage_encrypt W H coins msg sender sign_sk cipher_pk = Inr c \<and>
    SignedMessage_decrypt W H cipher_sk st c = Inr msg"
proof -
  from assms(5) obtain ek ctx ct tag ctx' where h: "setup_sender H coins cipher_pk INFO_ENTROPY = Inr (ek, ctx)"
    "seal H ctx b' ASSOCIATED_DATA = Inr (ct, tag)" "setup_receiver H cipher_sk ek INFO_ENTROPY = Inr ctx'"
    "open_sealed H ctx' ct ASSOCIATED_DATA tag = Inr b'" by blast
  show ?thesis
    using h assms
    by (simp add: SignedMessage_encrypt_def SignedMessage_decrypt_def hpke_encrypt_def hpke_decrypt_def
        map_err_def Let_def)
qed

theorem signed_message_roundtrip_witness:
  "\<exists>c. SignedMessage_encrypt (ex_wire (snd ex_mail) 1) ex_hpke 0 (snd ex_mail) 1 [] [] = Inr c \<and>
    SignedMessage_decrypt (ex_wire (snd ex_mail) 1) ex_hpke [] ex_joining c = Inr (snd ex_mail)"
proof -
  obtain info where i: "NodeState_fetch_participant ex_joining 1 = Inr info" using ex_joining_fetch by blast
  show ?thesis
    by (rule signed_message_roundtrip [OF _ _ _ _ _ i, of _ _ "[1]" _ "[2]"])
      (auto simp: ex_wire_def ex_hpke_def)
qed

text \<open>
  The borsh form of an encryption key never reads back: the reader takes the first
  four bytes of the key for a length, so it fails or hands fewer than 32 bytes to
  \<open>from_bytes\<close>, which panics.
\<close>

theorem hpke_key_borsh_never_reads_back:
  assumes "length key = 32"
    and "\<forall>b. (\<exists>e. V b = Inl e) \<or> (\<exists>n. 4 + n \<le> length b \<and> V b = Inr (take n (drop 4 b), drop (4 + n) b))"
    and "\<forall>b. hpke_deserialize L b \<noteq> None \<longrightarrow> length b = 32"
  shows "\<nexists>k rest. PublicKey_borsh_deserialize L V (PublicKey_borsh_serialize key) = Done (Inr (k, rest))"
proof -
  from assms(2) consider e where "V key = Inl e"
    | n where "4 + n \<le> length key" "V key = Inr (take n (drop 4 key), drop (4 + n) key)" by blast
  then show ?thesis
  proof cases
    case (2 n)
    then have "length (take n (drop 4 key)) \<noteq> 32" using assms(1) by simp
    with assms(3) have "hpke_deserialize L (take n (drop 4 key)) = None" by blast
    with 2 show ?thesis by (simp add: PublicKey_borsh_deserialize_def PublicKey_borsh_serialize_def)
  qed (simp add: PublicKey_borsh_deserialize_def PublicKey_borsh_serialize_def)
qed

theorem hpke_key_borsh_never_reads_back_witness:
  "\<nexists>k rest. PublicKey_borsh_deserialize
      (ex_lib\<lparr>hpke_deserialize := (\<lambda>b. if length b = 32 then Some b else None)\<rparr>)
      (\<lambda>b. if length b < 4 then Inl ''eof'' else Inr (take 0 (drop 4 b), drop (4 + 0) b))
      (PublicKey_borsh_serialize (replicate 32 0)) = Done (Inr (k, rest))"
  by (rule hpke_key_borsh_never_reads_back) (auto intro!: exI [of _ 0])

end
