(* ===== verification/Cryptography.thy ===== *)
theory Cryptography
  imports Messages
begin

text \<open>
  One round of the node's cryptographic protocols, \<^verbatim>\<open>node/src/protocol/cryptography.rs\<close>. The
  round of a state returns what is left of that state (its shared protocols, managers and
  queues are changed in place even when the round fails), the new state or an error, and
  what happened outside: messages delivered, shares stored, signatures published.
\<close>

section \<open>The world of a round\<close>

record step_env =
  env_account_id :: AccountId
  env_keys :: key_lib
  env_run :: run_lib
  env_net_pre :: net
  env_net_post :: net
  env_store_error :: "PersistentNodeData \<Rightarrow> string option"
  env_send_tx :: "bytes \<times> FullSignature \<Rightarrow> string option"
  env_triple_id :: TripleId
  env_presignature_id :: PresignatureId

record effects =
  eff_sent :: "(NParticipantInfo \<times> MpcMessage) list"
  eff_stored :: "PersistentNodeData list"
  eff_published :: "(bytes \<times> FullSignature) list"

definition no_effects :: effects where
  "no_effects = \<lparr>eff_sent = [], eff_stored = [], eff_published = []\<rparr>"

type_synonym progress = "(NodeState \<times> (CryptographicError + NodeState) \<times> effects) exec"

text \<open>\<open>get_my_participant\<close> of \<^verbatim>\<open>protocol/mod.rs\<close>; the node's own id, \<open>None\<close> where it panics.\<close>

definition get_my_participant :: "AccountId \<Rightarrow> NodeState \<Rightarrow> Participant option" where
  "get_my_participant account_id st =
     map_option (\<lambda>info. np_id info) (NodeState_find_participant_info st account_id)"

definition me_panic :: string where
  "me_panic = ''could not find participant info''"

section \<open>Key generation and resharing\<close>

datatype 'o loop_end = LWait | LReturn 'o | LError ProtocolError | LUnknown Participant | LPanic

text \<open>Messages to everybody else, in the order of the participants.\<close>

definition push_many ::
  "(Participant \<Rightarrow> bytes \<Rightarrow> MpcMessage) \<Rightarrow> Participant \<Rightarrow> NParticipants \<Rightarrow> bytes \<Rightarrow> MessageQueue \<Rightarrow> MessageQueue" where
  "push_many mk me participants data q =
     fold (\<lambda>(p, info) q. if p = me then q else MessageQueue_push info (mk me data) q)
       (NParticipants_into_iter participants) q"

text \<open>
  The loop of \<open>progress\<close> for the two protocols, which differ in the message they make and the
  participants they address. It pokes until the protocol waits, returns or fails, or
  addresses an unknown participant.
\<close>

partial_function (option) protocol_loop ::
  "(Participant \<Rightarrow> bytes \<Rightarrow> MpcMessage) \<Rightarrow> Participant option \<Rightarrow> NParticipants \<Rightarrow> 'o protocol \<Rightarrow>
     MessageQueue \<Rightarrow> ('o protocol \<times> MessageQueue \<times> 'o loop_end) option" where
  "protocol_loop mk me participants p q =
     (case fst (poke_of p) of
        Inl e \<Rightarrow> Some (snd (poke_of p), q, LError e)
      | Inr Wait \<Rightarrow> Some (snd (poke_of p), q, LWait)
      | Inr (SendMany data) \<Rightarrow>
          (if participants = [] then protocol_loop mk me participants (snd (poke_of p)) q
           else (case me of
               None \<Rightarrow> Some (snd (poke_of p), q, LPanic)
             | Some i \<Rightarrow> protocol_loop mk me participants (snd (poke_of p)) (push_many mk i participants data q)))
      | Inr (SendPrivate to data) \<Rightarrow>
          (case NParticipants_get participants to of
             None \<Rightarrow> Some (snd (poke_of p), q, LUnknown to)
           | Some info \<Rightarrow>
               (case me of
                  None \<Rightarrow> Some (snd (poke_of p), q, LPanic)
                | Some i \<Rightarrow> protocol_loop mk me participants (snd (poke_of p)) (MessageQueue_push info (mk i data) q)))
      | Inr (Return output) \<Rightarrow> Some (snd (poke_of p), q, LReturn output))"

definition generating_message :: "Participant \<Rightarrow> bytes \<Rightarrow> MpcMessage" where
  "generating_message me data = MGenerating \<lparr>gmsg_from = me, gmsg_data = data\<rparr>"

definition resharing_message :: "u64 \<Rightarrow> Participant \<Rightarrow> bytes \<Rightarrow> MpcMessage" where
  "resharing_message old_epoch me data =
     MResharing \<lparr>rmsg_epoch = old_epoch, rmsg_from = me, rmsg_data = data\<rparr>"

definition GeneratingState_progress :: "step_env \<Rightarrow> GeneratingState \<Rightarrow> progress" where
  "GeneratingState_progress E s =
     (let me = get_my_participant (env_account_id E) (NSGenerating s) in
      exec_bind (of_option (protocol_loop generating_message me (gs_participants s)
                              (kp_protocol (gs_protocol s)) (gs_messages s))) (\<lambda>(p, q, end').
      let s1 = s\<lparr>gs_protocol := (gs_protocol s)\<lparr>kp_protocol := p\<rparr>, gs_messages := q\<rparr> in
      case end' of
        LPanic \<Rightarrow> Panics me_panic
      | LError e \<Rightarrow>
          Done (NSGenerating (s1\<lparr>gs_protocol := fst (KeygenProtocol_refresh (env_keys E) (gs_protocol s1))\<rparr>),
                Inl (CE_CaitSithProtocolError e), no_effects)
      | LUnknown to \<Rightarrow> Done (NSGenerating s1, Inl (CE_UnknownParticipant to), no_effects)
      | LWait \<Rightarrow>
          exec_bind (unwrap me_panic me) (\<lambda>_.
          let (rest, sent, _) = MessageQueue_send (env_net_pre E) 0 q;
              s2 = s1\<lparr>gs_messages := rest\<rparr>
          in Done (NSGenerating s2, Inr (NSGenerating s2), no_effects\<lparr>eff_sent := sent\<rparr>))
      | LReturn r \<Rightarrow>
          (let data = \<lparr>pd_epoch = 0, pd_private_share = ko_private_share r, pd_public_key = ko_public_key r\<rparr> in
           case env_store_error E data of
             Some e \<Rightarrow> Done (NSGenerating s1, Inl (CE_SecretStorageError e), no_effects)
           | None \<Rightarrow>
               exec_bind (unwrap me_panic me) (\<lambda>_.
               let (rest, sent, _) = MessageQueue_send (env_net_pre E) 0 q;
                   s2 = s1\<lparr>gs_messages := rest\<rparr>
               in Done (NSGenerating s2,
                    Inr (NSWaitingForConsensus
                      \<lparr>ws_epoch = 0, ws_participants = gs_participants s2,
                       ws_threshold = gs_threshold s2, ws_private_share = ko_private_share r,
                       ws_public_key = ko_public_key r, ws_messages = rest\<rparr>),
                    no_effects\<lparr>eff_sent := sent, eff_stored := [data]\<rparr>)))))"

definition WaitingForConsensusState_progress :: "step_env \<Rightarrow> WaitingForConsensusState \<Rightarrow> progress" where
  "WaitingForConsensusState_progress E s =
     exec_bind (unwrap me_panic (get_my_participant (env_account_id E) (NSWaitingForConsensus s))) (\<lambda>_.
     let (rest, sent, _) = MessageQueue_send (env_net_pre E) 0 (ws_messages s);
         s1 = s\<lparr>ws_messages := rest\<rparr>
     in Done (NSWaitingForConsensus s1, Inr (NSWaitingForConsensus s1), no_effects\<lparr>eff_sent := sent\<rparr>))"

definition ResharingState_progress :: "step_env \<Rightarrow> ResharingState \<Rightarrow> progress" where
  "ResharingState_progress E s =
     (let me = get_my_participant (env_account_id E) (NSResharing s) in
      exec_bind (of_option (protocol_loop (resharing_message (hs_old_epoch s)) me (hs_new_participants s)
                              (rp_protocol (hs_protocol s)) (hs_messages s))) (\<lambda>(p, q, end').
      let s1 = s\<lparr>hs_protocol := (hs_protocol s)\<lparr>rp_protocol := p\<rparr>, hs_messages := q\<rparr> in
      case end' of
        LPanic \<Rightarrow> Panics me_panic
      | LError e \<Rightarrow>
          Done (NSResharing (s1\<lparr>hs_protocol := fst (ReshareProtocol_refresh (env_keys E) (hs_protocol s1))\<rparr>),
                Inl (CE_CaitSithProtocolError e), no_effects)
      | LUnknown to \<Rightarrow> Done (NSResharing s1, Inl (CE_UnknownParticipant to), no_effects)
      | LWait \<Rightarrow>
          exec_bind (unwrap me_panic me) (\<lambda>_.
          let (rest, sent, _) = MessageQueue_send (env_net_pre E) 0 q;
              s2 = s1\<lparr>hs_messages := rest\<rparr>
          in Done (NSResharing s2, Inr (NSResharing s2), no_effects\<lparr>eff_sent := sent\<rparr>))
      | LReturn private_share \<Rightarrow>
          exec_bind (unwrap me_panic me) (\<lambda>_.
          let (rest, sent, _) = MessageQueue_send (env_net_pre E) 0 q;
              s2 = s1\<lparr>hs_messages := rest\<rparr>
          in Done (NSResharing s2,
               Inr (NSWaitingForConsensus
                 \<lparr>ws_epoch = hs_old_epoch s2 + 1, ws_participants = hs_new_participants s2,
                  ws_threshold = hs_threshold s2, ws_private_share = private_share,
                  ws_public_key = hs_public_key s2, ws_messages = rest\<rparr>),
               no_effects\<lparr>eff_sent := sent\<rparr>))))"

section \<open>Running\<close>

text \<open>A round of the running state goes through stages; the first error ends it.\<close>

record run_world =
  w_state :: RunningState
  w_queue :: SignQueue
  w_sent :: "(NParticipantInfo \<times> MpcMessage) list"
  w_published :: "(bytes \<times> FullSignature) list"

type_synonym stage = "(run_world \<times> (CryptographicError + unit)) exec"

definition then_stage :: "stage \<Rightarrow> (run_world \<Rightarrow> stage) \<Rightarrow> stage" where
  "then_stage m f = exec_bind m (\<lambda>(w, r). case r of Inl e \<Rightarrow> Done (w, Inl e) | Inr () \<Rightarrow> f w)"

text \<open>\<open>messages.send_encrypted\<close>, whose errors are only logged.\<close>

definition stage_flush :: "net \<Rightarrow> run_world \<Rightarrow> stage" where
  "stage_flush N w =
     (let (rest, sent, _) = MessageQueue_send N 0 (rs_messages (w_state w))
      in Done (w\<lparr>w_state := (w_state w)\<lparr>rs_messages := rest\<rparr>, w_sent := w_sent w @ sent\<rparr>, Inr ()))"

text \<open>Pushing the messages of a poke; an unknown receiver ends it, what was pushed stays.\<close>

fun push_all ::
  "NParticipants \<Rightarrow> ('m \<Rightarrow> MpcMessage) \<Rightarrow> (Participant \<times> 'm) list \<Rightarrow> MessageQueue \<Rightarrow>
     MessageQueue \<times> (CryptographicError + unit)" where
  "push_all participants mk [] q = (q, Inr ())"
| "push_all participants mk ((p, msg) # msgs) q =
     (case fetch_participant p participants of
        Inl e \<Rightarrow> (q, Inl e)
      | Inr info \<Rightarrow> push_all participants mk msgs (MessageQueue_push info (mk msg) q))"

definition stage_triples :: "step_env \<Rightarrow> run_world \<Rightarrow> stage" where
  "stage_triples E w =
     (let s = w_state w; tm = rs_triple_manager s; T = lib_triple (env_run E);
          (tm1, r) = (if triple_my_len tm < 2 \<and> triple_potential_len tm < 10
                      then triple_generate T (env_triple_id E) tm else (tm, Inr ()))
      in case r of
           Inl e \<Rightarrow> Done (w\<lparr>w_state := s\<lparr>rs_triple_manager := tm1\<rparr>\<rparr>, Inl (CE_CaitSithInitializationError e))
         | Inr () \<Rightarrow>
             exec_bind (triple_poke T tm1) (\<lambda>(tm2, pr).
             case pr of
               Inl e \<Rightarrow> Done (w\<lparr>w_state := s\<lparr>rs_triple_manager := tm2\<rparr>\<rparr>, Inl (CE_CaitSithProtocolError e))
             | Inr msgs \<Rightarrow>
                 (let (q, r') = push_all (rs_participants s) MTriple msgs (rs_messages s)
                  in Done (w\<lparr>w_state := s\<lparr>rs_triple_manager := tm2, rs_messages := q\<rparr>\<rparr>, r'))))"

definition stage_presignatures :: "step_env \<Rightarrow> run_world \<Rightarrow> stage" where
  "stage_presignatures E w =
     (let s = w_state w; pm = rs_presignature_manager s in
      exec_bind
        (if presignature_my_len pm < 2 \<and> presignature_potential_len pm < 10
         then exec_bind (take_two_mine (rs_triple_manager s)) (\<lambda>(tm1, taken).
              case taken of
                Some (triple0, triple1) \<Rightarrow>
                  (let (pm1, r) = presignature_generate (lib_presign (env_run E)) (env_presignature_id E)
                                    triple0 triple1 (rs_public_key s) (rs_private_share s) pm
                   in Done (tm1, pm1, r))
              | None \<Rightarrow> Done (tm1, pm, Inr ()))
         else Done (rs_triple_manager s, pm, Inr ())) (\<lambda>(tm1, pm1, r).
      case r of
        Inl e \<Rightarrow> Done (w\<lparr>w_state := s\<lparr>rs_triple_manager := tm1, rs_presignature_manager := pm1\<rparr>\<rparr>,
                      Inl (CE_CaitSithInitializationError e))
      | Inr () \<Rightarrow>
          exec_bind (presignature_poke pm1) (\<lambda>(pm2, pr).
          let s2 = s\<lparr>rs_triple_manager := tm1, rs_presignature_manager := pm2\<rparr> in
          case pr of
            Inl e \<Rightarrow> Done (w\<lparr>w_state := s2\<rparr>, Inl (CE_CaitSithProtocolError e))
          | Inr msgs \<Rightarrow>
              (let (q, r') = push_all (rs_participants s2) MPresignature msgs (rs_messages s2)
               in Done (w\<lparr>w_state := s2\<lparr>rs_messages := q\<rparr>\<rparr>, r')))))"

text \<open>
  The loop over the node's own requests. \<open>iter().next()\<close> and \<open>remove\<close> take the first entry
  of the table's order. A request whose protocol cannot be constructed is gone, and so is
  its presignature.
\<close>

fun request_loop ::
  "curve_lib \<Rightarrow> sign_lib \<Rightarrow> PublicKey \<Rightarrow> (CryptoHash, SignRequest) hmap \<Rightarrow> PresignatureManager \<Rightarrow>
     SignatureManager \<Rightarrow>
     ((CryptoHash, SignRequest) hmap \<times> PresignatureManager \<times> SignatureManager \<times>
      (InitializationError + unit)) exec" where
  "request_loop C sign pk [] pm sm = Done ([], pm, sm, Inr ())"
| "request_loop C sign pk ((rid, req) # reqs) pm sm =
     (if presignature_my_len pm = 0 then Done ((rid, req) # reqs, pm, sm, Inr ())
      else exec_bind (take_mine pm) (\<lambda>(pm1, taken).
        case taken of
          None \<Rightarrow> Done ((rid, req) # reqs, pm1, sm, Inr ())
        | Some presignature \<Rightarrow>
            exec_bind (signature_generate C sign rid presignature pk (sr_msg_hash req) (sr_epsilon req)
                         (sr_delta req) sm) (\<lambda>(sm1, r).
            case r of
              Inl e \<Rightarrow> Done (reqs, pm1, sm1, Inl e)
            | Inr () \<Rightarrow> request_loop C sign pk reqs pm1 sm1)))"

definition stage_requests :: "step_env \<Rightarrow> Participant \<Rightarrow> run_world \<Rightarrow> stage" where
  "stage_requests E me w =
     (let s = w_state w in
      exec_bind (organize (lib_rng (env_run E)) (rs_participants s) (rs_threshold s) me (w_queue w)) (\<lambda>q1.
      exec_bind (request_loop (lib_curve (env_run E)) (lib_sign (env_run E)) (rs_public_key s)
                   (my_requests me q1) (rs_presignature_manager s) (rs_signature_manager s)) (\<lambda>(reqs, pm, sm, r).
      Done (w\<lparr>w_state := s\<lparr>rs_presignature_manager := pm, rs_signature_manager := sm\<rparr>,
              w_queue := set_my_requests me reqs q1\<rparr>,
            map_sum CE_CaitSithInitializationError id r))))"

text \<open>The messages of the signature protocols: an unknown receiver panics here.\<close>

fun push_signatures ::
  "NParticipants \<Rightarrow> (Participant \<times> SignatureMessage) list \<Rightarrow> MessageQueue \<Rightarrow> MessageQueue exec" where
  "push_signatures participants [] q = Done q"
| "push_signatures participants ((p, msg) # msgs) q =
     exec_bind (unwrap ''participant'' (NParticipants_get participants p)) (\<lambda>info.
     push_signatures participants msgs (MessageQueue_push info (MSignature msg) q))"

definition stage_signatures :: "step_env \<Rightarrow> run_world \<Rightarrow> stage" where
  "stage_signatures E w =
     (let s = w_state w in
      exec_bind (signature_poke (rs_signature_manager s)) (\<lambda>(sm, pr).
      case pr of
        Inl e \<Rightarrow> Done (w\<lparr>w_state := s\<lparr>rs_signature_manager := sm\<rparr>\<rparr>, Inl (CE_CaitSithProtocolError e))
      | Inr msgs \<Rightarrow>
          exec_bind (push_signatures (rs_participants s) msgs (rs_messages s)) (\<lambda>q.
          let (sm', sent, r) = publish (env_send_tx E) sm
          in Done (w\<lparr>w_state := s\<lparr>rs_signature_manager := sm', rs_messages := q\<rparr>,
                     w_published := w_published w @ sent\<rparr>,
                   map_sum CE_RpcError id r))))"

definition RunningState_progress ::
  "step_env \<Rightarrow> SignQueue \<Rightarrow> RunningState \<Rightarrow>
     (NodeState \<times> SignQueue \<times> (CryptographicError + NodeState) \<times> effects) exec" where
  "RunningState_progress E sq s =
     exec_bind (unwrap me_panic (get_my_participant (env_account_id E) (NSRunning s))) (\<lambda>me.
     exec_bind
       (then_stage (stage_flush (env_net_pre E) \<lparr>w_state = s, w_queue = sq, w_sent = [], w_published = []\<rparr>)
         (\<lambda>w. then_stage (stage_triples E w)
         (\<lambda>w. then_stage (stage_presignatures E w)
         (\<lambda>w. then_stage (stage_requests E me w)
         (\<lambda>w. then_stage (stage_signatures E w)
         (\<lambda>w. stage_flush (env_net_post E) w)))))) (\<lambda>(w, r).
     Done (NSRunning (w_state w), w_queue w,
           (case r of Inl e \<Rightarrow> Inl e | Inr () \<Rightarrow> Inr (NSRunning (w_state w))),
           \<lparr>eff_sent = w_sent w, eff_stored = [], eff_published = w_published w\<rparr>)))"

text \<open>The round of a node; only a running node changes the queue of requests.\<close>

fun NodeState_progress ::
  "step_env \<Rightarrow> SignQueue \<Rightarrow> NodeState \<Rightarrow>
     (NodeState \<times> SignQueue \<times> (CryptographicError + NodeState) \<times> effects) exec" where
  "NodeState_progress E sq (NSGenerating s) =
     exec_bind (GeneratingState_progress E s) (\<lambda>(l, r, e). Done (l, sq, r, e))"
| "NodeState_progress E sq (NSResharing s) =
     exec_bind (ResharingState_progress E s) (\<lambda>(l, r, e). Done (l, sq, r, e))"
| "NodeState_progress E sq (NSRunning s) = RunningState_progress E sq s"
| "NodeState_progress E sq (NSWaitingForConsensus s) =
     exec_bind (WaitingForConsensusState_progress E s) (\<lambda>(l, r, e). Done (l, sq, r, e))"
| "NodeState_progress E sq s = Done (s, sq, Inr s, no_effects)"

section \<open>Laws\<close>

text \<open>The part of a running state that a round must not touch.\<close>

definition identity :: "RunningState \<Rightarrow> u64 \<times> NParticipants \<times> nat \<times> SecretKeyShare \<times> PublicKey" where
  "identity s = (rs_epoch s, rs_participants s, rs_threshold s, rs_private_share s, rs_public_key s)"

lemma identity_updates [simp]:
  "identity (s\<lparr>rs_triple_manager := a\<rparr>) = identity s"
  "identity (s\<lparr>rs_presignature_manager := b\<rparr>) = identity s"
  "identity (s\<lparr>rs_signature_manager := c\<rparr>) = identity s"
  "identity (s\<lparr>rs_messages := q\<rparr>) = identity s"
  by (simp_all add: identity_def)


text \<open>A stage that ends, with or without an error, in a state of the same identity.\<close>

definition keeps :: "u64 \<times> NParticipants \<times> nat \<times> SecretKeyShare \<times> PublicKey \<Rightarrow> stage \<Rightarrow> bool" where
  "keeps i m \<longleftrightarrow> ends_in (\<lambda>(w, _). identity (w_state w) = i) m"

lemma keeps_Done [simp]: "keeps i (Done (w, r)) \<longleftrightarrow> identity (w_state w) = i"
  and keeps_Panics [simp]: "keeps i (Panics e)"
  by (simp_all add: keeps_def)

lemma keeps_exec_bind: "(\<And>x. m = Done x \<Longrightarrow> keeps i (f x)) \<Longrightarrow> keeps i (exec_bind m f)"
  unfolding keeps_def by (rule ends_in_bind)

lemma keeps_then:
  assumes "keeps i m" and "\<And>w. identity (w_state w) = i \<Longrightarrow> keeps i (f w)"
  shows "keeps i (then_stage m f)"
  unfolding then_stage_def
proof (rule keeps_exec_bind)
  fix x assume x: "m = Done x"
  obtain w r where wr: "x = (w, r)" by (cases x)
  with x assms show "keeps i (case x of (w, r) \<Rightarrow> case r of Inl e \<Rightarrow> Done (w, Inl e) | Inr () \<Rightarrow> f w)"
    by (cases r) (auto simp: case_unit_Unity)
qed

text \<open>The interface of a stage of the round, and the composition of two of them.\<close>

locale run_stage =
  fixes stage :: "run_world \<Rightarrow> stage"
  assumes keeps_identity: "keeps (identity (w_state w)) (stage w)"
begin

lemma last: "identity (w_state w) = i \<Longrightarrow> keeps i (stage w)"
  using keeps_identity [of w] by simp

lemma followed_by:
  "identity (w_state w) = i \<Longrightarrow> (\<And>w. identity (w_state w) = i \<Longrightarrow> keeps i (f w)) \<Longrightarrow>
   keeps i (then_stage (stage w) f)"
  by (rule keeps_then) (auto intro: last)

end

interpretation flush: run_stage "stage_flush N"
  by unfold_locales (auto simp: stage_flush_def split: prod.split)

interpretation triples: run_stage "stage_triples E"
  by unfold_locales
    (auto simp: stage_triples_def Let_def intro!: keeps_exec_bind split: prod.split sum.split unit.split)

interpretation presignatures: run_stage "stage_presignatures E"
  by unfold_locales
    (auto simp: stage_presignatures_def Let_def intro!: keeps_exec_bind split: prod.split sum.split unit.split)

interpretation requests: run_stage "stage_requests E me"
  by unfold_locales
    (auto simp: stage_requests_def Let_def intro!: keeps_exec_bind split: prod.split)

interpretation signatures: run_stage "stage_signatures E"
  by unfold_locales
    (auto simp: stage_signatures_def Let_def intro!: keeps_exec_bind split: prod.split sum.split)

lemma RunningState_progress_identity:
  assumes "RunningState_progress E sq s = Done (l, sq', r, eff)"
  shows "\<exists>s'. l = NSRunning s' \<and> identity s' = identity s \<and> (\<forall>n. r = Inr n \<longrightarrow> n = NSRunning s') \<and>
    eff_stored eff = []"
proof -
  define chain where "chain me =
       then_stage (stage_flush (env_net_pre E) \<lparr>w_state = s, w_queue = sq, w_sent = [], w_published = []\<rparr>)
         (\<lambda>w. then_stage (stage_triples E w)
         (\<lambda>w. then_stage (stage_presignatures E w)
         (\<lambda>w. then_stage (stage_requests E me w)
         (\<lambda>w. then_stage (stage_signatures E w)
         (\<lambda>w. stage_flush (env_net_post E) w)))))" for me
  have keep: "keeps (identity s) (chain me)" for me
    unfolding chain_def
    by (intro flush.followed_by triples.followed_by presignatures.followed_by requests.followed_by
        signatures.followed_by flush.last) simp_all
  from assms obtain me w r0 where
    c: "chain me = Done (w, r0)" and l: "l = NSRunning (w_state w)"
    and r: "r = (case r0 of Inl e \<Rightarrow> Inl e | Inr () \<Rightarrow> Inr (NSRunning (w_state w)))"
    and e: "eff = \<lparr>eff_sent = w_sent w, eff_stored = [], eff_published = w_published w\<rparr>"
    by (auto simp: RunningState_progress_def chain_def exec_bind_eq_Done)
  from keep [of me] c have "identity (w_state w) = identity s" by (simp add: keeps_def)
  with l r e show ?thesis by (cases r0) (auto simp: case_unit_Unity)
qed


text \<open>What the storage holds after a round: the share of a finished key generation, nothing else.\<close>

definition stored_by :: "NodeState \<Rightarrow> CryptographicError + NodeState \<Rightarrow> PersistentNodeData list" where
  "stored_by st r =
     (case (st, r) of
        (NSGenerating _, Inr (NSWaitingForConsensus w)) \<Rightarrow>
          [\<lparr>pd_epoch = ws_epoch w, pd_private_share = ws_private_share w, pd_public_key = ws_public_key w\<rparr>]
      | _ \<Rightarrow> [])"

lemma no_effects_stored [simp]: "eff_stored no_effects = []"
  by (simp add: no_effects_def)

lemma Generating_stores:
  assumes "GeneratingState_progress E s = Done (l, r, eff)"
  shows "eff_stored eff = stored_by (NSGenerating s) r \<and>
    (\<forall>d \<in> set (eff_stored eff). env_store_error E d = None)"
proof -
  let ?me = "get_my_participant (env_account_id E) (NSGenerating s)"
  from assms obtain p q e where L: "protocol_loop generating_message ?me (gs_participants s)
      (kp_protocol (gs_protocol s)) (gs_messages s) = Some (p, q, e)"
    by (auto simp: GeneratingState_progress_def Let_def exec_bind_eq_Done)
  obtain rest sent x where S: "MessageQueue_send (env_net_pre E) 0 q = (rest, sent, x)"
    by (cases "MessageQueue_send (env_net_pre E) 0 q") auto
  show ?thesis
  proof (cases e)
    case (LReturn out)
    with assms L S show ?thesis
      by (cases "env_store_error E \<lparr>pd_epoch = 0, pd_private_share = ko_private_share out, pd_public_key = ko_public_key out\<rparr>")
        (auto simp: GeneratingState_progress_def Let_def exec_bind_eq_Done stored_by_def)
  qed (use assms L S in \<open>auto simp: GeneratingState_progress_def Let_def exec_bind_eq_Done stored_by_def\<close>)
qed

lemma Resharing_stores:
  assumes "ResharingState_progress E s = Done (l, r, eff)"
  shows "eff_stored eff = []"
proof -
  let ?me = "get_my_participant (env_account_id E) (NSResharing s)"
  from assms obtain p q e where L: "protocol_loop (resharing_message (hs_old_epoch s)) ?me (hs_new_participants s)
      (rp_protocol (hs_protocol s)) (hs_messages s) = Some (p, q, e)"
    by (auto simp: ResharingState_progress_def Let_def exec_bind_eq_Done)
  obtain rest sent x where S: "MessageQueue_send (env_net_pre E) 0 q = (rest, sent, x)"
    by (cases "MessageQueue_send (env_net_pre E) 0 q") auto
  show ?thesis
    using assms L S
    by (cases e) (auto simp: ResharingState_progress_def Let_def exec_bind_eq_Done)
qed

lemma Waiting_stores:
  "WaitingForConsensusState_progress E s = Done (l, r, eff) \<Longrightarrow> eff_stored eff = []"
  by (auto simp: WaitingForConsensusState_progress_def Let_def exec_bind_eq_Done split: prod.splits)

section \<open>Properties\<close>

text \<open>
  C32: A round writes the node's share to its storage exactly when it completes the key
  generation, before the node waits for the contract, and what it writes is the share, key
  and epoch it goes on with. No other round writes: in particular a finished resharing goes
  on with a new share that is in memory only, so that after a restart the node holds the
  share of the old epoch.
\<close>

theorem shares_stored_by_keygen_only:
  assumes "NodeState_progress E sq st = Done (l, sq', r, eff)"
  shows "eff_stored eff = stored_by st r \<and> (\<forall>d \<in> set (eff_stored eff). env_store_error E d = None)"
proof (cases st)
  case (NSGenerating s)
  with assms show ?thesis by (auto simp: exec_bind_eq_Done dest!: Generating_stores)
next
  case (NSResharing s)
  with assms show ?thesis by (auto simp: exec_bind_eq_Done stored_by_def dest!: Resharing_stores)
next
  case (NSRunning s)
  with assms show ?thesis by (auto simp: stored_by_def dest!: RunningState_progress_identity)
next
  case (NSWaitingForConsensus s)
  with assms show ?thesis by (auto simp: exec_bind_eq_Done stored_by_def dest!: Waiting_stores)
qed (use assms in \<open>auto simp: stored_by_def\<close>)

definition ex_step_env :: step_env where
  "ex_step_env = \<lparr>env_account_id = ''a'',
     env_keys = \<lparr>cs_keygen = (\<lambda>_ _ _. Inl ''no''), cs_reshare = (\<lambda>_ _ _ _ _ _ _. Inl ''no'')\<rparr>,
     env_run = \<lparr>lib_triple = ex_triple_lib, lib_presign = ex_presign, lib_sign = (\<lambda>_ _ _ _ _. Inl ''no''),
       lib_curve = ex_field, lib_rng = ex_rng\<rparr>,
     env_net_pre = ex_net, env_net_post = ex_net, env_store_error = (\<lambda>_. None),
     env_send_tx = (\<lambda>_. None), env_triple_id = 7, env_presignature_id = 8\<rparr>"

definition ex_generating :: "KeygenOutput protocol \<Rightarrow> GeneratingState" where
  "ex_generating p = \<lparr>gs_participants = ex_nodes, gs_threshold = 2,
     gs_protocol = \<lparr>kp_me = 0, kp_threshold = 2, kp_participants = [0, 1, 2], kp_protocol = p\<rparr>,
     gs_messages = []\<rparr>"

definition ex_share :: KeygenOutput where
  "ex_share = \<lparr>ko_private_share = 5, ko_public_key = [1]\<rparr>"

definition ex_share_data :: PersistentNodeData where
  "ex_share_data = \<lparr>pd_epoch = 0, pd_private_share = 5, pd_public_key = [1]\<rparr>"

lemma ex_me: "get_my_participant ''a'' (NSGenerating (ex_generating p)) = Some 0"
  by (simp add: get_my_participant_def ex_generating_def ex_nodes_def numbered_def find_participant_info_def
      node_info_def ParticipantInfo_from_def ex_candidate_def)

lemma ex_generating_progress:
  "\<exists>l w eff. NodeState_progress ex_step_env q (NSGenerating (ex_generating (ex_returns ex_share))) =
     Done (l, q, Inr (NSWaitingForConsensus w), eff) \<and>
     ws_epoch w = 0 \<and> ws_private_share w = 5 \<and> ws_public_key w = [1]"
proof -
  have "protocol_loop generating_message (Some 0) ex_nodes (ex_returns ex_share) [] =
      Some (ex_returns ex_share, [], LReturn ex_share)"
    by (subst protocol_loop.simps) simp
  then show ?thesis
    using ex_me [of "ex_returns ex_share"]
    by (simp add: GeneratingState_progress_def ex_step_env_def Let_def)
      (simp add: ex_generating_def ex_share_def)
qed

theorem shares_stored_by_keygen_only_witness:
  "\<exists>l r eff. NodeState_progress ex_step_env SignQueue_new (NSGenerating (ex_generating (ex_returns ex_share))) =
     Done (l, SignQueue_new, r, eff) \<and> eff_stored eff = [ex_share_data]"
proof -
  obtain l w eff where p: "NodeState_progress ex_step_env SignQueue_new
      (NSGenerating (ex_generating (ex_returns ex_share))) = Done (l, SignQueue_new, Inr (NSWaitingForConsensus w), eff)"
    "ws_epoch w = 0" "ws_private_share w = 5" "ws_public_key w = [1]"
    using ex_generating_progress [of SignQueue_new] by blast
  from shares_stored_by_keygen_only [OF p(1)] p(2-4)
  have "eff_stored eff = [ex_share_data]" by (simp add: stored_by_def ex_share_data_def)
  with p(1) show ?thesis by blast
qed

end
