(* ===== verification/Consensus.thy ===== *)
theory Consensus
  imports Cryptography
begin

text \<open>
  How a node follows the contract, \<^verbatim>\<open>node/src/protocol/consensus.rs\<close> with the transactions of
  \<^verbatim>\<open>node/src/rpc_client.rs\<close>: from its state and the state of the contract a node computes its
  next state, voting on the way. Transactions and requests that fail make the node panic,
  for their results are unwrapped; the ones made are part of the result.
\<close>

section \<open>Context\<close>

datatype outgoing =
    OVotePk near_public_key
  | OVoteReshared u64
  | OJoin string bytes near_public_key
  | OAskToJoin string AccountId

text \<open>What a transaction comes back with: a value is the vote's outcome when it parses as one.\<close>

datatype tx_outcome = TxError string | TxFailed string | TxSuccess "bool option"

record cons_ctx =
  cx_account_id :: AccountId
  cx_address :: string
  cx_cipher_pk :: bytes
  cx_sign_pk :: near_public_key
  cx_lib :: near_lib
  cx_keys :: key_lib
  cx_load :: "string + PersistentNodeData option"
  cx_tx :: "outgoing \<Rightarrow> tx_outcome"
  cx_ask :: "string \<Rightarrow> SendError option"

datatype ConsensusError =
    ContractStateRollback
  | EpochRollback
  | MismatchedPublicKey
  | MismatchedThreshold
  | MismatchedParticipants
  | HasBeenKicked
  | CoCaitSithInitializationError InitializationError
  | CoSecretStorageError string

type_synonym advance = "(outgoing list \<times> (ConsensusError + NodeState)) exec"

definition quietly :: "ConsensusError + NodeState \<Rightarrow> advance" where
  "quietly r = Done ([], r)"

text \<open>
  The votes of \<^verbatim>\<open>rpc_client.rs\<close> fail when the transaction cannot be sent, did not succeed, or
  returned something else than a boolean; the callers unwrap them.
\<close>

definition vote_outcome :: "tx_outcome \<Rightarrow> string + bool" where
  "vote_outcome out =
     (case out of
        TxError e \<Rightarrow> Inl e
      | TxFailed status \<Rightarrow> Inl ''unexpected status''
      | TxSuccess None \<Rightarrow> Inl ''not a boolean''
      | TxSuccess (Some b) \<Rightarrow> Inr b)"

definition vote_for_public_key :: "cons_ctx \<Rightarrow> near_public_key \<Rightarrow> string + bool" where
  "vote_for_public_key X public_key = vote_outcome (cx_tx X (OVotePk public_key))"

definition vote_reshared :: "cons_ctx \<Rightarrow> u64 \<Rightarrow> string + bool" where
  "vote_reshared X epoch = vote_outcome (cx_tx X (OVoteReshared epoch))"

definition unwrap_res :: "'e + 'a \<Rightarrow> 'a exec" where
  "unwrap_res r = (case r of Inl _ \<Rightarrow> Panics ''unwrap'' | Inr x \<Rightarrow> Done x)"

text \<open>\<open>fetch_mpc_contract_state\<close>: the view call, then the conversion, which may panic.\<close>

definition fetch_mpc_contract_state ::
  "near_lib \<Rightarrow> string + ProtocolContractState \<Rightarrow> (string + ProtocolState) exec" where
  "fetch_mpc_contract_state L view =
     (case view of
        Inl e \<Rightarrow> Done (Inl e)
      | Inr st \<Rightarrow>
          exec_bind (ProtocolState_try_from L st) (\<lambda>r.
          Done (map_sum (\<lambda>_. ''protocol state has not been initialized yet'') id r)))"

section \<open>Helpers\<close>

definition running_state ::
  "u64 \<Rightarrow> NParticipants \<Rightarrow> nat \<Rightarrow> SecretKeyShare \<Rightarrow> PublicKey \<Rightarrow> Participant \<Rightarrow> MessageQueue \<Rightarrow> RunningState" where
  "running_state epoch participants threshold private_share public_key me messages =
     (let participants_vec = NParticipants_keys participants in
      \<lparr>rs_epoch = epoch, rs_participants = participants, rs_threshold = threshold,
       rs_private_share = private_share, rs_public_key = public_key,
       rs_triple_manager = TripleManager_new participants_vec me threshold epoch,
       rs_presignature_manager = PresignatureManager_new participants_vec me threshold epoch,
       rs_signature_manager = SignatureManager_new participants_vec me public_key epoch,
       rs_messages = messages\<rparr>)"

definition joining :: "NParticipants \<Rightarrow> PublicKey \<Rightarrow> ConsensusError + NodeState" where
  "joining participants public_key =
     Inr (NSJoining \<lparr>js_participants = participants, js_public_key = public_key\<rparr>)"

definition start_resharing ::
  "cons_ctx \<Rightarrow> SecretKeyShare option \<Rightarrow> NResharingContractState \<Rightarrow> advance" where
  "start_resharing X private_share cs =
     exec_bind (unwrap ''find_participant'' (find_participant (nsc_new_participants cs) (cx_account_id X))) (\<lambda>me.
     quietly (case ReshareProtocol_new (cx_keys X) private_share me cs of
        Inl e \<Rightarrow> Inl (CoCaitSithInitializationError e)
      | Inr protocol \<Rightarrow>
          Inr (NSResharing \<lparr>hs_old_epoch = nsc_old_epoch cs, hs_old_participants = nsc_old_participants cs,
                 hs_new_participants = nsc_new_participants cs, hs_threshold = nsc_threshold cs,
                 hs_public_key = nsc_public_key cs, hs_protocol = protocol, hs_messages = []\<rparr>)))"

section \<open>The states\<close>

definition StartedState_advance :: "cons_ctx \<Rightarrow> PersistentNodeData option \<Rightarrow> ProtocolState \<Rightarrow> advance" where
  "StartedState_advance X data contract =
     (case data of
        Some d \<Rightarrow>
          (case contract of
             PSInitializing _ \<Rightarrow> quietly (Inl ContractStateRollback)
           | PSRunning cs \<Rightarrow>
               if nrc_public_key cs \<noteq> pd_public_key d then quietly (Inl MismatchedPublicKey)
               else if nrc_epoch cs > pd_epoch d then quietly (joining (nrc_participants cs) (pd_public_key d))
               else if nrc_epoch cs < pd_epoch d then quietly (Inl EpochRollback)
               else (case find_participant (nrc_participants cs) (cx_account_id X) of
                   Some me \<Rightarrow>
                     quietly (Inr (NSRunning (running_state (pd_epoch d) (nrc_participants cs)
                       (nrc_threshold cs) (pd_private_share d) (pd_public_key d) me [])))
                 | None \<Rightarrow> quietly (joining (nrc_participants cs) (pd_public_key d)))
           | PSResharing cs \<Rightarrow>
               if nsc_public_key cs \<noteq> pd_public_key d then quietly (Inl MismatchedPublicKey)
               else if nsc_old_epoch cs > pd_epoch d then quietly (joining (nsc_old_participants cs) (pd_public_key d))
               else if nsc_old_epoch cs < pd_epoch d then quietly (Inl EpochRollback)
               else start_resharing X (Some (pd_private_share d)) cs)
      | None \<Rightarrow>
          (case contract of
             PSInitializing cs \<Rightarrow>
               (let participants = NParticipants_from_candidates (nic_candidates cs) in
                case find_participant participants (cx_account_id X) of
                  Some me \<Rightarrow>
                    quietly (case KeygenProtocol_new (cx_keys X) (NParticipants_keys participants) me
                                    (nic_threshold cs) of
                       Inl e \<Rightarrow> Inl (CoCaitSithInitializationError e)
                     | Inr protocol \<Rightarrow>
                         Inr (NSGenerating \<lparr>gs_participants = participants, gs_threshold = nic_threshold cs,
                                gs_protocol = protocol, gs_messages = []\<rparr>))
                | None \<Rightarrow> quietly (Inr (NSStarted data)))
           | PSRunning cs \<Rightarrow> quietly (joining (nrc_participants cs) (nrc_public_key cs))
           | PSResharing cs \<Rightarrow> quietly (joining (nsc_old_participants cs) (nsc_public_key cs))))"

definition GeneratingState_advance :: "GeneratingState \<Rightarrow> ProtocolState \<Rightarrow> advance" where
  "GeneratingState_advance s contract =
     (case contract of
        PSInitializing _ \<Rightarrow> quietly (Inr (NSGenerating s))
      | PSRunning cs \<Rightarrow>
          if nrc_epoch cs > 0 then quietly (joining (nrc_participants cs) (nrc_public_key cs))
          else if gs_participants s \<noteq> nrc_participants cs then quietly (Inl MismatchedParticipants)
          else if gs_threshold s \<noteq> nrc_threshold cs then quietly (Inl MismatchedThreshold)
          else quietly (Inr (NSGenerating s))
      | PSResharing cs \<Rightarrow>
          if nsc_old_epoch cs > 0 then quietly (joining (nsc_old_participants cs) (nsc_public_key cs))
          else if gs_participants s \<noteq> nsc_old_participants cs then quietly (Inl MismatchedParticipants)
          else if gs_threshold s \<noteq> nsc_threshold cs then quietly (Inl MismatchedThreshold)
          else quietly (Inr (NSGenerating s)))"

text \<open>The additions to \<open>old_epoch\<close> wrap, as in the release profile.\<close>

definition WaitingForConsensusState_advance ::
  "cons_ctx \<Rightarrow> WaitingForConsensusState \<Rightarrow> ProtocolState \<Rightarrow> advance" where
  "WaitingForConsensusState_advance X s contract =
     (case contract of
        PSInitializing cs \<Rightarrow>
          exec_bind (into_near_public_key (cx_lib X) (ws_public_key s)) (\<lambda>public_key.
          let has_voted = (case NPkVotes_get (nic_pk_votes cs) public_key of
                             None \<Rightarrow> False | Some ps \<Rightarrow> cx_account_id X \<in> ps)
          in if \<not> has_voted
             then exec_bind (unwrap_res (vote_for_public_key X public_key)) (\<lambda>_.
                  Done ([OVotePk public_key], Inr (NSWaitingForConsensus s)))
             else quietly (Inr (NSWaitingForConsensus s)))
      | PSRunning cs \<Rightarrow>
          if nrc_epoch cs > ws_epoch s then quietly (joining (nrc_participants cs) (nrc_public_key cs))
          else if nrc_epoch cs < ws_epoch s then quietly (Inl EpochRollback)
          else if nrc_participants cs \<noteq> ws_participants s then quietly (Inl MismatchedParticipants)
          else if nrc_threshold cs \<noteq> ws_threshold s then quietly (Inl MismatchedThreshold)
          else if nrc_public_key cs \<noteq> ws_public_key s then quietly (Inl MismatchedPublicKey)
          else
            exec_bind (unwrap ''find_participant'' (find_participant (nrc_participants cs) (cx_account_id X))) (\<lambda>me.
            quietly (Inr (NSRunning (running_state (ws_epoch s) (ws_participants s) (ws_threshold s)
              (ws_private_share s) (ws_public_key s) me (ws_messages s)))))
      | PSResharing cs \<Rightarrow>
          if nsc_old_epoch cs + 1 > ws_epoch s \<and> nsc_old_epoch cs + 2 = ws_epoch s then
            (if nsc_old_participants cs \<noteq> ws_participants s then quietly (Inl MismatchedParticipants)
             else if nsc_threshold cs \<noteq> ws_threshold s then quietly (Inl MismatchedThreshold)
             else if nsc_public_key cs \<noteq> ws_public_key s then quietly (Inl MismatchedPublicKey)
             else start_resharing X (Some (ws_private_share s)) cs)
          else if nsc_old_epoch cs + 1 > ws_epoch s
          then quietly (joining (nsc_old_participants cs) (nsc_public_key cs))
          else if nsc_old_epoch cs + 1 < ws_epoch s then quietly (Inl EpochRollback)
          else
            (case find_participant (nsc_old_participants cs) (cx_account_id X) of
               Some _ \<Rightarrow>
                 if cx_account_id X \<notin> nsc_finished_votes cs
                 then exec_bind (unwrap_res (vote_reshared X (ws_epoch s))) (\<lambda>_.
                      Done ([OVoteReshared (ws_epoch s)], Inr (NSWaitingForConsensus s)))
                 else quietly (Inr (NSWaitingForConsensus s))
             | None \<Rightarrow> quietly (Inr (NSWaitingForConsensus s))))"

definition RunningState_advance :: "cons_ctx \<Rightarrow> RunningState \<Rightarrow> ProtocolState \<Rightarrow> advance" where
  "RunningState_advance X s contract =
     (case contract of
        PSInitializing _ \<Rightarrow> quietly (Inl ContractStateRollback)
      | PSRunning cs \<Rightarrow>
          if nrc_epoch cs > rs_epoch s then quietly (joining (nrc_participants cs) (nrc_public_key cs))
          else if nrc_epoch cs < rs_epoch s then quietly (Inl EpochRollback)
          else if nrc_participants cs \<noteq> rs_participants s then quietly (Inl MismatchedParticipants)
          else if nrc_threshold cs \<noteq> rs_threshold s then quietly (Inl MismatchedThreshold)
          else if nrc_public_key cs \<noteq> rs_public_key s then quietly (Inl MismatchedPublicKey)
          else quietly (Inr (NSRunning s))
      | PSResharing cs \<Rightarrow>
          if nsc_old_epoch cs > rs_epoch s then quietly (joining (nsc_old_participants cs) (nsc_public_key cs))
          else if nsc_old_epoch cs < rs_epoch s then quietly (Inl EpochRollback)
          else if \<not> contains_account_id (nsc_old_participants cs) (cx_account_id X) \<or>
                  \<not> contains_account_id (nsc_new_participants cs) (cx_account_id X)
          then quietly (Inl HasBeenKicked)
          else if nsc_public_key cs \<noteq> rs_public_key s then quietly (Inl MismatchedPublicKey)
          else start_resharing X (Some (rs_private_share s)) cs)"

definition ResharingState_advance :: "ResharingState \<Rightarrow> ProtocolState \<Rightarrow> advance" where
  "ResharingState_advance s contract =
     (case contract of
        PSInitializing _ \<Rightarrow> quietly (Inl ContractStateRollback)
      | PSRunning cs \<Rightarrow>
          if nrc_epoch cs > hs_old_epoch s + 1 then quietly (joining (nrc_participants cs) (nrc_public_key cs))
          else if nrc_epoch cs < hs_old_epoch s + 1 then quietly (Inl EpochRollback)
          else if nrc_participants cs \<noteq> hs_new_participants s then quietly (Inl MismatchedParticipants)
          else if nrc_threshold cs \<noteq> hs_threshold s then quietly (Inl MismatchedThreshold)
          else if nrc_public_key cs \<noteq> hs_public_key s then quietly (Inl MismatchedPublicKey)
          else quietly (Inr (NSResharing s))
      | PSResharing cs \<Rightarrow>
          if nsc_old_epoch cs > hs_old_epoch s then quietly (joining (nsc_old_participants cs) (nsc_public_key cs))
          else if nsc_old_epoch cs < hs_old_epoch s then quietly (Inl EpochRollback)
          else if nsc_old_participants cs \<noteq> hs_old_participants s then quietly (Inl MismatchedParticipants)
          else if nsc_new_participants cs \<noteq> hs_new_participants s then quietly (Inl MismatchedParticipants)
          else if nsc_threshold cs \<noteq> hs_threshold s then quietly (Inl MismatchedThreshold)
          else if nsc_public_key cs \<noteq> hs_public_key s then quietly (Inl MismatchedPublicKey)
          else quietly (Inr (NSResharing s)))"

text \<open>The loop that asks the participants that have not voted yet for their vote.\<close>

fun ask_loop :: "cons_ctx \<Rightarrow> AccountId \<Rightarrow> AccountId set \<Rightarrow> (Participant \<times> NParticipantInfo) list \<Rightarrow> outgoing list exec" where
  "ask_loop X candidate voted [] = Done []"
| "ask_loop X candidate voted ((_, info) # rest) =
     (if np_account_id info \<in> voted then ask_loop X candidate voted rest
      else (case cx_ask X (np_url info) of
          Some _ \<Rightarrow> Panics ''unwrap''
        | None \<Rightarrow>
            exec_bind (ask_loop X candidate voted rest) (\<lambda>calls.
            Done (OAskToJoin (np_url info) candidate # calls))))"

text \<open>
  The log line of the running case computes \<open>threshold - voted.len()\<close> on unsigned numbers. The
  release profile wraps; the value is only logged. The outcome of the \<open>join\<close> transaction is not
  looked at once it was sent.
\<close>

definition JoiningState_advance :: "cons_ctx \<Rightarrow> JoiningState \<Rightarrow> ProtocolState \<Rightarrow> advance" where
  "JoiningState_advance X s contract =
     (case contract of
        PSInitializing _ \<Rightarrow> quietly (Inl ContractStateRollback)
      | PSRunning cs \<Rightarrow>
          (case find_candidate (nrc_candidates cs) (cx_account_id X) of
             Some candidate_info \<Rightarrow>
               (let voted = or_default {} (NVotes_get (nrc_join_votes cs) (cx_account_id X)) in
                exec_bind (ask_loop X (nc_account_id candidate_info) voted
                             (NParticipants_into_iter (nrc_participants cs))) (\<lambda>calls.
                Done (calls, Inr (NSJoining s))))
           | None \<Rightarrow>
               (let call = OJoin (cx_address X) (cx_cipher_pk X) (cx_sign_pk X) in
                case cx_tx X call of
                  TxError _ \<Rightarrow> Panics ''unwrap''
                | _ \<Rightarrow> Done ([call], Inr (NSJoining s))))
      | PSResharing cs \<Rightarrow>
          if contains_account_id (nsc_new_participants cs) (cx_account_id X)
          then start_resharing X None cs
          else quietly (Inr (NSJoining s)))"

fun NodeState_advance :: "cons_ctx \<Rightarrow> NodeState \<Rightarrow> ProtocolState \<Rightarrow> advance" where
  "NodeState_advance X NSStarting contract =
     quietly (case cx_load X of
        Inl e \<Rightarrow> Inl (CoSecretStorageError e)
      | Inr node_data \<Rightarrow> Inr (NSStarted node_data))"
| "NodeState_advance X (NSStarted d) contract = StartedState_advance X d contract"
| "NodeState_advance X (NSGenerating s) contract = GeneratingState_advance s contract"
| "NodeState_advance X (NSWaitingForConsensus s) contract = WaitingForConsensusState_advance X s contract"
| "NodeState_advance X (NSRunning s) contract = RunningState_advance X s contract"
| "NodeState_advance X (NSResharing s) contract = ResharingState_advance s contract"
| "NodeState_advance X (NSJoining s) contract = JoiningState_advance X s contract"

section \<open>Laws\<close>

lemmas advance_defs = StartedState_advance_def GeneratingState_advance_def
  WaitingForConsensusState_advance_def RunningState_advance_def ResharingState_advance_def
  JoiningState_advance_def

lemma quietly_Done [simp]: "quietly r = Done (calls, r') \<longleftrightarrow> calls = [] \<and> r = r'"
  by (auto simp: quietly_def)

lemma joining_states [simp]: "joining ps pk \<noteq> Inr (NSRunning r)" "joining ps pk \<noteq> Inr (NSResharing h)"
  "joining ps pk \<noteq> Inl e"
  by (simp_all add: joining_def)

lemma start_resharing_Done:
  "start_resharing X sk cs = Done (calls, r) \<Longrightarrow> calls = [] \<and> (\<forall>s. r \<noteq> Inr (NSRunning s))"
  by (cases "find_participant (nsc_new_participants cs) (cx_account_id X)";
      cases "ReshareProtocol_new (cx_keys X) sk (the (find_participant (nsc_new_participants cs) (cx_account_id X))) cs")
    (auto simp: start_resharing_def)

definition agrees :: "RunningState \<Rightarrow> NRunningContractState \<Rightarrow> bool" where
  "agrees r cs \<longleftrightarrow> rs_epoch r = nrc_epoch cs \<and> rs_participants r = nrc_participants cs \<and>
     rs_threshold r = nrc_threshold cs \<and> rs_public_key r = nrc_public_key cs"

lemma running_state_sel [simp]:
  "rs_epoch (running_state e ps t sk pk me ms) = e"
  "rs_participants (running_state e ps t sk pk me ms) = ps"
  "rs_threshold (running_state e ps t sk pk me ms) = t"
  "rs_public_key (running_state e ps t sk pk me ms) = pk"
  by (simp_all add: running_state_def Let_def)

lemma word_cmp_eq: "\<not> (a :: u64) > b \<Longrightarrow> \<not> a < b \<Longrightarrow> a = b"
  by simp

lemma Started_agrees:
  assumes "StartedState_advance X d P = Done (calls, Inr (NSRunning r))"
  shows "\<exists>cs. P = PSRunning cs \<and> agrees r cs"
proof (cases P)
  case (PSRunning cs)
  with assms show ?thesis
    by (cases d) (auto simp: StartedState_advance_def agrees_def joining_def split: if_splits option.splits)
next
  case (PSResharing cs)
  with assms show ?thesis
    by (cases d) (auto simp: StartedState_advance_def joining_def split: if_splits dest: start_resharing_Done)
qed (use assms in \<open>auto simp: StartedState_advance_def Let_def split: option.splits sum.splits\<close>)

lemma Waiting_agrees:
  assumes "WaitingForConsensusState_advance X s P = Done (calls, Inr (NSRunning r))"
  shows "\<exists>cs. P = PSRunning cs \<and> agrees r cs"
proof (cases P)
  case (PSInitializing cs)
  with assms show ?thesis
    by (auto simp: WaitingForConsensusState_advance_def exec_bind_eq_Done Let_def split: if_splits)
next
  case (PSRunning cs)
  with assms show ?thesis
    by (auto simp: WaitingForConsensusState_advance_def agrees_def exec_bind_eq_Done joining_def
        split: if_splits)
next
  case (PSResharing cs)
  with assms show ?thesis
    by (auto simp: WaitingForConsensusState_advance_def exec_bind_eq_Done
        split: if_splits option.splits dest: start_resharing_Done)
qed

lemma Running_agrees:
  assumes "RunningState_advance X s P = Done (calls, Inr (NSRunning r))"
  shows "\<exists>cs. P = PSRunning cs \<and> agrees r cs"
  using assms
  by (cases P) (auto simp: RunningState_advance_def agrees_def split: if_splits dest: start_resharing_Done)

lemma Joining_not_running:
  assumes "JoiningState_advance X s P = Done (calls, Inr (NSRunning r))"
  shows False
  using assms
  by (cases P)
    (auto simp: JoiningState_advance_def exec_bind_eq_Done Let_def
      split: if_splits option.splits tx_outcome.splits dest: start_resharing_Done)

lemma advance_agrees:
  assumes "NodeState_advance X st P = Done (calls, Inr (NSRunning r))"
  shows "\<exists>cs. P = PSRunning cs \<and> agrees r cs"
proof (cases st)
  case (NSGenerating s)
  with assms show ?thesis
    by (cases P) (auto simp: GeneratingState_advance_def split: if_splits)
next
  case (NSResharing s)
  with assms show ?thesis
    by (cases P) (auto simp: ResharingState_advance_def split: if_splits)
qed (use assms in \<open>auto dest: Started_agrees Waiting_agrees Running_agrees Joining_not_running split: sum.splits\<close>)

lemma set_bt_collect: "set (bt_collect es) \<subseteq> set es"
proof -
  have "set (fold (\<lambda>(k, v). bt_insert k v) es m) \<subseteq> set m \<union> set es" for m :: "('a::linorder \<times> 'b) list"
  proof (induction es arbitrary: m)
    case (Cons e es)
    obtain k v where e: "e = (k, v)" by (cases e)
    from Cons.IH [of "bt_insert k v m"] set_bt_insert [of k v m] show ?case by (auto simp: e)
  qed simp
  from this [of "[]"] show ?thesis by (simp add: bt_collect_def)
qed

lemma participant_entry_account:
  "participant_entry L (n, k, i) = Done e \<Longrightarrow> parses_to_itself L (pi_account_id i) \<Longrightarrow>
   np_account_id (snd e) = pi_account_id i"
  by (auto simp: participant_entry_def exec_bind_eq_Done parses_to_itself_def Let_def)

lemma converted_account:
  assumes "NParticipants_from_contract L ps = Done nps" and "participants_ok ps"
    and "\<forall>a. parses_to_itself L a" and "find_participant nps a = Some p"
  shows "a \<in> fst ` set ps"
proof -
  from assms(1) obtain es where es: "exec_map (participant_entry L) (enumerate 0 ps) = Done es" "nps = bt_collect es"
    by (auto simp: NParticipants_from_contract_def exec_bind_eq_Done)
  from assms(4) obtain i where "i < length nps" "np_account_id (snd (nps ! i)) = a"
    unfolding find_participant_def find_Some_iff map_option_eq_Some by (auto simp: case_prod_beta)
  then obtain e where e: "e \<in> set nps" "np_account_id (snd e) = a" using nth_mem by blast
  with es(2) set_bt_collect [of es] have "e \<in> set es" by blast
  with es(1) obtain j where j: "j < length ps" "participant_entry L (enumerate 0 ps ! j) = Done e"
    by (auto simp: exec_map_eq_Done list_all2_conv_all_nth in_set_conv_nth)
  then have "participant_entry L (j, fst (ps ! j), snd (ps ! j)) = Done e"
    by (simp add: nth_enumerate_eq)
  from participant_entry_account [OF this] assms(3) e(2) have "pi_account_id (snd (ps ! j)) = a" by simp
  moreover have "pi_account_id (snd (ps ! j)) = fst (ps ! j)"
    using assms(2) nth_mem [OF j(1)] by (auto simp: participants_ok_def case_prod_beta)
  ultimately show ?thesis using j(1) by (metis imageI nth_mem)
qed

lemma wrapped_successor: "(x :: u64) + 1 < x \<longleftrightarrow> x = -1"
proof
  assume "x + 1 < x"
  then have "\<not> uint x + 1 < 2 ^ 64"
    by (auto simp: word_less_def uint_plus_if_size word_size)
  moreover have "uint x < 2 ^ 64" using uint_lt2p [of x] by simp
  moreover have "uint (-1 :: u64) = 2 ^ 64 - 1" by (simp add: unsigned_minus_1_eq_mask mask_eq_exp_minus_1)
  ultimately have "uint x = uint (-1 :: u64)" by linarith
  then show "x = -1" by (rule word_uint_eqI)
qed (simp add: word_less_def unsigned_minus_1_eq_mask mask_eq_exp_minus_1)

lemma dead_guard: "(old :: u64) + 1 > e \<and> old + 2 = e \<longleftrightarrow> old = -2 \<and> e = 0"
proof -
  have 1: "old + 2 = (old + 1) + 1" by simp
  have "old + 1 > old + 2 \<longleftrightarrow> old + 1 = -1"
    unfolding 1 by (rule wrapped_successor)
  also have "\<dots> \<longleftrightarrow> old = -1 - 1" by (simp only: eq_diff_eq)
  also have "(-1 - 1 :: u64) = -2" by simp
  finally show ?thesis by auto
qed

lemma NResharing_from_old:
  "NResharing_from L s = Done cs \<Longrightarrow> nsc_old_epoch cs = scs_old_epoch s \<and>
     NParticipants_from_contract L (scs_old_participants s) = Done (nsc_old_participants cs)"
  by (auto simp: NResharing_from_def exec_bind_eq_Done)

lemma Waiting_resharing_vote:
  assumes "NodeState_advance X st (PSResharing cs) = Done (calls, r)" and "OVoteReshared n \<in> set calls"
  shows "n = nsc_old_epoch cs + 1 \<and>
    (\<exists>p. find_participant (nsc_old_participants cs) (cx_account_id X) = Some p)"
proof (cases st)
  case (NSWaitingForConsensus s)
  with assms show ?thesis
    by (auto simp: WaitingForConsensusState_advance_def exec_bind_eq_Done
        split: if_splits option.splits dest: start_resharing_Done)
next
  case (NSStarted d)
  with assms show ?thesis
    by (cases d) (auto simp: StartedState_advance_def split: if_splits dest: start_resharing_Done)
qed (use assms in \<open>auto simp: advance_defs split: if_splits dest: start_resharing_Done\<close>)

section \<open>Properties\<close>

text \<open>
  A node runs only in agreement with the contract. Whatever state it is in, when
  following the contract makes (or leaves) it running, the contract is running too, in the
  same epoch, with the same participants, threshold and public key.
\<close>

theorem node_runs_in_agreement:
  assumes "NodeState_advance X st P = Done (calls, Inr (NSRunning r))"
  shows "\<exists>cs. P = PSRunning cs \<and> rs_epoch r = nrc_epoch cs \<and> rs_participants r = nrc_participants cs \<and>
    rs_threshold r = nrc_threshold cs \<and> rs_public_key r = nrc_public_key cs"
  using advance_agrees [OF assms] by (simp add: agrees_def)

definition ex_ctx :: cons_ctx where
  "ex_ctx = \<lparr>cx_account_id = ''a'', cx_address = ''http'', cx_cipher_pk = [], cx_sign_pk = SECP256K1 [],
     cx_lib = ex_lib, cx_keys = \<lparr>cs_keygen = (\<lambda>_ _ _. Inl ''no''), cs_reshare = (\<lambda>_ _ _ _ _ _ _. Inl ''no'')\<rparr>,
     cx_load = Inr None, cx_tx = (\<lambda>_. TxSuccess (Some False)), cx_ask = (\<lambda>_. None)\<rparr>"

definition ex_data :: PersistentNodeData where
  "ex_data = \<lparr>pd_epoch = 3, pd_private_share = 5, pd_public_key = [1]\<rparr>"

definition ex_contract_running :: NRunningContractState where
  "ex_contract_running = \<lparr>nrc_epoch = 3, nrc_participants = ex_nodes, nrc_threshold = 2,
     nrc_public_key = [1], nrc_candidates = [], nrc_join_votes = [], nrc_leave_votes = []\<rparr>"

lemma ex_nodes_find: "find_participant ex_nodes ''a'' = Some 0"
  by (simp add: ex_nodes_def numbered_def find_participant_def node_info_def ParticipantInfo_from_def ex_candidate_def)

theorem node_runs_in_agreement_witness:
  "\<exists>r calls. NodeState_advance ex_ctx (NSStarted (Some ex_data)) (PSRunning ex_contract_running) =
      Done (calls, Inr (NSRunning r)) \<and> rs_epoch r = 3"
proof -
  have "NodeState_advance ex_ctx (NSStarted (Some ex_data)) (PSRunning ex_contract_running) =
      Done ([], Inr (NSRunning (running_state 3 ex_nodes 2 5 [1] 0 [])))"
    by (simp add: StartedState_advance_def ex_data_def ex_contract_running_def ex_ctx_def ex_nodes_find)
  from node_runs_in_agreement [OF this] this show ?thesis by (auto simp: ex_contract_running_def)
qed

text \<open>
  The vote with which a node ends a resharing is always accepted: whatever state the
  node is in when it reads a resharing contract, a vote it sends names the epoch the
  contract expects and comes from an old participant, so \<open>vote_reshared\<close> returns.
\<close>

theorem reshare_votes_accepted:
  assumes "protocol_state c = Resharing s" and "participants_ok (scs_old_participants s)"
    and "\<forall>a. parses_to_itself L a"
    and "ProtocolState_try_from L (protocol_state c) = Done (Inr P)"
    and "NodeState_advance X st P = Done (calls, r)" and "OVoteReshared n \<in> set calls"
    and "signer_account_id env = cx_account_id X"
  shows "\<exists>c' b. contract_vote_reshared env n c = Inr (c', b)"
proof -
  from assms(1,4) obtain cs where P: "P = PSResharing cs" "nsc_old_epoch cs = scs_old_epoch s"
    "NParticipants_from_contract L (scs_old_participants s) = Done (nsc_old_participants cs)"
    by (auto simp: exec_bind_eq_Done dest: NResharing_from_old)
  from Waiting_resharing_vote [OF assms(5) [unfolded P(1)] assms(6)] obtain p where
    "n = nsc_old_epoch cs + 1" "find_participant (nsc_old_participants cs) (cx_account_id X) = Some p" by blast
  with converted_account [OF P(3) assms(2,3)] P(2)
  have "n = scs_old_epoch s + 1" "cx_account_id X \<in> fst ` set (scs_old_participants s)" by auto
  with assms(1,7) show ?thesis
    by (cases "scs_threshold s \<le> card (insert (cx_account_id X) (scs_finished_votes s))")
      (auto simp: contract_vote_reshared_def Participants_contains_key_def bt_contains_iff Let_def)
qed

definition ex_resharing_net :: ResharingContractState where
  "ex_resharing_net = ex_resharing\<lparr>scs_public_key := 1 # replicate 64 7\<rparr>"

definition ex_waiting :: "u64 \<Rightarrow> NodeState" where
  "ex_waiting e = NSWaitingForConsensus \<lparr>ws_epoch = e, ws_participants = ex_nodes, ws_threshold = 2,
     ws_private_share = 5, ws_public_key = [1], ws_messages = []\<rparr>"

lemma ex_three_ok: "participants_ok (Participants_from ex_candidates)"
  using Participants_from_ok(1) [OF ex_candidates_ok] .

lemma ex_three_accepts: "lib_accepts ex_lib (Participants_from ex_candidates)"
  by (auto simp: Participants_from_def Participants_insert_def Participants_new_def ex_candidates_def
      lib_accepts_def ex_lib_def ParticipantInfo_from_def ex_candidate_def)

lemma ex_two_accepts: "lib_accepts ex_lib (Participants_remove ''c'' (Participants_from ex_candidates))"
  by (auto simp: Participants_from_def Participants_insert_def Participants_new_def ex_candidates_def
      Participants_remove_def lib_accepts_def ex_lib_def ParticipantInfo_from_def ex_candidate_def)

lemma ex_lengths: "length (Participants_from ex_candidates) = 3"
  "length (Participants_remove ''c'' (Participants_from ex_candidates)) = 2"
  by (simp_all add: Participants_from_def Participants_insert_def Participants_new_def ex_candidates_def
      Participants_remove_def)

definition ex_contract_resharing :: NResharingContractState where
  "ex_contract_resharing = \<lparr>nsc_old_epoch = 0,
     nsc_old_participants = node_participants ex_lib (Participants_from ex_candidates),
     nsc_new_participants = node_participants ex_lib (Participants_remove ''c'' (Participants_from ex_candidates)),
     nsc_threshold = 2, nsc_public_key = 4 # replicate 64 7, nsc_finished_votes = {}\<rparr>"

lemma ex_resharing_view:
  "ProtocolState_try_from ex_lib (Resharing ex_resharing_net) = Done (Inr (PSResharing ex_contract_resharing))"
proof -
  have "near_sdk_into_affine_point ex_lib (1 # replicate 64 7) = Done (4 # replicate 64 7)"
    by (simp add: near_sdk_into_affine_point_def ex_lib_def)
  then show ?thesis
    using NParticipants_from_contract_Done [OF ex_three_accepts] NParticipants_from_contract_Done [OF ex_two_accepts]
    by (simp add: NResharing_from_def ex_resharing_net_def ex_resharing_def ex_lengths
        accounts_from_contract_def ex_contract_resharing_def)
qed

theorem reshare_votes_accepted_witness:
  "\<exists>c' b. contract_vote_reshared (ex_env ''a'') 1
     \<lparr>protocol_state = Resharing ex_resharing_net, pending_requests = Map.empty\<rparr> = Inr (c', b)"
proof (rule reshare_votes_accepted [of _ ex_resharing_net ex_lib "PSResharing ex_contract_resharing" ex_ctx
      "ex_waiting 1" "[OVoteReshared 1]" "Inr (ex_waiting 1)"])
  have "position (Participants_from ex_candidates) ''a'' = Some 0"
    by (simp add: Participants_from_def Participants_insert_def Participants_new_def ex_candidates_def)
  then show "NodeState_advance ex_ctx (ex_waiting 1) (PSResharing ex_contract_resharing) =
      Done ([OVoteReshared 1], Inr (ex_waiting 1))"
    by (simp add: ex_waiting_def WaitingForConsensusState_advance_def ex_contract_resharing_def ex_ctx_def
        find_participant_position [OF ex_three_ok] vote_reshared_def vote_outcome_def unwrap_res_def)
  show "participants_ok (scs_old_participants ex_resharing_net)"
    by (simp add: ex_resharing_net_def ex_resharing_def ex_three_ok)
  show "\<forall>a. parses_to_itself ex_lib a" by (simp add: parses_to_itself_def ex_lib_def)
  show "ProtocolState_try_from ex_lib (protocol_state
      \<lparr>protocol_state = Resharing ex_resharing_net, pending_requests = Map.empty\<rparr>) =
    Done (Inr (PSResharing ex_contract_resharing))"
    by (simp only: MpcContract.select_convs ex_resharing_view)
qed (simp_all add: ex_env_def ex_ctx_def)

text \<open>
  A node that waits for consensus never joins a resharing. The guard of that branch
  asks for an epoch both below \<open>old_epoch + 1\<close> and equal to \<open>old_epoch + 2\<close>, which only the
  wrap-around at the very last epoch satisfies; below it, a node that finished the
  key generation while the others already reshare from its epoch gives up its share and
  asks to join as a stranger.
\<close>

theorem waiting_never_joins_resharing:
  assumes "NodeState_advance X (NSWaitingForConsensus s) (PSResharing cs) = Done (calls, Inr (NSResharing h))"
  shows "nsc_old_epoch cs = -2 \<and> ws_epoch s = 0"
proof -
  have "nsc_old_epoch cs + 1 > ws_epoch s \<and> nsc_old_epoch cs + 2 = ws_epoch s"
    using assms
    by (auto simp: WaitingForConsensusState_advance_def exec_bind_eq_Done split: if_splits option.splits)
  then show ?thesis using dead_guard by blast
qed

theorem waiting_never_joins_resharing_witness:
  "nsc_old_epoch (ex_contract_resharing\<lparr>nsc_old_epoch := -2, nsc_old_participants := ex_nodes,
     nsc_new_participants := ex_nodes, nsc_public_key := [1]\<rparr>) = -2"
proof -
  let ?cs = "ex_contract_resharing\<lparr>nsc_old_epoch := -2, nsc_old_participants := ex_nodes,
     nsc_new_participants := ex_nodes, nsc_public_key := [1]\<rparr>"
  let ?X = "ex_ctx\<lparr>cx_keys := \<lparr>cs_keygen = (\<lambda>_ _ _. Inl ''no''), cs_reshare = (\<lambda>_ _ _ _ _ _ _. Inr (ex_returns 5))\<rparr>\<rparr>"
  let ?w = "\<lparr>ws_epoch = 0, ws_participants = ex_nodes, ws_threshold = 2,
     ws_private_share = 5, ws_public_key = [1], ws_messages = []\<rparr>"
  have "(-1 :: u64) > 0" by (simp add: word_neq_0_conv [symmetric])
  then obtain h where "NodeState_advance ?X (NSWaitingForConsensus ?w) (PSResharing ?cs) = Done ([], Inr (NSResharing h))"
    by (simp add: WaitingForConsensusState_advance_def ex_contract_resharing_def start_resharing_def
        ex_ctx_def ex_nodes_find ReshareProtocol_new_def Let_def)
  from waiting_never_joins_resharing [OF this] show ?thesis by blast
qed

text \<open>
  A node that has been voted out panics when it restarts: holding a share of the epoch
  from which the network reshares, it looks itself up among the new participants and
  unwraps the answer.
\<close>

theorem kicked_node_panics:
  assumes "nsc_public_key cs = pd_public_key d" and "nsc_old_epoch cs = pd_epoch d"
    and "find_participant (nsc_new_participants cs) (cx_account_id X) = None"
  shows "NodeState_advance X (NSStarted (Some d)) (PSResharing cs) = Panics ''find_participant''"
  using assms by (simp add: StartedState_advance_def start_resharing_def)

theorem kicked_node_panics_witness:
  "NodeState_advance ex_ctx (NSStarted (Some ex_data))
     (PSResharing \<lparr>nsc_old_epoch = 3, nsc_old_participants = ex_nodes, nsc_new_participants = [],
        nsc_threshold = 2, nsc_public_key = [1], nsc_finished_votes = {}\<rparr>) = Panics ''find_participant''"
  by (rule kicked_node_panics) (simp_all add: ex_data_def find_participant_def)

end
