(* ===== verification/Node_Services.thy ===== *)
theory Node_Services
  imports Consensus
begin

text \<open>
  What surrounds the protocol of a node: the storage of its share (\<^verbatim>\<open>node/src/storage.rs\<close>), the
  indexer that turns blocks into sign requests (\<^verbatim>\<open>node/src/indexer.rs\<close>), and the http
  endpoints (\<^verbatim>\<open>node/src/web\<close>).
\<close>

section \<open>Storage\<close>

text \<open>
  Google's secret manager and \<open>serde_json\<close> are the argument \<open>G\<close>, over a state \<open>'s\<close> of the
  service. An access answers with the payload of the latest version, if it has one, and
  the payload with its data.
\<close>

record 's secret_lib =
  add_version :: "string \<Rightarrow> bytes \<Rightarrow> 's \<Rightarrow> 's \<times> (string + unit)"
  access_latest :: "string \<Rightarrow> 's \<Rightarrow> string + bytes option option"
  data_to_vec :: "PersistentNodeData \<Rightarrow> string + bytes"
  data_from_slice :: "bytes \<Rightarrow> string + PersistentNodeData"

datatype SecretNodeStorage =
    MemoryNodeStorage "PersistentNodeData option"
  | SecretManagerNodeStorage (gcp_project_id: string) (sk_share_secret_id: string)

definition secret_name :: "string \<Rightarrow> string \<Rightarrow> string" where
  "secret_name project secret = ''projects/'' @ project @ ''/secrets/'' @ secret"

fun storage_store ::
  "'s secret_lib \<Rightarrow> PersistentNodeData \<Rightarrow> SecretNodeStorage \<times> 's \<Rightarrow>
     (SecretNodeStorage \<times> 's) \<times> (string + unit)" where
  "storage_store G data (MemoryNodeStorage _, s) = ((MemoryNodeStorage (Some data), s), Inr ())"
| "storage_store G data (SecretManagerNodeStorage project secret, s) =
     (case data_to_vec G data of
        Inl e \<Rightarrow> ((SecretManagerNodeStorage project secret, s), Inl e)
      | Inr payload \<Rightarrow>
          (let (s', r) = add_version G (secret_name project secret) payload s
           in ((SecretManagerNodeStorage project secret, s'), r)))"

text \<open>A payload of at most one byte is the placeholder of an empty secret.\<close>

fun storage_load ::
  "'s secret_lib \<Rightarrow> SecretNodeStorage \<times> 's \<Rightarrow> string + PersistentNodeData option" where
  "storage_load G (MemoryNodeStorage node_data, s) = Inr node_data"
| "storage_load G (SecretManagerNodeStorage project secret, s) =
     res_bind (access_latest G (secret_name project secret @ ''/versions/latest'') s) (\<lambda>payload.
     case payload of
       Some (Some data) \<Rightarrow>
         if length data > 1 then res_bind (data_from_slice G data) (\<lambda>d. Inr (Some d)) else Inr None
     | _ \<Rightarrow> Inr None)"

record storage_Options =
  opt_gcp_project_id :: "string option"
  opt_sk_share_secret_id :: "string option"

definition storage_init :: "storage_Options \<Rightarrow> SecretNodeStorage exec" where
  "storage_init opts =
     (case opt_sk_share_secret_id opts of
        Some secret \<Rightarrow>
          exec_bind (unwrap ''gcp_project_id'' (opt_gcp_project_id opts)) (\<lambda>project.
          Done (SecretManagerNodeStorage project secret))
      | None \<Rightarrow> Done (MemoryNodeStorage None))"

definition storage_into_str_args :: "storage_Options \<Rightarrow> string list" where
  "storage_into_str_args opts =
     (case opt_gcp_project_id opts of None \<Rightarrow> [] | Some p \<Rightarrow> [''--gcp-project-id'', p]) @
     (case opt_sk_share_secret_id opts of None \<Rightarrow> [] | Some s \<Rightarrow> [''--sk-share-secret-id'', s])"

section \<open>The indexer\<close>

datatype ExecutionStatus = SuccessValue bytes | SuccessReceiptId CryptoHash | Failure string | Postponed

record lake_receipt =
  lr_status :: ExecutionStatus
  lr_logs :: "string list"

record lake_action =
  la_receiver_id :: AccountId
  la_predecessor_id :: AccountId
  la_receipt_id :: CryptoHash
  la_function_call :: "(string \<times> bytes) option"

record lake_block =
  lb_actions :: "lake_action list"
  lb_receipt_by_id :: "CryptoHash \<Rightarrow> lake_receipt option"

record SignPayload =
  sp_payload :: bytes
  sp_path :: string

text \<open>The two readers of \<open>serde_json\<close>.\<close>

record json_lib =
  parse_sign_payload :: "bytes \<Rightarrow> string + SignPayload"
  parse_entropy :: "string \<Rightarrow> string + bytes"

text \<open>The body of the loop over the actions of a block; \<open>continue\<close> leaves the queue as it is.\<close>

definition handle_action ::
  "curve_lib \<Rightarrow> json_lib \<Rightarrow> AccountId \<Rightarrow> lake_block \<Rightarrow> lake_action \<Rightarrow> SignQueue \<Rightarrow> SignQueue exec" where
  "handle_action C J mpc_contract_id block action q =
     (if la_receiver_id action = mpc_contract_id then
        exec_bind (unwrap ''receipt_by_id'' (lb_receipt_by_id block (la_receipt_id action))) (\<lambda>receipt.
        case lr_status receipt of
          SuccessReceiptId receipt_id \<Rightarrow>
            (case la_function_call action of
               None \<Rightarrow> Done q
             | Some (method_name, args) \<Rightarrow>
                 if method_name = ''sign'' then
                   (case parse_sign_payload J args of
                      Inl _ \<Rightarrow> Done q
                    | Inr sign_payload \<Rightarrow>
                        if lr_logs receipt = [] then Done q
                        else (case parse_entropy J (lr_logs receipt ! 0) of
                            Inl _ \<Rightarrow> Done q
                          | Inr entropy \<Rightarrow>
                              (let epsilon = derive_epsilon C (la_predecessor_id action) (sp_path sign_payload) in
                               exec_bind (derive_delta C receipt_id entropy) (\<lambda>delta.
                               Done (SignQueue_add
                                 \<lparr>sr_receipt_id = receipt_id, sr_msg_hash = sp_payload sign_payload,
                                  sr_epsilon = epsilon, sr_delta = delta, sr_entropy = entropy\<rparr> q)))))
                 else Done q)
        | _ \<Rightarrow> Done q)
      else Done q)"

fun handle_actions ::
  "curve_lib \<Rightarrow> json_lib \<Rightarrow> AccountId \<Rightarrow> lake_block \<Rightarrow> lake_action list \<Rightarrow> SignQueue \<Rightarrow> SignQueue exec" where
  "handle_actions C J mpc_contract_id block [] q = Done q"
| "handle_actions C J mpc_contract_id block (action # actions) q =
     exec_bind (handle_action C J mpc_contract_id block action q) (\<lambda>q'.
     handle_actions C J mpc_contract_id block actions q')"

definition handle_block ::
  "curve_lib \<Rightarrow> json_lib \<Rightarrow> AccountId \<Rightarrow> lake_block \<Rightarrow> SignQueue \<Rightarrow> SignQueue exec" where
  "handle_block C J mpc_contract_id block q = handle_actions C J mpc_contract_id block (lb_actions block) q"

record indexer_Options =
  opt_s3_bucket :: string
  opt_s3_region :: string
  opt_s3_url :: "string option"
  opt_start_block_height :: u64

text \<open>\<open>show_u64\<close> prints a number in decimal.\<close>

definition indexer_into_str_args :: "(u64 \<Rightarrow> string) \<Rightarrow> indexer_Options \<Rightarrow> string list" where
  "indexer_into_str_args show_u64 opts =
     [''--s3-bucket'', opt_s3_bucket opts, ''--s3-region'', opt_s3_region opts,
      ''--start-block-height'', show_u64 (opt_start_block_height opts)] @
     (case opt_s3_url opts of None \<Rightarrow> [] | Some url \<Rightarrow> [''--s3-url'', url])"

section \<open>The http endpoints\<close>

datatype web_error =
    JsonExtractorRejection nat string
  | WProtocol ConsensusError
  | WCryptography CryptographicError
  | WMessage MpcMessage
  | WRpc string
  | WNotRunning

text \<open>A rejection of the json extractor carries its own status and text.\<close>

fun web_status :: "web_error \<Rightarrow> nat" where
  "web_status (JsonExtractorRejection status _) = status"
| "web_status (WProtocol _) = 500"
| "web_status (WCryptography _) = 500"
| "web_status (WMessage _) = 500"
| "web_status (WRpc _) = 400"
| "web_status WNotRunning = 400"

fun web_response :: "(web_error \<Rightarrow> string) \<Rightarrow> web_error \<Rightarrow> nat \<times> string" where
  "web_response dbg (JsonExtractorRejection status text) = (status, text)"
| "web_response dbg err = (web_status err, dbg err)"

text \<open>
  \<open>POST /msg\<close>: decrypts against the stored state of the protocol and forwards to the channel
  of the protocol, which refuses once its receiver is gone. The channel is the list of the
  messages not yet received.
\<close>

definition web_msg ::
  "wire_lib \<Rightarrow> hpke_lib \<Rightarrow> bytes \<Rightarrow> NodeState \<Rightarrow> bool \<Rightarrow> MpcMessage list \<Rightarrow>
     web_error + Ciphered \<Rightarrow> MpcMessage list \<times> (web_error + unit)" where
  "web_msg W H cipher_sk st receiver_open channel body =
     (case body of
        Inl rejection \<Rightarrow> (channel, Inl rejection)
      | Inr encrypted \<Rightarrow>
          (case SignedMessage_decrypt W H cipher_sk st encrypted of
             Inl err \<Rightarrow> (channel, Inl (WCryptography err))
           | Inr message \<Rightarrow>
               if receiver_open then (channel @ [message], Inr ()) else (channel, Inl (WMessage message))))"

text \<open>\<open>POST /join\<close>: the node's vote for a candidate, sent with its own account.\<close>

definition web_join ::
  "(AccountId \<Rightarrow> string option) \<Rightarrow> NodeState \<Rightarrow> web_error + AccountId \<Rightarrow>
     contract_call list \<times> (web_error + unit)" where
  "web_join send_tx st body =
     (case body of
        Inl rejection \<Rightarrow> ([], Inl rejection)
      | Inr account_id \<Rightarrow>
          (case st of
             NSRunning _ \<Rightarrow>
               (case send_tx account_id of
                  None \<Rightarrow> ([CVoteJoin account_id], Inr ())
                | Some e \<Rightarrow> ([], Inl (WRpc e)))
           | _ \<Rightarrow> ([], Inl WNotRunning)))"

datatype StateView =
    SVRunning (sv_participants: "Participant list") (sv_triple_count: nat) (sv_presignature_count: nat)
  | SVNotRunning

definition web_state :: "NodeState \<Rightarrow> StateView" where
  "web_state st =
     (case st of
        NSRunning s \<Rightarrow> SVRunning (NParticipants_keys (rs_participants s)) (triple_len (rs_triple_manager s))
          (presignature_len (rs_presignature_manager s))
      | _ \<Rightarrow> SVNotRunning)"

section \<open>Laws\<close>

text \<open>An action of a block asks for a signature, and for which.\<close>

definition asks_for :: "curve_lib \<Rightarrow> json_lib \<Rightarrow> AccountId \<Rightarrow> lake_block \<Rightarrow> lake_action \<Rightarrow> SignRequest \<Rightarrow> bool" where
  "asks_for C J contract block a r \<longleftrightarrow>
     la_receiver_id a = contract \<and>
     (\<exists>receipt args p log logs.
        lb_receipt_by_id block (la_receipt_id a) = Some receipt \<and>
        lr_status receipt = SuccessReceiptId (sr_receipt_id r) \<and>
        la_function_call a = Some (''sign'', args) \<and> parse_sign_payload J args = Inr p \<and>
        lr_logs receipt = log # logs \<and> parse_entropy J log = Inr (sr_entropy r) \<and>
        sr_msg_hash r = sp_payload p \<and>
        sr_epsilon r = derive_epsilon C (la_predecessor_id a) (sp_path p) \<and>
        derive_delta C (sr_receipt_id r) (sr_entropy r) = Done (sr_delta r))"

lemma handle_action_Done:
  assumes "handle_action C J contract block a q = Done q'"
  shows "(\<exists>r. asks_for C J contract block a r \<and> q' = SignQueue_add r q) \<or>
    (\<forall>r. \<not> asks_for C J contract block a r) \<and> q' = q"
proof (cases "la_receiver_id a = contract")
  case True
  with assms obtain receipt where receipt: "lb_receipt_by_id block (la_receipt_id a) = Some receipt"
    by (auto simp: handle_action_def exec_bind_eq_Done)
  show ?thesis
  proof (cases "lr_status receipt")
    case (SuccessReceiptId rid)
    show ?thesis
    proof (cases "\<exists>args p e. la_function_call a = Some (''sign'', args) \<and> parse_sign_payload J args = Inr p \<and>
        lr_logs receipt \<noteq> [] \<and> parse_entropy J (lr_logs receipt ! 0) = Inr e")
      case yes: True
      then obtain args p e where *: "la_function_call a = Some (''sign'', args)" "parse_sign_payload J args = Inr p"
        "lr_logs receipt \<noteq> []" "parse_entropy J (lr_logs receipt ! 0) = Inr e" by blast
      with assms True receipt SuccessReceiptId obtain delta where d: "derive_delta C rid e = Done delta"
        and q': "q' = SignQueue_add \<lparr>sr_receipt_id = rid, sr_msg_hash = sp_payload p,
          sr_epsilon = derive_epsilon C (la_predecessor_id a) (sp_path p), sr_delta = delta, sr_entropy = e\<rparr> q"
        by (auto simp: handle_action_def Let_def exec_bind_eq_Done)
      have "asks_for C J contract block a \<lparr>sr_receipt_id = rid, sr_msg_hash = sp_payload p,
          sr_epsilon = derive_epsilon C (la_predecessor_id a) (sp_path p), sr_delta = delta, sr_entropy = e\<rparr>"
        using * d True receipt SuccessReceiptId by (cases "lr_logs receipt") (auto simp: asks_for_def)
      with q' show ?thesis by blast
    next
      case False
      then have "q' = q"
        using assms True receipt SuccessReceiptId
        by (auto simp: handle_action_def split: option.splits sum.splits if_splits)
      moreover have "\<not> asks_for C J contract block a r" for r
        using False receipt by (fastforce simp: asks_for_def)
      ultimately show ?thesis by blast
    qed
  qed (use assms True receipt in \<open>auto simp: handle_action_def asks_for_def\<close>)
qed (use assms in \<open>auto simp: handle_action_def asks_for_def\<close>)

lemma handle_actions_exact:
  "handle_actions C J contract block actions q = Done q' \<Longrightarrow>
   \<exists>rs. q' = q\<lparr>sq_unorganized_requests := sq_unorganized_requests q @ rs\<rparr> \<and>
     list_all2 (asks_for C J contract block)
       (filter (\<lambda>a. \<exists>r. asks_for C J contract block a r) actions) rs"
proof (induction actions arbitrary: q)
  case Nil
  then show ?case by (intro exI [of _ "[]"]) simp
next
  case (Cons a actions)
  then obtain q1 where a: "handle_action C J contract block a q = Done q1"
    and rest: "handle_actions C J contract block actions q1 = Done q'" by (auto simp: exec_bind_eq_Done)
  from Cons.IH [OF rest] obtain rs where rs: "q' = q1\<lparr>sq_unorganized_requests := sq_unorganized_requests q1 @ rs\<rparr>"
    "list_all2 (asks_for C J contract block) (filter (\<lambda>a. \<exists>r. asks_for C J contract block a r) actions) rs" by blast
  from handle_action_Done [OF a] consider
    (ask) r where "asks_for C J contract block a r" "q1 = SignQueue_add r q"
    | (skip) "\<forall>r. \<not> asks_for C J contract block a r" "q1 = q" by blast
  then show ?case
  proof cases
    case ask
    with rs show ?thesis by (intro exI [of _ "r # rs"]) (auto simp: SignQueue_add_def)
  next
    case skip
    with rs show ?thesis by (intro exI [of _ rs]) auto
  qed
qed

section \<open>Properties\<close>

text \<open>
  C33: The indexer queues exactly the signatures the contract was asked for. A block appends
  one request for every action that called \<open>sign\<close> on the contract, was not refused (its
  receipt produced another) and logged its entropy, in the order of the block and nothing
  else; the request signs the payload of that call under the key of the account that made
  it and the path it gave.
\<close>

theorem indexed_requests_exact:
  assumes "handle_block C J contract block q = Done q'"
  shows "\<exists>rs. q' = q\<lparr>sq_unorganized_requests := sq_unorganized_requests q @ rs\<rparr> \<and>
    list_all2 (asks_for C J contract block)
      (filter (\<lambda>a. \<exists>r. asks_for C J contract block a r) (lb_actions block)) rs"
  using handle_actions_exact [OF assms [unfolded handle_block_def]] .

definition ex_json :: json_lib where
  "ex_json = \<lparr>parse_sign_payload = (\<lambda>b. if b = [] then Inl ''eof'' else Inr \<lparr>sp_payload = b, sp_path = ''p''\<rparr>),
     parse_entropy = (\<lambda>s. Inr [5])\<rparr>"

definition ex_call :: "string \<Rightarrow> bytes \<Rightarrow> lake_action" where
  "ex_call method args = \<lparr>la_receiver_id = ''mpc'', la_predecessor_id = ''alice'', la_receipt_id = [1],
     la_function_call = Some (method, args)\<rparr>"

definition ex_block :: lake_block where
  "ex_block = \<lparr>lb_actions = [ex_call ''sign'' [], ex_call ''join'' [1], ex_call ''sign'' [7]],
     lb_receipt_by_id = (\<lambda>_. Some \<lparr>lr_status = SuccessReceiptId [9], lr_logs = [''entropy'']\<rparr>)\<rparr>"

theorem indexed_requests_exact_witness:
  "\<exists>q' rs. handle_block ex_field ex_json ''mpc'' ex_block SignQueue_new = Done q' \<and>
     length (sq_unorganized_requests q') = 1 \<and> list_all2 (asks_for ex_field ex_json ''mpc'' ex_block)
       (filter (\<lambda>a. \<exists>r. asks_for ex_field ex_json ''mpc'' ex_block a r) (lb_actions ex_block)) rs"
proof -
  obtain q' where q': "handle_block ex_field ex_json ''mpc'' ex_block SignQueue_new = Done q'"
    "length (sq_unorganized_requests q') = 1"
    by (simp add: handle_block_def handle_action_def ex_block_def ex_call_def ex_json_def Let_def
        derive_delta_def ex_field_def ex_curve_def SignQueue_new_def SignQueue_add_def)
  from indexed_requests_exact [OF q'(1)] q' show ?thesis by blast
qed

text \<open>
  A share survives the storage. With either storage, once a store has succeeded a load
  returns the data stored: the placeholder rule of the secret manager never hides a real
  share. Assumed of the service and of \<open>serde_json\<close>: the latest version is the one added
  last; data reads back as written, and its form, an object, does not begin and end with
  the same byte.
\<close>

theorem storage_round_trip:
  assumes "\<And>name payload s s'. add_version G name payload s = (s', Inr ()) \<Longrightarrow>
      access_latest G (name @ ''/versions/latest'') s' = Inr (Some (Some payload))"
    and "\<And>d v. data_to_vec G d = Inr v \<Longrightarrow> data_from_slice G v = Inr d \<and> v \<noteq> [] \<and> hd v \<noteq> last v"
    and "storage_store G d st = (st', Inr ())"
  shows "storage_load G st' = Inr (Some d)"
proof -
  obtain box s where st: "st = (box, s)" by (cases st)
  show ?thesis
  proof (cases box)
    case (SecretManagerNodeStorage project secret)
    with assms(3) st obtain v where v: "data_to_vec G d = Inr v" by (cases "data_to_vec G d") auto
    obtain s' r where a: "add_version G (secret_name project secret) v s = (s', r)"
      by (cases "add_version G (secret_name project secret) v s")
    with assms(3) st v SecretManagerNodeStorage
    have st': "st' = (SecretManagerNodeStorage project secret, s')" and "r = Inr ()" by auto
    with assms(1) a have l: "access_latest G (secret_name project secret @ ''/versions/latest'') s' = Inr (Some (Some v))"
      by blast
    from assms(2) [OF v] have "length v > 1" by (cases v; cases "tl v") auto
    with assms(2) [OF v] l st' show ?thesis by simp
  qed (use assms(3) st in auto)
qed

definition ex_secrets :: "(bytes list) secret_lib" where
  "ex_secrets = \<lparr>add_version = (\<lambda>_ v s. (v # s, Inr ())),
     access_latest = (\<lambda>_ s. Inr (case s of [] \<Rightarrow> None | v # _ \<Rightarrow> Some (Some v))),
     data_to_vec = (\<lambda>d. if d = ex_share_data then Inr [123, 125] else Inl ''other''),
     data_from_slice = (\<lambda>v. Inr ex_share_data)\<rparr>"

theorem storage_round_trip_witness:
  "\<exists>st'. storage_store ex_secrets ex_share_data (SecretManagerNodeStorage ''p'' ''s'', [[0]]) = (st', Inr ()) \<and>
     storage_load ex_secrets st' = Inr (Some ex_share_data)"
proof -
  have st: "storage_store ex_secrets ex_share_data (SecretManagerNodeStorage ''p'' ''s'', [[0]]) =
      ((SecretManagerNodeStorage ''p'' ''s'', [[123, 125], [0]]), Inr ())"
    by (simp add: ex_secrets_def)
  have "storage_load ex_secrets (SecretManagerNodeStorage ''p'' ''s'', [[123, 125], [0]]) = Inr (Some ex_share_data)"
    by (rule storage_round_trip [OF _ _ st]) (auto simp: ex_secrets_def split: if_splits)
  with st show ?thesis by blast
qed

end
