(* ===== verification/Node_Run.thy ===== *)
theory Node_Run
  imports Node_Services
begin

text \<open>
  The loop of a node, \<open>MpcSignProtocol::run\<close> of \<^verbatim>\<open>node/src/protocol/mod.rs\<close>: one iteration reads
  the contract, drains the channel, makes a round of the protocols, follows the contract
  and handles the messages. Only an iteration that goes through replaces the stored
  state; the protocols, managers and queues are shared with the copy the iteration
  works on, so that their changes stay when it fails.
\<close>

section \<open>Definitions\<close>

record 's process =
  p_state :: NodeState
  p_sign_queue :: SignQueue
  p_queue :: MpcMessageQueue
  p_channel :: "MpcMessage list"
  p_storage :: "SecretNodeStorage \<times> 's"

text \<open>What an iteration meets: the view of the contract, whether the senders of the channel are gone, the rest.\<close>

record 's iteration_env =
  it_view :: "string + ProtocolContractState"
  it_disconnected :: bool
  it_step :: step_env
  it_ctx :: cons_ctx
  it_secrets :: "'s secret_lib"

datatype flow = Continues | SpinsDown

text \<open>\<open>MpcSignProtocol::init\<close> and the start of \<open>run\<close>: nothing but the storage outlives a restart.\<close>

definition MpcSignProtocol_init :: "SecretNodeStorage \<times> 's \<Rightarrow> 's process" where
  "MpcSignProtocol_init storage =
     \<lparr>p_state = NSStarting, p_sign_queue = SignQueue_new, p_queue = MpcMessageQueue_default,
      p_channel = [], p_storage = storage\<rparr>"

definition drain :: "'s process \<Rightarrow> 's process" where
  "drain p = p\<lparr>p_queue := fold MpcMessageQueue_push (p_channel p) (p_queue p), p_channel := []\<rparr>"

text \<open>
  What the stored state has become when the iteration gives up after the copy was changed:
  the managers of a running node are shared with the copy as long as that is running too.
\<close>

definition shared_with :: "NodeState \<Rightarrow> NodeState \<Rightarrow> NodeState" where
  "shared_with left copy =
     (case (left, copy) of (NSRunning _, NSRunning s) \<Rightarrow> NSRunning s | _ \<Rightarrow> left)"

definition stores :: "'s secret_lib \<Rightarrow> PersistentNodeData list \<Rightarrow> SecretNodeStorage \<times> 's \<Rightarrow> SecretNodeStorage \<times> 's" where
  "stores G ds storage = fold (\<lambda>d st. fst (storage_store G d st)) ds storage"

definition step_env_of :: "'s iteration_env \<Rightarrow> 's process \<Rightarrow> step_env" where
  "step_env_of I p = (it_step I)\<lparr>env_store_error := (\<lambda>d.
     case snd (storage_store (it_secrets I) d (p_storage p)) of Inl e \<Rightarrow> Some e | Inr _ \<Rightarrow> None)\<rparr>"

definition ctx_of :: "'s iteration_env \<Rightarrow> SecretNodeStorage \<times> 's \<Rightarrow> cons_ctx" where
  "ctx_of I storage = (it_ctx I)\<lparr>cx_load := storage_load (it_secrets I) storage\<rparr>"

text \<open>The part of an iteration after the channel was drained.\<close>

definition protocol_round ::
  "'s iteration_env \<Rightarrow> ProtocolState \<Rightarrow> 's process \<Rightarrow> ('s process \<times> effects \<times> outgoing list) exec" where
  "protocol_round I contract p =
     exec_bind (NodeState_progress (step_env_of I p) (p_sign_queue p) (p_state p)) (\<lambda>(left, sq, r, eff).
     let p1 = p\<lparr>p_state := left, p_sign_queue := sq,
                p_storage := stores (it_secrets I) (eff_stored eff) (p_storage p)\<rparr> in
     case r of
       Inl _ \<Rightarrow> Done (p1, eff, [])
     | Inr st1 \<Rightarrow>
         exec_bind (NodeState_advance (ctx_of I (p_storage p1)) st1 contract) (\<lambda>(calls, r1).
         case r1 of
           Inl _ \<Rightarrow> Done (p1, eff, calls)
         | Inr st2 \<Rightarrow>
             exec_bind (NodeState_handle (env_run (it_step I)) st2 (p_queue p1)) (\<lambda>(st3, q, r2).
             Done (p1\<lparr>p_queue := q, p_state := (case r2 of Inl _ \<Rightarrow> shared_with left st3 | Inr _ \<Rightarrow> st3)\<rparr>,
                   eff, calls))))"

definition node_iteration ::
  "'s iteration_env \<Rightarrow> 's process \<Rightarrow> ('s process \<times> effects \<times> outgoing list \<times> flow) exec" where
  "node_iteration I p =
     exec_bind (fetch_mpc_contract_state (cx_lib (it_ctx I)) (it_view I)) (\<lambda>view.
     case view of
       Inl _ \<Rightarrow> Done (p, no_effects, [], Continues)
     | Inr contract \<Rightarrow>
         (let p1 = drain p in
          if it_disconnected I then Done (p1, no_effects, [], SpinsDown)
          else exec_bind (protocol_round I contract p1) (\<lambda>(p2, eff, calls).
               Done (p2, eff, calls, Continues))))"

text \<open>A life of the process: iterations one after the other until one spins down.\<close>

fun node_run :: "'s iteration_env list \<Rightarrow> 's process \<Rightarrow> 's process exec" where
  "node_run [] p = Done p"
| "node_run (I # Is) p =
     exec_bind (node_iteration I p) (\<lambda>(p', _, _, flow).
     case flow of SpinsDown \<Rightarrow> Done p' | Continues \<Rightarrow> node_run Is p')"

section \<open>Laws\<close>

lemma handle_keeps_identity: "ends_in (\<lambda>(s', _, _). identity s' = identity s) (RunningState_handle R s q)"
  by (auto simp: RunningState_handle_def Let_def intro!: ends_in_bind split: prod.split sum.split unit.split)

lemma NodeState_handle_running:
  assumes "NodeState_handle R st q = Done (NSRunning s', q', r)"
  shows "\<exists>s. st = NSRunning s \<and> identity s' = identity s"
proof (cases st)
  case (NSRunning s)
  with assms handle_keeps_identity [of s R q] show ?thesis by (auto simp: exec_bind_eq_Done)
qed (use assms in \<open>auto simp: GeneratingState_handle_def ResharingState_handle_def Let_def\<close>)

lemma advance_running_same:
  "RunningState_advance X s P = Done (calls, Inr (NSRunning s')) \<Longrightarrow> s' = s"
  by (cases P) (auto simp: RunningState_advance_def split: if_splits dest: start_resharing_Done)

lemma agrees_identity: "identity s' = identity s \<Longrightarrow> agrees s cs \<Longrightarrow> agrees s' cs"
  by (simp add: identity_def agrees_def)

text \<open>The state left behind by a round is of the kind it was.\<close>

lemma generating_left: "ends_in (\<lambda>(l, _). \<exists>s'. l = NSGenerating s') (GeneratingState_progress E s)"
  by (auto simp: GeneratingState_progress_def Let_def intro!: ends_in_bind split: loop_end.split option.split prod.split)

lemma resharing_left: "ends_in (\<lambda>(l, _). \<exists>s'. l = NSResharing s') (ResharingState_progress E s)"
  by (auto simp: ResharingState_progress_def Let_def intro!: ends_in_bind split: loop_end.split option.split prod.split)

lemma waiting_left:
  "ends_in (\<lambda>(l, _). \<exists>s'. l = NSWaitingForConsensus s') (WaitingForConsensusState_progress E s)"
  by (auto simp: WaitingForConsensusState_progress_def Let_def intro!: ends_in_bind split: prod.split)

lemma progress_left_running:
  assumes "NodeState_progress E sq st = Done (NSRunning s', sq', r, eff)"
  shows "\<exists>s. st = NSRunning s \<and> identity s' = identity s \<and> (\<forall>n. r = Inr n \<longrightarrow> n = NSRunning s')"
proof (cases st)
  case (NSGenerating s)
  with assms generating_left [of E s] show ?thesis by (auto simp: exec_bind_eq_Done)
next
  case (NSResharing s)
  with assms resharing_left [of E s] show ?thesis by (auto simp: exec_bind_eq_Done)
next
  case (NSWaitingForConsensus s)
  with assms waiting_left [of E s] show ?thesis by (auto simp: exec_bind_eq_Done)
next
  case (NSRunning s)
  with assms show ?thesis by (auto dest!: RunningState_progress_identity)
qed (use assms in auto)

lemma shared_with_running:
  "shared_with left copy = NSRunning s' \<Longrightarrow> \<exists>s. left = NSRunning s \<and> (s' = s \<or> copy = NSRunning s')"
  by (cases left; cases copy) (auto simp: shared_with_def)

text \<open>A running state is the running state of before, or one the contract agrees with.\<close>

definition justified :: "NodeState \<Rightarrow> ProtocolState \<Rightarrow> NodeState \<Rightarrow> bool" where
  "justified before contract after \<longleftrightarrow> (\<forall>s'. after = NSRunning s' \<longrightarrow>
     (\<exists>s. before = NSRunning s \<and> identity s' = identity s) \<or> (\<exists>cs. contract = PSRunning cs \<and> agrees s' cs))"

lemma round_handled:
  assumes "NodeState_progress E sq st = Done (left, sq', Inr st1, eff)"
    and "NodeState_advance X st1 contract = Done (calls, Inr st2)"
    and "NodeState_handle R st2 q = Done (st3, q', r2)"
  shows "justified st contract (case r2 of Inl _ \<Rightarrow> shared_with left st3 | Inr _ \<Rightarrow> st3)"
proof -
  have 3: "justified st contract st3"
    unfolding justified_def
  proof (intro allI impI)
    fix s' assume "st3 = NSRunning s'"
    with assms(3) obtain s where "st2 = NSRunning s" "identity s' = identity s"
      by (auto dest: NodeState_handle_running)
    with advance_agrees assms(2) agrees_identity
    show "(\<exists>s. st = NSRunning s \<and> identity s' = identity s) \<or> (\<exists>cs. contract = PSRunning cs \<and> agrees s' cs)" by blast
  qed
  moreover have "justified st contract left"
    using progress_left_running assms(1) by (fastforce simp: justified_def)
  ultimately show ?thesis
    by (cases r2) (auto simp: justified_def case_unit_Unity dest!: shared_with_running)
qed

lemma round_justified:
  "ends_in (\<lambda>(p', _). justified (p_state p) contract (p_state p')) (protocol_round I contract p)"
  unfolding protocol_round_def
proof (rule ends_in_bind, goal_cases)
  case (1 x)
  obtain left sq r eff where x: "x = (left, sq, r, eff)" by (cases x)
  have l: "justified (p_state p) contract left"
    using progress_left_running 1 x by (fastforce simp: justified_def)
  show ?case
  proof (cases r)
    case (Inr st1)
    show ?thesis
      unfolding x Inr prod.case sum.case Let_def
    proof (rule ends_in_bind, goal_cases)
      case (1 y)
      obtain calls r1 where y: "y = (calls, r1)" by (cases y)
      show ?case
      proof (cases r1)
        case Inr2: (Inr st2)
        show ?thesis
          unfolding y Inr2 prod.case sum.case
          using round_handled [OF _ 1 [unfolded y Inr2]] \<open>NodeState_progress _ _ _ = Done x\<close> x Inr
          by (auto intro!: ends_in_bind)
      qed (use y l in simp)
    qed
  qed (use x l in simp)
qed

lemma node_iteration_cases:
  assumes "node_iteration I p = Done (p', eff, calls, flow)"
  obtains (unread) "p' = p" | (spin_down) "p' = drain p"
  | (went) contract where "fetch_mpc_contract_state (cx_lib (it_ctx I)) (it_view I) = Done (Inr contract)"
      "protocol_round I contract (drain p) = Done (p', eff, calls)"
proof -
  from assms obtain view where v: "fetch_mpc_contract_state (cx_lib (it_ctx I)) (it_view I) = Done view"
    by (auto simp: node_iteration_def exec_bind_eq_Done)
  show thesis
    using assms v that
    by (cases view; cases "it_disconnected I") (auto simp: node_iteration_def Let_def exec_bind_eq_Done)
qed

lemma iteration_running:
  assumes "node_iteration I p = Done (p', eff, calls, flow)" and "p_state p' = NSRunning s'"
  shows "(\<exists>s. p_state p = NSRunning s \<and> identity s' = identity s) \<or>
    (\<exists>cs. fetch_mpc_contract_state (cx_lib (it_ctx I)) (it_view I) = Done (Inr (PSRunning cs)) \<and> agrees s' cs)"
  using assms(1)
proof (cases rule: node_iteration_cases)
  case (went contract)
  from round_justified [of "drain p" contract I] went(2) have "justified (p_state p) contract (p_state p')"
    by (simp add: drain_def)
  with assms(2) went(1) show ?thesis by (auto simp: justified_def)
qed (use assms(2) in \<open>auto simp: drain_def\<close>)

lemma progress_stores_nothing:
  assumes "NodeState_progress E sq (NSResharing h) = Done (l, sq', r, eff)"
  shows "eff_stored eff = []"
  using assms by (auto simp: exec_bind_eq_Done dest: Resharing_stores)

lemma iteration_storage:
  assumes "node_iteration I p = Done (p', eff, calls, flow)" and "p_state p = NSResharing h"
  shows "p_storage p' = p_storage p"
proof -
  have "ends_in (\<lambda>(q, _). p_storage q = p_storage p) (protocol_round I contract (drain p))" for contract
    using assms(2)
    by (auto simp: protocol_round_def drain_def Let_def stores_def simp del: NodeState_progress.simps
        intro!: ends_in_bind split: sum.split unit.split prod.split dest!: progress_stores_nothing)
  with assms(1) show ?thesis
    by (cases rule: node_iteration_cases) (auto simp: drain_def dest!: ends_inD)
qed

section \<open>Properties\<close>

text \<open>
  A node is running only for a reason. After any iteration of its loop, whatever of it
  failed, a stored running state is the running state the node had before, with the same
  epoch, participants, threshold, share and public key, or the contract read in that very
  iteration is running and agrees with it.
\<close>

theorem iteration_running_justified:
  assumes "node_iteration I p = Done (p', eff, calls, flow)" and "p_state p' = NSRunning s'"
  shows "(\<exists>s. p_state p = NSRunning s \<and> identity s' = identity s) \<or>
    (\<exists>cs. fetch_mpc_contract_state (cx_lib (it_ctx I)) (it_view I) = Done (Inr (PSRunning cs)) \<and> agrees s' cs)"
  by (rule iteration_running [OF assms])

definition ex_running_net :: RunningContractState where
  "ex_running_net = \<lparr>rcs_epoch = 3, rcs_participants = Participants_from ex_candidates, rcs_threshold = 2,
     rcs_public_key = 1 # replicate 64 7, rcs_candidates = [], rcs_join_votes = [], rcs_leave_votes = []\<rparr>"

definition ex_running_view :: NRunningContractState where
  "ex_running_view = \<lparr>nrc_epoch = 3, nrc_participants = node_participants ex_lib (Participants_from ex_candidates),
     nrc_threshold = 2, nrc_public_key = 4 # replicate 64 7, nrc_candidates = [], nrc_join_votes = [],
     nrc_leave_votes = []\<rparr>"

definition ex_iteration :: "(bytes list) iteration_env" where
  "ex_iteration = \<lparr>it_view = Inr (Running ex_running_net), it_disconnected = False, it_step = ex_step_env,
     it_ctx = ex_ctx, it_secrets = ex_secrets\<rparr>"

lemma ex_running_fetch:
  "fetch_mpc_contract_state ex_lib (Inr (Running ex_running_net)) = Done (Inr (PSRunning ex_running_view))"
proof -
  have "near_sdk_into_affine_point ex_lib (1 # replicate 64 7) = Done (4 # replicate 64 7)"
    by (simp add: near_sdk_into_affine_point_def ex_lib_def)
  then show ?thesis
    using NParticipants_from_contract_Done [OF ex_three_accepts]
    by (simp add: fetch_mpc_contract_state_def NRunning_from_def ex_running_net_def ex_lengths
        NCandidates_from_contract_def NVotes_from_contract_def ex_running_view_def bt_collect_def)
qed

definition ex_started :: "u64 \<Rightarrow> (bytes list) process" where
  "ex_started e = (MpcSignProtocol_init (MemoryNodeStorage None, []))
     \<lparr>p_state := NSStarted (Some \<lparr>pd_epoch = e, pd_private_share = 5, pd_public_key = 4 # replicate 64 7\<rparr>)\<rparr>"

theorem iteration_running_justified_witness:
  "\<exists>p' eff calls flow s'. node_iteration ex_iteration (ex_started 3) = Done (p', eff, calls, flow) \<and>
     p_state p' = NSRunning s' \<and> agrees s' ex_running_view"
proof -
  have pos: "position (Participants_from ex_candidates) ''a'' = Some 0"
    by (simp add: Participants_from_def Participants_insert_def Participants_new_def ex_candidates_def)
  have "\<exists>p' s' eff calls flow. node_iteration ex_iteration (ex_started 3) = Done (p', eff, calls, flow) \<and>
      p_state p' = NSRunning s'"
    using pos
    by (simp add: node_iteration_def ex_iteration_def ex_ctx_def ex_running_fetch ex_started_def drain_def
        protocol_round_def MpcSignProtocol_init_def stores_def ctx_of_def StartedState_advance_def
        find_participant_position [OF ex_three_ok] ex_running_view_def
        RunningState_handle_def MpcMessageQueue_default_def quietly_def Let_def case_unit_Unity)
  then obtain p' s' eff calls flow where it: "node_iteration ex_iteration (ex_started 3) = Done (p', eff, calls, flow)"
    "p_state p' = NSRunning s'" by blast
  from iteration_running_justified [OF this] it show ?thesis
    by (auto simp: ex_iteration_def ex_ctx_def ex_running_fetch ex_started_def)
qed

text \<open>
  A node that restarts after a resharing has lost its share. Whatever an iteration of a
  resharing node does, it leaves the storage as it was, with the data of an earlier epoch;
  when the process then starts again and the contract runs in a later epoch, the node is
  joining after two iterations, like a stranger, although the contract counts it among the
  participants.
\<close>

theorem restart_after_resharing_joins:
  assumes "p_state p = NSResharing h" and "node_iteration I p = Done (p', eff, calls, flow)"
    and "storage_load G (p_storage p) = Inr (Some d)"
    and "it_secrets I1 = G" and "\<not> it_disconnected I1"
    and "fetch_mpc_contract_state (cx_lib (it_ctx I1)) (it_view I1) = Done (Inr contract)"
    and "\<not> it_disconnected I2"
    and "fetch_mpc_contract_state (cx_lib (it_ctx I2)) (it_view I2) = Done (Inr (PSRunning cs))"
    and "nrc_public_key cs = pd_public_key d" and "nrc_epoch cs > pd_epoch d"
  shows "\<exists>p''. node_run [I1, I2] (MpcSignProtocol_init (p_storage p')) = Done p'' \<and>
    p_state p'' = NSJoining \<lparr>js_participants = nrc_participants cs, js_public_key = nrc_public_key cs\<rparr>"
proof -
  have st: "p_storage p' = p_storage p"
    using iteration_storage [OF assms(2)] assms(1) by simp
  have 1: "node_iteration I1 (MpcSignProtocol_init (p_storage p')) =
      Done ((MpcSignProtocol_init (p_storage p'))\<lparr>p_state := NSStarted (Some d)\<rparr>, no_effects, [], Continues)"
    using assms(3-6) st
    by (simp add: node_iteration_def protocol_round_def MpcSignProtocol_init_def drain_def stores_def ctx_of_def
        quietly_def Let_def)
  have 2: "node_iteration I2 ((MpcSignProtocol_init (p_storage p'))\<lparr>p_state := NSStarted (Some d)\<rparr>) =
      Done ((MpcSignProtocol_init (p_storage p'))\<lparr>p_state :=
        NSJoining \<lparr>js_participants = nrc_participants cs, js_public_key = nrc_public_key cs\<rparr>\<rparr>, no_effects, [], Continues)"
    using assms(7-10)
    by (simp add: node_iteration_def protocol_round_def MpcSignProtocol_init_def drain_def stores_def ctx_of_def
        quietly_def Let_def StartedState_advance_def joining_def)
  from 1 2 show ?thesis by simp
qed

definition ex_reshare :: ResharingState where
  "ex_reshare = \<lparr>hs_old_epoch = 0, hs_old_participants = ex_nodes, hs_new_participants = ex_nodes,
     hs_threshold = 2, hs_public_key = 4 # replicate 64 7,
     hs_protocol = \<lparr>rp_old_participants = [0, 1, 2], rp_new_participants = [0, 1, 2], rp_me = 0, rp_threshold = 2,
       rp_private_share = Some 5, rp_protocol = ex_returns 6, rp_root_pk = 4 # replicate 64 7\<rparr>,
     hs_messages = []\<rparr>"

definition ex_old_share :: PersistentNodeData where
  "ex_old_share = \<lparr>pd_epoch = 0, pd_private_share = 5, pd_public_key = 4 # replicate 64 7\<rparr>"

definition ex_reshare_process :: "(bytes list) process" where
  "ex_reshare_process = (MpcSignProtocol_init (MemoryNodeStorage (Some ex_old_share), []))\<lparr>p_state := NSResharing ex_reshare\<rparr>"

text \<open>The iteration that completes the resharing and votes for it.\<close>

lemma ex_reshare_iteration:
  "\<exists>p' eff flow w. node_iteration (ex_iteration\<lparr>it_view := Inr (Resharing ex_resharing_net)\<rparr>) ex_reshare_process =
     Done (p', eff, [OVoteReshared 1], flow) \<and> p_state p' = NSWaitingForConsensus w \<and> ws_private_share w = 6"
proof -
  have pos: "position (Participants_from ex_candidates) ''a'' = Some 0"
    by (simp add: Participants_from_def Participants_insert_def Participants_new_def ex_candidates_def)
  have me: "get_my_participant ''a'' (NSResharing ex_reshare) = Some 0"
    by (simp add: get_my_participant_def ex_reshare_def ex_nodes_def numbered_def find_participant_info_def
        node_info_def ParticipantInfo_from_def ex_candidate_def)
  have loop: "protocol_loop (resharing_message 0) (Some 0) ex_nodes (ex_returns (6 :: SecretKeyShare)) [] =
      Some (ex_returns 6, [], LReturn 6)"
    by (subst protocol_loop.simps) simp
  have fetch: "fetch_mpc_contract_state ex_lib (Inr (Resharing ex_resharing_net)) = Done (Inr (PSResharing ex_contract_resharing))"
    unfolding fetch_mpc_contract_state_def sum.case ex_resharing_view by simp
  have progress: "NodeState_progress (step_env_of I ex_reshare_process) q (NSResharing ex_reshare) =
      Done (NSResharing ex_reshare, q, Inr (NSWaitingForConsensus \<lparr>ws_epoch = 1, ws_participants = ex_nodes,
        ws_threshold = 2, ws_private_share = 6, ws_public_key = 4 # replicate 64 7, ws_messages = []\<rparr>), no_effects)"
    if "it_step I = ex_step_env" for I q
    using me loop that
    by (simp add: ResharingState_progress_def step_env_of_def ex_step_env_def Let_def ex_reshare_def no_effects_def)
  show ?thesis
    using pos fetch progress [of "ex_iteration\<lparr>it_view := Inr (Resharing ex_resharing_net)\<rparr>"]
    by (simp add: node_iteration_def ex_iteration_def ex_ctx_def drain_def protocol_round_def ex_reshare_process_def
        MpcSignProtocol_init_def stores_def ctx_of_def WaitingForConsensusState_advance_def
        find_participant_position [OF ex_three_ok] ex_contract_resharing_def quietly_def Let_def
        vote_reshared_def vote_outcome_def unwrap_res_def del: NodeState_progress.simps)
qed

theorem restart_after_resharing_joins_witness:
  "\<exists>p' eff flow w p''. node_iteration (ex_iteration\<lparr>it_view := Inr (Resharing ex_resharing_net)\<rparr>) ex_reshare_process =
     Done (p', eff, [OVoteReshared 1], flow) \<and> p_state p' = NSWaitingForConsensus w \<and>
     node_run [ex_iteration, ex_iteration] (MpcSignProtocol_init (p_storage p')) = Done p'' \<and>
     p_state p'' = NSJoining \<lparr>js_participants = nrc_participants ex_running_view,
       js_public_key = nrc_public_key ex_running_view\<rparr>"
proof -
  obtain p' eff flow w where it: "node_iteration (ex_iteration\<lparr>it_view := Inr (Resharing ex_resharing_net)\<rparr>) ex_reshare_process =
     Done (p', eff, [OVoteReshared 1], flow)" "p_state p' = NSWaitingForConsensus w"
    using ex_reshare_iteration by blast
  have "\<exists>p''. node_run [ex_iteration, ex_iteration] (MpcSignProtocol_init (p_storage p')) = Done p'' \<and>
      p_state p'' = NSJoining \<lparr>js_participants = nrc_participants ex_running_view,
        js_public_key = nrc_public_key ex_running_view\<rparr>"
    by (rule restart_after_resharing_joins [OF _ it(1), of ex_reshare ex_secrets ex_old_share _ "PSRunning ex_running_view"])
      (simp_all add: ex_reshare_process_def MpcSignProtocol_init_def ex_iteration_def ex_ctx_def ex_running_fetch
        ex_running_view_def ex_old_share_def)
  with it show ?thesis by blast
qed

end
