(* ===== verification/Network.thy ===== *)
theory Network
  imports Node_Run
begin

text \<open>
  The multichain network as a whole: the contract of \<open>Contract\<close> and any number of nodes of
  \<open>Node_Run\<close>, in any interleaving. Transactions of anyone reach the contract, the nodes read
  a state of the contract that may be out of date, messages and requests arrive at will, and
  nodes stop and start again with nothing but their storage.
\<close>

section \<open>Runs of the network\<close>

text \<open>The transactions executed so far, in their order, and the nodes by their accounts.\<close>

record 's network =
  nw_log :: "(contract_env \<times> contract_call) list"
  nw_nodes :: "AccountId \<Rightarrow> 's process"

text \<open>The protocol state of the contract after the first transactions of the log.\<close>

definition past_state :: "MpcContract \<Rightarrow> (contract_env \<times> contract_call) list \<Rightarrow> nat \<Rightarrow> ProtocolContractState" where
  "past_state c log k = protocol_state (fold contract_exec (take k log) c)"

inductive network_run :: "near_lib \<Rightarrow> MpcContract \<Rightarrow> 's network \<Rightarrow> bool"
  for L :: near_lib and c :: MpcContract where
  start: "(\<And>a. \<exists>storage. nodes a = MpcSignProtocol_init storage) \<Longrightarrow>
    network_run L c \<lparr>nw_log = [], nw_nodes = nodes\<rparr>"
| transact: "network_run L c w \<Longrightarrow> network_run L c (w\<lparr>nw_log := nw_log w @ [e]\<rparr>)"
| arrive: "network_run L c w \<Longrightarrow>
    network_run L c (w\<lparr>nw_nodes := (nw_nodes w)(a := (nw_nodes w a)\<lparr>p_channel := ms, p_sign_queue := q\<rparr>)\<rparr>)"
| iterate: "network_run L c w \<Longrightarrow> cx_lib (it_ctx I) = L \<Longrightarrow>
    (\<And>st. it_view I = Inr st \<Longrightarrow> \<exists>k. st = past_state c (nw_log w) k) \<Longrightarrow>
    node_iteration I (nw_nodes w a) = Done (p, eff, calls, flow) \<Longrightarrow>
    network_run L c (w\<lparr>nw_nodes := (nw_nodes w)(a := p)\<rparr>)"
| restart: "network_run L c w \<Longrightarrow>
    network_run L c (w\<lparr>nw_nodes := (nw_nodes w)(a := MpcSignProtocol_init (p_storage (nw_nodes w a)))\<rparr>)"

section \<open>The epochs of the contract\<close>

text \<open>What a running phase fixes.\<close>

fun same_epoch_members :: "ProtocolContractState \<Rightarrow> ProtocolContractState \<Rightarrow> bool" where
  "same_epoch_members (Running r) (Running r') \<longleftrightarrow>
     rcs_participants r' = rcs_participants r \<and> rcs_epoch r' = rcs_epoch r"
| "same_epoch_members _ _ \<longleftrightarrow> False"

lemma phase_step_same_rank:
  assumes "phase_step a e (Running r) q" and "phase_rank q = phase_rank (Running r)"
  shows "same_epoch_members (Running r) q"
  using assms by (cases rule: phase_step_Running) (auto simp: start_reshare_def)

lemma run_same_rank:
  assumes "protocol_state c = Running r" and "phase_rank (Running r) + length es < 2 ^ 65"
    and "phase_rank (protocol_state (fold contract_exec es c)) = phase_rank (Running r)"
  shows "same_epoch_members (Running r) (protocol_state (fold contract_exec es c))"
  using assms
proof (induction es arbitrary: c r)
  case (Cons e es)
  let ?c = "contract_exec e c"
  have step: "phase_step (signer_account_id (fst e)) (snd e) (Running r) (protocol_state ?c)"
    using contract_exec_phase [of e c] Cons.prems(1) by simp
  have low: "phase_rank (Running r) \<le> phase_rank (protocol_state ?c)"
    "phase_rank (protocol_state ?c) \<le> phase_rank (Running r) + 1"
    using phase_step_rank [OF step] Cons.prems(2) by auto
  moreover have "phase_rank (protocol_state ?c) \<le> phase_rank (protocol_state (fold contract_exec es ?c))"
    using contract_run_rank [of ?c es] low Cons.prems(2) by simp
  ultimately have eq: "phase_rank (protocol_state ?c) = phase_rank (Running r)"
    using Cons.prems(3) by simp
  from phase_step_same_rank [OF step eq] obtain r1 where r1: "protocol_state ?c = Running r1"
    "rcs_participants r1 = rcs_participants r" "rcs_epoch r1 = rcs_epoch r"
    by (cases "protocol_state ?c") auto
  with Cons.IH [OF r1(1)] Cons.prems eq show ?case
    by (cases "protocol_state (fold contract_exec es ?c)") auto
qed simp

text \<open>Two states of the log: the later one is reached from the earlier one.\<close>

lemma past_state_later:
  assumes "k \<le> k'"
  shows "\<exists>es. min k (length log) + length es \<le> length log \<and>
    past_state c log k' = protocol_state (fold contract_exec es (fold contract_exec (take k log) c))"
proof (intro exI conjI)
  show "min k (length log) + length (take (k' - k) (drop k log)) \<le> length log" by simp
  show "past_state c log k' =
      protocol_state (fold contract_exec (take (k' - k) (drop k log)) (fold contract_exec (take k log) c))"
    using assms take_add [of k "k' - k" log] by (simp add: past_state_def)
qed

lemma running_epochs_agree_ordered:
  assumes "phase_rank (protocol_state c) + length log < 2 ^ 65" and "k \<le> k'"
    and "past_state c log k = Running r" and "past_state c log k' = Running r'"
  shows "rcs_threshold r' = rcs_threshold r \<and> rcs_public_key r' = rcs_public_key r \<and>
    (rcs_epoch r' = rcs_epoch r \<longrightarrow> rcs_participants r' = rcs_participants r)"
proof -
  let ?d = "fold contract_exec (take k log) c"
  from past_state_later [OF assms(2)] obtain es where es: "min k (length log) + length es \<le> length log"
    "past_state c log k' = protocol_state (fold contract_exec es ?d)" by blast
  have d: "protocol_state ?d = Running r" using assms(3) by (simp add: past_state_def)
  have "phase_rank (protocol_state c) + length (take k log) < 2 ^ 65"
    using assms(1) by (auto intro: le_less_trans)
  from contract_run_rank [OF this] d
  have "phase_rank (Running r) \<le> phase_rank (protocol_state c) + min k (length log)" by (simp add: min.commute)
  with assms(1) es(1) have rank: "phase_rank (Running r) + length es < 2 ^ 65" by linarith
  have e: "protocol_state (fold contract_exec es ?d) = Running r'" using es(2) assms(4) by simp
  from contract_key.run_rel [of ?d es] have "keeps_key ?d (fold contract_exec es ?d)" by simp
  moreover have "rcs_participants r' = rcs_participants r" if "rcs_epoch r' = rcs_epoch r"
    using run_same_rank [OF d rank] that by (simp add: e)
  ultimately show ?thesis using d e by (simp add: keeps_key_def)
qed

lemma running_epochs_agree:
  assumes "phase_rank (protocol_state c) + length log < 2 ^ 65"
    and "past_state c log k = Running r" and "past_state c log k' = Running r'"
  shows "rcs_threshold r' = rcs_threshold r \<and> rcs_public_key r' = rcs_public_key r \<and>
    (rcs_epoch r' = rcs_epoch r \<longrightarrow> rcs_participants r' = rcs_participants r)"
proof (cases "k \<le> k'")
  case False
  then show ?thesis using running_epochs_agree_ordered [OF assms(1) _ assms(3,2)] by simp
qed (rule running_epochs_agree_ordered [OF assms(1) _ assms(2,3)])

section \<open>The nodes follow the contract\<close>

text \<open>A running node took its epoch from the contract, now or earlier.\<close>

definition backed :: "near_lib \<Rightarrow> MpcContract \<Rightarrow> (contract_env \<times> contract_call) list \<Rightarrow> RunningState \<Rightarrow> bool" where
  "backed L c log s \<longleftrightarrow>
     (\<exists>k r cs. past_state c log k = Running r \<and> NRunning_from L r = Done cs \<and> agrees s cs)"

lemma backed_snoc: "backed L c log s \<Longrightarrow> backed L c (log @ [e]) s"
proof -
  assume "backed L c log s"
  then obtain k r cs where k: "past_state c log k = Running r" "NRunning_from L r = Done cs" "agrees s cs"
    by (auto simp: backed_def)
  have "past_state c (log @ [e]) (min k (length log)) = past_state c log k"
    by (simp add: past_state_def min_def)
  with k show ?thesis unfolding backed_def by metis
qed

lemma backed_identity: "identity s' = identity s \<Longrightarrow> backed L c log s \<Longrightarrow> backed L c log s'"
  unfolding backed_def by (blast intro: agrees_identity)

lemma fetch_running:
  assumes "fetch_mpc_contract_state L view = Done (Inr (PSRunning cs))"
  shows "\<exists>r. view = Inr (Running r) \<and> NRunning_from L r = Done cs"
proof (cases view)
  case (Inr st)
  with assms show ?thesis
    by (cases st) (auto simp: fetch_mpc_contract_state_def exec_bind_eq_Done)
qed (use assms in \<open>simp add: fetch_mpc_contract_state_def\<close>)

lemma NRunning_from_fields:
  "NRunning_from L r = Done v \<Longrightarrow> nrc_epoch v = rcs_epoch r \<and> nrc_threshold v = rcs_threshold r \<and>
     NParticipants_from_contract L (rcs_participants r) = Done (nrc_participants v) \<and>
     near_sdk_into_affine_point L (rcs_public_key r) = Done (nrc_public_key v)"
  by (auto simp: NRunning_from_def exec_bind_eq_Done)

lemma network_backed:
  assumes "network_run L c w" and "p_state (nw_nodes w a) = NSRunning s"
  shows "backed L c (nw_log w) s"
  using assms
proof (induction arbitrary: a s rule: network_run.induct)
  case (start nodes)
  from start(1) [of a] start.prems show ?case by (auto simp: MpcSignProtocol_init_def)
next
  case (iterate w I b p eff calls flow)
  show ?case
  proof (cases "a = b")
    case True
    with iterate.prems have p: "p_state p = NSRunning s" by simp
    from iteration_running [OF iterate.hyps(4) p] show ?thesis
    proof
      assume "\<exists>s0. p_state (nw_nodes w b) = NSRunning s0 \<and> identity s = identity s0"
      with iterate.IH show ?thesis by (auto intro: backed_identity)
    next
      assume "\<exists>cs. fetch_mpc_contract_state (cx_lib (it_ctx I)) (it_view I) = Done (Inr (PSRunning cs)) \<and> agrees s cs"
      then obtain cs where cs: "fetch_mpc_contract_state L (it_view I) = Done (Inr (PSRunning cs))" "agrees s cs"
        using iterate.hyps(2) by auto
      from fetch_running [OF cs(1)] obtain r where r: "it_view I = Inr (Running r)" "NRunning_from L r = Done cs" by blast
      with iterate.hyps(3) [of "Running r"] cs(2) show ?thesis by (auto simp: backed_def) (metis)
    qed
  qed (use iterate in simp)
qed (auto simp: MpcSignProtocol_init_def split: if_splits intro: backed_snoc)

section \<open>Properties\<close>


text \<open>Two nodes that find the key in their storages, and a contract that got the votes for it.\<close>

definition ex_votes :: "(contract_env \<times> contract_call) list" where
  "ex_votes = [(ex_env ''a'', CVotePk (1 # replicate 64 7)), (ex_env ''b'', CVotePk (1 # replicate 64 7))]"

definition ex_follow :: "AccountId \<Rightarrow> (bytes list) iteration_env" where
  "ex_follow a = ex_iteration\<lparr>it_view := Inr (Running (ex_running_net\<lparr>rcs_epoch := 0\<rparr>)),
     it_ctx := ex_ctx\<lparr>cx_account_id := a\<rparr>\<rparr>"

abbreviation ex_fresh_node :: "(bytes list) process" where
  "ex_fresh_node \<equiv> MpcSignProtocol_init (MemoryNodeStorage (Some ex_old_share), [])"

lemma ex_votes_run:
  "past_state (contract_init 2 ex_candidates Map.empty) ex_votes 2 = Running (ex_running_net\<lparr>rcs_epoch := 0\<rparr>)"
  by (simp add: past_state_def ex_votes_def contract_exec_def contract_init_def contract_simps PkVotes_entry_def
      bt_contains_key_def ex_candidates_def ex_env_def ex_running_net_def)

lemma ex_follow_fetch:
  "fetch_mpc_contract_state ex_lib (Inr (Running (ex_running_net\<lparr>rcs_epoch := 0\<rparr>))) =
     Done (Inr (PSRunning (ex_running_view\<lparr>nrc_epoch := 0\<rparr>)))"
  using ex_running_fetch
  by (auto simp: fetch_mpc_contract_state_def NRunning_from_def exec_bind_eq_Done ex_running_view_def)

lemma ex_follow_loads:
  "node_iteration (ex_follow a) ex_fresh_node =
     Done (ex_fresh_node\<lparr>p_state := NSStarted (Some ex_old_share)\<rparr>, no_effects, [], Continues)"
  by (simp add: node_iteration_def ex_follow_def ex_iteration_def ex_ctx_def ex_follow_fetch protocol_round_def
      MpcSignProtocol_init_def drain_def stores_def ctx_of_def quietly_def Let_def)

lemma ex_follow_runs:
  assumes "a \<in> {''a'', ''b''}"
  shows "\<exists>p s eff calls flow. node_iteration (ex_follow a) (ex_fresh_node\<lparr>p_state := NSStarted (Some ex_old_share)\<rparr>) =
    Done (p, eff, calls, flow) \<and> p_state p = NSRunning s"
proof -
  have "position (Participants_from ex_candidates) a \<noteq> None"
    using assms by (auto simp: position_None Participants_from_map ex_candidates_def bt_wf_def)
  then show ?thesis
    by (auto simp: node_iteration_def ex_follow_def ex_iteration_def ex_ctx_def ex_follow_fetch ex_old_share_def drain_def
        protocol_round_def MpcSignProtocol_init_def stores_def ctx_of_def StartedState_advance_def
        find_participant_position [OF ex_three_ok] ex_running_view_def
        RunningState_handle_def MpcMessageQueue_default_def quietly_def Let_def case_unit_Unity)
qed

lemma ex_node_joins:
  assumes "network_run ex_lib (contract_init 2 ex_candidates Map.empty) w" and "nw_log w = ex_votes"
    and "nw_nodes w a = ex_fresh_node" and "a \<in> {''a'', ''b''}"
  shows "\<exists>p s. network_run ex_lib (contract_init 2 ex_candidates Map.empty) (w\<lparr>nw_nodes := (nw_nodes w)(a := p)\<rparr>) \<and>
    p_state p = NSRunning s"
proof -
  let ?p = "ex_fresh_node\<lparr>p_state := NSStarted (Some ex_old_share)\<rparr>"
  have view: "\<exists>k. st = past_state (contract_init 2 ex_candidates Map.empty) ex_votes k"
    if "it_view (ex_follow a) = Inr st" for st
    using that ex_votes_run by (auto simp: ex_follow_def intro!: exI [of _ 2])
  have lib: "cx_lib (it_ctx (ex_follow a)) = ex_lib" by (simp add: ex_follow_def ex_ctx_def)
  obtain p s eff calls flow where runs: "node_iteration (ex_follow a) ?p = Done (p, eff, calls, flow)" "p_state p = NSRunning s"
    using ex_follow_runs [OF assms(4)] by blast
  have "network_run ex_lib (contract_init 2 ex_candidates Map.empty) (w\<lparr>nw_nodes := (nw_nodes w)(a := ?p)\<rparr>)"
    using network_run.iterate [OF assms(1) lib, of a] view ex_follow_loads assms(2,3) by simp
  from network_run.iterate [OF this lib, of a p eff calls flow] view runs assms(2)
  have "network_run ex_lib (contract_init 2 ex_candidates Map.empty) (w\<lparr>nw_nodes := (nw_nodes w)(a := p)\<rparr>)" by simp
  with runs(2) show ?thesis by blast
qed


end
