(* ===== verification/Network_Rounds.thy ===== *)
theory Network_Rounds
  imports Network
begin

text \<open>
  Key generation and resharing come to an end. Here the nodes take turns on the contract as it
  is, and the transactions of a turn reach the contract before the next one. When enough
  nodes have their shares and wait, one turn of each makes the contract go on, and one more
  turn makes them run.
\<close>

section \<open>Turns\<close>

text \<open>
  The transactions of a node as calls of the contract: keys travel as text and are read as
  near-sdk keys, whose first byte is the type of the curve. The answer of a vote is the
  boolean the method returns.
\<close>

fun near_sdk_bytes :: "near_public_key \<Rightarrow> bytes" where
  "near_sdk_bytes (ED25519 k) = 0 # k"
| "near_sdk_bytes (SECP256K1 k) = 1 # k"

fun sent_call :: "outgoing \<Rightarrow> contract_call option" where
  "sent_call (OVotePk k) = Some (CVotePk (near_sdk_bytes k))"
| "sent_call (OVoteReshared n) = Some (CVoteReshared n)"
| "sent_call (OJoin url cipher_pk sign_pk) = Some (CJoin url cipher_pk (near_sdk_bytes sign_pk))"
| "sent_call (OAskToJoin _ _) = None"

definition caller :: "AccountId \<Rightarrow> contract_env" where
  "caller a = \<lparr>signer_account_id = a, predecessor_account_id = a, current_account_id = ''mpc''\<rparr>"

definition vote_answer :: "string + MpcContract \<times> bool \<Rightarrow> tx_outcome" where
  "vote_answer r = (case r of Inl e \<Rightarrow> TxFailed e | Inr (_, b) \<Rightarrow> TxSuccess (Some b))"

fun tx_answer :: "AccountId \<Rightarrow> MpcContract \<Rightarrow> outgoing \<Rightarrow> tx_outcome" where
  "tx_answer a c (OVotePk k) = vote_answer (contract_vote_pk (caller a) (near_sdk_bytes k) c)"
| "tx_answer a c (OVoteReshared n) = vote_answer (contract_vote_reshared (caller a) n c)"
| "tx_answer a c _ = TxSuccess None"

text \<open>An iteration of one node on the contract as it is now, with the transactions it makes.\<close>

definition take_turn ::
  "(MpcContract \<Rightarrow> AccountId \<Rightarrow> 's iteration_env) \<Rightarrow> AccountId \<Rightarrow> MpcContract \<times> (AccountId \<Rightarrow> 's process) \<Rightarrow>
     (MpcContract \<times> (AccountId \<Rightarrow> 's process)) exec" where
  "take_turn E a = (\<lambda>(c, ps).
     exec_bind (node_iteration (E c a) (ps a)) (\<lambda>(p, _, calls, _).
     Done (fold (\<lambda>call. contract_exec (caller a, call)) (List.map_filter sent_call calls) c, ps(a := p))))"

fun take_turns ::
  "(MpcContract \<Rightarrow> AccountId \<Rightarrow> 's iteration_env) \<Rightarrow> AccountId list \<Rightarrow> MpcContract \<times> (AccountId \<Rightarrow> 's process) \<Rightarrow>
     (MpcContract \<times> (AccountId \<Rightarrow> 's process)) exec" where
  "take_turns E [] w = Done w"
| "take_turns E (a # as) w = exec_bind (take_turn E a w) (take_turns E as)"

definition connected :: "near_lib \<Rightarrow> (MpcContract \<Rightarrow> AccountId \<Rightarrow> 's iteration_env) \<Rightarrow> bool" where
  "connected L E \<longleftrightarrow> (\<forall>c a. it_view (E c a) = Inr (protocol_state c) \<and> \<not> it_disconnected (E c a) \<and>
     cx_lib (it_ctx (E c a)) = L \<and> cx_account_id (it_ctx (E c a)) = a \<and>
     env_account_id (it_step (E c a)) = a \<and> cx_tx (it_ctx (E c a)) = tx_answer a c)"

text \<open>The encodings of a point: what a node votes for, and what it reads back.\<close>

definition key_reads_back :: "near_lib \<Rightarrow> AffinePoint \<Rightarrow> bytes \<Rightarrow> bool" where
  "key_reads_back L pk k \<longleftrightarrow> into_near_public_key L pk = Done (SECP256K1 k) \<and>
     secp256k1_try_from L k = Some k \<and> near_sdk_into_affine_point L (1 # k) = Done pk"

lemma take_turns_append: "take_turns E (as @ bs) w = exec_bind (take_turns E as w) (take_turns E bs)"
proof (induction as arbitrary: w)
  case (Cons a as)
  then show ?case by (cases "take_turn E a w") auto
qed simp

section \<open>Rounds of votes\<close>

text \<open>
  Key generation and resharing end in the same way: nodes that wait vote in their turns, the
  contract goes on when it has votes as many as its threshold, and then the nodes that wait
  run. The locale states what a single turn does in either situation \<open>x\<close>: who votes,
  what the contract is while the accounts in \<open>V\<close> have voted, what it is in the end, and who
  runs with what. Its lemmas are about whole rounds of turns.
\<close>

locale vote_round =
  fixes turns :: "'x \<Rightarrow> MpcContract \<Rightarrow> AccountId \<Rightarrow> 's iteration_env"
    and ok :: "'x \<Rightarrow> bool" and electors :: "'x \<Rightarrow> AccountId set" and members :: "'x \<Rightarrow> AccountId set"
    and needed :: "'x \<Rightarrow> nat"
    and voting :: "'x \<Rightarrow> AccountId set \<Rightarrow> ProtocolContractState" and final :: "'x \<Rightarrow> ProtocolContractState"
    and awaits :: "'x \<Rightarrow> 's process \<Rightarrow> bool" and runs :: "'x \<Rightarrow> RunningState \<Rightarrow> bool"
  assumes elector_votes: "ok x \<Longrightarrow> protocol_state c = voting x V \<Longrightarrow> finite V \<Longrightarrow> V \<subseteq> electors x \<Longrightarrow>
      a \<in> electors x \<Longrightarrow> a \<notin> V \<Longrightarrow> awaits x (ps a) \<Longrightarrow>
      \<exists>c' p. take_turn (turns x) a (c, ps) = Done (c', ps(a := p)) \<and> awaits x p \<and>
        protocol_state c' = (if needed x \<le> card (insert a V) then final x else voting x (insert a V))"
    and member_runs: "ok x \<Longrightarrow> protocol_state c = final x \<Longrightarrow> a \<in> members x \<Longrightarrow> awaits x (ps a) \<Longrightarrow>
      \<exists>p s. take_turn (turns x) a (c, ps) = Done (c, ps(a := p)) \<and> p_state p = NSRunning s \<and> runs x s"
begin

lemma votes_pass:
  assumes "ok x" and "finite V" and "distinct as" and "set as \<subseteq> electors x" and "set as \<inter> V = {}" and "V \<subseteq> electors x"
    and "card V < needed x" and "card V + length as \<le> needed x"
    and "\<And>a. a \<in> A \<Longrightarrow> awaits x (ps a)" and "set as \<subseteq> A" and "protocol_state c = voting x V"
  shows "\<exists>c' ps'. take_turns (turns x) as (c, ps) = Done (c', ps') \<and> (\<forall>a \<in> A. awaits x (ps' a)) \<and>
    protocol_state c' = (if needed x \<le> card V + length as then final x else voting x (V \<union> set as))"
  using assms(2-)
proof (induction as arbitrary: c ps V)
  case (Cons a as)
  have a: "a \<in> electors x" "a \<notin> V" "a \<in> A" using Cons.prems by auto
  from elector_votes [where ps = ps, OF assms(1) Cons.prems(10,1,5) a(1,2) Cons.prems(8) [OF a(3)]]
  obtain c1 p where turn: "take_turn (turns x) a (c, ps) = Done (c1, ps(a := p))" "awaits x p"
    "protocol_state c1 = (if needed x \<le> card (insert a V) then final x else voting x (insert a V))" by blast
  have card: "card (insert a V) = Suc (card V)" using a(2) Cons.prems(1) by simp
  show ?case
  proof (cases "needed x \<le> Suc (card V)")
    case True
    with Cons.prems(7) have "length as \<le> 0" unfolding list.size(4) by linarith
    then have "as = []" by simp
    with turn Cons.prems(8) True card show ?thesis by auto
  next
    case False
    have "\<exists>c' ps'. take_turns (turns x) as (c1, ps(a := p)) = Done (c', ps') \<and> (\<forall>a \<in> A. awaits x (ps' a)) \<and>
        protocol_state c' = (if needed x \<le> card (insert a V) + length as then final x
                             else voting x (insert a V \<union> set as))"
      using Cons.prems False a card turn(2,3) by (intro Cons.IH) auto
    with turn(1) card show ?thesis by auto
  qed
qed auto

lemma runs_pass:
  assumes "ok x" and "protocol_state c = final x" and "distinct as" and "set as \<subseteq> members x"
    and "\<And>a. a \<in> set as \<Longrightarrow> awaits x (ps a)"
  shows "\<exists>ps'. take_turns (turns x) as (c, ps) = Done (c, ps') \<and> (\<forall>a. a \<notin> set as \<longrightarrow> ps' a = ps a) \<and>
    (\<forall>a \<in> set as. \<exists>s. p_state (ps' a) = NSRunning s \<and> runs x s)"
  using assms(3-)
proof (induction as arbitrary: ps)
  case (Cons a as)
  have a: "a \<in> members x" "awaits x (ps a)" using Cons.prems by auto
  from member_runs [where ps = ps, OF assms(1,2) a] obtain p s where turn: "take_turn (turns x) a (c, ps) = Done (c, ps(a := p))"
    "p_state p = NSRunning s" "runs x s" by blast
  have "\<exists>ps'. take_turns (turns x) as (c, ps(a := p)) = Done (c, ps') \<and>
      (\<forall>b. b \<notin> set as \<longrightarrow> ps' b = (ps(a := p)) b) \<and> (\<forall>b \<in> set as. \<exists>s. p_state (ps' b) = NSRunning s \<and> runs x s)"
    using Cons.prems by (intro Cons.IH) auto
  then obtain ps' where ps': "take_turns (turns x) as (c, ps(a := p)) = Done (c, ps')"
    "\<forall>b. b \<notin> set as \<longrightarrow> ps' b = (ps(a := p)) b" "\<forall>b \<in> set as. \<exists>s. p_state (ps' b) = NSRunning s \<and> runs x s" by blast
  moreover have "ps' a = p" using ps'(2) Cons.prems(1) by simp
  ultimately show ?case using turn by auto
qed simp

lemma converges:
  assumes "ok x" and "distinct as" and "length as = needed x" and "as \<noteq> []" and "set as \<subseteq> electors x"
    and "distinct bs" and "set as \<subseteq> set bs" and "set bs \<subseteq> members x"
    and "\<And>a. a \<in> set bs \<Longrightarrow> awaits x (ps a)" and "protocol_state c = voting x {}"
  shows "\<exists>c' ps'. take_turns (turns x) (as @ bs) (c, ps) = Done (c', ps') \<and> protocol_state c' = final x \<and>
    (\<forall>a \<in> set bs. \<exists>s. p_state (ps' a) = NSRunning s \<and> runs x s)"
proof -
  have "0 < needed x" using assms(3,4) by (cases as) auto
  then obtain c1 ps1 where 1: "take_turns (turns x) as (c, ps) = Done (c1, ps1)" "\<forall>a \<in> set bs. awaits x (ps1 a)"
    "protocol_state c1 = final x"
    using votes_pass [OF assms(1), of "{}" as "set bs" ps c] assms by auto
  from runs_pass [OF assms(1) 1(3) assms(6,8), of ps1] 1 show ?thesis
    by (auto simp: take_turns_append)
qed

end

section \<open>Participants that can be read\<close>

definition readable :: "near_lib \<Rightarrow> Participants \<Rightarrow> bool" where
  "readable L ps \<longleftrightarrow> participants_ok ps \<and> lib_accepts L ps \<and> length ps \<le> 2 ^ 32"

lemma readableD:
  assumes "readable L ps"
  shows "NParticipants_from_contract L ps = Done (node_participants L ps)"
    and "a \<in> fst ` set ps \<Longrightarrow> account_id_from_str L a = Some a"
proof -
  show "NParticipants_from_contract L ps = Done (node_participants L ps)"
    using assms NParticipants_from_contract_Done by (simp add: readable_def)
  show "account_id_from_str L a = Some a" if "a \<in> fst ` set ps"
    using assms that by (fastforce simp: readable_def lib_accepts_def participants_ok_def)
qed

lemma readable_accounts:
  "readable L ps \<Longrightarrow> V \<subseteq> fst ` set ps \<Longrightarrow> accounts_from_contract L V = Done V"
  by (force simp: accounts_from_contract_def dest: readableD(2))

lemma find_participant_info_Some:
  "find_participant ps a = Some me \<Longrightarrow> \<exists>i. find_participant_info ps a = Some i"
  by (cases "find_participant_info ps a")
    (auto simp: find_participant_def find_participant_info_def find_None_iff find_Some_iff case_prod_beta)

lemma participant_is_found:
  assumes "readable L ps" and "a \<in> fst ` set ps"
  obtains me i where "find_participant (node_participants L ps) a = Some me"
    and "find_participant_info (node_participants L ps) a = Some i"
proof -
  from assms(2) have "position ps a \<noteq> None" by (simp add: position_None)
  with find_participant_position [of ps L a] assms(1)
  obtain me where "find_participant (node_participants L ps) a = Some me" by (auto simp: readable_def)
  with find_participant_info_Some that show thesis by blast
qed

section \<open>Turns of nodes that wait\<close>

text \<open>A node that has its share and waits for the contract, with no messages around.\<close>

definition awaits_epoch :: "u64 \<Rightarrow> NParticipants \<Rightarrow> nat \<Rightarrow> AffinePoint \<Rightarrow> 's process \<Rightarrow> bool" where
  "awaits_epoch n nps t pk p \<longleftrightarrow>
     (\<exists>s. p_state p = NSWaitingForConsensus s \<and> ws_epoch s = n \<and> ws_threshold s = t \<and> ws_public_key s = pk \<and>
        ws_participants s = nps) \<and>
     p_queue p = MpcMessageQueue_default \<and> p_channel p = []"

definition runs_epoch :: "u64 \<Rightarrow> NParticipants \<Rightarrow> nat \<Rightarrow> AffinePoint \<Rightarrow> RunningState \<Rightarrow> bool" where
  "runs_epoch n nps t pk s \<longleftrightarrow>
     rs_epoch s = n \<and> rs_participants s = nps \<and> rs_threshold s = t \<and> rs_public_key s = pk"

lemmas turn_simps = node_iteration_def protocol_round_def drain_def stores_def ctx_of_def step_env_of_def
  WaitingForConsensusState_progress_def get_my_participant_def quietly_def Let_def

text \<open>What a turn of such a node comes down to: the step that follows the contract.\<close>

lemma waiting_turn:
  assumes "readable L ps" and "connected L E" and "awaits_epoch n (node_participants L ps) t pk p" and "a \<in> fst ` set ps"
    and "fetch_mpc_contract_state L (Inr (protocol_state c)) = Done (Inr contract)"
  obtains s eff where "ws_epoch s = n" and "ws_threshold s = t" and "ws_public_key s = pk"
    and "ws_participants s = node_participants L ps"
    and "node_iteration (E c a) p =
      exec_bind (WaitingForConsensusState_advance (ctx_of (E c a) (p_storage p)) s contract) (\<lambda>(calls, r1).
        case r1 of
          Inl _ \<Rightarrow> Done (p\<lparr>p_state := NSWaitingForConsensus s\<rparr>, eff, calls, Continues)
        | Inr st2 \<Rightarrow>
            exec_bind (NodeState_handle (env_run (it_step (E c a))) st2 MpcMessageQueue_default) (\<lambda>(st3, q, r2).
            Done (p\<lparr>p_queue := q, p_state := (case r2 of Inl _ \<Rightarrow> shared_with (NSWaitingForConsensus s) st3 | Inr _ \<Rightarrow> st3)\<rparr>,
              eff, calls, Continues)))"
proof -
  from assms(3) obtain s where s: "p_state p = NSWaitingForConsensus s" "ws_epoch s = n" "ws_threshold s = t"
    "ws_public_key s = pk" "ws_participants s = node_participants L ps"
    "p_queue p = MpcMessageQueue_default" "p_channel p = []" by (auto simp: awaits_epoch_def)
  obtain me i where me: "find_participant_info (node_participants L ps) a = Some i"
    by (rule participant_is_found [OF assms(1,4)])
  obtain rest sent err where send: "MessageQueue_send (env_net_pre (it_step (E c a))) 0 (ws_messages s) = (rest, sent, err)"
    by (cases "MessageQueue_send (env_net_pre (it_step (E c a))) 0 (ws_messages s)") auto
  have "p\<lparr>p_queue := MpcMessageQueue_default, p_channel := []\<rparr> = p" using s(6,7) by (cases p) simp
  then have "node_iteration (E c a) p =
      exec_bind (WaitingForConsensusState_advance (ctx_of (E c a) (p_storage p)) (s\<lparr>ws_messages := rest\<rparr>) contract) (\<lambda>(calls, r1).
        case r1 of
          Inl _ \<Rightarrow> Done (p\<lparr>p_state := NSWaitingForConsensus (s\<lparr>ws_messages := rest\<rparr>)\<rparr>, no_effects\<lparr>eff_sent := sent\<rparr>, calls, Continues)
        | Inr st2 \<Rightarrow>
            exec_bind (NodeState_handle (env_run (it_step (E c a))) st2 MpcMessageQueue_default) (\<lambda>(st3, q, r2).
            Done (p\<lparr>p_queue := q, p_state := (case r2 of Inl _ \<Rightarrow> shared_with (NSWaitingForConsensus (s\<lparr>ws_messages := rest\<rparr>)) st3
              | Inr _ \<Rightarrow> st3)\<rparr>, no_effects\<lparr>eff_sent := sent\<rparr>, calls, Continues)))"
    using assms(2,5) s me send
    by (cases p) (auto simp: connected_def turn_simps no_effects_def exec_bind_def split: exec.split sum.split prod.split)
  with that [of "s\<lparr>ws_messages := rest\<rparr>"] s show thesis by simp
qed

lemma turn_runs:
  assumes "readable L ps" and "connected L E" and "awaits_epoch n (node_participants L ps) t pk p"
    and "a \<in> fst ` set ps" and "protocol_state c = next_running n ps t key" and "near_sdk_into_affine_point L key = Done pk"
  shows "\<exists>p' eff flow s. node_iteration (E c a) p = Done (p', eff, [], flow) \<and> p_state p' = NSRunning s \<and>
    runs_epoch n (node_participants L ps) t pk s"
proof -
  have fetch: "fetch_mpc_contract_state L (Inr (protocol_state c)) = Done (Inr (PSRunning
    \<lparr>nrc_epoch = n, nrc_participants = node_participants L ps, nrc_threshold = t,
     nrc_public_key = pk, nrc_candidates = [], nrc_join_votes = [], nrc_leave_votes = []\<rparr>))"
    using readableD(1) [OF assms(1)] assms(5,6)
    by (simp add: fetch_mpc_contract_state_def next_running_def NRunning_from_def NCandidates_from_contract_def
        NVotes_from_contract_def bt_collect_def)
  obtain me i where me: "find_participant (node_participants L ps) a = Some me"
    by (rule participant_is_found [OF assms(1,4)])
  have acc: "cx_account_id (ctx_of (E c a) S) = a" for S using assms(2) by (simp add: connected_def ctx_of_def)
  from waiting_turn [OF assms(1-4) fetch] show ?thesis
    by (rule) (auto simp: WaitingForConsensusState_advance_def acc me quietly_def runs_epoch_def
        RunningState_handle_def MpcMessageQueue_default_def case_unit_Unity Let_def)
qed

lemma turn_votes:
  assumes "readable L ps" and "connected L E" and "awaits_epoch n (node_participants L ps) t pk p"
    and "a \<in> fst ` set ps" and "fetch_mpc_contract_state L (Inr (protocol_state c)) = Done (Inr contract)"
    and "\<And>s S. ws_epoch s = n \<Longrightarrow> ws_public_key s = pk \<Longrightarrow>
      WaitingForConsensusState_advance (ctx_of (E c a) S) s contract = Done ([vote], Inr (NSWaitingForConsensus s))"
  shows "\<exists>p' eff flow. node_iteration (E c a) p = Done (p', eff, [vote], flow) \<and>
    awaits_epoch n (node_participants L ps) t pk p'"
  using waiting_turn [OF assms(1-5)]
  by (rule) (use assms(3,6) in \<open>auto simp: awaits_epoch_def\<close>)

section \<open>Key generation\<close>

definition keygen_setting :: "near_lib \<Rightarrow> Candidates \<Rightarrow> AffinePoint \<Rightarrow> bytes \<Rightarrow> bool" where
  "keygen_setting L cs pk k \<longleftrightarrow> candidates_ok cs \<and> readable L (Participants_from cs) \<and> key_reads_back L pk k"

text \<open>The contract when the accounts in \<open>V\<close> have voted for the key \<open>pk\<close>.\<close>

definition voting :: "Candidates \<Rightarrow> nat \<Rightarrow> bytes \<Rightarrow> AccountId set \<Rightarrow> ProtocolContractState" where
  "voting cs t pk V = Initializing \<lparr>ics_candidates = cs, ics_threshold = t,
     ics_pk_votes = (if V = {} then [] else [(pk, V)])\<rparr>"

lemma vote_pk_counts:
  assumes "protocol_state c = voting cs t pk V" and "a \<in> fst ` set cs"
  shows "contract_vote_pk (caller a) pk c =
    (if t \<le> card (insert a V)
     then Inr (c\<lparr>protocol_state := next_running 0 (Participants_from cs) t pk\<rparr>, True)
     else Inr (c\<lparr>protocol_state := voting cs t pk (insert a V)\<rparr>, False))"
  using assms
  by (auto simp: contract_vote_pk_def voting_def caller_def Candidates_contains_key_def bt_contains_iff
      PkVotes_entry_def next_running_def Candidates_new_def Votes_new_def Let_def)

lemma keygen_settingD:
  assumes "keygen_setting L cs pk k"
  shows "readable L (Participants_from cs)" and "fst ` set (Participants_from cs) = fst ` set cs"
    and "\<exists>ncs. NCandidates_from_contract L cs = Done ncs"
    and "near_sdk_into_affine_point L (1 # k) = Done pk"
proof -
  have ok: "candidates_ok cs" and r: "readable L (Participants_from cs)"
    using assms by (simp_all add: keygen_setting_def)
  show "readable L (Participants_from cs)" by (rule r)
  show keys: "fst ` set (Participants_from cs) = fst ` set cs" by (rule Participants_from_ok(2) [OF ok])
  have "\<forall>e \<in> set cs. parses_to_itself L (fst e)"
    using readableD(2) [OF r] keys by (auto simp: parses_to_itself_def)
  from participants_commute [OF ok this] readableD(1) [OF r] show "\<exists>ncs. NCandidates_from_contract L cs = Done ncs"
    by (cases "NCandidates_from_contract L cs") auto
  show "near_sdk_into_affine_point L (1 # k) = Done pk"
    using assms by (simp add: keygen_setting_def key_reads_back_def)
qed

lemma fetch_voting:
  assumes "keygen_setting L cs pk k" and "V \<subseteq> fst ` set cs"
  shows "\<exists>ncs. fetch_mpc_contract_state L (Inr (voting cs t (1 # k) V)) = Done (Inr (PSInitializing
    \<lparr>nic_candidates = ncs, nic_threshold = t, nic_pk_votes = (if V = {} then [] else [(k, V)])\<rparr>))"
proof -
  note D = keygen_settingD [OF assms(1)]
  from D(3) obtain ncs where ncs: "NCandidates_from_contract L cs = Done ncs" by blast
  have "accounts_from_contract L V = Done V" using readable_accounts [OF D(1)] assms(2) D(2) by simp
  moreover have "secp256k1_try_from L k = Some k"
    using assms(1) by (simp add: keygen_setting_def key_reads_back_def)
  ultimately show ?thesis
    using ncs by (simp add: fetch_mpc_contract_state_def voting_def NInitializing_from_def
        NPkVotes_from_contract_def pk_vote_entry_def bt_collect_def)
qed

lemma candidate_votes:
  assumes "keygen_setting L cs pk k" and "connected L E"
    and "awaits_epoch 0 (node_participants L (Participants_from cs)) t pk p"
    and "protocol_state c = voting cs t (1 # k) V" and "V \<subseteq> fst ` set cs" and "a \<in> fst ` set cs" and "a \<notin> V"
  shows "\<exists>p' eff flow. node_iteration (E c a) p = Done (p', eff, [OVotePk (SECP256K1 k)], flow) \<and>
    awaits_epoch 0 (node_participants L (Participants_from cs)) t pk p'"
proof -
  note D = keygen_settingD [OF assms(1)]
  from fetch_voting [OF assms(1,5)] obtain ncs where fetch: "fetch_mpc_contract_state L (Inr (protocol_state c)) =
    Done (Inr (PSInitializing \<lparr>nic_candidates = ncs, nic_threshold = t,
      nic_pk_votes = (if V = {} then [] else [(k, V)])\<rparr>))" using assms(4) by metis
  have key: "into_near_public_key L pk = Done (SECP256K1 k)"
    using assms(1) by (simp add: keygen_setting_def key_reads_back_def)
  have vote: "\<exists>b. vote_outcome (tx_answer a c (OVotePk (SECP256K1 k))) = Inr b"
    using vote_pk_counts [OF assms(4,6)] by (auto simp: vote_answer_def vote_outcome_def)
  show ?thesis
    by (rule turn_votes [OF D(1) assms(2,3) _ fetch])
      (use assms(2,6,7) D(2) key vote in \<open>auto simp: connected_def ctx_of_def WaitingForConsensusState_advance_def
         vote_for_public_key_def unwrap_res_def NPkVotes_get_def quietly_def\<close>)
qed

interpretation keygen: vote_round
  "\<lambda>(L, E, cs, t, pk, k). E" "\<lambda>(L, E, cs, t, pk, k). keygen_setting L cs pk k \<and> connected L E"
  "\<lambda>(L, E, cs, t, pk, k). fst ` set cs" "\<lambda>(L, E, cs, t, pk, k). fst ` set cs" "\<lambda>(L, E, cs, t, pk, k). t"
  "\<lambda>(L, E, cs, t, pk, k). voting cs t (1 # k)" "\<lambda>(L, E, cs, t, pk, k). next_running 0 (Participants_from cs) t (1 # k)"
  "\<lambda>(L, E, cs, t, pk, k). awaits_epoch 0 (node_participants L (Participants_from cs)) t pk"
  "\<lambda>(L, E, cs, t, pk, k). runs_epoch 0 (node_participants L (Participants_from cs)) t pk"
proof (unfold_locales, goal_cases)
  case (1 x c V a ps)
  obtain L E cs t pk k where x: "x = (L, E, cs, t, pk, k)" by (cases x)
  from 1 candidate_votes [of L cs pk k E t "ps a" c V a] obtain p eff flow
    where it: "node_iteration (E c a) (ps a) = Done (p, eff, [OVotePk (SECP256K1 k)], flow)"
      "awaits_epoch 0 (node_participants L (Participants_from cs)) t pk p"
    by (auto simp: x)
  from 1 vote_pk_counts [of c cs t "1 # k" V a] it show ?case
    by (auto simp: x take_turn_def List.map_filter_def contract_exec_def)
next
  case (2 x c a ps)
  obtain L E cs t pk k where x: "x = (L, E, cs, t, pk, k)" by (cases x)
  from 2 keygen_settingD [of L cs pk k] obtain p eff flow s
    where "node_iteration (E c a) (ps a) = Done (p, eff, [], flow)" "p_state p = NSRunning s"
      "runs_epoch 0 (node_participants L (Participants_from cs)) t pk s"
    using turn_runs [of L "Participants_from cs" E 0 t pk "ps a" a c "1 # k"] by (auto simp: x)
  then show ?case by (auto simp: x take_turn_def List.map_filter_def)
qed

section \<open>Resharing\<close>

definition reshare_setting :: "near_lib \<Rightarrow> ResharingContractState \<Rightarrow> AffinePoint \<Rightarrow> bool" where
  "reshare_setting L s pk \<longleftrightarrow> readable L (scs_old_participants s) \<and> readable L (scs_new_participants s) \<and>
     near_sdk_into_affine_point L (scs_public_key s) = Done pk"

definition reshare_voting :: "ResharingContractState \<Rightarrow> AccountId set \<Rightarrow> ProtocolContractState" where
  "reshare_voting s V = Resharing (s\<lparr>scs_finished_votes := V\<rparr>)"

lemma vote_reshared_counts:
  assumes "protocol_state c = reshare_voting s V" and "a \<in> fst ` set (scs_old_participants s)"
  shows "contract_vote_reshared (caller a) (scs_old_epoch s + 1) c =
    (if scs_threshold s \<le> card (insert a V)
     then Inr (c\<lparr>protocol_state := reshare_result s\<rparr>, True)
     else Inr (c\<lparr>protocol_state := reshare_voting s (insert a V)\<rparr>, False))"
  using assms
  by (auto simp: contract_vote_reshared_def reshare_voting_def caller_def Participants_contains_key_def bt_contains_iff
      reshare_result_def next_running_def Candidates_new_def Votes_new_def Let_def)

lemma fetch_reshare_voting:
  assumes "reshare_setting L s pk" and "V \<subseteq> fst ` set (scs_old_participants s)"
  shows "fetch_mpc_contract_state L (Inr (reshare_voting s V)) = Done (Inr (PSResharing
    \<lparr>nsc_old_epoch = scs_old_epoch s, nsc_old_participants = node_participants L (scs_old_participants s),
     nsc_new_participants = node_participants L (scs_new_participants s), nsc_threshold = scs_threshold s,
     nsc_public_key = pk, nsc_finished_votes = V\<rparr>))"
  using assms readableD(1) readable_accounts [OF _ assms(2)]
  by (simp add: reshare_setting_def fetch_mpc_contract_state_def reshare_voting_def NResharing_from_def)

lemma participant_votes:
  assumes "reshare_setting L s pk" and "connected L E"
    and "awaits_epoch (scs_old_epoch s + 1) (node_participants L (scs_new_participants s)) (scs_threshold s) pk p"
    and "protocol_state c = reshare_voting s V" and "V \<subseteq> fst ` set (scs_old_participants s)"
    and "a \<in> fst ` set (scs_old_participants s)" and "a \<in> fst ` set (scs_new_participants s)" and "a \<notin> V"
  shows "\<exists>p' eff flow. node_iteration (E c a) p = Done (p', eff, [OVoteReshared (scs_old_epoch s + 1)], flow) \<and>
    awaits_epoch (scs_old_epoch s + 1) (node_participants L (scs_new_participants s)) (scs_threshold s) pk p'"
proof -
  have new: "readable L (scs_new_participants s)" and old: "readable L (scs_old_participants s)"
    using assms(1) by (simp_all add: reshare_setting_def)
  note fetch = fetch_reshare_voting [OF assms(1,5), folded assms(4)]
  obtain me i where me: "find_participant (node_participants L (scs_old_participants s)) a = Some me"
    by (rule participant_is_found [OF old assms(6)])
  have vote: "\<exists>b. vote_outcome (tx_answer a c (OVoteReshared (scs_old_epoch s + 1))) = Inr b"
    using vote_reshared_counts [OF assms(4,6)] by (auto simp: vote_answer_def vote_outcome_def)
  show ?thesis
    by (rule turn_votes [OF new assms(2,3,7) fetch])
      (use assms(2,8) me vote in \<open>auto simp: connected_def ctx_of_def WaitingForConsensusState_advance_def
         vote_reshared_def unwrap_res_def quietly_def\<close>)
qed

interpretation resharing: vote_round
  "\<lambda>(L, E, s, pk). E" "\<lambda>(L, E, s, pk). reshare_setting L s pk \<and> connected L E"
  "\<lambda>(L, E, s, pk). fst ` set (scs_old_participants s) \<inter> fst ` set (scs_new_participants s)"
  "\<lambda>(L, E, s, pk). fst ` set (scs_new_participants s)" "\<lambda>(L, E, s, pk). scs_threshold s"
  "\<lambda>(L, E, s, pk). reshare_voting s" "\<lambda>(L, E, s, pk). reshare_result s"
  "\<lambda>(L, E, s, pk). awaits_epoch (scs_old_epoch s + 1) (node_participants L (scs_new_participants s)) (scs_threshold s) pk"
  "\<lambda>(L, E, s, pk). runs_epoch (scs_old_epoch s + 1) (node_participants L (scs_new_participants s)) (scs_threshold s) pk"
proof (unfold_locales, goal_cases)
  case (1 x c V a ps)
  obtain L E s pk where x: "x = (L, E, s, pk)" by (cases x)
  from 1 participant_votes [of L s pk E "ps a" c V a] obtain p eff flow
    where it: "node_iteration (E c a) (ps a) = Done (p, eff, [OVoteReshared (scs_old_epoch s + 1)], flow)"
      "awaits_epoch (scs_old_epoch s + 1) (node_participants L (scs_new_participants s)) (scs_threshold s) pk p"
    by (auto simp: x)
  from 1 vote_reshared_counts [of c s V a] it show ?case
    by (auto simp: x take_turn_def List.map_filter_def contract_exec_def)
next
  case (2 x c a ps)
  obtain L E s pk where x: "x = (L, E, s, pk)" by (cases x)
  from 2 turn_runs [of L "scs_new_participants s" E "scs_old_epoch s + 1" "scs_threshold s" pk "ps a" a c "scs_public_key s"]
  show ?case by (fastforce simp: x take_turn_def List.map_filter_def reshare_setting_def reshare_result_def)
qed

section \<open>Properties\<close>

text \<open>
  C7: Key generation comes to an end. When candidates as many as the threshold have the same
  public key and wait, a turn of each of them, in any order, makes the contract run with that
  key, and after one more turn each candidate that waits is running in epoch 0 with this key,
  the contract's participants and its threshold. In each turn the node reads the contract as
  it is, and its vote reaches the contract. Assumed: the encodings of the key and of the
  candidates' data can be read back.
\<close>

theorem keygen_converges:
  assumes "keygen_setting L cs pk k" and "connected L E" and "distinct as" and "length as = t" and "as \<noteq> []"
    and "distinct bs" and "set as \<subseteq> set bs" and "set bs \<subseteq> fst ` set cs"
    and "\<And>a. a \<in> set bs \<Longrightarrow> awaits_epoch 0 (node_participants L (Participants_from cs)) t pk (ps a)"
  shows "\<exists>c ps'. take_turns E (as @ bs) (contract_init t cs st, ps) = Done (c, ps') \<and>
    protocol_state c = next_running 0 (Participants_from cs) t (1 # k) \<and>
    (\<forall>a \<in> set bs. \<exists>s. p_state (ps' a) = NSRunning s \<and> runs_epoch 0 (node_participants L (Participants_from cs)) t pk s)"
proof -
  have "protocol_state (contract_init t cs st) = voting cs t (1 # k) {}"
    by (simp add: contract_init_def voting_def PkVotes_new_def)
  moreover have "set as \<subseteq> fst ` set cs" using assms(7,8) by (rule subset_trans)
  ultimately show ?thesis
    using keygen.converges [of "(L, E, cs, t, pk, k)" as bs ps "contract_init t cs st"] assms by simp
qed

definition ex_turn :: "MpcContract \<Rightarrow> AccountId \<Rightarrow> (bytes list) iteration_env" where
  "ex_turn c a = ex_iteration\<lparr>it_view := Inr (protocol_state c), it_step := ex_step_env\<lparr>env_account_id := a\<rparr>,
     it_ctx := ex_ctx\<lparr>cx_account_id := a, cx_tx := tx_answer a c\<rparr>\<rparr>"

definition ex_waiting_process :: "u64 \<Rightarrow> Participants \<Rightarrow> (bytes list) process" where
  "ex_waiting_process n ps = (MpcSignProtocol_init (MemoryNodeStorage None, []))\<lparr>p_state := NSWaitingForConsensus
     \<lparr>ws_epoch = n, ws_participants = node_participants ex_lib ps, ws_threshold = 2,
      ws_private_share = 5, ws_public_key = 4 # replicate 64 7, ws_messages = []\<rparr>\<rparr>"

lemma ex_keygen_setting: "keygen_setting ex_lib ex_candidates (4 # replicate 64 7) (replicate 64 7)"
proof -
  have "readable ex_lib (Participants_from ex_candidates)"
    by (simp add: readable_def ex_three_ok ex_three_accepts ex_lengths)
  then show ?thesis
    by (simp add: keygen_setting_def ex_candidates_ok key_reads_back_def into_near_public_key_def encoded_coordinates_def
        near_sdk_into_affine_point_def Let_def)
      (simp add: ex_lib_def)
qed

lemma ex_waiting_awaits:
  "awaits_epoch n (node_participants ex_lib ps) 2 (4 # replicate 64 7) (ex_waiting_process n ps)"
  by (simp add: awaits_epoch_def ex_waiting_process_def MpcSignProtocol_init_def)

lemma ex_connected: "connected ex_lib ex_turn"
  by (simp add: connected_def ex_turn_def ex_iteration_def ex_ctx_def ex_step_env_def)

theorem keygen_converges_witness:
  "\<exists>c ps'. take_turns ex_turn ([''b'', ''a''] @ [''a'', ''b'', ''c''])
      (contract_init 2 ex_candidates Map.empty, \<lambda>_. ex_waiting_process 0 (Participants_from ex_candidates)) = Done (c, ps') \<and>
    protocol_state c = next_running 0 (Participants_from ex_candidates) 2 (1 # replicate 64 7) \<and>
    (\<exists>s. p_state (ps' ''c'') = NSRunning s \<and> rs_public_key s = 4 # replicate 64 7)"
proof -
  have "\<exists>c ps'. take_turns ex_turn ([''b'', ''a''] @ [''a'', ''b'', ''c''])
      (contract_init 2 ex_candidates Map.empty, \<lambda>_. ex_waiting_process 0 (Participants_from ex_candidates)) = Done (c, ps') \<and>
    protocol_state c = next_running 0 (Participants_from ex_candidates) 2 (1 # replicate 64 7) \<and>
    (\<forall>a \<in> set [''a'', ''b'', ''c'']. \<exists>s. p_state (ps' a) = NSRunning s \<and>
      runs_epoch 0 (node_participants ex_lib (Participants_from ex_candidates)) 2 (4 # replicate 64 7) s)"
    by (rule keygen_converges [OF ex_keygen_setting ex_connected]) (simp_all add: ex_waiting_awaits ex_candidates_def)
  then show ?thesis unfolding runs_epoch_def by (elim exE conjE)
      (rule exI, rule exI, intro conjI, assumption, assumption, erule ballE [where x = "''c''"], blast, simp)
qed

text \<open>
  C8: A resharing comes to an end. When participants as many as the threshold, which belong to
  the old and to the new set, have their new shares and wait, a turn of each of them makes the
  contract run with the new set in the next epoch, under the same key, and after one more turn
  each new participant that waits, newcomers included, is running there.
\<close>

theorem resharing_converges:
  assumes "reshare_setting L s pk" and "connected L E" and "protocol_state c = Resharing s" and "scs_finished_votes s = {}"
    and "distinct as" and "length as = scs_threshold s" and "as \<noteq> []"
    and "set as \<subseteq> fst ` set (scs_old_participants s)"
    and "distinct bs" and "set as \<subseteq> set bs" and "set bs \<subseteq> fst ` set (scs_new_participants s)"
    and "\<And>a. a \<in> set bs \<Longrightarrow>
      awaits_epoch (scs_old_epoch s + 1) (node_participants L (scs_new_participants s)) (scs_threshold s) pk (ps a)"
  shows "\<exists>c' ps'. take_turns E (as @ bs) (c, ps) = Done (c', ps') \<and> protocol_state c' = reshare_result s \<and>
    (\<forall>a \<in> set bs. \<exists>r. p_state (ps' a) = NSRunning r \<and>
       runs_epoch (scs_old_epoch s + 1) (node_participants L (scs_new_participants s)) (scs_threshold s) pk r)"
proof -
  have "protocol_state c = reshare_voting s {}"
    using assms(3,4) by (cases s) (simp add: reshare_voting_def)
  moreover have "set as \<subseteq> fst ` set (scs_new_participants s)" using assms(10,11) by (rule subset_trans)
  ultimately show ?thesis
    using resharing.converges [of "(L, E, s, pk)" as bs ps c] assms by simp
qed

lemma ex_reshare_setting: "reshare_setting ex_lib ex_resharing_net (4 # replicate 64 7)"
proof -
  have "readable ex_lib (Participants_from ex_candidates)"
    "readable ex_lib (Participants_remove ''c'' (Participants_from ex_candidates))"
    using participants_ok_remove [OF ex_three_ok, folded Participants_remove_def]
    by (simp_all add: readable_def ex_three_ok ex_three_accepts ex_two_accepts ex_lengths)
  then show ?thesis
    by (simp add: reshare_setting_def ex_resharing_net_def ex_resharing_def near_sdk_into_affine_point_def)
      (simp add: ex_lib_def)
qed

theorem resharing_converges_witness:
  "\<exists>c' ps'. take_turns ex_turn ([''b'', ''a''] @ [''a'', ''b''])
      (\<lparr>protocol_state = Resharing ex_resharing_net, pending_requests = Map.empty\<rparr>,
       \<lambda>_. ex_waiting_process 1 (scs_new_participants ex_resharing_net)) = Done (c', ps') \<and>
    protocol_state c' = reshare_result ex_resharing_net \<and>
    (\<exists>r. p_state (ps' ''a'') = NSRunning r \<and> rs_epoch r = 1)"
proof -
  have s: "scs_finished_votes ex_resharing_net = {}" "scs_threshold ex_resharing_net = 2" "scs_old_epoch ex_resharing_net = 0"
    "{''a'', ''b''} \<subseteq> fst ` set (scs_old_participants ex_resharing_net)"
    "{''a'', ''b''} \<subseteq> fst ` set (scs_new_participants ex_resharing_net)"
    by (simp_all add: ex_resharing_net_def ex_resharing_def ex_candidates_def Participants_from_def
        Participants_insert_def Participants_new_def Participants_remove_def)
  have "\<exists>c' ps'. take_turns ex_turn ([''b'', ''a''] @ [''a'', ''b''])
      (\<lparr>protocol_state = Resharing ex_resharing_net, pending_requests = Map.empty\<rparr>,
       \<lambda>_. ex_waiting_process 1 (scs_new_participants ex_resharing_net)) = Done (c', ps') \<and>
    protocol_state c' = reshare_result ex_resharing_net \<and>
    (\<forall>a \<in> set [''a'', ''b'']. \<exists>r. p_state (ps' a) = NSRunning r \<and> runs_epoch (scs_old_epoch ex_resharing_net + 1)
      (node_participants ex_lib (scs_new_participants ex_resharing_net)) (scs_threshold ex_resharing_net) (4 # replicate 64 7) r)"
    by (rule resharing_converges [OF ex_reshare_setting ex_connected]) (use s ex_waiting_awaits in simp_all)
  then show ?thesis unfolding runs_epoch_def s(3) add_0 by (elim exE conjE)
      (rule exI, rule exI, intro conjI, assumption, assumption, erule ballE [where x = "''a''"], blast, simp)
qed

end
