(* ===== verification/Recovery_Base.thy ===== *)
theory Recovery_Base
  imports Prelude
begin

text \<open>
  The vocabulary of the account recovery service, \<^verbatim>\<open>mpc-recovery/src\<close>: its errors and their
  http codes (\<^verbatim>\<open>error.rs\<close>, \<^verbatim>\<open>relayer/error.rs\<close>), its requests (\<^verbatim>\<open>msg.rs\<close>), the salted digests
  that clients sign (\<^verbatim>\<open>primitives.rs\<close>, \<^verbatim>\<open>utils.rs\<close>), the list of partners
  (\<^verbatim>\<open>firewall/allowed.rs\<close>) and retried calls (\<^verbatim>\<open>nar.rs\<close>).
\<close>

section \<open>Values of other crates\<close>

type_synonym EdPoint = bytes
type_synonym BigInt = int
type_synonym dalek_signature = bytes
type_synonym StatusCode = nat
type_synonym anyhow_error = string
type_synonym InternalAccountId = string
type_synonym OidcHash = bytes

record OidcToken =
  token_data :: string

record OidcDigest =
  od_node_id :: u64
  od_digest :: OidcHash
  od_public_key :: near_public_key

text \<open>The actions of NEAR the service and its clients look at; the others are opaque.\<close>

datatype AccessKeyPermission = FunctionCallAccess bytes | FullAccess

record AccessKey =
  ak_nonce :: u64
  ak_permission :: AccessKeyPermission

datatype near_action =
    AddKey near_public_key AccessKey
  | DeleteKey near_public_key
  | DeleteAccount AccountId
  | FunctionCall string bytes u64 nat
  | OtherAction bytes

record DelegateAction =
  da_sender_id :: AccountId
  da_receiver_id :: AccountId
  da_actions :: "near_action list"
  da_nonce :: u64
  da_max_block_height :: u64
  da_public_key :: near_public_key

section \<open>Errors\<close>

text \<open>A missing commitment or reveal is reported by its debug text; the model keeps the value itself.\<close>

datatype AggregateSigningError =
    AE_InvalidCommitmentNumbers nat nat
  | AE_InvalidRevealNumbers nat nat
  | AE_CommitmentNotFound BigInt
  | AE_RevealNotFound EdPoint BigInt
  | AE_InvalidCommitment EdPoint BigInt BigInt BigInt
  | AE_NodeKeysUnavailable
  | AE_SignatureVerificationFailed anyhow_error
  | AE_DataConversionFailure anyhow_error

fun AggregateSigningError_code :: "AggregateSigningError \<Rightarrow> StatusCode" where
  "AggregateSigningError_code (AE_InvalidCommitmentNumbers _ _) = 400"
| "AggregateSigningError_code (AE_InvalidRevealNumbers _ _) = 400"
| "AggregateSigningError_code (AE_CommitmentNotFound _) = 400"
| "AggregateSigningError_code (AE_RevealNotFound _ _) = 400"
| "AggregateSigningError_code (AE_InvalidCommitment _ _ _ _) = 400"
| "AggregateSigningError_code AE_NodeKeysUnavailable = 400"
| "AggregateSigningError_code (AE_SignatureVerificationFailed _) = 400"
| "AggregateSigningError_code (AE_DataConversionFailure _) = 400"

datatype RelayerError =
    RE_UnknownAccount AccountId
  | RE_UnknownAccessKey near_public_key
  | RE_DataConversionFailure anyhow_error
  | RE_NetworkFailure anyhow_error
  | RE_RequestFailure StatusCode string
  | RE_TxExecutionFailure string
  | RE_TxNotReady
  | RE_Other anyhow_error

datatype SignNodeError =
    SE_DigestSignatureVerificationFailed anyhow_error
  | SE_OidcVerificationFailed anyhow_error
  | SE_OidcTokenAlreadyClaimed OidcDigest
  | SE_OidcTokenClaimedWithAnotherKey OidcDigest
  | SE_OidcTokenNotClaimed OidcDigest
  | SE_AggregateSigningFailed AggregateSigningError
  | SE_Other anyhow_error

fun SignNodeError_code :: "SignNodeError \<Rightarrow> StatusCode" where
  "SignNodeError_code (SE_DigestSignatureVerificationFailed _) = 401"
| "SignNodeError_code (SE_OidcVerificationFailed _) = 400"
| "SignNodeError_code (SE_OidcTokenAlreadyClaimed _) = 401"
| "SignNodeError_code (SE_OidcTokenClaimedWithAnotherKey _) = 401"
| "SignNodeError_code (SE_OidcTokenNotClaimed _) = 401"
| "SignNodeError_code (SE_AggregateSigningFailed err) = AggregateSigningError_code err"
| "SignNodeError_code (SE_Other _) = 500"

text \<open>A network error of the http client carries the status of the response, when there is one.\<close>

datatype LeaderNodeError =
    LE_ClientError string StatusCode
  | LE_ServerError string
  | LE_DataConversionFailure anyhow_error
  | LE_AggregateSigningFailed AggregateSigningError
  | LE_MalformedDelegateAction string
  | LE_SignatureVerificationFailed anyhow_error
  | LE_OidcVerificationFailed anyhow_error
  | LE_RelayerError RelayerError
  | LE_RecoveryKeyCanNotBeDeleted near_public_key
  | LE_AccountDeletionUnsupported
  | LE_FailedToRetrieveRecoveryPk LeaderNodeError
  | LE_TimeoutGatheringPublicKeys
  | LE_NetworkRejection "StatusCode option"
  | LE_Other anyhow_error

fun LeaderNodeError_code :: "LeaderNodeError \<Rightarrow> StatusCode" where
  "LeaderNodeError_code (LE_ClientError _ code) = code"
| "LeaderNodeError_code (LE_ServerError _) = 500"
| "LeaderNodeError_code (LE_DataConversionFailure _) = 400"
| "LeaderNodeError_code (LE_AggregateSigningFailed err) = AggregateSigningError_code err"
| "LeaderNodeError_code (LE_SignatureVerificationFailed _) = 400"
| "LeaderNodeError_code (LE_OidcVerificationFailed _) = 401"
| "LeaderNodeError_code (LE_MalformedDelegateAction _) = 400"
| "LeaderNodeError_code (LE_RelayerError _) = 424"
| "LeaderNodeError_code LE_TimeoutGatheringPublicKeys = 500"
| "LeaderNodeError_code (LE_RecoveryKeyCanNotBeDeleted _) = 400"
| "LeaderNodeError_code LE_AccountDeletionUnsupported = 400"
| "LeaderNodeError_code (LE_FailedToRetrieveRecoveryPk _) = 401"
| "LeaderNodeError_code (LE_NetworkRejection status) = (case status of None \<Rightarrow> 408 | Some c \<Rightarrow> c)"
| "LeaderNodeError_code (LE_Other _) = 500"

text \<open>A rejection of the json extractor carries its own status and text.\<close>

datatype MpcError =
    ME_JsonExtractorRejection StatusCode string
  | ME_SignNodeRejection SignNodeError
  | ME_LeaderNodeRejection LeaderNodeError

fun MpcError_status :: "MpcError \<Rightarrow> StatusCode" where
  "MpcError_status (ME_JsonExtractorRejection status _) = status"
| "MpcError_status (ME_LeaderNodeRejection error) = LeaderNodeError_code error"
| "MpcError_status (ME_SignNodeRejection error) = SignNodeError_code error"

definition is_server_error :: "StatusCode \<Rightarrow> bool" where
  "is_server_error code \<longleftrightarrow> 500 \<le> code \<and> code < 600"

definition is_client_error :: "StatusCode \<Rightarrow> bool" where
  "is_client_error code \<longleftrightarrow> 400 \<le> code \<and> code < 500"

text \<open>\<open>show\<close> prints an error; only errors of the client are shown to it.\<close>

definition safe_error_message :: "(MpcError \<Rightarrow> string) \<Rightarrow> MpcError \<Rightarrow> string" where
  "safe_error_message show_error e =
     (if is_server_error (MpcError_status e)
      then ''Internal Server Error: Unexpected issue occurred. The backend team was notified.''
      else (case e of ME_JsonExtractorRejection _ body_text \<Rightarrow> body_text | _ \<Rightarrow> show_error e))"

definition MpcError_into_response :: "(MpcError \<Rightarrow> string) \<Rightarrow> MpcError \<Rightarrow> StatusCode \<times> string" where
  "MpcError_into_response show_error e = (MpcError_status e, safe_error_message show_error e)"

section \<open>Requests\<close>

record ClaimOidcRequest =
  cor_oidc_token_hash :: OidcHash
  cor_frp_public_key :: near_public_key
  cor_frp_signature :: dalek_signature

record UserCredentialsRequest =
  ucr_oidc_token :: OidcToken
  ucr_frp_signature :: dalek_signature
  ucr_frp_public_key :: near_public_key

record LimitedAccessKey =
  lak_public_key :: near_public_key
  lak_allowance :: string
  lak_receiver_id :: AccountId
  lak_method_names :: string

record CreateAccountOptions =
  cao_full_access_keys :: "near_public_key list option"
  cao_limited_access_keys :: "LimitedAccessKey list option"
  cao_contract_bytes :: "bytes option"

record NewAccountRequest =
  nar_near_account_id :: AccountId
  nar_create_account_options :: CreateAccountOptions
  nar_oidc_token :: OidcToken
  nar_user_credentials_frp_signature :: dalek_signature
  nar_frp_public_key :: near_public_key

record MpcSignRequest =
  msr_delegate_action :: bytes
  msr_oidc_token :: OidcToken
  msr_frp_signature :: dalek_signature
  msr_user_credentials_frp_signature :: dalek_signature
  msr_frp_public_key :: near_public_key

record ClaimOidcNodeRequest =
  conr_oidc_token_hash :: OidcHash
  conr_public_key :: near_public_key
  conr_signature :: dalek_signature

record SignShareNodeRequest =
  ssnr_oidc_token :: OidcToken
  ssnr_delegate_action :: DelegateAction
  ssnr_frp_signature :: dalek_signature
  ssnr_frp_public_key :: near_public_key

datatype SignNodeRequest = ClaimOidc ClaimOidcNodeRequest | SignShare SignShareNodeRequest

record PublicKeyNodeRequest =
  pknr_oidc_token :: OidcToken
  pknr_frp_signature :: dalek_signature
  pknr_frp_public_key :: near_public_key

text \<open>
  The responses of the leader are a value or a message; \<open>try_into\<close> of two of them turns the
  message into an error.
\<close>

datatype 'a leader_response = ROk 'a | RErr string

fun response_try_into :: "'a leader_response \<Rightarrow> anyhow_error + 'a" where
  "response_try_into (ROk x) = Inr x"
| "response_try_into (RErr msg) = Inl (''error response: '' @ msg)"

text \<open>The hexadecimal form of signatures in requests; \<open>hex\<close> and the signature type are arguments.\<close>

record hex_lib =
  hex_encode :: "bytes \<Rightarrow> string"
  hex_decode :: "string \<Rightarrow> string + bytes"
  signature_from_bytes :: "bytes \<Rightarrow> string + dalek_signature"

definition hex_signature_serialize :: "hex_lib \<Rightarrow> dalek_signature \<Rightarrow> string" where
  "hex_signature_serialize H sig_share = hex_encode H sig_share"

definition hex_signature_deserialize :: "hex_lib \<Rightarrow> string \<Rightarrow> string + dalek_signature" where
  "hex_signature_deserialize H s =
     res_bind (hex_decode H s) (\<lambda>v.
     if length v = 64 then signature_from_bytes H v
     else Inl ''signature has incorrect length'')"

section \<open>Digests\<close>

datatype HashSalt = SaltClaimOidcRequest | SaltClaimOidcResponse | SaltUserCredentialsRequest | SaltSignRequest

fun salt_discriminant :: "HashSalt \<Rightarrow> u32" where
  "salt_discriminant SaltClaimOidcRequest = 0"
| "salt_discriminant SaltClaimOidcResponse = 1"
| "salt_discriminant SaltUserCredentialsRequest = 2"
| "salt_discriminant SaltSignRequest = 3"

definition SALT_BASE :: u32 where
  "SALT_BASE = 3177899144"

definition get_salt :: "HashSalt \<Rightarrow> u32" where
  "get_salt s = SALT_BASE + salt_discriminant s"

text \<open>Borsh, SHA-256 and the signatures of NEAR are arguments.\<close>

datatype near_signature = NSigEd25519 dalek_signature | NSigSecp256k1 bytes

record digest_lib =
  borsh_u32 :: "u32 \<Rightarrow> string + bytes"
  borsh_hash :: "OidcHash \<Rightarrow> string + bytes"
  borsh_key :: "near_public_key \<Rightarrow> string + bytes"
  borsh_signature :: "dalek_signature \<Rightarrow> string + bytes"
  borsh_action :: "DelegateAction \<Rightarrow> string + bytes"
  borsh_token :: "OidcToken \<Rightarrow> string + bytes"
  sha256_of :: "bytes \<Rightarrow> bytes"
  near_verify :: "near_signature \<Rightarrow> bytes \<Rightarrow> near_public_key \<Rightarrow> bool"
  near_sign :: "bytes \<Rightarrow> bytes \<Rightarrow> near_signature"

text \<open>A hasher that is fed one serialised part after the other, until one fails.\<close>

definition hash_parts :: "digest_lib \<Rightarrow> (string + bytes) list \<Rightarrow> anyhow_error + bytes" where
  "hash_parts B parts = res_bind (res_map id parts) (\<lambda>bs. Inr (sha256_of B (concat bs)))"

definition claim_oidc_request_digest ::
  "digest_lib \<Rightarrow> OidcHash \<Rightarrow> near_public_key \<Rightarrow> anyhow_error + bytes" where
  "claim_oidc_request_digest B oidc_token_hash frp_public_key =
     hash_parts B [borsh_u32 B (get_salt SaltClaimOidcRequest), borsh_hash B oidc_token_hash,
       borsh_key B frp_public_key]"

definition claim_oidc_response_digest :: "digest_lib \<Rightarrow> dalek_signature \<Rightarrow> anyhow_error + bytes" where
  "claim_oidc_response_digest B users_signature =
     hash_parts B [borsh_u32 B (get_salt SaltClaimOidcResponse), borsh_signature B users_signature]"

definition sign_request_digest ::
  "digest_lib \<Rightarrow> DelegateAction \<Rightarrow> OidcToken \<Rightarrow> near_public_key \<Rightarrow> anyhow_error + bytes" where
  "sign_request_digest B delegate_action oidc_token frp_public_key =
     hash_parts B [borsh_u32 B (get_salt SaltSignRequest), borsh_action B delegate_action,
       borsh_token B oidc_token, borsh_key B frp_public_key]"

definition user_credentials_request_digest ::
  "digest_lib \<Rightarrow> OidcToken \<Rightarrow> near_public_key \<Rightarrow> anyhow_error + bytes" where
  "user_credentials_request_digest B oidc_token frp_public_key =
     hash_parts B [borsh_u32 B (get_salt SaltUserCredentialsRequest), borsh_token B oidc_token,
       borsh_key B frp_public_key]"

definition check_digest_signature ::
  "digest_lib \<Rightarrow> near_public_key \<Rightarrow> dalek_signature \<Rightarrow> bytes \<Rightarrow> anyhow_error + unit" where
  "check_digest_signature B public_key signature digest =
     (if \<not> near_verify B (NSigEd25519 signature) digest public_key
      then Inl ''Public key, digest and signature don't match'' else Inr ())"

definition sign_digest :: "digest_lib \<Rightarrow> bytes \<Rightarrow> bytes \<Rightarrow> anyhow_error + dalek_signature" where
  "sign_digest B request_digest user_secret_key =
     (case near_sign B user_secret_key request_digest of
        NSigEd25519 signature \<Rightarrow> Inr signature
      | NSigSecp256k1 _ \<Rightarrow> Inl ''Wrong signature type'')"

section \<open>Partners\<close>

record OidcProvider =
  op_issuer :: string
  op_audience :: string

record DelegateActionRelayer =
  dar_url :: string
  dar_api_key :: "string option"

record FastAuthPartner =
  fap_oidc_provider :: OidcProvider
  fap_relayer :: DelegateActionRelayer

text \<open>
  A hash set is the list of its entries in the order of an iteration, which the library
  leaves open.
\<close>

type_synonym OidcProviderList = "OidcProvider list"
type_synonym PartnerList = "FastAuthPartner list"

definition OidcProviderList_contains :: "OidcProviderList \<Rightarrow> string \<Rightarrow> string \<Rightarrow> bool" where
  "OidcProviderList_contains entries issuer audience \<longleftrightarrow>
     \<lparr>op_issuer = issuer, op_audience = audience\<rparr> \<in> set entries"

definition OidcProviderList_insert :: "OidcProvider \<Rightarrow> OidcProviderList \<Rightarrow> OidcProviderList" where
  "OidcProviderList_insert entry entries = (if entry \<in> set entries then entries else entries @ [entry])"

definition partner_matches :: "string \<Rightarrow> string \<Rightarrow> FastAuthPartner \<Rightarrow> bool" where
  "partner_matches issuer audience entry \<longleftrightarrow>
     op_issuer (fap_oidc_provider entry) = issuer \<and> op_audience (fap_oidc_provider entry) = audience"

definition PartnerList_contains :: "PartnerList \<Rightarrow> string \<Rightarrow> string \<Rightarrow> bool" where
  "PartnerList_contains entries issuer audience \<longleftrightarrow> list_ex (partner_matches issuer audience) entries"

definition PartnerList_find :: "PartnerList \<Rightarrow> string \<Rightarrow> string \<Rightarrow> anyhow_error + FastAuthPartner" where
  "PartnerList_find entries issuer audience =
     (case find (partner_matches issuer audience) entries of
        Some partner \<Rightarrow> Inr partner
      | None \<Rightarrow> Inl (''Failed to find relayer for given partner. Issuer: '' @ issuer @ '', Audience: '' @ audience))"

definition PartnerList_oidc_providers :: "PartnerList \<Rightarrow> OidcProviderList" where
  "PartnerList_oidc_providers entries =
     fold (\<lambda>entry. OidcProviderList_insert (fap_oidc_provider entry)) entries []"

section \<open>Handlers with state\<close>

text \<open>
  A handler changes the state and then returns or panics; what it changed before a panic
  stays changed.
\<close>

type_synonym ('s, 'a) handler = "'s \<Rightarrow> 's \<times> 'a exec"

definition h_return :: "'a \<Rightarrow> ('s, 'a) handler" where
  "h_return x s = (s, Done x)"

definition h_lift :: "'a exec \<Rightarrow> ('s, 'a) handler" where
  "h_lift e s = (s, e)"

definition h_bind :: "('s, 'a) handler \<Rightarrow> ('a \<Rightarrow> ('s, 'b) handler) \<Rightarrow> ('s, 'b) handler" where
  "h_bind m f s =
     (case m s of
        (s', Done x) \<Rightarrow> f x s'
      | (s', Panics p) \<Rightarrow> (s', Panics p)
      | (s', Loops) \<Rightarrow> (s', Loops))"

definition h_read :: "('s \<Rightarrow> 'a) \<Rightarrow> ('s, 'a) handler" where
  "h_read g s = (s, Done (g s))"

text \<open>The operator \<open>?\<close>: an error ends the handler.\<close>

definition h_try :: "('s, 'e + 'a) handler \<Rightarrow> ('a \<Rightarrow> ('s, 'e + 'b) handler) \<Rightarrow> ('s, 'e + 'b) handler" where
  "h_try m f = h_bind m (\<lambda>r. case r of Inl e \<Rightarrow> h_return (Inl e) | Inr x \<Rightarrow> f x)"

abbreviation h_check :: "'e + 'a \<Rightarrow> ('a \<Rightarrow> ('s, 'e + 'b) handler) \<Rightarrow> ('s, 'e + 'b) handler" where
  "h_check r \<equiv> h_try (h_return r)"

definition map_err :: "('e \<Rightarrow> 'f) \<Rightarrow> 'e + 'a \<Rightarrow> 'f + 'a" where
  "map_err f r = (case r of Inl e \<Rightarrow> Inl (f e) | Inr x \<Rightarrow> Inr x)"

definition h_map_err :: "('e \<Rightarrow> 'f) \<Rightarrow> ('s, 'e + 'a) handler \<Rightarrow> ('s, 'f + 'a) handler" where
  "h_map_err f m = h_bind m (\<lambda>r. h_return (map_err f r))"

section \<open>Laws of handlers\<close>

lemma h_simps [simp]:
  "h_return x s = (s, Done x)" "h_lift m s = (s, m)" "h_bind (h_read get) f s = f (get s) s"
  "h_bind (h_return x) f' = f' x" "h_try (h_return (Inl e)) g = h_return (Inl e)" "h_try (h_return (Inr y)) g = g y"
  by (simp_all add: h_return_def h_lift_def h_read_def h_bind_def h_try_def fun_eq_iff)

lemma map_err_simps [simp]: "map_err f (Inl e) = Inl (f e)" "map_err f (Inr x) = Inr x"
  by (simp_all add: map_err_def)

lemma map_err_Inr [simp]: "map_err f r = Inr x \<longleftrightarrow> r = Inr x"
  by (cases r) simp_all

lemma h_bind_Done: "h_bind m f s = (s', Done y) \<longleftrightarrow> (\<exists>s1 x. m s = (s1, Done x) \<and> f x s1 = (s', Done y))"
  by (auto simp: h_bind_def split: prod.split exec.split)

lemma h_try_Inr: "h_try m f s = (s', Done (Inr y)) \<longleftrightarrow> (\<exists>s1 x. m s = (s1, Done (Inr x)) \<and> f x s1 = (s', Done (Inr y)))"
proof -
  have "h_try m f s = (s', Done (Inr y)) \<longleftrightarrow>
      (\<exists>s1 r. m s = (s1, Done r) \<and> (case r of Inl e \<Rightarrow> h_return (Inl e) | Inr x \<Rightarrow> f x) s1 = (s', Done (Inr y)))"
    by (simp add: h_try_def h_bind_Done)
  moreover have "(case r of Inl e \<Rightarrow> h_return (Inl e) | Inr x \<Rightarrow> f x) s1 = (s', Done (Inr y)) \<longleftrightarrow>
      (\<exists>x. r = Inr x \<and> f x s1 = (s', Done (Inr y)))" for r s1
    by (cases r) auto
  ultimately show ?thesis by auto
qed

lemma h_check_Inr: "h_try (h_return r) f s = (s', Done (Inr y)) \<longleftrightarrow> (\<exists>x. r = Inr x \<and> f x s = (s', Done (Inr y)))"
  by (cases r) simp_all

lemma h_map_err_Inr: "h_map_err f m s = (s', Done (Inr y)) \<longleftrightarrow> m s = (s', Done (Inr y))"
  by (auto simp: h_map_err_def h_bind_Done)

text \<open>What a handler does to the state, returning or not.\<close>

definition h_keeps :: "('s \<Rightarrow> 's \<Rightarrow> bool) \<Rightarrow> ('s, 'a) handler \<Rightarrow> bool" where
  "h_keeps R m \<longleftrightarrow> (\<forall>s. R s (fst (m s)))"

locale state_order =
  fixes R :: "'s \<Rightarrow> 's \<Rightarrow> bool"
  assumes ord_refl: "R s s" and ord_trans: "R s t \<Longrightarrow> R t u \<Longrightarrow> R s u"
begin

lemma keeps_return: "h_keeps R (h_return x)" and keeps_lift: "h_keeps R (h_lift e)" and keeps_read: "h_keeps R (h_read g)"
  by (simp_all add: h_keeps_def h_read_def ord_refl)

lemma keeps_bind: "h_keeps R m \<Longrightarrow> (\<And>x. h_keeps R (f x)) \<Longrightarrow> h_keeps R (h_bind m f)"
  unfolding h_keeps_def h_bind_def by (auto split: prod.split exec.split) (metis fst_conv ord_trans)+

lemma keeps_try: "h_keeps R m \<Longrightarrow> (\<And>x. h_keeps R (f x)) \<Longrightarrow> h_keeps R (h_try m f)"
  unfolding h_try_def by (rule keeps_bind) (auto split: sum.split intro: keeps_return)

lemma keeps_map_err: "h_keeps R m \<Longrightarrow> h_keeps R (h_map_err f m)"
  unfolding h_map_err_def by (rule keeps_bind) (auto intro: keeps_return)

lemma keeps_at: "h_keeps R m \<Longrightarrow> R s (fst (m s))"
  by (simp add: h_keeps_def)

end

section \<open>Retried calls\<close>

text \<open>
  \<open>nar::retry\<close>: one attempt and up to four more, over the state the attempts change; the
  result is that of the last attempt made. A panic ends the call at once.
\<close>

fun retry_attempts :: "nat \<Rightarrow> (nat \<Rightarrow> ('s, 'e + 'a) handler) \<Rightarrow> nat \<Rightarrow> ('s, 'e + 'a) handler" where
  "retry_attempts 0 task i = task i"
| "retry_attempts (Suc n) task i =
     h_bind (task i) (\<lambda>r.
     case r of
       Inr x \<Rightarrow> h_return (Inr x)
     | Inl _ \<Rightarrow> retry_attempts n task (Suc i))"

definition nar_retry :: "(nat \<Rightarrow> ('s, 'e + 'a) handler) \<Rightarrow> ('s, 'e + 'a) handler" where
  "nar_retry task = retry_attempts 4 task 0"

section \<open>Laws\<close>

text \<open>What a retried call succeeds with, an attempt succeeded with.\<close>

lemma retry_attempts_Inr:
  "retry_attempts n task i s = (s', Done (Inr x)) \<Longrightarrow> \<exists>k s0. k \<le> n \<and> task (i + k) s0 = (s', Done (Inr x))"
proof (induction n arbitrary: i s)
  case 0
  then show ?case by (intro exI [of _ 0] exI [of _ s]) simp
next
  case (Suc n)
  then obtain s1 r where t: "task i s = (s1, Done r)"
    "(case r of Inr x \<Rightarrow> h_return (Inr x) | Inl _ \<Rightarrow> retry_attempts n task (Suc i)) s1 = (s', Done (Inr x))"
    by (auto simp: h_bind_Done)
  show ?case
  proof (cases r)
    case (Inl e)
    with t Suc.IH [of "Suc i" s1] obtain k s0 where "k \<le> n" "task (Suc i + k) s0 = (s', Done (Inr x))" by auto
    then show ?thesis by (intro exI [of _ "Suc k"] exI [of _ s0]) simp
  next
    case (Inr y)
    with t show ?thesis by (intro exI [of _ 0] exI [of _ s]) simp
  qed
qed

lemma nar_retry_Inr: "nar_retry task s = (s', Done (Inr x)) \<Longrightarrow> \<exists>k s0. k \<le> 4 \<and> task k s0 = (s', Done (Inr x))"
  unfolding nar_retry_def using retry_attempts_Inr [of 4 task 0 s s' x] by simp

text \<open>An order that every attempt respects, the retried call respects.\<close>

context state_order
begin

lemma keeps_attempts: "(\<And>k. h_keeps R (task k)) \<Longrightarrow> h_keeps R (retry_attempts n task i)"
  by (induction n arbitrary: i) (auto intro!: keeps_bind keeps_return split: sum.split)

lemma keeps_retry: "(\<And>k. h_keeps R (task k)) \<Longrightarrow> h_keeps R (nar_retry task)"
  unfolding nar_retry_def by (rule keeps_attempts)

end

lemma nar_retry_first: "task 0 s = (s', Done (Inr x)) \<Longrightarrow> nar_retry task s = (s', Done (Inr x))"
  unfolding nar_retry_def by (simp add: numeral_eq_Suc h_bind_def)

lemma OidcProviderList_insert_set: "set (OidcProviderList_insert e es) = insert e (set es)"
  by (auto simp: OidcProviderList_insert_def)

lemma oidc_providers_set: "set (PartnerList_oidc_providers ps) = fap_oidc_provider ` set ps"
proof -
  have "set (fold (\<lambda>entry. OidcProviderList_insert (fap_oidc_provider entry)) ps acc) =
      set acc \<union> fap_oidc_provider ` set ps" for acc
    by (induction ps arbitrary: acc) (auto simp: OidcProviderList_insert_set)
  then show ?thesis by (simp add: PartnerList_oidc_providers_def)
qed

text \<open>The three views of the list of partners agree.\<close>

lemma partners_agree:
  "OidcProviderList_contains (PartnerList_oidc_providers ps) iss aud \<longleftrightarrow> PartnerList_contains ps iss aud"
  "(\<exists>p. PartnerList_find ps iss aud = Inr p) \<longleftrightarrow> PartnerList_contains ps iss aud"
proof -
  have "(\<exists>p \<in> set ps. fap_oidc_provider p = \<lparr>op_issuer = iss, op_audience = aud\<rparr>) \<longleftrightarrow>
      (\<exists>p \<in> set ps. partner_matches iss aud p)"
    by (intro bex_cong) (auto simp: partner_matches_def)
  then show "OidcProviderList_contains (PartnerList_oidc_providers ps) iss aud \<longleftrightarrow> PartnerList_contains ps iss aud"
    unfolding OidcProviderList_contains_def PartnerList_contains_def oidc_providers_set list_ex_iff image_iff
    by (simp add: eq_commute [of "\<lparr>op_issuer = iss, op_audience = aud\<rparr>"])
  show "(\<exists>p. PartnerList_find ps iss aud = Inr p) \<longleftrightarrow> PartnerList_contains ps iss aud"
    by (auto simp: PartnerList_find_def PartnerList_contains_def list_ex_iff find_None_iff split: option.splits)
      (metis find_None_iff not_None_eq)
qed

subsection \<open>Digests\<close>

text \<open>Encodings that can be told apart even when something follows them.\<close>

definition prefix_free :: "('a \<Rightarrow> string + bytes) \<Rightarrow> bool" where
  "prefix_free f \<longleftrightarrow> (\<forall>x y a b u v. f x = Inr a \<longrightarrow> f y = Inr b \<longrightarrow> a @ u = b @ v \<longrightarrow> x = y)"

lemma prefix_free_cancel:
  assumes "prefix_free f" and "f x = Inr a" and "f y = Inr b" and "a @ u = b @ v"
  shows "x = y \<and> u = v"
proof
  show "x = y" using assms unfolding prefix_free_def by blast
  with assms show "u = v" by simp
qed

lemma prefix_free_last: "prefix_free f \<Longrightarrow> f x = Inr a \<Longrightarrow> f y = Inr a \<Longrightarrow> x = y"
  using prefix_free_cancel [of f x a y a "[]" "[]"] by simp

definition borsh_ok :: "digest_lib \<Rightarrow> bool" where
  "borsh_ok B \<longleftrightarrow> prefix_free (borsh_u32 B) \<and> prefix_free (borsh_hash B) \<and> prefix_free (borsh_key B) \<and>
     prefix_free (borsh_signature B) \<and> prefix_free (borsh_action B) \<and> prefix_free (borsh_token B)"

text \<open>The four things a client or the service signs, and their digests.\<close>

datatype signed_request =
    RClaim OidcHash near_public_key
  | RClaimed dalek_signature
  | RCredentials OidcToken near_public_key
  | RSign DelegateAction OidcToken near_public_key

fun request_digest :: "digest_lib \<Rightarrow> signed_request \<Rightarrow> anyhow_error + bytes" where
  "request_digest B (RClaim h pk) = claim_oidc_request_digest B h pk"
| "request_digest B (RClaimed sig) = claim_oidc_response_digest B sig"
| "request_digest B (RCredentials t pk) = user_credentials_request_digest B t pk"
| "request_digest B (RSign a t pk) = sign_request_digest B a t pk"

fun request_parts :: "digest_lib \<Rightarrow> signed_request \<Rightarrow> (string + bytes) list" where
  "request_parts B (RClaim h pk) =
     [borsh_u32 B (get_salt SaltClaimOidcRequest), borsh_hash B h, borsh_key B pk]"
| "request_parts B (RClaimed sig) = [borsh_u32 B (get_salt SaltClaimOidcResponse), borsh_signature B sig]"
| "request_parts B (RCredentials t pk) =
     [borsh_u32 B (get_salt SaltUserCredentialsRequest), borsh_token B t, borsh_key B pk]"
| "request_parts B (RSign a t pk) =
     [borsh_u32 B (get_salt SaltSignRequest), borsh_action B a, borsh_token B t, borsh_key B pk]"

lemma request_digest_parts: "request_digest B r = hash_parts B (request_parts B r)"
  by (cases r) (simp_all add: claim_oidc_request_digest_def claim_oidc_response_digest_def
      user_credentials_request_digest_def sign_request_digest_def)

lemma salts_distinct: "get_salt s = get_salt t \<longleftrightarrow> s = t"
  by (cases s; cases t) (simp_all add: get_salt_def)

lemma salts_do_not_wrap: "uint (get_salt s) = 3177899144 + uint (salt_discriminant s)"
  by (cases s) (simp_all add: get_salt_def SALT_BASE_def)

text \<open>Requests with the same serialised bytes are the same.\<close>

fun request_salt :: "signed_request \<Rightarrow> HashSalt" where
  "request_salt (RClaim _ _) = SaltClaimOidcRequest"
| "request_salt (RClaimed _) = SaltClaimOidcResponse"
| "request_salt (RCredentials _ _) = SaltUserCredentialsRequest"
| "request_salt (RSign _ _ _) = SaltSignRequest"

lemma request_parts_salt:
  assumes "res_map id (request_parts B r) = Inr bs"
  obtains a as where "bs = a # as" "borsh_u32 B (get_salt (request_salt r)) = Inr a"
    "res_map id (tl (request_parts B r)) = Inr as"
  using assms by (cases r) (auto simp: res_bind_eq_Inr)

lemma two_parts_determine:
  assumes "prefix_free f" and "prefix_free g"
    and "res_map id [f x, g y] = Inr bs" and "res_map id [f x', g y'] = Inr cs" and "concat bs = concat cs"
  shows "x = x' \<and> y = y'"
proof -
  from assms(3,4) obtain a b a' b' where ab: "f x = Inr a" "g y = Inr b" "bs = [a, b]"
    "f x' = Inr a'" "g y' = Inr b'" "cs = [a', b']" by (auto simp: res_bind_eq_Inr)
  with assms(5) have "a @ b = a' @ b'" by simp
  with prefix_free_cancel [OF assms(1) ab(1) ab(4)] have "x = x'" "b = b'" by auto
  with prefix_free_last [OF assms(2) ab(2)] ab(5) show ?thesis by simp
qed

lemma three_parts_determine:
  assumes "prefix_free f" and "prefix_free g" and "prefix_free h"
    and "res_map id [f x, g y, h z] = Inr bs" and "res_map id [f x', g y', h z'] = Inr cs"
    and "concat bs = concat cs"
  shows "x = x' \<and> y = y' \<and> z = z'"
proof -
  from assms(4,5) obtain a b a' b' where ab: "f x = Inr a" "res_map id [g y, h z] = Inr b" "bs = a # b"
    "f x' = Inr a'" "res_map id [g y', h z'] = Inr b'" "cs = a' # b'" by (auto simp: res_bind_eq_Inr)
  with assms(6) have "a @ concat b = a' @ concat b'" by simp
  with prefix_free_cancel [OF assms(1) ab(1) ab(4)] have "x = x'" "concat b = concat b'" by auto
  with two_parts_determine [OF assms(2,3) ab(2,5)] show ?thesis by simp
qed

lemma request_parts_determine:
  assumes ok: "borsh_ok B" and r: "res_map id (request_parts B r) = Inr bs"
    and r': "res_map id (request_parts B r') = Inr cs" and eq: "concat bs = concat cs"
  shows "r = r'"
proof -
  from r obtain a as where a: "bs = a # as" "borsh_u32 B (get_salt (request_salt r)) = Inr a"
    "res_map id (tl (request_parts B r)) = Inr as" by (rule request_parts_salt)
  from r' obtain b bs' where b: "cs = b # bs'" "borsh_u32 B (get_salt (request_salt r')) = Inr b"
    "res_map id (tl (request_parts B r')) = Inr bs'" by (rule request_parts_salt)
  from ok have ok': "prefix_free (borsh_u32 B)" "prefix_free (borsh_hash B)" "prefix_free (borsh_key B)"
    "prefix_free (borsh_signature B)" "prefix_free (borsh_action B)" "prefix_free (borsh_token B)"
    by (auto simp: borsh_ok_def)
  from prefix_free_cancel [OF ok'(1) a(2) b(2)] eq a(1) b(1)
  have salt: "request_salt r = request_salt r'" and rest: "concat as = concat bs'"
    by (auto simp: salts_distinct)
  show ?thesis
  proof (cases r)
    case (RClaim h pk)
    with salt obtain h' pk' where r': "r' = RClaim h' pk'" by (cases r') auto
    from two_parts_determine [OF ok'(2,3), of h pk as h' pk' bs'] RClaim r' a(3) b(3) rest show ?thesis by simp
  next
    case (RClaimed sig)
    with salt obtain sig' where r': "r' = RClaimed sig'" by (cases r') auto
    with RClaimed a(3) b(3) rest obtain x where "borsh_signature B sig = Inr x" "borsh_signature B sig' = Inr x"
      by (auto simp: res_bind_eq_Inr)
    with prefix_free_last [OF ok'(4)] RClaimed r' show ?thesis by blast
  next
    case (RCredentials t pk)
    with salt obtain t' pk' where r': "r' = RCredentials t' pk'" by (cases r') auto
    from two_parts_determine [OF ok'(6,3), of t pk as t' pk' bs'] RCredentials r' a(3) b(3) rest show ?thesis by simp
  next
    case (RSign d t pk)
    with salt obtain d' t' pk' where r': "r' = RSign d' t' pk'" by (cases r') auto
    from three_parts_determine [OF ok'(5,6,3), of d t pk as d' t' pk' bs'] RSign r' a(3) b(3) rest
    show ?thesis by simp
  qed
qed

section \<open>Properties\<close>

text \<open>
  C37: A signature binds the whole request. Whatever two of the four kinds of requests are
  compared, they have the same digest only if they are the same request, up to a collision of
  SHA-256: the salts tell the kinds apart, and the serialised parts can be told apart. Assumed
  of borsh: the encodings are prefix free.
\<close>

theorem request_digests_separate:
  assumes "borsh_ok B" and "request_digest B r = Inr d" and "request_digest B r' = Inr d"
    and "inj_on (sha256_of B) {m. \<exists>q bs. q \<in> {r, r'} \<and> res_map id (request_parts B q) = Inr bs \<and> m = concat bs}"
  shows "r = r'"
proof -
  from assms(2) obtain bs where bs: "res_map id (request_parts B r) = Inr bs" "d = sha256_of B (concat bs)"
    by (auto simp: request_digest_parts hash_parts_def res_bind_eq_Inr)
  from assms(3) obtain cs where cs: "res_map id (request_parts B r') = Inr cs" "d = sha256_of B (concat cs)"
    by (auto simp: request_digest_parts hash_parts_def res_bind_eq_Inr)
  have "concat bs = concat cs"
    by (rule inj_onD [OF assms(4)]) (use bs cs in auto)
  with request_parts_determine [OF assms(1) bs(1) cs(1)] show ?thesis by simp
qed

text \<open>A prefix free encoding of byte strings, for the witnesses.\<close>

fun ex_enc :: "bytes \<Rightarrow> bytes" where
  "ex_enc [] = [0]"
| "ex_enc (b # bs) = 1 # b # ex_enc bs"

lemma ex_enc_cancel: "ex_enc a @ u = ex_enc b @ v \<Longrightarrow> a = b"
proof (induction a arbitrary: b)
  case Nil
  then show ?case by (cases b) auto
next
  case (Cons x a)
  then show ?case by (cases b) auto
qed

definition ex_digests :: digest_lib where
  "ex_digests = \<lparr>borsh_u32 = (\<lambda>x. Inr (replicate (unat x) 1 @ [0])), borsh_hash = (\<lambda>h. Inr (ex_enc h)),
     borsh_key = (\<lambda>pk. Inr (case pk of ED25519 b \<Rightarrow> 0 # ex_enc b | SECP256K1 b \<Rightarrow> 1 # ex_enc b)),
     borsh_signature = (\<lambda>s. Inr (ex_enc s)), borsh_action = (\<lambda>_. Inl ''unsupported''),
     borsh_token = (\<lambda>t. Inr (ex_enc (string_bytes (token_data t)))), sha256_of = id,
     near_verify = (\<lambda>sig d pk. sig = NSigEd25519 [1]), near_sign = (\<lambda>_ _. NSigEd25519 [1])\<rparr>"

lemma replicate_cancel: "replicate m (1 :: u8) @ 0 # u = replicate n 1 @ 0 # v \<Longrightarrow> m = n"
proof (induction m arbitrary: n)
  case 0
  then show ?case by (cases n) auto
next
  case (Suc m)
  then show ?case by (cases n) auto
qed

lemma replicate_word_cancel:
  "replicate (unat x) (1 :: u8) @ 0 # u = replicate (unat y) 1 @ 0 # v \<Longrightarrow> x = (y :: u32)"
  using replicate_cancel [of "unat x" u "unat y" v] by (simp add: word_unat_eq_iff)

lemma ex_digests_ok: "borsh_ok ex_digests"
  unfolding borsh_ok_def prefix_free_def ex_digests_def
  by (auto dest: ex_enc_cancel replicate_word_cancel simp: inj_string_bytes
      split: near_public_key.splits intro: OidcToken.equality)

theorem request_digests_separate_witness:
  "request_digest ex_digests (RClaim [7] (ED25519 [8])) \<noteq> request_digest ex_digests (RClaimed [7])"
proof
  assume eq: "request_digest ex_digests (RClaim [7] (ED25519 [8])) = request_digest ex_digests (RClaimed [7])"
  obtain d where d: "request_digest ex_digests (RClaim [7] (ED25519 [8])) = Inr d"
    by (simp add: claim_oidc_request_digest_def hash_parts_def ex_digests_def)
  have "RClaim [7] (ED25519 [8]) = RClaimed [7]"
    by (rule request_digests_separate [OF ex_digests_ok d d [unfolded eq]])
      (auto simp: ex_digests_def inj_on_def)
  then show False by simp
qed

end
