(* ===== verification/Gcp.thy ===== *)
theory Gcp
  imports Recovery_Base
begin

text \<open>
  Access to Google's datastore and secret manager, \<^verbatim>\<open>mpc-recovery/src/gcp\<close>: the values of the
  service and their conversion to and from the types of the client crate (\<^verbatim>\<open>value.rs\<close>), and
  the calls (\<^verbatim>\<open>mod.rs\<close>). The services themselves are an argument over their state.
\<close>

section \<open>Values\<close>

type_synonym i64 = "64 word"
type_synonym f64 = "64 word"

text \<open>Doubles are their bit patterns: the code only copies them.\<close>

record path_element =
  pe_kind :: "string option"
  pe_name :: "string option"
  pe_id :: "i64 option"

record gkey =
  gk_path :: "path_element list option"
  gk_partition_id :: "string option"

definition gkey_default :: gkey where
  "gkey_default = \<lparr>gk_path = None, gk_partition_id = None\<rparr>"

datatype gvalue =
    BooleanValue bool
  | IntegerValue i64
  | DoubleValue f64
  | KeyValue gkey
  | StringValue string
  | BlobValue bytes
  | GeoPointValue f64 f64
  | EntityValue gkey "(string \<times> gvalue) list"
  | ArrayValue "gvalue list"

datatype ConvertError =
    MissingProperty string
  | UnexpectedPropertyType string string
  | MalformedProperty string

fun type_name :: "gvalue \<Rightarrow> string" where
  "type_name (BooleanValue _) = ''bool''"
| "type_name (IntegerValue _) = ''integer''"
| "type_name (DoubleValue _) = ''double''"
| "type_name (KeyValue _) = ''key''"
| "type_name (StringValue _) = ''string''"
| "type_name (BlobValue _) = ''blob''"
| "type_name (GeoPointValue _ _) = ''geopoint''"
| "type_name (EntityValue _ _) = ''entity''"
| "type_name (ArrayValue _) = ''array''"

subsection \<open>Into values\<close>

definition i8_into_value :: "8 word \<Rightarrow> gvalue" where "i8_into_value x = IntegerValue (scast x)"
definition i16_into_value :: "16 word \<Rightarrow> gvalue" where "i16_into_value x = IntegerValue (scast x)"
definition i32_into_value :: "32 word \<Rightarrow> gvalue" where "i32_into_value x = IntegerValue (scast x)"
definition i64_into_value :: "i64 \<Rightarrow> gvalue" where "i64_into_value x = IntegerValue x"
definition f64_into_value :: "f64 \<Rightarrow> gvalue" where "f64_into_value x = DoubleValue x"
definition bool_into_value :: "bool \<Rightarrow> gvalue" where "bool_into_value x = BooleanValue x"
definition gkey_into_value :: "gkey \<Rightarrow> gvalue" where "gkey_into_value x = KeyValue x"
definition string_into_value :: "string \<Rightarrow> gvalue" where "string_into_value x = StringValue x"
definition blob_into_value :: "bytes \<Rightarrow> gvalue" where "blob_into_value x = BlobValue x"

definition vec_into_value :: "('a \<Rightarrow> gvalue) \<Rightarrow> 'a list \<Rightarrow> gvalue" where
  "vec_into_value into xs = ArrayValue (map into xs)"

subsection \<open>From values\<close>

fun string_from_value :: "gvalue \<Rightarrow> ConvertError + string" where
  "string_from_value (StringValue x) = Inr x"
| "string_from_value v = Inl (UnexpectedPropertyType ''string'' (type_name v))"

fun i64_from_value :: "gvalue \<Rightarrow> ConvertError + i64" where
  "i64_from_value (IntegerValue x) = Inr x"
| "i64_from_value v = Inl (UnexpectedPropertyType ''integer'' (type_name v))"

fun f64_from_value :: "gvalue \<Rightarrow> ConvertError + f64" where
  "f64_from_value (DoubleValue x) = Inr x"
| "f64_from_value v = Inl (UnexpectedPropertyType ''double'' (type_name v))"

fun bool_from_value :: "gvalue \<Rightarrow> ConvertError + bool" where
  "bool_from_value (BooleanValue x) = Inr x"
| "bool_from_value v = Inl (UnexpectedPropertyType ''bool'' (type_name v))"

fun gkey_from_value :: "gvalue \<Rightarrow> ConvertError + gkey" where
  "gkey_from_value (KeyValue x) = Inr x"
| "gkey_from_value v = Inl (UnexpectedPropertyType ''key'' (type_name v))"

fun blob_from_value :: "gvalue \<Rightarrow> ConvertError + bytes" where
  "blob_from_value (BlobValue x) = Inr x"
| "blob_from_value v = Inl (UnexpectedPropertyType ''blob'' (type_name v))"

fun vec_from_value :: "(gvalue \<Rightarrow> ConvertError + 'a) \<Rightarrow> gvalue \<Rightarrow> ConvertError + 'a list" where
  "vec_from_value from (ArrayValue vs) = res_map from vs"
| "vec_from_value from v = Inl (UnexpectedPropertyType ''array'' (type_name v))"

subsection \<open>The values of the client crate\<close>

text \<open>Every field is optional; the fields the code does not read or write are left out.\<close>

datatype api_value = ApiValue
  (boolean_value: "bool option")
  (integer_value: "i64 option")
  (double_value: "f64 option")
  (key_value: "gkey option")
  (string_value: "string option")
  (blob_value: "bytes option")
  (geo_point_value: "(f64 option \<times> f64 option) option")
  (entity_value: "(gkey option \<times> (string \<times> api_value) list option) option")
  (array_value: "api_value list option option")

type_synonym Entity = "gkey option \<times> (string \<times> api_value) list option"

abbreviation api_default :: api_value where
  "api_default \<equiv> ApiValue None None None None None None None None None"

lemma res_map_cong [fundef_cong]:
  "xs = ys \<Longrightarrow> (\<And>x. x \<in> set ys \<Longrightarrow> f x = g x) \<Longrightarrow> res_map f xs = res_map g ys"
  by (induction ys arbitrary: xs) auto

text \<open>\<open>From<api::Value>\<close>: the first field that is set decides; without one, \<open>unimplemented!()\<close>.\<close>

definition api_scalar :: "api_value \<Rightarrow> gvalue option" where
  "api_scalar v =
     (if boolean_value v \<noteq> None then map_option BooleanValue (boolean_value v)
      else if integer_value v \<noteq> None then map_option IntegerValue (integer_value v)
      else if double_value v \<noteq> None then map_option DoubleValue (double_value v)
      else if key_value v \<noteq> None then map_option KeyValue (key_value v)
      else if string_value v \<noteq> None then map_option StringValue (string_value v)
      else if blob_value v \<noteq> None then map_option BlobValue (blob_value v)
      else map_option (\<lambda>(lat, lon). GeoPointValue (or_default 0 lat) (or_default 0 lon)) (geo_point_value v))"

lemma api_property_smaller:
  assumes "entity_value v = Some e" and "p \<in> set (or_default [] (snd e))"
  shows "size (snd p) < size v"
proof -
  obtain key ps where e: "e = (key, Some ps)" and p: "p \<in> set ps"
    using assms(2) by (cases e; cases "snd e") auto
  have "size (snd p) \<le> size_prod (\<lambda>_. 0) size p" by (cases p) simp
  also have "\<dots> \<le> size_list (size_prod (\<lambda>_. 0) size) ps" by (rule size_list_estimation' [OF p]) simp
  finally show ?thesis using assms(1) e by (cases v) simp
qed

lemma api_element_smaller:
  assumes "array_value v = Some values" and "x \<in> set (or_default [] values)"
  shows "size x < size v"
proof -
  obtain vs where vs: "values = Some vs" "x \<in> set vs" using assms(2) by (cases "values") auto
  have "size x \<le> size_list size vs" by (rule size_list_estimation' [OF vs(2)]) simp
  with assms(1) vs(1) show ?thesis by (cases v) simp
qed

function gvalue_from_api :: "api_value \<Rightarrow> gvalue exec" where
  "gvalue_from_api v =
     (case api_scalar v of
        Some x \<Rightarrow> Done x
      | None \<Rightarrow>
          (case entity_value v of
             Some e \<Rightarrow>
               exec_bind (exec_map (\<lambda>p. exec_bind (gvalue_from_api (snd p)) (\<lambda>x. Done (fst p, x)))
                            (or_default [] (snd e))) (\<lambda>ps.
               Done (EntityValue (or_default gkey_default (fst e)) ps))
           | None \<Rightarrow>
               (case array_value v of
                  Some values \<Rightarrow> exec_bind (exec_map gvalue_from_api (or_default [] values)) (\<lambda>vs. Done (ArrayValue vs))
                | None \<Rightarrow> Panics ''not implemented'')))"
  by pat_completeness auto

termination
  by (relation "measure size") (auto dest: api_property_smaller api_element_smaller)

declare gvalue_from_api.simps [simp del]

text \<open>\<open>FromValue\<close> of the client's values and entities.\<close>

fun api_from_value :: "gvalue \<Rightarrow> ConvertError + api_value" where
  "api_from_value (BooleanValue x) = Inr (ApiValue (Some x) None None None None None None None None)"
| "api_from_value (IntegerValue x) = Inr (ApiValue None (Some x) None None None None None None None)"
| "api_from_value (DoubleValue x) = Inr (ApiValue None None (Some x) None None None None None None)"
| "api_from_value (KeyValue x) = Inr (ApiValue None None None (Some x) None None None None None)"
| "api_from_value (StringValue x) = Inr (ApiValue None None None None (Some x) None None None None)"
| "api_from_value (BlobValue x) = Inr (ApiValue None None None None None (Some x) None None None)"
| "api_from_value (GeoPointValue lat lon) =
     Inr (ApiValue None None None None None None (Some (Some lat, Some lon)) None None)"
| "api_from_value (EntityValue key properties) =
     res_bind (res_map (\<lambda>p. res_bind (api_from_value (snd p)) (\<lambda>v. Inr (fst p, v))) properties) (\<lambda>ps.
     Inr (ApiValue None None None None None None None (Some (Some key, Some ps)) None))"
| "api_from_value (ArrayValue vals) =
     res_bind (res_map api_from_value vals) (\<lambda>vs.
     Inr (ApiValue None None None None None None None None (Some (Some vs))))"

definition Entity_into_value :: "Entity \<Rightarrow> gvalue exec" where
  "Entity_into_value e =
     exec_bind (exec_map (\<lambda>p. exec_bind (gvalue_from_api (snd p)) (\<lambda>v. Done (fst p, v)))
                  (or_default [] (snd e))) (\<lambda>ps.
     Done (EntityValue (or_default gkey_default (fst e)) ps))"

fun Entity_from_value :: "gvalue \<Rightarrow> ConvertError + Entity" where
  "Entity_from_value (EntityValue key properties) =
     res_bind (res_map (\<lambda>p. res_bind (api_from_value (snd p)) (\<lambda>v. Inr (fst p, v))) properties) (\<lambda>ps.
     Inr (Some key, Some ps))"
| "Entity_from_value v = Inl (UnexpectedPropertyType ''entity'' (type_name v))"

section \<open>The calls\<close>

datatype mutation = MInsert Entity | MUpdate Entity | MUpsert Entity

text \<open>
  The clients of the two services over the state \<open>'d\<close> of the datastore: a lookup answers with
  the results found (an entity may be missing in a result), a commit changes the state and
  may fail, a query answers with a batch of results.
\<close>

record 'd gcp_lib =
  ds_lookup :: "string \<Rightarrow> gkey \<Rightarrow> 'd \<Rightarrow> anyhow_error + Entity option list option"
  ds_commit :: "string \<Rightarrow> mutation \<Rightarrow> 'd \<Rightarrow> 'd \<times> (anyhow_error + unit)"
  ds_query :: "string \<Rightarrow> string \<Rightarrow> 'd \<Rightarrow> anyhow_error + Entity option list option option"
  sm_access :: "string \<Rightarrow> anyhow_error + bytes option option"

record GcpService =
  gcp_env :: string
  gcp_project :: string

definition env_kind :: "GcpService \<Rightarrow> string \<Rightarrow> string" where
  "env_kind S kind = kind @ ''-'' @ gcp_env S"

definition named_key :: "string \<Rightarrow> string \<Rightarrow> gkey" where
  "named_key kind name =
     \<lparr>gk_path = Some [\<lparr>pe_kind = Some kind, pe_name = Some name, pe_id = None\<rparr>], gk_partition_id = None\<rparr>"

definition load_secret :: "'d gcp_lib \<Rightarrow> GcpService \<Rightarrow> string \<Rightarrow> anyhow_error + bytes" where
  "load_secret G S name =
     res_bind (sm_access G (''projects/'' @ gcp_project S @ ''/secrets/'' @ name)) (\<lambda>payload.
     case payload of
       None \<Rightarrow> Inl ''secret value is missing payload''
     | Some None \<Rightarrow> Inl ''secret value payload is missing data''
     | Some (Some data) \<Rightarrow> Inr data)"

text \<open>\<open>show_convert\<close> prints a conversion error.\<close>

definition gcp_get ::
  "'d gcp_lib \<Rightarrow> GcpService \<Rightarrow> string \<Rightarrow> (gvalue \<Rightarrow> ConvertError + 'a) \<Rightarrow> string \<Rightarrow> 'd \<Rightarrow>
     (anyhow_error + 'a option) exec" where
  "gcp_get G S kind from_value name_key d =
     (case ds_lookup G (gcp_project S) (named_key (env_kind S kind) name_key) d of
        Inl e \<Rightarrow> Done (Inl e)
      | Inr found \<Rightarrow>
          (case Option.bind found (\<lambda>results. if results = [] then None else last results) of
             None \<Rightarrow> Done (Inr None)
           | Some found_entity \<Rightarrow>
               exec_bind (Entity_into_value found_entity) (\<lambda>v.
               Done (case from_value v of Inl e \<Rightarrow> Inl ''conversion failed'' | Inr x \<Rightarrow> Inr (Some x)))))"

text \<open>The kind of an entity gets the environment as a suffix.\<close>

definition suffix_kind :: "GcpService \<Rightarrow> string \<Rightarrow> Entity \<Rightarrow> Entity" where
  "suffix_kind S kind e =
     (case e of
        (Some key, ps) \<Rightarrow>
          (case gk_path key of
             Some (p # path) \<Rightarrow> (Some (key\<lparr>gk_path := Some (p\<lparr>pe_kind := Some (env_kind S kind)\<rparr> # path)\<rparr>), ps)
           | _ \<Rightarrow> e)
      | _ \<Rightarrow> e)"

definition gcp_commit ::
  "'d gcp_lib \<Rightarrow> GcpService \<Rightarrow> string \<Rightarrow> (Entity \<Rightarrow> mutation) \<Rightarrow> gvalue \<Rightarrow> 'd \<Rightarrow> 'd \<times> (anyhow_error + unit)" where
  "gcp_commit G S kind mutate value d =
     (case Entity_from_value value of
        Inl e \<Rightarrow> (d, Inl ''conversion failed'')
      | Inr entity \<Rightarrow> ds_commit G (gcp_project S) (mutate (suffix_kind S kind entity)) d)"

definition gcp_insert :: "'d gcp_lib \<Rightarrow> GcpService \<Rightarrow> string \<Rightarrow> gvalue \<Rightarrow> 'd \<Rightarrow> 'd \<times> (anyhow_error + unit)" where
  "gcp_insert G S kind value d = gcp_commit G S kind MInsert value d"

definition gcp_update :: "'d gcp_lib \<Rightarrow> GcpService \<Rightarrow> string \<Rightarrow> gvalue \<Rightarrow> 'd \<Rightarrow> 'd \<times> (anyhow_error + unit)" where
  "gcp_update G S kind value d = gcp_commit G S kind MUpdate value d"

definition gcp_upsert :: "'d gcp_lib \<Rightarrow> GcpService \<Rightarrow> string \<Rightarrow> gvalue \<Rightarrow> 'd \<Rightarrow> 'd \<times> (anyhow_error + unit)" where
  "gcp_upsert G S kind value d = gcp_commit G S kind MUpsert value d"

definition fetch_entities :: "'d gcp_lib \<Rightarrow> GcpService \<Rightarrow> string \<Rightarrow> 'd \<Rightarrow> anyhow_error + Entity option list" where
  "fetch_entities G S kind d =
     res_bind (ds_query G (gcp_project S) (env_kind S kind) d) (\<lambda>batch.
     case batch of
       None \<Rightarrow> Inl ''Could not retrieve batch while fetching entities''
     | Some None \<Rightarrow> Inl ''Could not retrieve entity results while fetching entities''
     | Some (Some entity_results) \<Rightarrow> Inr entity_results)"

section \<open>Laws\<close>

lemma exec_map_pairs:
  assumes "list_all2 (\<lambda>p q. fst q = fst p \<and> g (snd q) = Done (snd p)) ps qs"
  shows "exec_map (\<lambda>p. exec_bind (g (snd p)) (\<lambda>v. Done (fst p, v))) qs = Done ps"
  using assms by (induction rule: list_all2_induct) auto

text \<open>Every value has a form in the client's crate, from which it is read back.\<close>

lemma api_round_trip: "\<exists>a. api_from_value v = Inr a \<and> gvalue_from_api a = Done v"
proof (induction v rule: api_from_value.induct)
  case (8 key properties)
  let ?conv = "\<lambda>p. res_bind (api_from_value (snd p)) (\<lambda>v. Inr (fst p, v))"
  have "\<exists>qs. res_map ?conv ps = Inr qs \<and>
      list_all2 (\<lambda>p q. fst q = fst p \<and> gvalue_from_api (snd q) = Done (snd p)) ps qs"
    if "set ps \<subseteq> set properties" for ps
    using that
  proof (induction ps)
    case (Cons p ps)
    then obtain a where "api_from_value (snd p) = Inr a" "gvalue_from_api a = Done (snd p)"
      using 8 [of p] by auto
    with Cons show ?case by auto
  qed simp
  then obtain qs where qs: "res_map ?conv properties = Inr qs"
    "list_all2 (\<lambda>p q. fst q = fst p \<and> gvalue_from_api (snd q) = Done (snd p)) properties qs" by blast
  then show ?case
    using exec_map_pairs [of gvalue_from_api properties qs]
    by (subst gvalue_from_api.simps) (simp add: api_scalar_def)
next
  case (9 vals)
  have "\<exists>as. res_map api_from_value vs = Inr as \<and> exec_map gvalue_from_api as = Done vs"
    if "set vs \<subseteq> set vals" for vs
    using that
  proof (induction vs)
    case (Cons v vs)
    then obtain a where "api_from_value v = Inr a" "gvalue_from_api a = Done v" using 9 [of v] by auto
    with Cons show ?case by auto
  qed simp
  then obtain as where "res_map api_from_value vals = Inr as" "exec_map gvalue_from_api as = Done vals" by blast
  then show ?case by (subst gvalue_from_api.simps) (simp add: api_scalar_def)
qed (simp_all add: gvalue_from_api.simps api_scalar_def)

lemma Entity_round_trip:
  "\<exists>e ps'. Entity_from_value (EntityValue key ps) = Inr e \<and> e = (Some key, Some ps') \<and>
     (\<forall>key'. Entity_into_value (Some key', Some ps') = Done (EntityValue key' ps))"
proof -
  obtain a where a: "api_from_value (EntityValue key ps) = Inr a" "gvalue_from_api a = Done (EntityValue key ps)"
    using api_round_trip by blast
  then obtain ps' where ps': "res_map (\<lambda>p. res_bind (api_from_value (snd p)) (\<lambda>v. Inr (fst p, v))) ps = Inr ps'"
    "a = ApiValue None None None None None None None (Some (Some key, Some ps')) None"
    by (auto simp: res_bind_eq_Inr)
  from a(2) have "exec_map (\<lambda>p. exec_bind (gvalue_from_api (snd p)) (\<lambda>v. Done (fst p, v))) ps' = Done ps"
    unfolding ps'(2) by (subst (asm) gvalue_from_api.simps) (auto simp: api_scalar_def exec_bind_eq_Done)
  with ps'(1) show ?thesis by (simp add: Entity_into_value_def)
qed

text \<open>
  The documented behaviour of the datastore. Its state is seen as a map \<open>view\<close> from kind and
  name to entities. A lookup that answers, answers with the view. An insert that succeeds was
  the first one for its key; an insert or upsert that reports a failure may have been applied
  or not.
\<close>

definition datastore_ok :: "'d gcp_lib \<Rightarrow> GcpService \<Rightarrow> ('d \<Rightarrow> string \<times> string \<Rightarrow> Entity option) \<Rightarrow> bool" where
  "datastore_ok G S view \<longleftrightarrow>
     (\<forall>kind name d found. ds_lookup G (gcp_project S) (named_key kind name) d = Inr found \<longrightarrow>
        Option.bind found (\<lambda>results. if results = [] then None else last results) = view d (kind, name)) \<and>
     (\<forall>kind name ps d d' r. ds_commit G (gcp_project S) (MInsert (Some (named_key kind name), ps)) d = (d', r) \<longrightarrow>
        view d' = view d \<and> r \<noteq> Inr () \<or>
        view d (kind, name) = None \<and> view d' = (view d)((kind, name) \<mapsto> (Some (named_key kind name), ps))) \<and>
     (\<forall>kind name ps d d' r. ds_commit G (gcp_project S) (MUpsert (Some (named_key kind name), ps)) d = (d', r) \<longrightarrow>
        view d' = view d \<and> r \<noteq> Inr () \<or>
        view d' = (view d)((kind, name) \<mapsto> (Some (named_key kind name), ps)))"

lemma datastore_okD:
  assumes "datastore_ok G S view"
  shows datastore_lookup: "ds_lookup G (gcp_project S) (named_key kind name) d = Inr found \<Longrightarrow>
      Option.bind found (\<lambda>results. if results = [] then None else last results) = view d (kind, name)"
    and datastore_insert: "ds_commit G (gcp_project S) (MInsert (Some (named_key kind name), ps)) d = (d', r) \<Longrightarrow>
      view d' = view d \<and> r \<noteq> Inr () \<or>
      view d (kind, name) = None \<and> view d' = (view d)((kind, name) \<mapsto> (Some (named_key kind name), ps))"
    and datastore_upsert: "ds_commit G (gcp_project S) (MUpsert (Some (named_key kind name), ps)) d = (d', r) \<Longrightarrow>
      view d' = view d \<and> r \<noteq> Inr () \<or>
      view d' = (view d)((kind, name) \<mapsto> (Some (named_key kind name), ps))"
  using assms unfolding datastore_ok_def by blast+

text \<open>A read that answers, reads the view.\<close>

lemma gcp_get_view:
  assumes "datastore_ok G S view" and "gcp_get G S kind from_value n d = Done (Inr r)"
  shows "(case view d (env_kind S kind, n) of
      None \<Rightarrow> r = None
    | Some e \<Rightarrow> \<exists>x. exec_bind (Entity_into_value e) (\<lambda>v. Done (from_value v)) = Done (Inr x) \<and> r = Some x)"
proof -
  obtain found where f: "ds_lookup G (gcp_project S) (named_key (env_kind S kind) n) d = Inr found"
    using assms(2) by (cases "ds_lookup G (gcp_project S) (named_key (env_kind S kind) n) d") (auto simp: gcp_get_def)
  note v = datastore_lookup [OF assms(1) f]
  show ?thesis
  proof (cases "view d (env_kind S kind, n)")
    case (Some e)
    with assms(2) f v obtain w where w: "Entity_into_value e = Done w"
      "(case from_value w of Inl e \<Rightarrow> Inl ''conversion failed'' | Inr x \<Rightarrow> Inr (Some x)) = Inr r"
      by (auto simp: gcp_get_def exec_bind_eq_Done)
    with Some show ?thesis by (cases "from_value w") auto
  qed (use assms(2) f v in \<open>auto simp: gcp_get_def\<close>)
qed

text \<open>The datastore holds a value under a name: what is stored there reads as the value.\<close>

definition store_holds ::
  "('d \<Rightarrow> string \<times> string \<Rightarrow> Entity option) \<Rightarrow> GcpService \<Rightarrow> string \<Rightarrow> (gvalue \<Rightarrow> ConvertError + 'a) \<Rightarrow> string \<Rightarrow> 'd \<Rightarrow> 'a \<Rightarrow> bool" where
  "store_holds view S kind from_value n d x \<longleftrightarrow>
     (\<exists>e. view d (env_kind S kind, n) = Some e \<and>
        exec_bind (Entity_into_value e) (\<lambda>v. Done (from_value v)) = Done (Inr x))"

lemma get_holds:
  assumes "datastore_ok G S view" and "gcp_get G S kind from_value n d = Done (Inr (Some x))"
  shows "store_holds view S kind from_value n d x"
  using gcp_get_view [OF assms] by (auto simp: store_holds_def split: option.splits)

lemma holds_unique:
  "store_holds view S kind from_value n d x \<Longrightarrow> store_holds view S kind from_value n d y \<Longrightarrow> x = y"
  by (auto simp: store_holds_def)

lemma holds_mono:
  "view d \<subseteq>\<^sub>m view d' \<Longrightarrow> store_holds view S kind from_value n d x \<Longrightarrow> store_holds view S kind from_value n d' x"
  unfolding store_holds_def map_le_def by (metis domI)

definition stored_form :: "GcpService \<Rightarrow> string \<Rightarrow> gvalue \<Rightarrow> Entity option" where
  "stored_form S kind v = (case Entity_from_value v of Inl _ \<Rightarrow> None | Inr e \<Rightarrow> Some (suffix_kind S kind e))"

text \<open>
  The interface of a type that is kept in the datastore: its value is an entity under its
  kind and name, and the value reads back, whatever the key, when the codecs it uses do and
  it is well formed (\<open>ok\<close>).
\<close>

locale stored_entity =
  fixes kind :: string
    and into_value :: "'a \<Rightarrow> gvalue"
    and from_value :: "gvalue \<Rightarrow> ConvertError + 'a"
    and name :: "'a \<Rightarrow> string"
    and ok :: "'a \<Rightarrow> bool"
  assumes into_form: "\<exists>ps. into_value x = EntityValue (named_key kind (name x)) ps"
    and from_into: "ok x \<Longrightarrow> from_value (into_value x) = Inr x"
    and from_key: "from_value (EntityValue k ps) = from_value (EntityValue k' ps)"
begin

lemma stored_reads_back:
  assumes "ok x"
  shows "\<exists>ps. stored_form S kind (into_value x) = Some (Some (named_key (env_kind S kind) (name x)), Some ps) \<and>
    exec_bind (Entity_into_value (Some (named_key (env_kind S kind) (name x)), Some ps))
      (\<lambda>v. Done (from_value v)) = Done (Inr x)"
proof -
  obtain vs where vs: "into_value x = EntityValue (named_key kind (name x)) vs" using into_form by blast
  obtain ps where ps: "Entity_from_value (into_value x) = Inr (Some (named_key kind (name x)), Some ps)"
    "\<And>key'. Entity_into_value (Some key', Some ps) = Done (EntityValue key' vs)"
    using Entity_round_trip [of "named_key kind (name x)" vs] unfolding vs by blast
  from from_into [OF assms] have "from_value (EntityValue k vs) = Inr x" for k
    unfolding vs using from_key by metis
  with ps show ?thesis
    by (auto simp: stored_form_def suffix_kind_def named_key_def)
qed

text \<open>A read that answers, gives what the view holds.\<close>

lemma get_some:
  assumes "ok x" and "datastore_ok G S view"
    and "view d (env_kind S kind, n) = stored_form S kind (into_value x)"
    and "gcp_get G S kind from_value n d = Done (Inr r)"
  shows "r = Some x"
  using gcp_get_view [OF assms(2,4)] stored_reads_back [OF assms(1), of S] assms(3) by auto

lemma get_none:
  assumes "datastore_ok G S view" and "gcp_get G S kind from_value n d = Done (Inr None)"
  shows "view d (env_kind S kind, n) = None"
  using gcp_get_view [OF assms] by (auto split: option.splits)

text \<open>An insert writes the stored form of the value where there was none, or nothing.\<close>

lemma insert_effect:
  assumes "ok x" and "datastore_ok G S view" and "gcp_insert G S kind (into_value x) d = (d', r)"
  shows "view d' = view d \<and> r \<noteq> Inr () \<or>
    view d (env_kind S kind, name x) = None \<and>
    view d' = (view d)(((env_kind S kind), name x) := stored_form S kind (into_value x))"
proof -
  obtain ps where ps: "stored_form S kind (into_value x) = Some (Some (named_key (env_kind S kind) (name x)), Some ps)"
    using stored_reads_back [OF assms(1)] by blast
  with assms(3) have "ds_commit G (gcp_project S) (MInsert (Some (named_key (env_kind S kind) (name x)), Some ps)) d = (d', r)"
    by (auto simp: gcp_insert_def gcp_commit_def stored_form_def split: sum.splits)
  from datastore_insert [OF assms(2) this] ps show ?thesis by auto
qed

lemma insert_holds:
  assumes "ok x" and "datastore_ok G S view" and "gcp_insert G S kind (into_value x) d = (d', Inr ())"
  shows "store_holds view S kind from_value (name x) d' x"
  using insert_effect [OF assms] stored_reads_back [OF assms(1), of S] by (auto simp: store_holds_def)

text \<open>Well formed or not, an insert changes nothing that is stored.\<close>

lemma insert_extends:
  assumes "datastore_ok G S view" and "gcp_insert G S kind (into_value x) d = (d', r)"
  shows "view d \<subseteq>\<^sub>m view d'"
proof -
  obtain vs where vs: "into_value x = EntityValue (named_key kind (name x)) vs" using into_form by blast
  obtain ps where "Entity_from_value (into_value x) = Inr (Some (named_key kind (name x)), Some ps)"
    using Entity_round_trip [of "named_key kind (name x)" vs] unfolding vs by blast
  with assms(2) have "ds_commit G (gcp_project S) (MInsert (Some (named_key (env_kind S kind) (name x)), Some ps)) d = (d', r)"
    by (simp add: gcp_insert_def gcp_commit_def suffix_kind_def named_key_def)
  from datastore_insert [OF assms(1) this] show ?thesis by (auto simp: map_le_def)
qed

lemma upsert_effect:
  assumes "ok x" and "datastore_ok G S view" and "gcp_upsert G S kind (into_value x) d = (d', r)"
  shows "view d' = view d \<and> r \<noteq> Inr () \<or>
    view d' = (view d)(((env_kind S kind), name x) := stored_form S kind (into_value x))"
proof -
  obtain ps where ps: "stored_form S kind (into_value x) = Some (Some (named_key (env_kind S kind) (name x)), Some ps)"
    using stored_reads_back [OF assms(1)] by blast
  with assms(3) have "ds_commit G (gcp_project S) (MUpsert (Some (named_key (env_kind S kind) (name x)), Some ps)) d = (d', r)"
    by (auto simp: gcp_upsert_def gcp_commit_def stored_form_def split: sum.splits)
  from datastore_upsert [OF assms(2) this] ps show ?thesis by auto
qed

end

text \<open>A datastore that never fails, as a list of its entities.\<close>

type_synonym ex_store = "((string \<times> string) \<times> Entity) list"

definition ex_key :: "gkey option \<Rightarrow> string \<times> string" where
  "ex_key k =
     (case Option.bind k gk_path of
        Some (p # _) \<Rightarrow> (or_default [] (pe_kind p), or_default [] (pe_name p))
      | _ \<Rightarrow> ([], []))"

fun ex_commit :: "mutation \<Rightarrow> ex_store \<Rightarrow> ex_store \<times> (anyhow_error + unit)" where
  "ex_commit (MInsert e) d =
     (if map_of d (ex_key (fst e)) = None then (AList.update (ex_key (fst e)) e d, Inr ()) else (d, Inl ''exists''))"
| "ex_commit (MUpdate e) d =
     (if map_of d (ex_key (fst e)) = None then (d, Inl ''missing'') else (AList.update (ex_key (fst e)) e d, Inr ()))"
| "ex_commit (MUpsert e) d = (AList.update (ex_key (fst e)) e d, Inr ())"

definition ex_gcp :: "ex_store gcp_lib" where
  "ex_gcp = \<lparr>ds_lookup = (\<lambda>_ key d. Inr (Some (case map_of d (ex_key (Some key)) of None \<Rightarrow> [] | Some e \<Rightarrow> [Some e]))),
     ds_commit = (\<lambda>_. ex_commit),
     ds_query = (\<lambda>_ kind d. Inr (Some (Some (map (Some \<circ> snd) (filter (\<lambda>e. fst (fst e) = kind) d))))),
     sm_access = (\<lambda>name. Inr (Some (Some (string_bytes name))))\<rparr>"

definition ex_service :: GcpService where
  "ex_service = \<lparr>gcp_env = ''dev'', gcp_project = ''p''\<rparr>"

lemma ex_gcp_ok: "datastore_ok ex_gcp S map_of"
  by (auto simp: datastore_ok_def ex_gcp_def ex_key_def named_key_def update_conv' split: option.splits if_splits)

section \<open>Properties\<close>

text \<open>
  Values survive the client of the datastore. Every value, nested as deeply as it may be,
  has a form in the client's crate, and the conversion back neither panics nor changes it.
\<close>

theorem gcp_value_round_trip:
  "\<exists>a. api_from_value v = Inr a \<and> gvalue_from_api a = Done v"
  by (rule api_round_trip)

end
