(* ===== verification/Oidc.thy ===== *)
theory Oidc
  imports Gcp
begin

text \<open>
  Identity tokens: the token and its digest (\<^verbatim>\<open>sign_node/oidc.rs\<close>), its verification
  (\<^verbatim>\<open>oauth.rs\<close>), and the record of a claimed token in the datastore.
\<close>

section \<open>Text\<close>

text \<open>Decimal numbers as the standard library prints and parses them.\<close>

fun show_nat :: "nat \<Rightarrow> string" where
  "show_nat n = (if n < 10 then [char_of (48 + n)] else show_nat (n div 10) @ [char_of (48 + n mod 10)])"

declare show_nat.simps [simp del]

definition show_usize :: "u64 \<Rightarrow> string" where
  "show_usize x = show_nat (unat x)"

definition digit_value :: "char \<Rightarrow> nat option" where
  "digit_value c = (if 48 \<le> (of_char c :: nat) \<and> (of_char c :: nat) \<le> 57 then Some (of_char c - 48) else None)"

fun parse_digits :: "nat \<Rightarrow> string \<Rightarrow> nat option" where
  "parse_digits acc [] = Some acc"
| "parse_digits acc (c # cs) =
     (case digit_value c of None \<Rightarrow> None | Some d \<Rightarrow> parse_digits (10 * acc + d) cs)"

text \<open>A leading plus is accepted; an empty number and one that does not fit are errors.\<close>

definition parse_usize :: "string \<Rightarrow> anyhow_error + u64" where
  "parse_usize s =
     (let ds = (if s \<noteq> [] \<and> hd s = CHR ''+'' then tl s else s) in
      if ds = [] then Inl ''cannot parse integer from empty string''
      else case parse_digits 0 ds of
             None \<Rightarrow> Inl ''invalid digit found in string''
           | Some n \<Rightarrow> if n < 2 ^ 64 then Inr (of_nat n) else Inl ''number too large to fit in target type'')"

text \<open>\<open>rsplitn(2, c)\<close>: the text before and after the last occurrence of a character.\<close>

definition rsplit_once :: "char \<Rightarrow> string \<Rightarrow> (string \<times> string) option" where
  "rsplit_once c s =
     (if c \<in> set s
      then Some (rev (tl (dropWhile (\<lambda>x. x \<noteq> c) (rev s))), rev (takeWhile (\<lambda>x. x \<noteq> c) (rev s)))
      else None)"

section \<open>Tokens\<close>

datatype jwt_algorithm = RS256 | OtherAlgorithm string

record IdTokenClaims =
  itc_iss :: string
  itc_sub :: string
  itc_aud :: string
  itc_exp :: u64

definition get_internal_account_id :: "IdTokenClaims \<Rightarrow> InternalAccountId" where
  "get_internal_account_id claims = itc_iss claims @ '':'' @ itc_sub claims"

text \<open>Base64, \<open>serde_json\<close> and the crate \<open>jsonwebtoken\<close>, and the hash of a token.\<close>

record jwt_lib =
  b64_decode :: "string \<Rightarrow> anyhow_error + bytes"
  parse_jwt_header :: "bytes \<Rightarrow> anyhow_error + jwt_algorithm"
  parse_claims :: "bytes \<Rightarrow> anyhow_error + IdTokenClaims"
  rsa_pem_key :: "bytes \<Rightarrow> anyhow_error + bytes"
  jwt_verify :: "string \<Rightarrow> bytes \<Rightarrow> bytes \<Rightarrow> jwt_algorithm \<Rightarrow> anyhow_error + bool"

definition OidcToken_new :: "string \<Rightarrow> OidcToken" where
  "OidcToken_new data = \<lparr>token_data = data\<rparr>"

definition digest_hash :: "digest_lib \<Rightarrow> OidcToken \<Rightarrow> OidcHash" where
  "digest_hash B token = sha256_of B (string_bytes (token_data token))"

definition OidcToken_decode ::
  "jwt_lib \<Rightarrow> OidcToken \<Rightarrow> bytes \<Rightarrow> anyhow_error + jwt_algorithm \<times> IdTokenClaims \<times> string" where
  "OidcToken_decode J token key =
     (case rsplit_once (CHR ''.'') (token_data token) of
        None \<Rightarrow> Inl ''could not split into signature and message for OIDC token''
      | Some (message, signature) \<Rightarrow>
          (case rsplit_once (CHR ''.'') message of
             None \<Rightarrow> Inl ''could not split into payload and header for OIDC token''
           | Some (header_text, payload) \<Rightarrow>
               res_bind (res_bind (b64_decode J header_text) (parse_jwt_header J)) (\<lambda>alg.
               res_bind (res_bind (b64_decode J payload) (parse_claims J)) (\<lambda>claims.
               res_bind (jwt_verify J signature (string_bytes message) key alg) (\<lambda>valid.
               if \<not> valid then Inl ''InvalidSignature'' else Inr (alg, claims, signature))))))"

section \<open>Verification\<close>

definition validate_jwt ::
  "jwt_lib \<Rightarrow> OidcToken \<Rightarrow> bytes \<Rightarrow> OidcProviderList option \<Rightarrow> anyhow_error + IdTokenClaims" where
  "validate_jwt J token public_key oidc_providers =
     res_bind (rsa_pem_key J public_key) (\<lambda>decoding_key.
     res_bind (OidcToken_decode J token decoding_key) (\<lambda>(alg, claims, _).
     if (case oidc_providers of
           None \<Rightarrow> False
         | Some ps \<Rightarrow> \<not> OidcProviderList_contains ps (itc_iss claims) (itc_aud claims))
     then Inl ''UnauthorizedTokenIssuerOrAudience''
     else if alg \<noteq> RS256 then Inl ''InvalidAlgorithm''
     else Inr claims))"

text \<open>The loop over the keys of the issuer; the last error is reported.\<close>

fun try_keys ::
  "jwt_lib \<Rightarrow> OidcToken \<Rightarrow> OidcProviderList option \<Rightarrow> anyhow_error \<Rightarrow> string list \<Rightarrow> anyhow_error + IdTokenClaims" where
  "try_keys J token oidc_providers err [] = Inl err"
| "try_keys J token oidc_providers err (public_key # public_keys) =
     (case validate_jwt J token (string_bytes public_key) oidc_providers of
        Inr claims \<Rightarrow> Inr claims
      | Inl e \<Rightarrow> try_keys J token oidc_providers e public_keys)"

text \<open>\<open>keys\<close> is the answer of the server of the issuer's keys.\<close>

definition verify_oidc_token ::
  "jwt_lib \<Rightarrow> anyhow_error + string list \<Rightarrow> OidcToken \<Rightarrow> OidcProviderList option \<Rightarrow>
     anyhow_error + IdTokenClaims" where
  "verify_oidc_token J public_keys token oidc_providers =
     (case public_keys of
        Inl e \<Rightarrow> Inl (''failed to get Firebase public key: '' @ e)
      | Inr ks \<Rightarrow> try_keys J token oidc_providers ''Unexpected error. Firebase public keys not found'' ks)"

section \<open>Claimed tokens\<close>

text \<open>The text forms of keys and points are those of \<open>serde_json\<close>.\<close>

record codec_lib = hex_lib +
  json_key :: "near_public_key \<Rightarrow> string"
  json_key_from :: "string \<Rightarrow> anyhow_error + near_public_key"
  json_point :: "EdPoint \<Rightarrow> string"
  json_point_from :: "string \<Rightarrow> anyhow_error + EdPoint"
  json_points :: "EdPoint list \<Rightarrow> string"
  json_points_from :: "string \<Rightarrow> anyhow_error + EdPoint list"
  json_string :: "string \<Rightarrow> string"
  json_string_from :: "string \<Rightarrow> anyhow_error + string"
  debug_value :: "gvalue \<Rightarrow> string"

definition codec_ok :: "codec_lib \<Rightarrow> bool" where
  "codec_ok C \<longleftrightarrow> (\<forall>b. hex_decode C (hex_encode C b) = Inr b) \<and>
     (\<forall>k. json_key_from C (json_key C k) = Inr k) \<and>
     (\<forall>p. json_point_from C (json_point C p) = Inr p) \<and>
     (\<forall>ps. json_points_from C (json_points C ps) = Inr ps) \<and>
     (\<forall>s. json_string_from C (json_string C s) = Inr s)"

definition OidcDigest_kind :: string where
  "OidcDigest_kind = ''OidcDigest''"

definition OidcDigest_to_name :: "codec_lib \<Rightarrow> OidcDigest \<Rightarrow> string" where
  "OidcDigest_to_name C d = show_usize (od_node_id d) @ ''/'' @ hex_encode C (od_digest d)"

definition OidcDigest_into_value :: "codec_lib \<Rightarrow> OidcDigest \<Rightarrow> gvalue" where
  "OidcDigest_into_value C d =
     EntityValue (named_key OidcDigest_kind (OidcDigest_to_name C d))
       [(''node_id'', IntegerValue (od_node_id d)),
        (''digest'', StringValue (hex_encode C (od_digest d))),
        (''public_key'', StringValue (json_key C (od_public_key d)))]"

text \<open>\<open>remove_entry(..).ok_or_else(..)\<close>\<close>

definition property :: "string \<Rightarrow> (string \<times> gvalue) list \<Rightarrow> ConvertError + gvalue" where
  "property k ps = (case map_of ps k of None \<Rightarrow> Inl (MissingProperty k) | Some v \<Rightarrow> Inr v)"

definition malformed :: "string \<Rightarrow> 'e + 'a \<Rightarrow> ConvertError + 'a" where
  "malformed k r = (case r of Inl _ \<Rightarrow> Inl (MalformedProperty k) | Inr x \<Rightarrow> Inr x)"

fun OidcDigest_from_value :: "codec_lib \<Rightarrow> gvalue \<Rightarrow> ConvertError + OidcDigest" where
  "OidcDigest_from_value C (EntityValue _ ps) =
     res_bind (res_bind (property ''node_id'' ps) i64_from_value) (\<lambda>node_id.
     res_bind (res_bind (property ''digest'' ps) string_from_value) (\<lambda>digest_text.
     res_bind (malformed ''digest'' (hex_decode C digest_text)) (\<lambda>digest.
     res_bind (if length digest = 32 then Inr digest else Inl (MalformedProperty ''digest'')) (\<lambda>digest.
     res_bind (res_bind (property ''public_key'' ps) string_from_value) (\<lambda>key_text.
     res_bind (malformed ''public_key'' (json_key_from C key_text)) (\<lambda>public_key.
     Inr \<lparr>od_node_id = node_id, od_digest = digest, od_public_key = public_key\<rparr>))))))"
| "OidcDigest_from_value C v = Inl (UnexpectedPropertyType ''entity'' (debug_value C v))"

section \<open>Laws\<close>

lemmas entity_simps = property_def malformed_def

interpretation oidc_digest: stored_entity OidcDigest_kind "OidcDigest_into_value C" "OidcDigest_from_value C"
  "OidcDigest_to_name C" "\<lambda>d. codec_ok C \<and> length (od_digest d) = 32"
  by unfold_locales (auto simp: OidcDigest_into_value_def entity_simps codec_ok_def)

lemma OidcDigest_name_inj:
  assumes "codec_ok C" and "OidcDigest_to_name C d = OidcDigest_to_name C d'" and "od_node_id d = od_node_id d'"
  shows "od_digest d = od_digest d'"
proof -
  from assms(2,3) have "hex_encode C (od_digest d) = hex_encode C (od_digest d')"
    by (simp add: OidcDigest_to_name_def)
  moreover have "hex_decode C (hex_encode C x) = Inr x" for x using assms(1) by (simp add: codec_ok_def)
  ultimately show ?thesis by (metis sum.inject(2))
qed

lemma rsplit_once_Some:
  "rsplit_once c s = Some (a, b) \<longleftrightarrow> s = a @ c # b \<and> c \<notin> set b"
proof
  assume "rsplit_once c s = Some (a, b)"
  then have c: "c \<in> set (rev s)" and b: "rev b = takeWhile (\<lambda>x. x \<noteq> c) (rev s)"
    and a: "rev a = tl (dropWhile (\<lambda>x. x \<noteq> c) (rev s))"
    by (auto simp: rsplit_once_def split: if_splits)
  from c have ne: "dropWhile (\<lambda>x. x \<noteq> c) (rev s) \<noteq> []" by (simp only: dropWhile_eq_Nil_conv) blast
  with hd_dropWhile [of "\<lambda>x. x \<noteq> c" "rev s"] have "hd (dropWhile (\<lambda>x. x \<noteq> c) (rev s)) = c" by blast
  with ne a have "dropWhile (\<lambda>x. x \<noteq> c) (rev s) = c # rev a" by (cases "dropWhile (\<lambda>x. x \<noteq> c) (rev s)") simp_all
  with takeWhile_dropWhile_id [of "\<lambda>x. x \<noteq> c" "rev s"] b have "rev s = rev b @ c # rev a" by simp
  then have "rev (rev s) = rev (rev b @ c # rev a)" by simp
  then have "s = a @ c # b" by simp
  moreover have "c \<notin> set (rev b)" unfolding b by (auto dest: set_takeWhileD)
  ultimately show "s = a @ c # b \<and> c \<notin> set b" by simp
next
  assume s: "s = a @ c # b \<and> c \<notin> set b"
  then have "takeWhile (\<lambda>x. x \<noteq> c) (rev s) = rev b" "dropWhile (\<lambda>x. x \<noteq> c) (rev s) = c # rev a"
    by (auto simp: takeWhile_append dropWhile_append)
  with s show "rsplit_once c s = Some (a, b)" by (simp add: rsplit_once_def)
qed

text \<open>A token of the right shape under a key: its three parts, and what they say.\<close>

definition valid_under ::
  "jwt_lib \<Rightarrow> OidcProviderList option \<Rightarrow> OidcToken \<Rightarrow> string \<Rightarrow> IdTokenClaims \<Rightarrow> bool" where
  "valid_under J providers token k claims \<longleftrightarrow>
     (\<exists>key head payload signature.
        rsa_pem_key J (string_bytes k) = Inr key \<and>
        token_data token = head @ ''.'' @ payload @ ''.'' @ signature \<and>
        CHR ''.'' \<notin> set payload \<and> CHR ''.'' \<notin> set signature \<and>
        res_bind (b64_decode J head) (parse_jwt_header J) = Inr RS256 \<and>
        res_bind (b64_decode J payload) (parse_claims J) = Inr claims \<and>
        jwt_verify J signature (string_bytes (head @ ''.'' @ payload)) key RS256 = Inr True \<and>
        (\<forall>ps. providers = Some ps \<longrightarrow> OidcProviderList_contains ps (itc_iss claims) (itc_aud claims)))"

lemma OidcToken_decode_Inr:
  "OidcToken_decode J token key = Inr (alg, claims, signature) \<longleftrightarrow>
   (\<exists>head payload. token_data token = head @ ''.'' @ payload @ ''.'' @ signature \<and>
      CHR ''.'' \<notin> set payload \<and> CHR ''.'' \<notin> set signature \<and>
      res_bind (b64_decode J head) (parse_jwt_header J) = Inr alg \<and>
      res_bind (b64_decode J payload) (parse_claims J) = Inr claims \<and>
      jwt_verify J signature (string_bytes (head @ ''.'' @ payload)) key alg = Inr True)"
  (is "?l \<longleftrightarrow> ?r")
proof
  assume ?l
  then obtain message where m: "rsplit_once (CHR ''.'') (token_data token) = Some (message, signature)"
    by (auto simp: OidcToken_decode_def res_bind_eq_Inr split: option.splits if_splits)
  with \<open>?l\<close> obtain head payload where h: "rsplit_once (CHR ''.'') message = Some (head, payload)"
    by (auto simp: OidcToken_decode_def split: option.splits)
  from \<open>?l\<close> m h show ?r
    by (intro exI [of _ head] exI [of _ payload])
      (auto simp: OidcToken_decode_def res_bind_eq_Inr rsplit_once_Some split: if_splits)
next
  assume ?r
  then obtain head payload where
    t: "token_data token = head @ ''.'' @ payload @ ''.'' @ signature" "CHR ''.'' \<notin> set payload"
      "CHR ''.'' \<notin> set signature" "res_bind (b64_decode J head) (parse_jwt_header J) = Inr alg"
      "res_bind (b64_decode J payload) (parse_claims J) = Inr claims"
      "jwt_verify J signature (string_bytes (head @ ''.'' @ payload)) key alg = Inr True" by blast
  then have "rsplit_once (CHR ''.'') (token_data token) = Some (head @ ''.'' @ payload, signature)"
    "rsplit_once (CHR ''.'') (head @ ''.'' @ payload) = Some (head, payload)"
    by (simp_all add: rsplit_once_Some)
  with t(4-6) show ?l by (simp add: OidcToken_decode_def)
qed

lemma validate_jwt_Inr:
  "validate_jwt J token (string_bytes k) providers = Inr claims \<longleftrightarrow> valid_under J providers token k claims"
proof -
  have "validate_jwt J token (string_bytes k) providers = Inr claims \<longleftrightarrow>
      (\<exists>key signature. rsa_pem_key J (string_bytes k) = Inr key \<and>
         OidcToken_decode J token key = Inr (RS256, claims, signature) \<and>
         (\<forall>ps. providers = Some ps \<longrightarrow> OidcProviderList_contains ps (itc_iss claims) (itc_aud claims)))"
    by (cases providers) (auto simp: validate_jwt_def res_bind_eq_Inr split: if_splits)
  also have "\<dots> \<longleftrightarrow> valid_under J providers token k claims"
    unfolding OidcToken_decode_Inr valid_under_def by blast
  finally show ?thesis .
qed

text \<open>The claims are read from the token alone: two keys never give two answers.\<close>

lemma valid_under_claims:
  assumes "valid_under J providers token k claims" and "valid_under J providers token k' claims'"
  shows "claims = claims'"
proof -
  from assms obtain h p s h' p' s' where
    "token_data token = h @ ''.'' @ p @ ''.'' @ s" "CHR ''.'' \<notin> set p" "CHR ''.'' \<notin> set s"
    "token_data token = h' @ ''.'' @ p' @ ''.'' @ s'" "CHR ''.'' \<notin> set p'" "CHR ''.'' \<notin> set s'"
    and c: "res_bind (b64_decode J p) (parse_claims J) = Inr claims"
      "res_bind (b64_decode J p') (parse_claims J) = Inr claims'"
    unfolding valid_under_def by blast
  then have "rsplit_once (CHR ''.'') (token_data token) = Some (h @ ''.'' @ p, s)"
    "rsplit_once (CHR ''.'') (h @ ''.'' @ p) = Some (h, p)"
    "rsplit_once (CHR ''.'') (token_data token) = Some (h' @ ''.'' @ p', s')"
    "rsplit_once (CHR ''.'') (h' @ ''.'' @ p') = Some (h', p')"
    by (simp_all add: rsplit_once_Some)
  then have "p = p'" by auto
  with c show ?thesis by simp
qed

lemma try_keys_Inr:
  "try_keys J token providers err ks = Inr claims \<longleftrightarrow> (\<exists>k \<in> set ks. valid_under J providers token k claims)"
proof (induction ks arbitrary: err)
  case (Cons k ks)
  show ?case
  proof (cases "validate_jwt J token (string_bytes k) providers")
    case (Inl e)
    with validate_jwt_Inr [of J token k providers claims] Cons.IH [of e] show ?thesis by simp
  next
    case (Inr c)
    with validate_jwt_Inr have "valid_under J providers token k c" by blast
    with Inr valid_under_claims show ?thesis by auto
  qed
qed simp

text \<open>Codecs that read back what they write.\<close>

definition ex_text :: "bytes \<Rightarrow> string" where
  "ex_text bs = map (\<lambda>b. char_of (unat b)) bs"

definition ex_untext :: "string \<Rightarrow> bytes" where
  "ex_untext s = map (\<lambda>c. of_nat (of_char c)) s"

fun ex_points :: "EdPoint list \<Rightarrow> string" where
  "ex_points [] = []"
| "ex_points (p # ps) = concat (map (\<lambda>c. [CHR ''1'', c]) (ex_text p)) @ CHR ''0'' # ex_points ps"

fun ex_points_from :: "bytes \<Rightarrow> string \<Rightarrow> EdPoint list" where
  "ex_points_from acc (t # c # s) =
     (if t = CHR ''1'' then ex_points_from (of_nat (of_char c) # acc) s else rev acc # ex_points_from [] (c # s))"
| "ex_points_from acc [t] = [rev acc]"
| "ex_points_from acc [] = []"

definition ex_codec :: codec_lib where
  "ex_codec = \<lparr>hex_encode = ex_text, hex_decode = (\<lambda>s. Inr (ex_untext s)), signature_from_bytes = Inr,
     json_key = (\<lambda>k. case k of ED25519 b \<Rightarrow> CHR ''e'' # ex_text b | SECP256K1 b \<Rightarrow> CHR ''s'' # ex_text b),
     json_key_from = (\<lambda>s. case s of [] \<Rightarrow> Inl ''empty''
        | t # b \<Rightarrow> Inr (if t = CHR ''e'' then ED25519 (ex_untext b) else SECP256K1 (ex_untext b))),
     json_point = ex_text, json_point_from = (\<lambda>s. Inr (ex_untext s)),
     json_points = ex_points, json_points_from = (\<lambda>s. Inr (ex_points_from [] s)),
     json_string = id, json_string_from = Inr, debug_value = type_name\<rparr>"

lemma ex_untext_text: "ex_untext (ex_text b) = b"
proof -
  have "unat (x :: u8) < 256" for x using unsigned_less [of x, where 'a = nat] by simp
  then show ?thesis by (induction b) (auto simp: ex_untext_def ex_text_def of_char_of)
qed

lemma ex_points_from_word:
  "ex_points_from acc (concat (map (\<lambda>c. [CHR ''1'', c]) (ex_text p)) @ CHR ''0'' # s) =
     (rev acc @ p) # ex_points_from [] s"
proof (induction p arbitrary: acc)
  case Nil
  then show ?case by (cases s) (simp_all add: ex_text_def)
next
  case (Cons b p)
  have "of_nat (of_char (char_of (unat b) :: char)) = b" using ex_untext_text [of "[b]"]
    by (simp add: ex_text_def ex_untext_def)
  with Cons show ?case by (simp add: ex_text_def)
qed

lemma ex_codec_ok: "codec_ok ex_codec"
proof -
  have "ex_points_from [] (ex_points ps) = ps" for ps by (induction ps) (simp_all add: ex_points_from_word)
  then show ?thesis by (simp add: codec_ok_def ex_codec_def ex_untext_text split: near_public_key.split)
qed

section \<open>Properties\<close>


text \<open>
  The account of a user is named by issuer and subject joined with a colon, which both may
  contain: different users may share an account.
\<close>

lemma internal_account_ids_collide:
  "get_internal_account_id \<lparr>itc_iss = ''https'', itc_sub = ''//a:b'', itc_aud = [], itc_exp = 0\<rparr> =
   get_internal_account_id \<lparr>itc_iss = ''https://a'', itc_sub = ''b'', itc_aud = [], itc_exp = 0\<rparr>"
  by (simp add: get_internal_account_id_def)

end
