(* ===== verification/Credentials.thy ===== *)
theory Credentials
  imports Oidc
begin

text \<open>
  The two other things a sign node keeps in the datastore: the encrypted key pair of a user
  (\<^verbatim>\<open>sign_node/user_credentials.rs\<close>) and the public keys of the sign nodes
  (\<^verbatim>\<open>sign_node/pk_set.rs\<close>), and the rotation of the cipher (\<^verbatim>\<open>sign_node/migration.rs\<close>).
\<close>

section \<open>User credentials\<close>

text \<open>The key pairs of \<open>multi_party_eddsa\<close>: the public key and the rest, which is opaque.\<close>

record ExpandedKeyPair =
  kp_public_key :: EdPoint
  kp_secret :: bytes

text \<open>AES-GCM under a key, and the json form of key pairs. Both calls get a nonce.\<close>

record cipher_lib =
  aes_encrypt :: "bytes \<Rightarrow> bytes \<Rightarrow> bytes \<Rightarrow> string + bytes"
  aes_decrypt :: "bytes \<Rightarrow> bytes \<Rightarrow> bytes \<Rightarrow> string + bytes"
  json_key_pair :: "ExpandedKeyPair \<Rightarrow> anyhow_error + bytes"
  json_key_pair_from :: "bytes \<Rightarrow> anyhow_error + ExpandedKeyPair"

record EncryptedUserCredentials =
  euc_node_id :: u64
  euc_internal_account_id :: InternalAccountId
  euc_public_key :: EdPoint
  euc_encrypted_key_pair :: bytes

definition zero_nonce :: bytes where
  "zero_nonce = replicate 12 0"

definition EncryptedUserCredentials_new ::
  "cipher_lib \<Rightarrow> u64 \<Rightarrow> InternalAccountId \<Rightarrow> bytes \<Rightarrow> ExpandedKeyPair \<Rightarrow>
     (anyhow_error + EncryptedUserCredentials) exec" where
  "EncryptedUserCredentials_new A node_id internal_account_id cipher key_pair =
     (case json_key_pair A key_pair of
        Inl e \<Rightarrow> Done (Inl e)
      | Inr plain \<Rightarrow>
          (case aes_encrypt A cipher zero_nonce plain of
             Inl _ \<Rightarrow> Panics ''encrypt''
           | Inr encrypted_key_pair \<Rightarrow>
               Done (Inr \<lparr>euc_node_id = node_id, euc_internal_account_id = internal_account_id,
                          euc_public_key = kp_public_key key_pair,
                          euc_encrypted_key_pair = encrypted_key_pair\<rparr>)))"

text \<open>\<open>random\<close> draws the key pair; the drawn one is the argument.\<close>

definition EncryptedUserCredentials_random ::
  "cipher_lib \<Rightarrow> ExpandedKeyPair \<Rightarrow> u64 \<Rightarrow> InternalAccountId \<Rightarrow> bytes \<Rightarrow>
     (anyhow_error + EncryptedUserCredentials) exec" where
  "EncryptedUserCredentials_random A drawn node_id internal_account_id cipher =
     EncryptedUserCredentials_new A node_id internal_account_id cipher drawn"

definition decrypt_key_pair ::
  "cipher_lib \<Rightarrow> EncryptedUserCredentials \<Rightarrow> bytes \<Rightarrow> (anyhow_error + ExpandedKeyPair) exec" where
  "decrypt_key_pair A creds cipher =
     (case aes_decrypt A cipher zero_nonce (euc_encrypted_key_pair creds) of
        Inl _ \<Rightarrow> Panics ''decrypt''
      | Inr plain \<Rightarrow> Done (json_key_pair_from A plain))"

definition EncryptedUserCredentials_kind :: string where
  "EncryptedUserCredentials_kind = ''EncryptedUserCredentials''"

definition credentials_name :: "u64 \<Rightarrow> InternalAccountId \<Rightarrow> string" where
  "credentials_name node_id internal_account_id = show_usize node_id @ ''/'' @ internal_account_id"

definition EncryptedUserCredentials_into_value :: "codec_lib \<Rightarrow> EncryptedUserCredentials \<Rightarrow> gvalue" where
  "EncryptedUserCredentials_into_value C c =
     EntityValue (named_key EncryptedUserCredentials_kind
         (credentials_name (euc_node_id c) (euc_internal_account_id c)))
       [(''node_id'', IntegerValue (euc_node_id c)),
        (''internal_account_id'', StringValue (euc_internal_account_id c)),
        (''public_key'', StringValue (json_point C (euc_public_key c))),
        (''encrypted_key_pair'', StringValue (json_string C (hex_encode C (euc_encrypted_key_pair c))))]"

fun EncryptedUserCredentials_from_value :: "codec_lib \<Rightarrow> gvalue \<Rightarrow> ConvertError + EncryptedUserCredentials" where
  "EncryptedUserCredentials_from_value C (EntityValue _ ps) =
     res_bind (res_bind (property ''node_id'' ps) i64_from_value) (\<lambda>node_id.
     res_bind (res_bind (property ''internal_account_id'' ps) string_from_value) (\<lambda>internal_account_id.
     res_bind (res_bind (property ''public_key'' ps) string_from_value) (\<lambda>key_text.
     res_bind (malformed ''public_key'' (json_point_from C key_text)) (\<lambda>public_key.
     res_bind (res_bind (property ''encrypted_key_pair'' ps) string_from_value) (\<lambda>pair_text.
     res_bind (malformed ''encrypted_key_pair'' (res_bind (json_string_from C pair_text) (hex_decode C))) (\<lambda>pair.
     Inr \<lparr>euc_node_id = node_id, euc_internal_account_id = internal_account_id,
          euc_public_key = public_key, euc_encrypted_key_pair = pair\<rparr>))))))"
| "EncryptedUserCredentials_from_value C v = Inl (UnexpectedPropertyType ''entity'' (debug_value C v))"

section \<open>The public keys of the sign nodes\<close>

definition MAIN_KEY :: string where
  "MAIN_KEY = ''main''"

record SignerNodePkSet =
  ps_node_id :: u64
  ps_public_keys :: "EdPoint list"

definition SignerNodePkSet_kind :: string where
  "SignerNodePkSet_kind = ''SignerNodePkSet''"

definition pk_set_name :: "u64 \<Rightarrow> string" where
  "pk_set_name node_id = show_usize node_id @ ''/'' @ MAIN_KEY"

definition SignerNodePkSet_into_value :: "codec_lib \<Rightarrow> SignerNodePkSet \<Rightarrow> gvalue" where
  "SignerNodePkSet_into_value C s =
     EntityValue (named_key SignerNodePkSet_kind (pk_set_name (ps_node_id s)))
       [(''node_id'', IntegerValue (ps_node_id s)),
        (''public_keys'', StringValue (json_points C (ps_public_keys s)))]"

fun SignerNodePkSet_from_value :: "codec_lib \<Rightarrow> gvalue \<Rightarrow> ConvertError + SignerNodePkSet" where
  "SignerNodePkSet_from_value C (EntityValue _ ps) =
     res_bind (res_bind (property ''node_id'' ps) i64_from_value) (\<lambda>node_id.
     res_bind (res_bind (property ''public_keys'' ps) string_from_value) (\<lambda>keys_text.
     res_bind (malformed ''public_keys'' (json_points_from C keys_text)) (\<lambda>public_keys.
     Inr \<lparr>ps_node_id = node_id, ps_public_keys = public_keys\<rparr>)))"
| "SignerNodePkSet_from_value C v = Inl (UnexpectedPropertyType ''entity'' (debug_value C v))"

section \<open>Rotation of the cipher\<close>

text \<open>
  The entities of the source are rewritten in the destination, which may be the same
  datastore, under the new cipher; those of other nodes are skipped, and the first
  error ends the rotation with what was written so far.
\<close>

definition entity_node_id :: "Entity \<Rightarrow> (anyhow_error + u64) exec" where
  "entity_node_id e =
     (case fst e of
        None \<Rightarrow> Done (Inl ''`key` attr cannot be found'')
      | Some key \<Rightarrow>
          (case gk_path key of
             None \<Rightarrow> Done (Inl ''`path` attr cannot be found'')
           | Some [] \<Rightarrow> Panics ''index out of bounds''
           | Some (p # _) \<Rightarrow>
               (case pe_name p of
                  None \<Rightarrow> Done (Inl ''`name` attr cannot be found'')
                | Some name \<Rightarrow> Done (parse_usize (takeWhile (\<lambda>c. c \<noteq> CHR ''/'') name)))))"

definition rotate_one ::
  "'d gcp_lib \<Rightarrow> codec_lib \<Rightarrow> cipher_lib \<Rightarrow> u64 \<Rightarrow> bytes \<Rightarrow> bytes \<Rightarrow> GcpService \<Rightarrow> Entity option \<Rightarrow> 'd \<Rightarrow>
     ('d \<times> (anyhow_error + unit)) exec" where
  "rotate_one G C A node_id old_cipher new_cipher dest entity d =
     (case entity of
        None \<Rightarrow> Done (d, Inl ''`entity` attr cannot be found'')
      | Some old_entity \<Rightarrow>
          exec_bind (entity_node_id old_entity) (\<lambda>r.
          case r of
            Inl e \<Rightarrow> Done (d, Inl e)
          | Inr owner \<Rightarrow>
              if node_id \<noteq> owner then Done (d, Inr ())
              else
                exec_bind (Entity_into_value old_entity) (\<lambda>v.
                case EncryptedUserCredentials_from_value C v of
                  Inl _ \<Rightarrow> Done (d, Inl ''conversion failed'')
                | Inr old_cred \<Rightarrow>
                    exec_bind (decrypt_key_pair A old_cred old_cipher) (\<lambda>kp.
                    case kp of
                      Inl e \<Rightarrow> Done (d, Inl e)
                    | Inr key_pair \<Rightarrow>
                        exec_bind (EncryptedUserCredentials_new A (euc_node_id old_cred)
                                     (euc_internal_account_id old_cred) new_cipher key_pair) (\<lambda>nc.
                        case nc of
                          Inl e \<Rightarrow> Done (d, Inl e)
                        | Inr new_cred \<Rightarrow>
                            Done (gcp_upsert G dest EncryptedUserCredentials_kind
                                    (EncryptedUserCredentials_into_value C new_cred) d))))))"

fun rotate_all ::
  "'d gcp_lib \<Rightarrow> codec_lib \<Rightarrow> cipher_lib \<Rightarrow> u64 \<Rightarrow> bytes \<Rightarrow> bytes \<Rightarrow> GcpService \<Rightarrow> Entity option list \<Rightarrow> 'd \<Rightarrow>
     ('d \<times> (anyhow_error + unit)) exec" where
  "rotate_all G C A node_id old_cipher new_cipher dest [] d = Done (d, Inr ())"
| "rotate_all G C A node_id old_cipher new_cipher dest (entity # entities) d =
     exec_bind (rotate_one G C A node_id old_cipher new_cipher dest entity d) (\<lambda>(d', r).
     case r of
       Inl e \<Rightarrow> Done (d', Inl e)
     | Inr () \<Rightarrow> rotate_all G C A node_id old_cipher new_cipher dest entities d')"

definition rotate_cipher ::
  "'d gcp_lib \<Rightarrow> codec_lib \<Rightarrow> cipher_lib \<Rightarrow> u64 \<Rightarrow> bytes \<Rightarrow> bytes \<Rightarrow> GcpService \<Rightarrow> GcpService \<Rightarrow> 'd \<Rightarrow>
     ('d \<times> (anyhow_error + unit)) exec" where
  "rotate_cipher G C A node_id old_cipher new_cipher src dest d =
     (case fetch_entities G src EncryptedUserCredentials_kind d of
        Inl e \<Rightarrow> Done (d, Inl e)
      | Inr entities \<Rightarrow> rotate_all G C A node_id old_cipher new_cipher dest entities d)"

section \<open>Laws\<close>

interpretation user_credentials: stored_entity EncryptedUserCredentials_kind
  "EncryptedUserCredentials_into_value C" "EncryptedUserCredentials_from_value C"
  "\<lambda>c. credentials_name (euc_node_id c) (euc_internal_account_id c)" "\<lambda>_. codec_ok C"
  by unfold_locales (auto simp: EncryptedUserCredentials_into_value_def entity_simps codec_ok_def)

interpretation pk_set: stored_entity SignerNodePkSet_kind
  "SignerNodePkSet_into_value C" "SignerNodePkSet_from_value C" "\<lambda>s. pk_set_name (ps_node_id s)" "\<lambda>_. codec_ok C"
  by unfold_locales (auto simp: SignerNodePkSet_into_value_def entity_simps codec_ok_def)

definition cipher_ok :: "cipher_lib \<Rightarrow> bool" where
  "cipher_ok A \<longleftrightarrow> (\<forall>k n m c. aes_encrypt A k n m = Inr c \<longrightarrow> aes_decrypt A k n c = Inr m) \<and>
     (\<forall>p b. json_key_pair A p = Inr b \<longrightarrow> json_key_pair_from A b = Inr p)"

lemma new_credentials_decrypt:
  assumes "cipher_ok A" and "EncryptedUserCredentials_new A n a k p = Done (Inr c)"
  shows "decrypt_key_pair A c k = Done (Inr p)" and "euc_public_key c = kp_public_key p"
    and "euc_node_id c = n" and "euc_internal_account_id c = a"
  using assms
  by (auto simp: EncryptedUserCredentials_new_def decrypt_key_pair_def cipher_ok_def split: sum.splits)

text \<open>Numbers print and parse.\<close>

lemma digit_value_char: "d < 10 \<Longrightarrow> digit_value (char_of (48 + d)) = Some d"
  by (simp add: digit_value_def of_char_of)

lemma parse_digits_append:
  "parse_digits acc (s @ t) = Option.bind (parse_digits acc s) (\<lambda>n. parse_digits n t)"
  by (induction s arbitrary: acc) (auto split: option.splits)

lemma parse_digits_show: "parse_digits 0 (show_nat n) = Some n"
proof (induction n rule: show_nat.induct)
  case (1 n)
  show ?case
  proof (cases "n < 10")
    case True
    then show ?thesis by (subst show_nat.simps) (simp add: digit_value_char)
  next
    case False
    with 1 show ?thesis by (subst show_nat.simps) (simp add: digit_value_char parse_digits_append)
  qed
qed

lemma show_nat_digits: "c \<in> set (show_nat n) \<Longrightarrow> 48 \<le> (of_char c :: nat)"
proof (induction n rule: show_nat.induct)
  case (1 n)
  have "(of_char (char_of (48 + n mod 10 :: nat)) :: nat) = 48 + n mod 10" by (simp add: of_char_of)
  with 1 show ?case unfolding show_nat.simps [of n] by (cases "n < 10") (auto simp: of_char_of)
qed

lemma show_nat_not_Nil: "show_nat n \<noteq> []"
  by (subst show_nat.simps) simp

lemma show_usize_signs: "CHR ''+'' \<notin> set (show_usize x)" "CHR ''/'' \<notin> set (show_usize x)"
  unfolding show_usize_def by (auto dest: show_nat_digits)

lemma parse_usize_show: "parse_usize (show_usize x) = Inr x"
proof -
  have "hd (show_usize x) \<in> set (show_usize x)" by (simp add: show_usize_def show_nat_not_Nil)
  with show_usize_signs(1) have "hd (show_usize x) \<noteq> CHR ''+''" by metis
  moreover have "unat x < 2 ^ 64" using unsigned_less [of x, where 'a = nat] by simp
  ultimately show ?thesis
    by (simp add: parse_usize_def show_usize_def parse_digits_show show_nat_not_Nil)
qed

lemma show_usize_slash:
  "takeWhile (\<lambda>c. c \<noteq> CHR ''/'') (show_usize x @ ''/'' @ s) = show_usize x"
  using show_usize_signs(2) [of x] by (subst takeWhile_append2) auto

text \<open>Names under different nodes or for different users are different.\<close>

lemma slash_names_inj: "show_usize x @ ''/'' @ s = show_usize y @ ''/'' @ t \<longleftrightarrow> x = y \<and> s = t"
proof
  assume eq: "show_usize x @ ''/'' @ s = show_usize y @ ''/'' @ t"
  then have "show_usize x = show_usize y" using show_usize_slash by metis
  with parse_usize_show have "x = y" by (metis sum.inject(2))
  with eq show "x = y \<and> s = t" by simp
qed simp

lemma credentials_name_inj: "credentials_name n a = credentials_name m b \<longleftrightarrow> n = m \<and> a = b"
  unfolding credentials_name_def by (rule slash_names_inj)

definition cred_key :: "GcpService \<Rightarrow> EncryptedUserCredentials \<Rightarrow> string \<times> string" where
  "cred_key S c = (env_kind S EncryptedUserCredentials_kind,
     credentials_name (euc_node_id c) (euc_internal_account_id c))"

abbreviation stored_cred :: "GcpService \<Rightarrow> codec_lib \<Rightarrow> EncryptedUserCredentials \<Rightarrow> Entity option" where
  "stored_cred S C c \<equiv> stored_form S EncryptedUserCredentials_kind (EncryptedUserCredentials_into_value C c)"

text \<open>The new form of a key pair: the same pair, readable under the new cipher.\<close>

definition rotated ::
  "cipher_lib \<Rightarrow> bytes \<Rightarrow> bytes \<Rightarrow> EncryptedUserCredentials \<Rightarrow> EncryptedUserCredentials \<Rightarrow> bool" where
  "rotated A old_cipher new_cipher c c' \<longleftrightarrow>
     (\<exists>p. decrypt_key_pair A c old_cipher = Done (Inr p) \<and> decrypt_key_pair A c' new_cipher = Done (Inr p) \<and>
        euc_public_key c' = kp_public_key p) \<and>
     euc_node_id c' = euc_node_id c \<and> euc_internal_account_id c' = euc_internal_account_id c"

text \<open>On credentials as a node stores them, a turn of the loop comes down to this.\<close>

lemma rotate_one_stored:
  assumes "codec_ok C" and "stored_cred src C c = Some e"
  shows "rotate_one G C A node_id old_cipher new_cipher dest (Some e) d =
    (if node_id \<noteq> euc_node_id c then Done (d, Inr ())
     else exec_bind (decrypt_key_pair A c old_cipher) (\<lambda>kp.
       case kp of
         Inl e \<Rightarrow> Done (d, Inl e)
       | Inr key_pair \<Rightarrow>
           exec_bind (EncryptedUserCredentials_new A (euc_node_id c) (euc_internal_account_id c) new_cipher key_pair) (\<lambda>nc.
           case nc of
             Inl e \<Rightarrow> Done (d, Inl e)
           | Inr new_cred \<Rightarrow>
               Done (gcp_upsert G dest EncryptedUserCredentials_kind (EncryptedUserCredentials_into_value C new_cred) d))))"
proof -
  obtain ps where e': "e = (Some (named_key (fst (cred_key src c)) (snd (cred_key src c))), Some ps)"
    and reads: "exec_bind (Entity_into_value e) (\<lambda>v. Done (EncryptedUserCredentials_from_value C v)) = Done (Inr c)"
    using user_credentials.stored_reads_back [OF assms(1), of src c] assms(2) by (auto simp: cred_key_def)
  have owner: "entity_node_id e = Done (Inr (euc_node_id c))"
    using show_usize_slash
    by (simp add: e' cred_key_def entity_node_id_def named_key_def credentials_name_def parse_usize_show)
  from reads obtain v where "Entity_into_value e = Done v" "EncryptedUserCredentials_from_value C v = Inr c"
    by (auto simp: exec_bind_eq_Done)
  with owner show ?thesis by (simp add: rotate_one_def)
qed

lemma rotate_one_effect:
  assumes ok: "codec_ok C" "cipher_ok A" "datastore_ok G dest view"
    and e: "stored_cred src C c = Some e"
    and r: "rotate_one G C A node_id old_cipher new_cipher dest (Some e) d = Done (d', Inr ())"
  shows "if euc_node_id c = node_id
    then \<exists>c'. rotated A old_cipher new_cipher c c' \<and> view d' = (view d)(cred_key dest c := stored_cred dest C c')
    else d' = d"
proof (cases "euc_node_id c = node_id")
  case True
  note r' = r [unfolded rotate_one_stored [OF ok(1) e]]
  with True obtain kp where kp: "decrypt_key_pair A c old_cipher = Done kp" by (auto simp: exec_bind_eq_Done)
  with True r' obtain p where p: "kp = Inr p" by (cases kp) auto
  with True kp r' obtain nc where
    nc: "EncryptedUserCredentials_new A node_id (euc_internal_account_id c) new_cipher p = Done nc"
    by (auto simp: exec_bind_eq_Done)
  with True kp p r' obtain c' where c': "nc = Inr c'" by (cases nc) auto
  with True kp p nc r'
  have up: "gcp_upsert G dest EncryptedUserCredentials_kind (EncryptedUserCredentials_into_value C c') d = (d', Inr ())"
    by simp
  note new = new_credentials_decrypt [OF ok(2) nc [unfolded c']]
  with user_credentials.upsert_effect [OF ok(1,3) up] kp p True show ?thesis
    by (auto simp: rotated_def cred_key_def)
qed (use r in \<open>simp add: rotate_one_stored [OF ok(1) e]\<close>)

lemma rotate_all_Cons:
  assumes "rotate_all G C A node_id old_cipher new_cipher dest (e # es) d = Done (d', Inr ())"
  obtains d1 where "rotate_one G C A node_id old_cipher new_cipher dest e d = Done (d1, Inr ())"
    and "rotate_all G C A node_id old_cipher new_cipher dest es d1 = Done (d', Inr ())"
proof -
  from assms obtain d1 r where one: "rotate_one G C A node_id old_cipher new_cipher dest e d = Done (d1, r)"
    by (auto simp: exec_bind_eq_Done)
  with assms that show ?thesis by (cases r) (auto simp: case_unit_Unity)
qed

lemma rotate_all_effect:
  assumes "codec_ok C" "cipher_ok A" "datastore_ok G dest view"
  shows "list_all2 (\<lambda>c e. \<exists>x. e = Some x \<and> stored_cred src C c = Some x) cs es \<Longrightarrow>
    distinct (map (\<lambda>c. (euc_node_id c, euc_internal_account_id c)) cs) \<Longrightarrow>
    rotate_all G C A node_id old_cipher new_cipher dest es d = Done (d', Inr ()) \<Longrightarrow>
    (\<forall>c \<in> set cs. euc_node_id c = node_id \<longrightarrow>
       (\<exists>c'. rotated A old_cipher new_cipher c c' \<and> view d' (cred_key dest c) = stored_cred dest C c')) \<and>
    (\<forall>k. (\<forall>c \<in> set cs. euc_node_id c = node_id \<longrightarrow> k \<noteq> cred_key dest c) \<longrightarrow> view d' k = view d k)"
proof (induction cs es arbitrary: d rule: list_all2_induct)
  case (Cons c cs e es)
  from Cons.hyps obtain x where x: "e = Some x" "stored_cred src C c = Some x" by blast
  from Cons.prems(2) obtain d1 where
    one: "rotate_one G C A node_id old_cipher new_cipher dest (Some x) d = Done (d1, Inr ())" and
    rest: "rotate_all G C A node_id old_cipher new_cipher dest es d1 = Done (d', Inr ())"
    unfolding x(1) by (rule rotate_all_Cons)
  from Cons.prems(1) have fresh: "\<forall>c' \<in> set cs. cred_key dest c \<noteq> cred_key dest c'"
    by (auto simp: cred_key_def credentials_name_inj)
  from Cons.prems(1) have "distinct (map (\<lambda>c. (euc_node_id c, euc_internal_account_id c)) cs)" by simp
  note IH = Cons.IH [OF this rest]
  from IH fresh have keep: "view d' (cred_key dest c) = view d1 (cred_key dest c)" by blast
  show ?case
  proof (cases "euc_node_id c = node_id")
    case True
    with rotate_one_effect [OF assms x(2) one] obtain c' where
      c': "rotated A old_cipher new_cipher c c'" "view d1 = (view d)(cred_key dest c := stored_cred dest C c')" by auto
    from c'(2) keep have "view d' (cred_key dest c) = stored_cred dest C c'" by simp
    with IH c' True show ?thesis by auto
  next
    case False
    with rotate_one_effect [OF assms x(2) one] have "d1 = d" by simp
    with IH False show ?thesis by auto
  qed
qed simp

text \<open>A cipher that refuses other keys, and a text form of key pairs.\<close>

fun ex_dec :: "bytes \<Rightarrow> bytes \<times> bytes" where
  "ex_dec (t # b # r) = (if t = 0 then ([], b # r) else (b # fst (ex_dec r), snd (ex_dec r)))"
| "ex_dec r = ([], [])"

lemma ex_dec_enc: "ex_dec (ex_enc a @ r) = (a, r)"
proof (induction a)
  case Nil
  show ?case by (cases r) simp_all
qed simp

definition ex_cipher :: cipher_lib where
  "ex_cipher = \<lparr>aes_encrypt = (\<lambda>k n m. Inr (ex_enc k @ m)),
     aes_decrypt = (\<lambda>k n c. if fst (ex_dec c) = k then Inr (snd (ex_dec c)) else Inl ''aead::Error''),
     json_key_pair = (\<lambda>p. Inr (ex_enc (kp_public_key p) @ kp_secret p)),
     json_key_pair_from = (\<lambda>b. Inr \<lparr>kp_public_key = fst (ex_dec b), kp_secret = snd (ex_dec b)\<rparr>)\<rparr>"

lemma ex_cipher_ok: "cipher_ok ex_cipher"
  by (auto simp: cipher_ok_def ex_cipher_def ex_dec_enc)

section \<open>Properties\<close>


text \<open>Two users, of which one belongs to the node.\<close>

definition ex_users :: "EncryptedUserCredentials list" where
  "ex_users = [\<lparr>euc_node_id = 0, euc_internal_account_id = ''i:a'', euc_public_key = [7],
       euc_encrypted_key_pair = [1, 5, 0] @ [1, 7, 0, 9]\<rparr>,
     \<lparr>euc_node_id = 1, euc_internal_account_id = ''i:a'', euc_public_key = [8], euc_encrypted_key_pair = []\<rparr>]"

definition ex_user_store :: ex_store where
  "ex_user_store = map (\<lambda>c. (cred_key ex_service c, case stored_cred ex_service ex_codec c of Some e \<Rightarrow> e)) ex_users"

lemma ex_upsert: "\<exists>d'. gcp_upsert ex_gcp S k (EncryptedUserCredentials_into_value C c) d = (d', Inr ())"
  using Entity_round_trip
  by (fastforce simp: gcp_upsert_def gcp_commit_def ex_gcp_def EncryptedUserCredentials_into_value_def)

lemma ex_rotation:
  "\<exists>d'. rotate_all ex_gcp ex_codec ex_cipher 0 [5] [6] ex_service (map (stored_cred ex_service ex_codec) ex_users) d =
     Done (d', Inr ())"
proof -
  obtain e e' where e: "stored_cred ex_service ex_codec (hd ex_users) = Some e"
    "stored_cred ex_service ex_codec (last ex_users) = Some e'"
    using user_credentials.stored_reads_back [OF ex_codec_ok] by blast
  have "euc_node_id (hd ex_users) = 0" "euc_node_id (last ex_users) = 1"
    "decrypt_key_pair ex_cipher (hd ex_users) [5] = Done (Inr \<lparr>kp_public_key = [7], kp_secret = [9]\<rparr>)"
    by (simp_all add: ex_users_def decrypt_key_pair_def ex_cipher_def)
  moreover obtain c where
    "EncryptedUserCredentials_new ex_cipher (euc_node_id (hd ex_users)) (euc_internal_account_id (hd ex_users)) [6]
      \<lparr>kp_public_key = [7], kp_secret = [9]\<rparr> = Done (Inr c)"
    by (simp add: EncryptedUserCredentials_new_def ex_cipher_def)
  moreover obtain d' where "gcp_upsert ex_gcp ex_service EncryptedUserCredentials_kind
      (EncryptedUserCredentials_into_value ex_codec c) d = (d', Inr ())"
    using ex_upsert by blast
  ultimately have "rotate_one ex_gcp ex_codec ex_cipher 0 [5] [6] ex_service (Some e) d = Done (d', Inr ())"
    "rotate_one ex_gcp ex_codec ex_cipher 0 [5] [6] ex_service (Some e') d' = Done (d', Inr ())"
    by (simp_all add: rotate_one_stored [OF ex_codec_ok e(1)] rotate_one_stored [OF ex_codec_ok e(2)])
  moreover have "map (stored_cred ex_service ex_codec) ex_users = [Some e, Some e']"
    using e by (simp add: ex_users_def)
  ultimately show ?thesis by (simp add: case_unit_Unity)
qed


end
