(* ===== verification/Recovery_Cli.thy ===== *)
theory Recovery_Cli
  imports Credentials Node_Services
begin

text \<open>
  The command lines: the commands of the recovery service with the secrets they load
  (\<^verbatim>\<open>mpc-recovery/src/lib.rs\<close>, the options of \<^verbatim>\<open>logging.rs\<close>), the command of a signing node
  (\<^verbatim>\<open>node/src/cli.rs\<close>), and the lists of arguments that other programs start them with. What
  \<^verbatim>\<open>clap\<close> does with such a list is not modelled.
\<close>

section \<open>Options\<close>

type_synonym u16 = "16 word"
type_synonym SecretKey = bytes
type_synonym PathBuf = bytes

definition show_u16 :: "u16 \<Rightarrow> string" where
  "show_u16 x = show_nat (unat x)"

datatype OpenTelemetryLevel = OFF | INFO | DEBUG | TRACE

fun show_level :: "OpenTelemetryLevel \<Rightarrow> string" where
  "show_level OFF = ''off''"
| "show_level INFO = ''info''"
| "show_level DEBUG = ''debug''"
| "show_level TRACE = ''trace''"

datatype ColorOutput = Auto | Always | Never

fun show_color :: "ColorOutput \<Rightarrow> string" where
  "show_color Auto = ''auto''"
| "show_color Always = ''always''"
| "show_color Never = ''never''"

record logging_Options =
  lo_opentelemetry_level :: OpenTelemetryLevel
  lo_otlp_endpoint :: string
  lo_color :: ColorOutput
  lo_log_span_events :: bool

definition logging_default :: logging_Options where
  "logging_default = \<lparr>lo_opentelemetry_level = OFF, lo_otlp_endpoint = ''http://localhost:4317'', lo_color = Auto,
     lo_log_span_events = False\<rparr>"

definition logging_into_str_args :: "logging_Options \<Rightarrow> string list" where
  "logging_into_str_args opts =
     [''--opentelemetry-level'', show_level (lo_opentelemetry_level opts),
      ''--otlp-endpoint'', lo_otlp_endpoint opts,
      ''--color'', show_color (lo_color opts)] @
     (if lo_log_span_events opts then [''--log-span-events''] else [])"

text \<open>\<open>no_color\<close>: the variable \<open>NO_COLOR\<close> is set; \<open>terminal\<close>: the errors go to a terminal.\<close>

definition use_color_output :: "bool \<Rightarrow> bool \<Rightarrow> logging_Options \<Rightarrow> bool" where
  "use_color_output no_color terminal opts =
     (case lo_color opts of Auto \<Rightarrow> \<not> no_color \<and> terminal | Always \<Rightarrow> True | Never \<Rightarrow> False)"

section \<open>Commands\<close>

record StartLeader =
  sl_env :: string
  sl_web_port :: u16
  sl_sign_nodes :: "string list"
  sl_near_rpc :: string
  sl_near_root_account :: string
  sl_account_creator_id :: AccountId
  sl_account_creator_sk :: "SecretKey list"
  sl_fast_auth_partners :: "string option"
  sl_fast_auth_partners_filepath :: "PathBuf option"
  sl_gcp_project_id :: string
  sl_gcp_datastore_url :: "string option"
  sl_jwt_signature_pk_url :: string
  sl_logging_options :: logging_Options

record StartSign =
  st_env :: string
  st_node_id :: u64
  st_cipher_key :: "string option"
  st_sk_share :: "string option"
  st_web_port :: u16
  st_gcp_project_id :: string
  st_gcp_datastore_url :: "string option"
  st_jwt_signature_pk_url :: string
  st_logging_options :: logging_Options

record RotateSignNodeCipher =
  ro_env :: string
  ro_new_env :: "string option"
  ro_node_id :: u64
  ro_old_cipher_key :: "string option"
  ro_new_cipher_key :: "string option"
  ro_gcp_project_id :: string
  ro_gcp_datastore_url :: "string option"
  ro_logging_options :: logging_Options

datatype Cli =
    Generate u64
  | CliStartLeader StartLeader
  | CliStartSign StartSign
  | CliRotate RotateSignNodeCipher

definition opt_arg :: "string \<Rightarrow> string option \<Rightarrow> string list" where
  "opt_arg name v = (case v of None \<Rightarrow> [] | Some x \<Rightarrow> [name, x])"

text \<open>\<open>json_sks\<close> prints keys as json, \<open>path_str\<close> is the text of a path when it is one.\<close>

fun Cli_into_str_args :: "(SecretKey list \<Rightarrow> string) \<Rightarrow> (PathBuf \<Rightarrow> string option) \<Rightarrow> Cli \<Rightarrow> string list exec" where
  "Cli_into_str_args json_sks path_str (Generate n) = Done [''generate'', show_usize n]"
| "Cli_into_str_args json_sks path_str (CliStartLeader c) =
     exec_bind (case sl_fast_auth_partners_filepath c of
                  None \<Rightarrow> Done None
                | Some p \<Rightarrow> exec_bind (unwrap ''to_str'' (path_str p)) (\<lambda>s. Done (Some s))) (\<lambda>partners_filepath.
     Done ([''start-leader'', ''--env'', sl_env c, ''--web-port'', show_u16 (sl_web_port c),
            ''--near-rpc'', sl_near_rpc c, ''--near-root-account'', sl_near_root_account c,
            ''--account-creator-id'', sl_account_creator_id c, ''--gcp-project-id'', sl_gcp_project_id c,
            ''--jwt-signature-pk-url'', sl_jwt_signature_pk_url c] @
           opt_arg ''--fast-auth-partners'' (sl_fast_auth_partners c) @
           opt_arg ''--fast-auth-partners-filepath'' partners_filepath @
           opt_arg ''--gcp-datastore-url'' (sl_gcp_datastore_url c) @
           concat (map (\<lambda>n. [''--sign-nodes'', n]) (sl_sign_nodes c)) @
           [''--account-creator-sk'', json_sks (sl_account_creator_sk c)] @
           logging_into_str_args (sl_logging_options c)))"
| "Cli_into_str_args json_sks path_str (CliStartSign c) =
     Done ([''start-sign'', ''--env'', st_env c, ''--node-id'', show_usize (st_node_id c),
            ''--web-port'', show_u16 (st_web_port c), ''--gcp-project-id'', st_gcp_project_id c,
            ''--jwt-signature-pk-url'', st_jwt_signature_pk_url c] @
           opt_arg ''--cipher-key'' (st_cipher_key c) @
           opt_arg ''--sk-share'' (st_sk_share c) @
           opt_arg ''--gcp-datastore-url'' (st_gcp_datastore_url c) @
           logging_into_str_args (st_logging_options c))"
| "Cli_into_str_args json_sks path_str (CliRotate c) =
     Done ([''rotate-sign-node-cipher'', ''--env'', ro_env c, ''--node-id'', show_usize (ro_node_id c),
            ''--gcp-project-id'', ro_gcp_project_id c] @
           opt_arg ''--new-env'' (ro_new_env c) @
           opt_arg ''--old-cipher-key'' (ro_old_cipher_key c) @
           opt_arg ''--new-cipher-key'' (ro_new_cipher_key c) @
           opt_arg ''--gcp-datastore-url'' (ro_gcp_datastore_url c) @
           logging_into_str_args (ro_logging_options c))"

text \<open>The command of a signing node.\<close>

record NodeStart =
  ns_near_rpc :: string
  ns_mpc_contract_id :: AccountId
  ns_account_id :: AccountId
  ns_account_sk :: SecretKey
  ns_web_port :: u16
  ns_cipher_pk :: string
  ns_cipher_sk :: string
  ns_indexer_options :: indexer_Options
  ns_my_address :: "string option"
  ns_storage_options :: storage_Options

definition NodeStart_into_str_args :: "(SecretKey \<Rightarrow> string) \<Rightarrow> NodeStart \<Rightarrow> string list" where
  "NodeStart_into_str_args show_sk c =
     [''start'', ''--near-rpc'', ns_near_rpc c, ''--mpc-contract-id'', ns_mpc_contract_id c,
      ''--account-id'', ns_account_id c, ''--account-sk'', show_sk (ns_account_sk c),
      ''--web-port'', show_u16 (ns_web_port c), ''--cipher-pk'', ns_cipher_pk c, ''--cipher-sk'', ns_cipher_sk c] @
     opt_arg ''--my-address'' (ns_my_address c) @
     indexer_into_str_args show_usize (ns_indexer_options c) @
     storage_into_str_args (ns_storage_options c)"

section \<open>What the commands load\<close>

text \<open>The json parsers, the file system, the connection to the cloud and the signers are arguments.\<close>

record 'd cli_lib =
  cl_gcp :: "'d gcp_lib"
  cl_connect :: "string \<Rightarrow> string \<Rightarrow> string option \<Rightarrow> anyhow_error + GcpService"
  cl_utf8 :: "bytes \<Rightarrow> anyhow_error + string"
  cl_hex :: "string \<Rightarrow> anyhow_error + bytes"
  cl_key_pair :: "string \<Rightarrow> anyhow_error + ExpandedKeyPair"
  cl_secret_keys :: "string \<Rightarrow> anyhow_error + SecretKey list"
  cl_partners :: "string \<Rightarrow> anyhow_error + PartnerList"
  cl_read_file :: "PathBuf \<Rightarrow> anyhow_error + string"

definition load_secret_text :: "'d cli_lib \<Rightarrow> GcpService \<Rightarrow> string \<Rightarrow> anyhow_error + string" where
  "load_secret_text X S name = res_bind (load_secret (cl_gcp X) S name) (cl_utf8 X)"

definition load_sh_skare ::
  "'d cli_lib \<Rightarrow> GcpService \<Rightarrow> string \<Rightarrow> u64 \<Rightarrow> string option \<Rightarrow> anyhow_error + string" where
  "load_sh_skare X S env node_id sk_share_arg =
     (case sk_share_arg of
        Some sk_share \<Rightarrow> Inr sk_share
      | None \<Rightarrow> load_secret_text X S (''mpc-recovery-secret-share-'' @ show_usize node_id @ ''-'' @ env @ ''/versions/latest''))"

definition load_cipher_key ::
  "'d cli_lib \<Rightarrow> GcpService \<Rightarrow> string \<Rightarrow> u64 \<Rightarrow> string option \<Rightarrow> anyhow_error + string" where
  "load_cipher_key X S env node_id cipher_key_arg =
     (case cipher_key_arg of
        Some cipher_key \<Rightarrow> Inr cipher_key
      | None \<Rightarrow> load_secret_text X S (''mpc-recovery-encryption-cipher-'' @ show_usize node_id @ ''-'' @ env @ ''/versions/latest''))"

text \<open>The signers of an account creator, in the order they rotate.\<close>

definition load_account_creator ::
  "'d cli_lib \<Rightarrow> GcpService \<Rightarrow> string \<Rightarrow> AccountId \<Rightarrow> SecretKey list \<Rightarrow> anyhow_error + (AccountId \<times> SecretKey) list" where
  "load_account_creator X S env account_creator_id account_creator_sk =
     res_bind (if account_creator_sk = []
               then res_bind (load_secret_text X S (''mpc-recovery-account-creator-sk-'' @ env @ ''/versions/latest'')) (cl_secret_keys X)
               else Inr account_creator_sk) (\<lambda>sks.
     Inr (map (\<lambda>sk. (account_creator_id, sk)) sks))"

definition load_entries ::
  "'d cli_lib \<Rightarrow> GcpService \<Rightarrow> string \<Rightarrow> string \<Rightarrow> string option \<Rightarrow> PathBuf option \<Rightarrow> anyhow_error + PartnerList" where
  "load_entries X S env node_id data path =
     (case (data, path) of
        (Some text, None) \<Rightarrow> cl_partners X text
      | (None, Some p) \<Rightarrow> res_bind (cl_read_file X p) (cl_partners X)
      | (None, None) \<Rightarrow>
          res_bind (load_secret_text X S (''mpc-recovery-allowed-oidc-providers-'' @ node_id @ ''-'' @ env @ ''/versions/latest''))
            (cl_partners X)
      | (Some _, Some _) \<Rightarrow> Inl ''Invalid combination of data and path'')"

text \<open>A cipher key is hexadecimal and has 32 bytes; \<open>clone_from_slice\<close> panics otherwise.\<close>

definition decode_cipher_key :: "'d cli_lib \<Rightarrow> string \<Rightarrow> (anyhow_error + bytes) exec" where
  "decode_cipher_key X text =
     (case cl_hex X text of
        Inl e \<Rightarrow> Done (Inl e)
      | Inr k \<Rightarrow> if length k = 32 then Done (Inr k) else Panics ''assertion failed: slice length'')"

section \<open>Running the commands\<close>

record GenerateResult =
  gr_pk_set :: "EdPoint list"
  gr_secrets :: "(ExpandedKeyPair \<times> bytes) list"

text \<open>\<open>create\<close> and \<open>generate_key\<close> are the draws, one by one.\<close>

definition generate :: "(nat \<Rightarrow> ExpandedKeyPair) \<Rightarrow> (nat \<Rightarrow> bytes) \<Rightarrow> u64 \<Rightarrow> GenerateResult" where
  "generate create generate_key n =
     (let sk_set = map create [0..<unat n]; cipher_keys = map generate_key [0..<unat n] in
      \<lparr>gr_pk_set = map kp_public_key sk_set, gr_secrets = zip sk_set cipher_keys\<rparr>)"

record LeaderConfig =
  lc_env :: string
  lc_port :: u16
  lc_sign_nodes :: "string list"
  lc_near_rpc :: string
  lc_near_root_account :: string
  lc_account_creator_signer :: "(AccountId \<times> SecretKey) list"
  lc_partners :: PartnerList
  lc_jwt_signature_pk_url :: string

definition run_start_leader :: "'d cli_lib \<Rightarrow> StartLeader \<Rightarrow> anyhow_error + LeaderConfig" where
  "run_start_leader X c =
     res_bind (cl_connect X (sl_env c) (sl_gcp_project_id c) (sl_gcp_datastore_url c)) (\<lambda>gcp_service.
     res_bind (load_account_creator X gcp_service (sl_env c) (sl_account_creator_id c) (sl_account_creator_sk c)) (\<lambda>signer.
     res_bind (load_entries X gcp_service (sl_env c) ''leader'' (sl_fast_auth_partners c) (sl_fast_auth_partners_filepath c)) (\<lambda>partners.
     Inr \<lparr>lc_env = sl_env c, lc_port = sl_web_port c, lc_sign_nodes = sl_sign_nodes c, lc_near_rpc = sl_near_rpc c,
          lc_near_root_account = sl_near_root_account c, lc_account_creator_signer = signer, lc_partners = partners,
          lc_jwt_signature_pk_url = sl_jwt_signature_pk_url c\<rparr>)))"

record SignerConfig =
  sc_gcp_service :: GcpService
  sc_our_index :: u64
  sc_node_key :: ExpandedKeyPair
  sc_cipher :: bytes
  sc_port :: u16
  sc_jwt_signature_pk_url :: string

definition exec_try :: "('e + 'a) exec \<Rightarrow> ('a \<Rightarrow> ('e + 'b) exec) \<Rightarrow> ('e + 'b) exec" where
  "exec_try m f = exec_bind m (\<lambda>r. case r of Inl e \<Rightarrow> Done (Inl e) | Inr x \<Rightarrow> f x)"

definition run_start_sign :: "'d cli_lib \<Rightarrow> StartSign \<Rightarrow> (anyhow_error + SignerConfig) exec" where
  "run_start_sign X c =
     exec_try (Done (cl_connect X (st_env c) (st_gcp_project_id c) (st_gcp_datastore_url c))) (\<lambda>gcp_service.
     exec_try (Done (load_cipher_key X gcp_service (st_env c) (st_node_id c) (st_cipher_key c))) (\<lambda>text.
     exec_try (decode_cipher_key X text) (\<lambda>cipher_key.
     exec_try (Done (load_sh_skare X gcp_service (st_env c) (st_node_id c) (st_sk_share c))) (\<lambda>sk_share.
     case cl_key_pair X sk_share of
       Inl _ \<Rightarrow> Panics ''sk_share''
     | Inr node_key \<Rightarrow>
         Done (Inr \<lparr>sc_gcp_service = gcp_service, sc_our_index = st_node_id c, sc_node_key = node_key,
                    sc_cipher = cipher_key, sc_port = st_web_port c, sc_jwt_signature_pk_url = st_jwt_signature_pk_url c\<rparr>)))))"

text \<open>The keys and services a rotation runs with.\<close>

definition rotation_setup ::
  "'d cli_lib \<Rightarrow> RotateSignNodeCipher \<Rightarrow> (anyhow_error + GcpService \<times> GcpService \<times> bytes \<times> bytes) exec" where
  "rotation_setup X c =
     exec_try (Done (cl_connect X (ro_env c) (ro_gcp_project_id c) (ro_gcp_datastore_url c))) (\<lambda>gcp_service.
     exec_try (Done (case ro_new_env c of
                       Some new_env \<Rightarrow> cl_connect X new_env (ro_gcp_project_id c) (ro_gcp_datastore_url c)
                     | None \<Rightarrow> Inr gcp_service)) (\<lambda>dest_gcp_service.
     exec_try (Done (load_cipher_key X gcp_service (ro_env c) (ro_node_id c) (ro_old_cipher_key c))) (\<lambda>old_text.
     exec_try (decode_cipher_key X old_text) (\<lambda>old_cipher.
     exec_try (Done (load_cipher_key X gcp_service (ro_env c) (ro_node_id c) (ro_new_cipher_key c))) (\<lambda>new_text.
     exec_try (decode_cipher_key X new_text) (\<lambda>new_cipher.
     Done (Inr (gcp_service, dest_gcp_service, old_cipher, new_cipher))))))))"

definition run_rotate ::
  "'d cli_lib \<Rightarrow> codec_lib \<Rightarrow> cipher_lib \<Rightarrow> RotateSignNodeCipher \<Rightarrow> 'd \<Rightarrow> ('d \<times> (anyhow_error + unit)) exec" where
  "run_rotate X C A c d =
     exec_bind (rotation_setup X c) (\<lambda>r.
     case r of
       Inl e \<Rightarrow> Done (d, Inl e)
     | Inr (src, dest, old_cipher, new_cipher) \<Rightarrow>
         rotate_cipher (cl_gcp X) C A (ro_node_id c) old_cipher new_cipher src dest d)"

section \<open>Laws\<close>

lemma exec_try_Inr: "exec_try m f = Done (Inr y) \<longleftrightarrow> (\<exists>x. m = Done (Inr x) \<and> f x = Done (Inr y))"
proof (cases m)
  case (Done r)
  then show ?thesis by (cases r) (auto simp: exec_try_def)
qed (simp_all add: exec_try_def)

text \<open>The name that comes next in a list of arguments is one of these, or there is none.\<close>

definition next_in :: "string list \<Rightarrow> string list \<Rightarrow> bool" where
  "next_in names args \<longleftrightarrow> args = [] \<or> hd args \<in> set names"

lemma next_in_opt: "next_in names args \<Longrightarrow> next_in (n # names) (opt_arg n v @ args)"
  by (auto simp: next_in_def opt_arg_def split: option.splits)

lemma next_in_mono: "next_in names args \<Longrightarrow> next_in (n # names) args"
  by (auto simp: next_in_def)

lemma next_in_Cons: "n \<in> set names \<Longrightarrow> next_in names (n # args)"
  by (simp add: next_in_def)

lemma opt_arg_cancel:
  assumes "opt_arg n a @ xs = opt_arg n b @ ys" and "next_in names xs" and "next_in names ys" and "n \<notin> set names"
  shows "a = b \<and> xs = ys"
  using assms by (cases a; cases b) (auto simp: opt_arg_def next_in_def)

lemma show_usize_inj: "show_usize x = show_usize y \<longleftrightarrow> x = y"
  using parse_usize_show by (metis sum.inject(2))

lemma show_u16_inj: "show_u16 x = show_u16 y \<longleftrightarrow> x = y"
  unfolding show_u16_def using parse_digits_show by (metis option.inject word_unat_eq_iff)

lemma show_level_inj: "show_level a = show_level b \<longleftrightarrow> a = b"
  by (cases a; cases b) auto

lemma show_color_inj: "show_color a = show_color b \<longleftrightarrow> a = b"
  by (cases a; cases b) auto

lemma logging_args_inj: "logging_into_str_args a = logging_into_str_args b \<Longrightarrow> a = b"
  by (cases "lo_log_span_events a"; cases "lo_log_span_events b")
    (auto simp: logging_into_str_args_def show_level_inj show_color_inj intro: logging_Options.equality)

lemma logging_next: "next_in [''--opentelemetry-level''] (logging_into_str_args a)"
  by (simp add: logging_into_str_args_def next_in_def)

lemma start_sign_args_inj:
  assumes "Cli_into_str_args f g (CliStartSign c) = Cli_into_str_args f g (CliStartSign c')"
  shows "c = c'"
proof -
  let ?l = "\<lambda>c. logging_into_str_args (st_logging_options c)"
  let ?d = "\<lambda>c. opt_arg ''--gcp-datastore-url'' (st_gcp_datastore_url c) @ ?l c"
  let ?k = "\<lambda>c. opt_arg ''--sk-share'' (st_sk_share c) @ ?d c"
  have nd: "next_in [''--gcp-datastore-url'', ''--opentelemetry-level''] (?d c)" for c by (intro next_in_opt logging_next)
  have nk: "next_in [''--sk-share'', ''--gcp-datastore-url'', ''--opentelemetry-level''] (?k c)" for c by (intro next_in_opt nd)
  from assms have e: "st_env c = st_env c'" "st_node_id c = st_node_id c'" "st_web_port c = st_web_port c'"
    "st_gcp_project_id c = st_gcp_project_id c'" "st_jwt_signature_pk_url c = st_jwt_signature_pk_url c'"
    and 1: "opt_arg ''--cipher-key'' (st_cipher_key c) @ ?k c = opt_arg ''--cipher-key'' (st_cipher_key c') @ ?k c'"
    by (simp_all add: show_usize_inj show_u16_inj)
  from opt_arg_cancel [OF 1 nk nk] have c1: "st_cipher_key c = st_cipher_key c'" and 2: "?k c = ?k c'" by simp_all
  from opt_arg_cancel [OF 2 nd nd] have c2: "st_sk_share c = st_sk_share c'" and 3: "?d c = ?d c'" by simp_all
  from opt_arg_cancel [OF 3 logging_next logging_next] have c3: "st_gcp_datastore_url c = st_gcp_datastore_url c'" and 4: "?l c = ?l c'"
    by simp_all
  from logging_args_inj [OF 4] e c1 c2 c3 show ?thesis by (intro StartSign.equality) simp_all
qed

lemma rotate_args_inj:
  assumes "Cli_into_str_args f g (CliRotate c) = Cli_into_str_args f g (CliRotate c')"
  shows "c = c'"
proof -
  let ?l = "\<lambda>c. logging_into_str_args (ro_logging_options c)"
  let ?d = "\<lambda>c. opt_arg ''--gcp-datastore-url'' (ro_gcp_datastore_url c) @ ?l c"
  let ?k = "\<lambda>c. opt_arg ''--new-cipher-key'' (ro_new_cipher_key c) @ ?d c"
  let ?o = "\<lambda>c. opt_arg ''--old-cipher-key'' (ro_old_cipher_key c) @ ?k c"
  have nd: "next_in [''--gcp-datastore-url'', ''--opentelemetry-level''] (?d c)" for c by (intro next_in_opt logging_next)
  have nk: "next_in [''--new-cipher-key'', ''--gcp-datastore-url'', ''--opentelemetry-level''] (?k c)" for c by (intro next_in_opt nd)
  have no: "next_in [''--old-cipher-key'', ''--new-cipher-key'', ''--gcp-datastore-url'', ''--opentelemetry-level''] (?o c)" for c
    by (intro next_in_opt nk)
  from assms have e: "ro_env c = ro_env c'" "ro_node_id c = ro_node_id c'" "ro_gcp_project_id c = ro_gcp_project_id c'"
    and 1: "opt_arg ''--new-env'' (ro_new_env c) @ ?o c = opt_arg ''--new-env'' (ro_new_env c') @ ?o c'"
    by (simp_all add: show_usize_inj)
  from opt_arg_cancel [OF 1 no no] have c1: "ro_new_env c = ro_new_env c'" and 2: "?o c = ?o c'" by simp_all
  from opt_arg_cancel [OF 2 nk nk] have c2: "ro_old_cipher_key c = ro_old_cipher_key c'" and 3: "?k c = ?k c'" by simp_all
  from opt_arg_cancel [OF 3 nd nd] have c3: "ro_new_cipher_key c = ro_new_cipher_key c'" and 4: "?d c = ?d c'" by simp_all
  from opt_arg_cancel [OF 4 logging_next logging_next] have c4: "ro_gcp_datastore_url c = ro_gcp_datastore_url c'" and 5: "?l c = ?l c'"
    by simp_all
  from logging_args_inj [OF 5] e c1 c2 c3 c4 show ?thesis by (intro RotateSignNodeCipher.equality) simp_all
qed

lemma sign_nodes_cancel:
  assumes "concat (map (\<lambda>n. [''--sign-nodes'', n]) ns) @ ''--account-creator-sk'' # xs =
    concat (map (\<lambda>n. [''--sign-nodes'', n]) ms) @ ''--account-creator-sk'' # ys"
  shows "ns = ms \<and> xs = ys"
  using assms
proof (induction ns arbitrary: ms)
  case Nil
  then show ?case by (cases ms) auto
next
  case (Cons n ns)
  then show ?case by (cases ms) auto
qed

lemma start_leader_args_inj:
  assumes f: "\<And>x y. f x = f y \<Longrightarrow> x = y" and g: "\<And>p q s. g p = Some s \<Longrightarrow> g q = Some s \<Longrightarrow> p = q"
    and "Cli_into_str_args f g (CliStartLeader c) = Done args" and "Cli_into_str_args f g (CliStartLeader c') = Done args"
  shows "c = c'"
proof -
  let ?p = "\<lambda>c. case sl_fast_auth_partners_filepath c of None \<Rightarrow> Done None
    | Some p \<Rightarrow> exec_bind (unwrap ''to_str'' (g p)) (\<lambda>s. Done (Some s))"
  let ?s = "\<lambda>c. concat (map (\<lambda>n. [''--sign-nodes'', n]) (sl_sign_nodes c)) @
    ''--account-creator-sk'' # f (sl_account_creator_sk c) # logging_into_str_args (sl_logging_options c)"
  let ?d = "\<lambda>c. opt_arg ''--gcp-datastore-url'' (sl_gcp_datastore_url c) @ ?s c"
  from assms(3) obtain a where a: "?p c = Done a" by (auto simp: exec_bind_eq_Done)
  from assms(4) obtain b where b: "?p c' = Done b" by (auto simp: exec_bind_eq_Done)
  let ?f = "\<lambda>c v. opt_arg ''--fast-auth-partners-filepath'' v @ ?d c"
  have ns: "next_in [''--sign-nodes'', ''--account-creator-sk''] (?s c)" for c by (cases "sl_sign_nodes c") (simp_all add: next_in_def)
  have nd: "next_in [''--gcp-datastore-url'', ''--sign-nodes'', ''--account-creator-sk''] (?d c)" for c by (intro next_in_opt ns)
  have nf: "next_in [''--fast-auth-partners-filepath'', ''--gcp-datastore-url'', ''--sign-nodes'', ''--account-creator-sk''] (?f c v)" for c v
    by (intro next_in_opt nd)
  from assms(3,4) a b have e: "sl_env c = sl_env c'" "sl_web_port c = sl_web_port c'" "sl_near_rpc c = sl_near_rpc c'"
    "sl_near_root_account c = sl_near_root_account c'" "sl_account_creator_id c = sl_account_creator_id c'"
    "sl_gcp_project_id c = sl_gcp_project_id c'" "sl_jwt_signature_pk_url c = sl_jwt_signature_pk_url c'"
    and 1: "opt_arg ''--fast-auth-partners'' (sl_fast_auth_partners c) @ ?f c a = opt_arg ''--fast-auth-partners'' (sl_fast_auth_partners c') @ ?f c' b"
    by (auto simp: show_u16_inj)
  from opt_arg_cancel [OF 1 nf nf] have c1: "sl_fast_auth_partners c = sl_fast_auth_partners c'" and 2: "?f c a = ?f c' b" by simp_all
  from opt_arg_cancel [OF 2 nd nd] have ab: "a = b" and 3: "?d c = ?d c'" by simp_all
  from opt_arg_cancel [OF 3 ns ns] have c3: "sl_gcp_datastore_url c = sl_gcp_datastore_url c'" and 4: "?s c = ?s c'" by simp_all
  from sign_nodes_cancel [OF 4] f have c4: "sl_sign_nodes c = sl_sign_nodes c'" "sl_account_creator_sk c = sl_account_creator_sk c'"
    "sl_logging_options c = sl_logging_options c'" by (auto dest: logging_args_inj)
  from a b ab g have "sl_fast_auth_partners_filepath c = sl_fast_auth_partners_filepath c'"
    by (auto simp: exec_bind_eq_Done split: option.splits) metis
  with e c1 c3 c4 show ?thesis by (intro StartLeader.equality) simp_all
qed

lemma node_start_args_inj:
  assumes f: "\<And>x y. f x = f y \<Longrightarrow> x = y" and "NodeStart_into_str_args f c = NodeStart_into_str_args f c'"
  shows "c = c'"
proof -
  let ?k = "\<lambda>c. opt_arg ''--sk-share-secret-id'' (opt_sk_share_secret_id (ns_storage_options c)) @ []"
  let ?g = "\<lambda>c. opt_arg ''--gcp-project-id'' (opt_gcp_project_id (ns_storage_options c)) @ ?k c"
  let ?u = "\<lambda>c. opt_arg ''--s3-url'' (opt_s3_url (ns_indexer_options c)) @ ?g c"
  let ?i = "\<lambda>c. ''--s3-bucket'' # opt_s3_bucket (ns_indexer_options c) # ''--s3-region'' # opt_s3_region (ns_indexer_options c) #
    ''--start-block-height'' # show_usize (opt_start_block_height (ns_indexer_options c)) # ?u c"
  have nn: "next_in [] []" by (simp add: next_in_def)
  have nk: "next_in [''--sk-share-secret-id''] (?k c)" for c by (intro next_in_opt nn)
  have ng: "next_in [''--gcp-project-id'', ''--sk-share-secret-id''] (?g c)" for c by (intro next_in_opt nk)
  have ni: "next_in [''--s3-bucket''] (?i c)" for c by (simp add: next_in_def)
  have args: "NodeStart_into_str_args f c =
     [''start'', ''--near-rpc'', ns_near_rpc c, ''--mpc-contract-id'', ns_mpc_contract_id c,
      ''--account-id'', ns_account_id c, ''--account-sk'', f (ns_account_sk c),
      ''--web-port'', show_u16 (ns_web_port c), ''--cipher-pk'', ns_cipher_pk c, ''--cipher-sk'', ns_cipher_sk c] @
     opt_arg ''--my-address'' (ns_my_address c) @ ?i c" for c
    by (simp add: NodeStart_into_str_args_def indexer_into_str_args_def storage_into_str_args_def opt_arg_def)
  from assms(2) f have e: "ns_near_rpc c = ns_near_rpc c'" "ns_mpc_contract_id c = ns_mpc_contract_id c'" "ns_account_id c = ns_account_id c'"
    "ns_account_sk c = ns_account_sk c'" "ns_web_port c = ns_web_port c'" "ns_cipher_pk c = ns_cipher_pk c'" "ns_cipher_sk c = ns_cipher_sk c'"
    and 1: "opt_arg ''--my-address'' (ns_my_address c) @ ?i c = opt_arg ''--my-address'' (ns_my_address c') @ ?i c'"
    unfolding args by (auto simp: show_u16_inj)
  from opt_arg_cancel [OF 1 ni ni] have c1: "ns_my_address c = ns_my_address c'" and 2: "?i c = ?i c'" by simp_all
  from 2 have i: "opt_s3_bucket (ns_indexer_options c) = opt_s3_bucket (ns_indexer_options c')"
    "opt_s3_region (ns_indexer_options c) = opt_s3_region (ns_indexer_options c')"
    "opt_start_block_height (ns_indexer_options c) = opt_start_block_height (ns_indexer_options c')" and 3: "?u c = ?u c'"
    by (simp_all add: show_usize_inj)
  from opt_arg_cancel [OF 3 ng ng] have c3: "opt_s3_url (ns_indexer_options c) = opt_s3_url (ns_indexer_options c')" and 4: "?g c = ?g c'" by simp_all
  from opt_arg_cancel [OF 4 nk nk] have c4: "opt_gcp_project_id (ns_storage_options c) = opt_gcp_project_id (ns_storage_options c')"
    and 5: "?k c = ?k c'" by simp_all
  from opt_arg_cancel [OF 5 nn nn] have c5: "opt_sk_share_secret_id (ns_storage_options c) = opt_sk_share_secret_id (ns_storage_options c')" by simp
  from i c3 have "ns_indexer_options c = ns_indexer_options c'" by (intro indexer_Options.equality) simp_all
  moreover from c4 c5 have "ns_storage_options c = ns_storage_options c'" by (intro storage_Options.equality) simp_all
  ultimately show ?thesis using e c1 by (intro NodeStart.equality) simp_all
qed

text \<open>
  A rotation without keys on the command line loads the same secret twice: it runs with the
  old cipher as the new one.
\<close>

lemma rotation_without_keys_keeps_cipher:
  assumes "ro_old_cipher_key c = None" and "ro_new_cipher_key c = None"
    and "rotation_setup X c = Done (Inr (src, dest, old_cipher, new_cipher))"
  shows "new_cipher = old_cipher"
proof -
  from assms obtain old_text new_text S where
    t: "load_cipher_key X S (ro_env c) (ro_node_id c) None = Inr old_text" "load_cipher_key X S (ro_env c) (ro_node_id c) None = Inr new_text"
      "decode_cipher_key X old_text = Done (Inr old_cipher)" "decode_cipher_key X new_text = Done (Inr new_cipher)"
    unfolding rotation_setup_def exec_try_Inr by auto
  then show ?thesis by simp
qed

text \<open>Every secret is for one node: the shares and the ciphers come in the order of the nodes.\<close>

lemma generate_secrets:
  "length (gr_secrets (generate create key n)) = unat n"
  "map (kp_public_key \<circ> fst) (gr_secrets (generate create key n)) = gr_pk_set (generate create key n)"
  by (simp_all add: generate_def Let_def zip_map_map zip_same_conv_map o_def)

section \<open>Properties\<close>

text \<open>
  The arguments determine the command. No two different commands of the recovery service
  print the same list of arguments, whatever the values in them, even values that look like
  names of options: what a program starts is what was meant. Assumed: the json form of secret
  keys and the text of paths are injective.
\<close>

theorem cli_args_determine_command:
  assumes "\<And>x y. json_sks x = json_sks y \<Longrightarrow> x = y" and "\<And>p q s. path_str p = Some s \<Longrightarrow> path_str q = Some s \<Longrightarrow> p = q"
    and "Cli_into_str_args json_sks path_str c = Done args" and "Cli_into_str_args json_sks path_str c' = Done args"
  shows "c = c'"
proof (cases c)
  case (Generate n)
  then show ?thesis using assms(3,4) by (cases c') (auto simp: exec_bind_eq_Done show_usize_inj)
next
  case (CliStartLeader l)
  then obtain l' where "c' = CliStartLeader l'" using assms(3,4) by (cases c') (auto simp: exec_bind_eq_Done)
  with CliStartLeader start_leader_args_inj [OF assms(1,2), where c = l and c' = l' and args = args] assms(3,4)
  show ?thesis by (simp del: Cli_into_str_args.simps)
next
  case (CliStartSign l)
  then obtain l' where "c' = CliStartSign l'" using assms(3,4) by (cases c') (auto simp: exec_bind_eq_Done)
  with CliStartSign start_sign_args_inj [of json_sks path_str l l'] assms(3,4) show ?thesis
    by (simp del: Cli_into_str_args.simps)
next
  case (CliRotate l)
  then obtain l' where "c' = CliRotate l'" using assms(3,4) by (cases c') (auto simp: exec_bind_eq_Done)
  with CliRotate rotate_args_inj [of json_sks path_str l l'] assms(3,4) show ?thesis
    by (simp del: Cli_into_str_args.simps)
qed

definition ex_rotate :: "string option \<Rightarrow> string option \<Rightarrow> RotateSignNodeCipher" where
  "ex_rotate old new = \<lparr>ro_env = ''dev'', ro_new_env = None, ro_node_id = 1, ro_old_cipher_key = old, ro_new_cipher_key = new,
     ro_gcp_project_id = ''p'', ro_gcp_datastore_url = None, ro_logging_options = logging_default\<rparr>"

text \<open>A value that is the name of an option does not mislead.\<close>

theorem cli_args_determine_command_witness:
  "Cli_into_str_args (ex_points) (\<lambda>p. Some (ex_text p)) (CliRotate (ex_rotate (Some ''--new-cipher-key'') None)) \<noteq>
   Cli_into_str_args (ex_points) (\<lambda>p. Some (ex_text p)) (CliRotate (ex_rotate None (Some ''--old-cipher-key'')))"
proof
  assume eq: "Cli_into_str_args (ex_points) (\<lambda>p. Some (ex_text p)) (CliRotate (ex_rotate (Some ''--new-cipher-key'') None)) =
   Cli_into_str_args (ex_points) (\<lambda>p. Some (ex_text p)) (CliRotate (ex_rotate None (Some ''--old-cipher-key'')))"
  obtain args where args: "Cli_into_str_args (ex_points) (\<lambda>p. Some (ex_text p)) (CliRotate (ex_rotate (Some ''--new-cipher-key'') None)) = Done args"
    by simp
  have p: "ex_points x = ex_points y \<Longrightarrow> x = y" for x y
    using ex_codec_ok by (simp add: codec_ok_def ex_codec_def) metis
  have t: "Some (ex_text p) = Some s \<Longrightarrow> Some (ex_text q) = Some s \<Longrightarrow> p = q" for p q s
    using ex_untext_text by (metis option.inject)
  have "CliRotate (ex_rotate (Some ''--new-cipher-key'') None) = CliRotate (ex_rotate None (Some ''--old-cipher-key''))"
    by (rule cli_args_determine_command [OF p t args args [unfolded eq]])
  then show False by (simp add: ex_rotate_def)
qed

end
