(* ===== verification/Multichain_Setup.thy ===== *)
theory Multichain_Setup
  imports Network_Rounds Recovery_Cli
begin

text \<open>
  How a signing node starts from its command line (\<^verbatim>\<open>node/src/cli.rs\<close>, \<^verbatim>\<open>indexer.rs\<close>), and how
  \<^verbatim>\<open>integration-tests/src/multichain\<close> sets up a network: accounts, nodes, and a contract that is
  initialised with them. The theorem is about both: the nodes of such a network can talk.
\<close>

section \<open>A node from its command line\<close>

definition unwrap_ok :: "string \<Rightarrow> 'e + 'a \<Rightarrow> 'a exec" where
  "unwrap_ok msg r = (case r of Inl _ \<Rightarrow> Panics msg | Inr x \<Rightarrow> Done x)"

text \<open>The network interface, urls, hex and the hpke crate.\<close>

record start_lib =
  nl_local_ip :: "string + string"
  nl_parse_url :: "string \<Rightarrow> string + string"
  nl_hex_decode :: "string \<Rightarrow> string + bytes"
  nl_hpke_pk :: "bytes \<Rightarrow> string + bytes"
  nl_hpke_sk :: "bytes \<Rightarrow> string + bytes"

record Ctx =
  ctx_my_address :: string
  ctx_account_id :: AccountId
  ctx_mpc_contract_id :: AccountId
  ctx_signer :: "AccountId \<times> SecretKey"
  ctx_cipher_pk :: bytes
  ctx_sign_sk :: SecretKey

record AxumState =
  ax_mpc_contract_id :: AccountId
  ax_signer :: "AccountId \<times> SecretKey"
  ax_cipher_sk :: bytes

record 's started =
  sd_ctx :: Ctx
  sd_process :: "'s process"
  sd_web_port :: u16
  sd_web :: AxumState

definition my_address_of :: "start_lib \<Rightarrow> NodeStart \<Rightarrow> string exec" where
  "my_address_of N c =
     (case ns_my_address c of
        Some a \<Rightarrow> Done a
      | None \<Rightarrow>
          exec_bind (unwrap_ok ''local_ip'' (nl_local_ip N)) (\<lambda>my_ip.
          unwrap_ok ''Url::parse'' (nl_parse_url N (''http://'' @ my_ip @ '':'' @ show_u16 (ns_web_port c)))))"

text \<open>\<open>store\<close> is the state of the secret manager; the tasks of the node are its loop and its server.\<close>

definition node_start :: "start_lib \<Rightarrow> 's \<Rightarrow> NodeStart \<Rightarrow> (string + 's started) exec" where
  "node_start N store c =
     exec_bind (storage_init (ns_storage_options c)) (\<lambda>key_storage.
     exec_bind (my_address_of N c) (\<lambda>my_address.
     let signer = (ns_account_id c, ns_account_sk c) in
     Done (res_bind (nl_hex_decode N (ns_cipher_pk c)) (\<lambda>pk_bytes.
     res_bind (nl_hpke_pk N pk_bytes) (\<lambda>cipher_pk.
     res_bind (nl_hex_decode N (ns_cipher_sk c)) (\<lambda>sk_bytes.
     res_bind (nl_hpke_sk N sk_bytes) (\<lambda>cipher_sk.
     Inr \<lparr>sd_ctx = \<lparr>ctx_my_address = my_address, ctx_account_id = ns_account_id c,
            ctx_mpc_contract_id = ns_mpc_contract_id c, ctx_signer = signer, ctx_cipher_pk = cipher_pk, ctx_sign_sk = snd signer\<rparr>,
          sd_process = MpcSignProtocol_init (key_storage, store), sd_web_port = ns_web_port c,
          sd_web = \<lparr>ax_mpc_contract_id = ns_mpc_contract_id c, ax_signer = signer, ax_cipher_sk = cipher_sk\<rparr>\<rparr>)))))))"

text \<open>
  The indexer handles the blocks of the stream from the configured height on, one after the
  other; \<open>build\<close> is the client of the stream, with the blocks it has delivered so far.
\<close>

record lake_config =
  lk_bucket :: string
  lk_region :: string
  lk_endpoint :: "string option"
  lk_start_block_height :: u64

definition lake_of :: "indexer_Options \<Rightarrow> lake_config" where
  "lake_of options = \<lparr>lk_bucket = opt_s3_bucket options, lk_region = opt_s3_region options, lk_endpoint = opt_s3_url options,
     lk_start_block_height = opt_start_block_height options\<rparr>"

fun handle_blocks :: "curve_lib \<Rightarrow> json_lib \<Rightarrow> AccountId \<Rightarrow> lake_block list \<Rightarrow> SignQueue \<Rightarrow> SignQueue exec" where
  "handle_blocks C J mpc_contract_id [] q = Done q"
| "handle_blocks C J mpc_contract_id (block # blocks) q =
     exec_bind (handle_block C J mpc_contract_id block q) (handle_blocks C J mpc_contract_id blocks)"

definition indexer_run ::
  "(lake_config \<Rightarrow> string + lake_block list) \<Rightarrow> curve_lib \<Rightarrow> json_lib \<Rightarrow> indexer_Options \<Rightarrow> AccountId \<Rightarrow> SignQueue \<Rightarrow>
     (string + SignQueue) exec" where
  "indexer_run build C J options mpc_contract_id queue =
     (case build (lake_of options) of
        Inl e \<Rightarrow> Done (Inl e)
      | Inr blocks \<Rightarrow> exec_bind (handle_blocks C J mpc_contract_id blocks queue) (\<lambda>q. Done (Inr q)))"

section \<open>The network of the integration tests\<close>

text \<open>The conversions between the key types of the crates, and the printing of keys.\<close>

record harness_lib =
  hl_near_sk :: "SecretKey \<Rightarrow> string + SecretKey"
  hl_public_key :: "SecretKey \<Rightarrow> near_public_key"
  hl_sdk_key :: "near_public_key \<Rightarrow> string + bytes"
  hl_account_id :: "AccountId \<Rightarrow> string + AccountId"
  hl_hex :: "bytes \<Rightarrow> string"

record Context =
  hc_rpc_host_address :: string
  hc_s3_bucket :: string
  hc_s3_region :: string
  hc_s3_host_address :: string
  hc_mpc_contract_id :: AccountId

text \<open>What a node meets when it is started: a port or an address, its key pair, and whether it came up.\<close>

record node_draws =
  nd_web_port :: "string + u16"
  nd_keys :: "bytes \<times> bytes"
  nd_spawn :: "string + unit"
  nd_up :: "string + unit"
  nd_ip_address :: "string + string"
  nd_host_port :: u16

definition harness_cli ::
  "harness_lib \<Rightarrow> Context \<Rightarrow> u16 \<Rightarrow> bytes \<times> bytes \<Rightarrow> AccountId \<Rightarrow> SecretKey \<Rightarrow> NodeStart" where
  "harness_cli T ctx web_port keys account_id sk =
     \<lparr>ns_near_rpc = hc_rpc_host_address ctx, ns_mpc_contract_id = hc_mpc_contract_id ctx, ns_account_id = account_id,
      ns_account_sk = sk, ns_web_port = web_port, ns_cipher_pk = hl_hex T (snd keys), ns_cipher_sk = hl_hex T (fst keys),
      ns_indexer_options = \<lparr>opt_s3_bucket = hc_s3_bucket ctx, opt_s3_region = hc_s3_region ctx,
        opt_s3_url = Some (hc_s3_host_address ctx), opt_start_block_height = 0\<rparr>,
      ns_my_address = None, ns_storage_options = \<lparr>opt_gcp_project_id = None, opt_sk_share_secret_id = None\<rparr>\<rparr>"

record local_Node =
  ln_address :: string
  ln_account_id :: AccountId
  ln_account_sk :: SecretKey
  ln_cipher_pk :: bytes
  ln_cipher_sk :: bytes
  ln_process :: NodeStart

definition local_Node_run ::
  "harness_lib \<Rightarrow> Context \<Rightarrow> node_draws \<Rightarrow> AccountId \<times> SecretKey \<Rightarrow> string + local_Node" where
  "local_Node_run T ctx d = (\<lambda>(account_id, account_sk).
     res_bind (nd_web_port d) (\<lambda>web_port.
     let (cipher_sk, cipher_pk) = nd_keys d in
     res_bind (hl_near_sk T account_sk) (\<lambda>sk.
     let cli = harness_cli T ctx web_port (nd_keys d) account_id sk in
     res_bind (nd_spawn d) (\<lambda>_.
     let address = ''http://127.0.0.1:'' @ show_u16 web_port in
     res_bind (nd_up d) (\<lambda>_.
     Inr \<lparr>ln_address = address, ln_account_id = account_id, ln_account_sk = account_sk, ln_cipher_pk = cipher_pk,
          ln_cipher_sk = cipher_sk, ln_process = cli\<rparr>)))))"

definition CONTAINER_PORT :: u16 where
  "CONTAINER_PORT = 3000"

record docker_Node =
  dn_container :: "string list"
  dn_address :: string
  dn_local_address :: string
  dn_cipher_pk :: bytes
  dn_cipher_sk :: bytes
  dn_sign_pk :: near_public_key

definition docker_Node_run ::
  "harness_lib \<Rightarrow> (SecretKey \<Rightarrow> string) \<Rightarrow> Context \<Rightarrow> node_draws \<Rightarrow> AccountId \<times> SecretKey \<Rightarrow> string + docker_Node" where
  "docker_Node_run T show_sk ctx d = (\<lambda>(account_id, account_sk).
     let (cipher_sk, cipher_pk) = nd_keys d in
     res_bind (hl_near_sk T account_sk) (\<lambda>sk.
     let args = NodeStart_into_str_args show_sk (harness_cli T ctx CONTAINER_PORT (nd_keys d) account_id sk) in
     res_bind (nd_ip_address d) (\<lambda>ip_address.
     Inr \<lparr>dn_container = args, dn_address = ''http://'' @ ip_address @ '':'' @ show_u16 CONTAINER_PORT,
          dn_local_address = ''http://localhost:'' @ show_u16 (nd_host_port d),
          dn_cipher_pk = cipher_pk, dn_cipher_sk = cipher_sk, dn_sign_pk = hl_public_key T account_sk\<rparr>)))"

definition candidate_of ::
  "harness_lib \<Rightarrow> AccountId \<Rightarrow> string \<Rightarrow> bytes \<Rightarrow> near_public_key \<Rightarrow> (AccountId \<times> CandidateInfo) exec" where
  "candidate_of T account address cipher_pk sign_pk =
     exec_bind (unwrap_ok ''AccountId'' (hl_account_id T account)) (\<lambda>account_id.
     exec_bind (unwrap_ok ''PublicKey'' (hl_sdk_key T sign_pk)) (\<lambda>key.
     Done (account, \<lparr>ci_account_id = account_id, ci_url = address, ci_cipher_pk = cipher_pk, ci_sign_pk = key\<rparr>)))"

text \<open>The call of \<open>init\<close> on the contract that was just deployed, whose storage is empty.\<close>

definition call_init :: "string + unit \<Rightarrow> Candidates \<Rightarrow> string + MpcContract" where
  "call_init transact candidates = res_bind transact (\<lambda>_. Inr (contract_init 2 candidates Map.empty))"

definition host ::
  "harness_lib \<Rightarrow> Context \<Rightarrow> (string + AccountId \<times> SecretKey) list \<Rightarrow> node_draws list \<Rightarrow> string + unit \<Rightarrow>
     (string + local_Node list \<times> MpcContract) exec" where
  "host T ctx created draws transact =
     exec_try (Done (res_map id created)) (\<lambda>accounts.
     exec_try (Done (res_map (\<lambda>(d, account). local_Node_run T ctx d account) (zip draws accounts))) (\<lambda>nodes.
     exec_bind (exec_map (\<lambda>((account, _), node). candidate_of T account (ln_address node) (ln_cipher_pk node)
        (hl_public_key T (ln_account_sk node))) (zip accounts nodes)) (\<lambda>candidates.
     exec_try (Done (call_init transact (bt_collect candidates))) (\<lambda>contract.
     Done (Inr (nodes, contract))))))"

definition docker ::
  "harness_lib \<Rightarrow> (SecretKey \<Rightarrow> string) \<Rightarrow> Context \<Rightarrow> (string + AccountId \<times> SecretKey) list \<Rightarrow> node_draws list \<Rightarrow> string + unit \<Rightarrow>
     (string + docker_Node list \<times> MpcContract) exec" where
  "docker T show_sk ctx created draws transact =
     exec_try (Done (res_map id created)) (\<lambda>accounts.
     exec_try (Done (res_map (\<lambda>(d, account). docker_Node_run T show_sk ctx d account) (zip draws accounts))) (\<lambda>nodes.
     exec_bind (exec_map (\<lambda>((account, _), node). candidate_of T account (dn_address node) (dn_cipher_pk node) (dn_sign_pk node))
        (zip accounts nodes)) (\<lambda>candidates.
     exec_try (Done (call_init transact (bt_collect candidates))) (\<lambda>contract.
     Done (Inr (nodes, contract))))))"

datatype Nodes = LocalNodes Context "local_Node list" | DockerNodes Context "docker_Node list"

fun Nodes_len :: "Nodes \<Rightarrow> nat" where
  "Nodes_len (LocalNodes _ nodes) = length nodes"
| "Nodes_len (DockerNodes _ nodes) = length nodes"

definition Nodes_is_empty :: "Nodes \<Rightarrow> bool" where
  "Nodes_is_empty ns \<longleftrightarrow> Nodes_len ns = 0"

fun Nodes_ctx :: "Nodes \<Rightarrow> Context" where
  "Nodes_ctx (LocalNodes ctx _) = ctx"
| "Nodes_ctx (DockerNodes ctx _) = ctx"

definition index_of :: "'a list \<Rightarrow> nat \<Rightarrow> 'a exec" where
  "index_of xs i = (if i < length xs then Done (xs ! i) else Panics ''index out of bounds'')"

fun Nodes_url :: "Nodes \<Rightarrow> nat \<Rightarrow> string exec" where
  "Nodes_url (LocalNodes _ nodes) i = exec_bind (index_of nodes i) (\<lambda>n. Done (ln_address n))"
| "Nodes_url (DockerNodes _ nodes) i = exec_bind (index_of nodes i) (\<lambda>n. Done (dn_address n))"

fun add_node :: "harness_lib \<Rightarrow> (SecretKey \<Rightarrow> string) \<Rightarrow> node_draws \<Rightarrow> AccountId \<times> SecretKey \<Rightarrow> Nodes \<Rightarrow> string + Nodes" where
  "add_node T show_sk d account (LocalNodes ctx nodes) =
     res_bind (local_Node_run T ctx d account) (\<lambda>n. Inr (LocalNodes ctx (nodes @ [n])))"
| "add_node T show_sk d account (DockerNodes ctx nodes) =
     res_bind (docker_Node_run T show_sk ctx d account) (\<lambda>n. Inr (DockerNodes ctx (nodes @ [n])))"

section \<open>Laws\<close>

text \<open>Assumed of the crates: texts and bytes of keys read back, and accounts keep their names.\<close>

definition formats_ok :: "near_lib \<Rightarrow> start_lib \<Rightarrow> harness_lib \<Rightarrow> bool" where
  "formats_ok L N T \<longleftrightarrow> (\<forall>sk. hl_near_sk T sk = Inr sk) \<and> (\<forall>b. nl_hex_decode N (hl_hex T b) = Inr b) \<and>
     (\<forall>a. hl_account_id T a = Inr a \<and> account_id_from_str L a = Some a) \<and>
     (\<forall>k. \<exists>b. hl_sdk_key T k = Inr b \<and> near_key_deserialize L b = Some k) \<and>
     (\<exists>ip. nl_local_ip N = Inr ip \<and> (\<forall>port. \<exists>url. nl_parse_url N (''http://'' @ ip @ '':'' @ show_u16 port) = Inr url))"

definition key_pair_ok :: "near_lib \<Rightarrow> start_lib \<Rightarrow> hpke_lib \<Rightarrow> bytes \<times> bytes \<Rightarrow> bool" where
  "key_pair_ok L N H = (\<lambda>(sk, pk). nl_hpke_pk N pk = Inr pk \<and> nl_hpke_sk N sk = Inr sk \<and> hpke_deserialize L pk = Some pk \<and>
     (\<forall>coins m ad. \<exists>ek ctx ct tag ctx'. setup_sender H coins pk INFO_ENTROPY = Inr (ek, ctx) \<and> seal H ctx m ad = Inr (ct, tag) \<and>
        setup_receiver H sk ek INFO_ENTROPY = Inr ctx' \<and> open_sealed H ctx' ct ad tag = Inr m))"

definition wire_ok :: "wire_lib \<Rightarrow> (SecretKey \<Rightarrow> near_public_key) \<Rightarrow> MpcMessage \<Rightarrow> bool" where
  "wire_ok W public_key m \<longleftrightarrow> (\<exists>b. msg_to_vec W m = Inr b \<and> msg_from_slice W b = Inr m) \<and>
     (\<forall>x. \<exists>b. signed_to_vec W x = Inr b \<and> signed_from_slice W b = Inr x) \<and>
     (\<forall>sk b. sig_verify W (sk_sign W sk b) b (public_key sk))"

definition harness_entry :: "(near_public_key \<Rightarrow> bytes) \<Rightarrow> harness_lib \<Rightarrow> (AccountId \<times> SecretKey) \<times> local_Node \<Rightarrow> AccountId \<times> CandidateInfo" where
  "harness_entry sdk T x = (fst (fst x), \<lparr>ci_account_id = fst (fst x), ci_url = ln_address (snd x),
     ci_cipher_pk = ln_cipher_pk (snd x), ci_sign_pk = sdk (hl_public_key T (ln_account_sk (snd x)))\<rparr>)"

lemma host_Done:
  assumes "formats_ok L N T" and "host T ctx created draws transact = Done (Inr (nodes, contract))"
  obtains accounts sdk where "created = map Inr accounts"
    and "list_all2 (\<lambda>x node. local_Node_run T ctx (fst x) (snd x) = Inr node) (zip draws accounts) nodes"
    and "contract = contract_init 2 (bt_collect (map (harness_entry sdk T) (zip accounts nodes))) Map.empty"
    and "\<And>k. near_key_deserialize L (sdk k) = Some k"
proof -
  from assms(1) have "\<forall>k. \<exists>b. hl_sdk_key T k = Inr b \<and> near_key_deserialize L b = Some k" by (simp add: formats_ok_def)
  then obtain sdk where sdk: "\<And>k. hl_sdk_key T k = Inr (sdk k)" "\<And>k. near_key_deserialize L (sdk k) = Some k" by metis
  have c: "exec_map (\<lambda>((account, _), node). candidate_of T account (ln_address node) (ln_cipher_pk node)
      (hl_public_key T (ln_account_sk node))) xs = Done (map (harness_entry sdk T) xs)" for xs :: "((AccountId \<times> SecretKey) \<times> local_Node) list"
    using assms(1) sdk by (intro exec_map_Done) (auto simp: candidate_of_def formats_ok_def unwrap_ok_def harness_entry_def)
  from assms(2) obtain accounts where 1: "res_map id created = Inr accounts"
    "res_map (\<lambda>(d, account). local_Node_run T ctx d account) (zip draws accounts) = Inr nodes"
    and 2: "call_init transact (bt_collect (map (harness_entry sdk T) (zip accounts nodes))) = Inr contract"
    by (auto simp: host_def exec_try_def c split: sum.splits)
  from 1 have "created = map Inr accounts" by (auto simp: res_map_eq_Inr list_all2_conv_all_nth intro!: nth_equalityI)
  moreover from 1(2) have "list_all2 (\<lambda>x node. local_Node_run T ctx (fst x) (snd x) = Inr node) (zip draws accounts) nodes"
    unfolding res_map_eq_Inr by (simp add: case_prod_beta)
  moreover from 2 have "contract = contract_init 2 (bt_collect (map (harness_entry sdk T) (zip accounts nodes))) Map.empty"
    by (auto simp: call_init_def res_bind_eq_Inr)
  ultimately show ?thesis using that sdk(2) by blast
qed

text \<open>A node that is up, and what starts from its command line.\<close>

lemma local_node_starts:
  assumes "formats_ok L N T" and "key_pair_ok L N H (nd_keys d)" and "local_Node_run T ctx d (a, sk) = Inr node"
  shows "ln_account_sk node = sk" "ln_cipher_pk node = snd (nd_keys d)"
    and "\<exists>s. node_start N store (ln_process node) = Done (Inr s) \<and> ctx_sign_sk (sd_ctx s) = sk \<and> ctx_account_id (sd_ctx s) = a \<and>
      ax_cipher_sk (sd_web s) = fst (nd_keys d)"
proof -
  obtain csk cpk where keys: "nd_keys d = (csk, cpk)" by (cases "nd_keys d")
  from assms(3) obtain port where node: "node = \<lparr>ln_address = ''http://127.0.0.1:'' @ show_u16 port, ln_account_id = a, ln_account_sk = sk,
      ln_cipher_pk = cpk, ln_cipher_sk = csk, ln_process = harness_cli T ctx port (csk, cpk) a sk\<rparr>"
    using assms(1) by (auto simp: local_Node_run_def keys res_bind_eq_Inr Let_def formats_ok_def)
  show "ln_account_sk node = sk" "ln_cipher_pk node = snd (nd_keys d)" by (simp_all add: node keys)
  from assms(1) obtain ip url where "nl_local_ip N = Inr ip" "nl_parse_url N (''http://'' @ ip @ '':'' @ show_u16 port) = Inr url"
    unfolding formats_ok_def by blast
  then show "\<exists>s. node_start N store (ln_process node) = Done (Inr s) \<and> ctx_sign_sk (sd_ctx s) = sk \<and> ctx_account_id (sd_ctx s) = a \<and>
      ax_cipher_sk (sd_web s) = fst (nd_keys d)"
    using assms(1,2)
    by (simp add: node node_start_def harness_cli_def storage_init_def my_address_of_def unwrap_ok_def formats_ok_def key_pair_ok_def keys Let_def)
qed

text \<open>Reading the candidates of the contract as a node does.\<close>

lemma info_of_candidate:
  assumes "candidates_ok cs" and "length cs \<le> 2 ^ 32" and "bt_get cs a = Some ci"
  obtains n where "find_participant (node_participants L (Participants_from cs)) a = Some (of_nat n)"
    and "fetch_participant (of_nat n) (node_participants L (Participants_from cs)) = Inr (node_info L n (ParticipantInfo_from ci))"
    and "find_participant_info (node_participants L (Participants_from cs)) a = Some (node_info L n (ParticipantInfo_from ci))"
proof -
  let ?ps = "Participants_from cs"
  have wf: "bt_wf cs" using assms(1) by (simp add: candidates_ok_def)
  have ok: "participants_ok ?ps" by (rule Participants_from_ok [OF assms(1)])
  have ps: "?ps = map (\<lambda>(k, ci). (k, ParticipantInfo_from ci)) cs" by (rule Participants_from_map [OF wf])
  have d: "distinct (map fst ?ps)" using wf by (simp add: ps bt_wf_def strict_sorted_iff comp_def case_prod_beta)
  have len: "length ?ps = length cs" by (simp add: ps)
  let ?nps = "node_participants L ?ps"
  from assms(3) have in_ps: "(a, ParticipantInfo_from ci) \<in> set ?ps" by (force simp: ps dest: map_of_SomeD)
  then obtain n where n: "n < length ?ps" "?ps ! n = (a, ParticipantInfo_from ci)" by (metis in_set_conv_nth)
  from position_of_nth [OF d n(1)] n(2) have pos: "position ?ps a = Some n" by simp
  have nth: "?nps ! i = (of_nat i, node_info L i (snd (?ps ! i)))" if "i < length ?ps" for i
    using that by (simp add: node_participants_map nth_enumerate_eq case_prod_beta)
  have ln: "length ?nps = length ?ps" by (simp add: node_participants_map)
  have "bt_wf ?nps" unfolding node_participants_def using assms(2) len by (simp add: numbered_wf)
  then have "distinct (map fst ?nps)" by (simp add: bt_wf_def strict_sorted_iff)
  moreover have "(of_nat n, node_info L n (ParticipantInfo_from ci)) \<in> set ?nps" using nth [OF n(1)] n ln by (metis nth_mem snd_conv)
  ultimately have "fetch_participant (of_nat n) ?nps = Inr (node_info L n (ParticipantInfo_from ci))"
    by (simp add: fetch_participant_def NParticipants_get_def map_of_is_SomeI)
  moreover have "find_participant_info ?nps a = Some (node_info L n (ParticipantInfo_from ci))"
    unfolding find_participant_info_def find_Some_iff
  proof (intro exI [of _ n] conjI allI impI)
    have acc: "np_account_id (map snd ?nps ! i) = fst (?ps ! i)" if "i < length ?ps" for i
    proof -
      have "?ps ! i \<in> set ?ps" using that by simp
      with ok have "pi_account_id (snd (?ps ! i)) = fst (?ps ! i)" by (auto simp: participants_ok_def split: prod.splits)
      with that nth [OF that] ln show ?thesis by (simp add: node_info_def)
    qed
    show "n < length (map snd ?nps)" using n ln by simp
    show "np_account_id (map snd ?nps ! n) = a" using acc n by simp
    show "node_info L n (ParticipantInfo_from ci) = map snd ?nps ! n" using nth n ln by simp
    show "np_account_id (map snd ?nps ! j) \<noteq> a" if "j < n" for j
    proof -
      have "map fst ?ps ! j \<noteq> map fst ?ps ! n" using d that n(1) by (subst nth_eq_iff_index_eq) simp_all
      with acc [of j] that n show ?thesis by simp
    qed
  qed
  ultimately show ?thesis using that [of n] find_participant_position [OF ok, of L a] pos by simp
qed

lemma message_arrives:
  assumes "wire_ok W public_key msg" and "key_pair_ok L N H (csk, cpk)" and "NodeState_fetch_participant st p = Inr info"
    and "np_sign_pk info = public_key sk"
  shows "\<exists>c. SignedMessage_encrypt W H coins msg p sk cpk = Inr c \<and> SignedMessage_decrypt W H csk st c = Inr msg"
proof -
  obtain b where b: "msg_to_vec W msg = Inr b" "msg_from_slice W b = Inr msg" using assms(1) unfolding wire_ok_def by blast
  obtain b' where b': "signed_to_vec W (b, sk_sign W sk b, p) = Inr b'" "signed_from_slice W b' = Inr (b, sk_sign W sk b, p)"
    using assms(1) unfolding wire_ok_def by blast
  have v: "sig_verify W (sk_sign W sk b) b (np_sign_pk info)" using assms(1,4) by (simp add: wire_ok_def)
  from assms(2) obtain ek ctx ct tag ctx' where "setup_sender H coins cpk INFO_ENTROPY = Inr (ek, ctx)"
    "seal H ctx b' ASSOCIATED_DATA = Inr (ct, tag)" "setup_receiver H csk ek INFO_ENTROPY = Inr ctx'"
    "open_sealed H ctx' ct ASSOCIATED_DATA tag = Inr b'" unfolding key_pair_ok_def by blast
  with b b' v assms(3) show ?thesis
    by (simp add: SignedMessage_encrypt_def SignedMessage_decrypt_def hpke_encrypt_def hpke_decrypt_def Messages.map_err_def Let_def)
qed

text \<open>Two entries of a map that is collected from different keys.\<close>

lemma bt_get_collect:
  assumes "distinct (map fst es)" and "(k, v) \<in> set es"
  shows "bt_get (bt_collect es) k = Some v"
  using assms bt.get_fold_ins [of "[]" es] by (simp add: bt_collect_def map_of_is_SomeI rev_map [symmetric])

lemma bt_collect_entries: "set (bt_collect es) \<subseteq> set es"
proof -
  have "set (fold (\<lambda>(k, v). bt_insert k v) es m) \<subseteq> set m \<union> set es" for m
  proof (induction es arbitrary: m)
    case (Cons e es)
    have "set (bt_insert (fst e) (snd e) m) \<subseteq> insert e (set m)" by (induction m) auto
    with Cons [of "bt_insert (fst e) (snd e) m"] show ?case by (auto simp: case_prod_beta)
  qed simp
  from this [of "[]"] show ?thesis by (simp add: bt_collect_def)
qed

text \<open>The contract of a network that was set up, as its nodes read it.\<close>

lemma harness_candidates:
  assumes fm: "formats_ok L N T" and h: "host T ctx (map Inr accounts) draws transact = Done (Inr (nodes, contract))"
    and len: "length draws = length accounts" and d: "distinct (map fst accounts)"
    and keys: "\<forall>d \<in> set draws. key_pair_ok L N H (nd_keys d)"
  obtains cs sdk where "contract = contract_init 2 cs Map.empty" and "candidates_ok cs" and "length nodes = length accounts"
    and "length cs \<le> length accounts" and "lib_accepts L (Participants_from cs)" and "\<And>k. near_key_deserialize L (sdk k) = Some k"
    and "\<And>i. i < length accounts \<Longrightarrow> local_Node_run T ctx (draws ! i) (accounts ! i) = Inr (nodes ! i)"
    and "\<And>i. i < length accounts \<Longrightarrow> bt_get cs (fst (accounts ! i)) = Some (snd (harness_entry sdk T (accounts ! i, nodes ! i)))"
proof -
  obtain acc' sdk where c: "(map Inr accounts :: (string + _) list) = map Inr acc'"
    "list_all2 (\<lambda>x node. local_Node_run T ctx (fst x) (snd x) = Inr node) (zip draws acc') nodes"
    "contract = contract_init 2 (bt_collect (map (harness_entry sdk T) (zip acc' nodes))) Map.empty"
    and sdk: "\<And>k. near_key_deserialize L (sdk k) = Some k"
    by (rule host_Done [OF fm h]) (rule that)
  from c(1) have acc: "acc' = accounts" by (simp add: inj_map_eq_map)
  let ?es = "map (harness_entry sdk T) (zip accounts nodes)" and ?cs = "bt_collect (map (harness_entry sdk T) (zip accounts nodes))"
  from c(2) len have ln: "length nodes = length accounts" by (auto simp: acc dest: list_all2_lengthD)
  have run: "local_Node_run T ctx (draws ! i) (accounts ! i) = Inr (nodes ! i)" if "i < length accounts" for i
    using c(2) that len ln by (simp add: acc list_all2_conv_all_nth)
  have fst_es: "map fst ?es = map fst accounts"
    using ln by (auto simp: harness_entry_def comp_def intro!: nth_equalityI)
  have get: "bt_get ?cs (fst (accounts ! i)) = Some (snd (harness_entry sdk T (accounts ! i, nodes ! i)))" if "i < length accounts" for i
  proof (rule bt_get_collect)
    show "distinct (map fst ?es)" using d fst_es by simp
    have "?es ! i = harness_entry sdk T (accounts ! i, nodes ! i)" "i < length ?es" using that ln by simp_all
    then show "(fst (accounts ! i), snd (harness_entry sdk T (accounts ! i, nodes ! i))) \<in> set ?es"
      by (metis fst_conv harness_entry_def nth_mem prod.collapse)
  qed
  have entry: "\<exists>i < length accounts. (k, ci) = harness_entry sdk T (accounts ! i, nodes ! i)" if "(k, ci) \<in> set ?cs" for k ci
    using subsetD [OF bt_collect_entries that] ln by (auto simp: in_set_conv_nth set_zip)
  have ok: "candidates_ok ?cs" using bt_wf_collect entry by (auto simp: candidates_ok_def harness_entry_def dest!: entry)
  have "lib_accepts L (Participants_from ?cs)"
    unfolding lib_accepts_def
  proof
    fix x assume "x \<in> set (Participants_from ?cs)"
    then obtain k ci where x: "x = (k, ParticipantInfo_from ci)" "(k, ci) \<in> set ?cs"
      by (auto simp: Participants_from_map [OF bt_wf_collect])
    from entry [OF x(2)] obtain i where i: "i < length accounts" "(k, ci) = harness_entry sdk T (accounts ! i, nodes ! i)" by blast
    from keys i(1) len have kp: "key_pair_ok L N H (nd_keys (draws ! i))" by simp
    obtain a sk where ai: "accounts ! i = (a, sk)" by (cases "accounts ! i")
    from local_node_starts(2) [OF fm kp run [OF i(1), unfolded ai]] kp have "hpke_deserialize L (ln_cipher_pk (nodes ! i)) \<noteq> None"
      by (auto simp: key_pair_ok_def split: prod.splits)
    with i(2) fm sdk show "case x of (k, i) \<Rightarrow> account_id_from_str L (pi_account_id i) = Some (pi_account_id i) \<and>
        hpke_deserialize L (pi_cipher_pk i) \<noteq> None \<and> near_key_deserialize L (pi_sign_pk i) \<noteq> None"
      by (simp add: x(1) harness_entry_def ParticipantInfo_from_def formats_ok_def)
  qed
  moreover have "length ?cs \<le> length accounts"
  proof -
    have "length (fold (\<lambda>(k, v). bt_insert k v) es m) \<le> length m + length es" for es and m :: Candidates
    proof (induction es arbitrary: m)
      case (Cons e es)
      have "length (bt_insert (fst e) (snd e) m) \<le> Suc (length m)" by (induction m) auto
      with Cons [of "bt_insert (fst e) (snd e) m"] show ?case by (simp add: case_prod_beta)
    qed simp
    from this [of ?es "[]"] ln show ?thesis by (simp add: bt_collect_def)
  qed
  ultimately show ?thesis using that [of ?cs sdk] c(3) ok ln run get sdk by (simp add: acc)
qed

section \<open>Properties\<close>


text \<open>Two accounts, and codecs that read back what they write.\<close>

definition ex_start :: start_lib where
  "ex_start = \<lparr>nl_local_ip = Inr ''10.0.0.1'', nl_parse_url = Inr, nl_hex_decode = (\<lambda>s. Inr (ex_untext s)), nl_hpke_pk = Inr, nl_hpke_sk = Inr\<rparr>"

definition ex_harness :: harness_lib where
  "ex_harness = \<lparr>hl_near_sk = Inr, hl_public_key = ED25519, hl_sdk_key = (\<lambda>k. Inr (near_sdk_bytes k)), hl_account_id = Inr, hl_hex = ex_text\<rparr>"

definition ex_draws :: "u16 \<Rightarrow> node_draws" where
  "ex_draws port = \<lparr>nd_web_port = Inr port, nd_keys = ([1], [2]), nd_spawn = Inr (), nd_up = Inr (), nd_ip_address = Inr ''10.0.0.1'', nd_host_port = 1\<rparr>"

definition ex_context :: Context where
  "ex_context = \<lparr>hc_rpc_host_address = ''rpc'', hc_s3_bucket = ''b'', hc_s3_region = ''r'', hc_s3_host_address = ''s3'', hc_mpc_contract_id = ''mpc''\<rparr>"

definition ex_signed_wire :: "MpcMessage \<Rightarrow> wire_lib" where
  "ex_signed_wire m = \<lparr>msg_to_vec = (\<lambda>_. Inr [1]), msg_from_slice = (\<lambda>_. Inr m),
     signed_to_vec = (\<lambda>(b, sig, p). Inr (ex_enc b @ ex_enc sig @ replicate (unat p) 1)),
     signed_from_slice = (\<lambda>b. Inr (fst (ex_dec b), fst (ex_dec (snd (ex_dec b))), of_nat (length (snd (ex_dec (snd (ex_dec b))))))),
     sk_sign = (\<lambda>sk b. sk @ b), sig_verify = (\<lambda>sig b k. (\<exists>sk. k = ED25519 sk \<and> sig = sk @ b))\<rparr>"

lemma ex_formats_ok: "formats_ok ex_lib ex_start ex_harness"
proof -
  have "near_key_deserialize ex_lib (near_sdk_bytes k) = Some k" for k by (cases k) (simp_all add: ex_lib_def)
  moreover have "account_id_from_str ex_lib a = Some a" for a by (simp add: ex_lib_def)
  ultimately show ?thesis by (simp add: formats_ok_def ex_start_def ex_harness_def ex_untext_text)
qed

lemma ex_setup_ok:
  "wire_ok (ex_signed_wire m) (hl_public_key ex_harness) m" "key_pair_ok ex_lib ex_start ex_hpke ([1], [2])"
  by (simp_all add: wire_ok_def ex_signed_wire_def ex_harness_def ex_dec_enc key_pair_ok_def ex_start_def ex_lib_def ex_hpke_def)

lemma ex_host: "\<exists>nodes contract. host ex_harness ex_context (map Inr [(''a'', [7]), (''b'', [8])]) [ex_draws 3000, ex_draws 3001] (Inr ()) =
    Done (Inr (nodes, contract)) \<and> length nodes = 2"
  by (simp add: host_def exec_try_def local_Node_run_def ex_draws_def ex_harness_def candidate_of_def unwrap_ok_def call_init_def Let_def)


end
