(* ===== verification/Aggregate_Signer.thy ===== *)
theory Aggregate_Signer
  imports Credentials "HOL-Library.Multiset"
begin

text \<open>
  The sign node's side of the aggregated Ed25519 signatures,
  \<^verbatim>\<open>mpc-recovery/src/sign_node/aggregate_signer.rs\<close>, with the conversions of \<^verbatim>\<open>transaction.rs\<close> it
  uses. The curve, the crate \<open>multi_party_eddsa\<close> and \<open>ed25519_dalek\<close> are arguments.
\<close>

section \<open>The libraries\<close>

type_synonym EphemeralKey = bytes
type_synonym dalek_key = bytes
type_synonym AggrCommitment = BigInt

record eddsa_signature =
  es_R :: EdPoint
  es_s :: bytes

text \<open>\<open>SignSecondMsg\<close>, and the newtype \<open>Reveal\<close> around it, whose equality is that of both fields.\<close>

record Reveal =
  rv_R :: EdPoint
  rv_blind_factor :: BigInt

record KeyAgg =
  ka_apk :: EdPoint
  ka_hash :: bytes

record aggsig_lib =
  create_ephemeral :: "ExpandedKeyPair \<Rightarrow> bytes \<Rightarrow> bytes \<Rightarrow> EphemeralKey \<times> BigInt \<times> Reveal"
  sign_single :: "bytes \<Rightarrow> ExpandedKeyPair \<Rightarrow> eddsa_signature"
  partial_sign :: "EphemeralKey \<Rightarrow> ExpandedKeyPair \<Rightarrow> bytes \<Rightarrow> EdPoint \<Rightarrow> EdPoint \<Rightarrow> bytes \<Rightarrow> eddsa_signature"
  get_R_tot :: "EdPoint list \<Rightarrow> EdPoint"
  key_aggregation_n :: "EdPoint list \<Rightarrow> nat \<Rightarrow> KeyAgg exec"
  add_signature_parts :: "eddsa_signature list \<Rightarrow> eddsa_signature exec"
  point_to_bytes :: "EdPoint \<Rightarrow> bytes"
  point_from_bytes :: "bytes \<Rightarrow> anyhow_error + EdPoint"
  scalar_from_bytes :: "bytes \<Rightarrow> anyhow_error + bytes"
  y_coord :: "EdPoint \<Rightarrow> BigInt option"
  hash_commitment :: "BigInt \<Rightarrow> BigInt \<Rightarrow> BigInt"
  dalek_signature_from_bytes :: "bytes \<Rightarrow> anyhow_error + dalek_signature"
  dalek_key_from_bytes :: "bytes \<Rightarrow> anyhow_error + dalek_key"
  dalek_verify :: "dalek_key \<Rightarrow> bytes \<Rightarrow> dalek_signature \<Rightarrow> anyhow_error + unit"
  json_commitment :: "AggrCommitment \<Rightarrow> EdPoint \<Rightarrow> anyhow_error + bytes"

section \<open>Conversions\<close>

text \<open>\<open>copy_from_slice\<close> panics when the lengths differ.\<close>

definition to_dalek_signature ::
  "aggsig_lib \<Rightarrow> eddsa_signature \<Rightarrow> (AggregateSigningError + dalek_signature) exec" where
  "to_dalek_signature L sig =
     (if length (point_to_bytes L (es_R sig)) \<noteq> 32 \<or> length (es_s sig) \<noteq> 32
      then Panics ''source slice length does not match destination slice length''
      else Done (case dalek_signature_from_bytes L (point_to_bytes L (es_R sig) @ es_s sig) of
                   Inl e \<Rightarrow> Inl (AE_DataConversionFailure e)
                 | Inr s \<Rightarrow> Inr s))"

definition from_dalek_signature :: "aggsig_lib \<Rightarrow> dalek_signature \<Rightarrow> anyhow_error + eddsa_signature" where
  "from_dalek_signature L sig =
     res_bind (point_from_bytes L (take 32 sig)) (\<lambda>R.
     res_bind (scalar_from_bytes L (drop 32 sig)) (\<lambda>s.
     Inr \<lparr>es_R = R, es_s = s\<rparr>))"

definition to_dalek_public_key :: "aggsig_lib \<Rightarrow> EdPoint \<Rightarrow> AggregateSigningError + dalek_key" where
  "to_dalek_public_key L public_key =
     (case dalek_key_from_bytes L (point_to_bytes L public_key) of
        Inl e \<Rightarrow> Inl (AE_DataConversionFailure e)
      | Inr k \<Rightarrow> Inr k)"

definition to_dalek_combined_public_key ::
  "aggsig_lib \<Rightarrow> EdPoint list \<Rightarrow> (AggregateSigningError + dalek_key) exec" where
  "to_dalek_combined_public_key L public_keys =
     exec_bind (key_aggregation_n L public_keys 0) (\<lambda>k. Done (to_dalek_public_key L (ka_apk k)))"

section \<open>Signed commitments\<close>

record SignedCommitment =
  sc_commitment :: AggrCommitment
  sc_signing_public_key :: EdPoint
  sc_signing_public_key_sig :: dalek_signature
  sc_signature :: dalek_signature

definition SignedCommitment_serialize ::
  "aggsig_lib \<Rightarrow> AggrCommitment \<Rightarrow> EdPoint \<Rightarrow> AggregateSigningError + bytes" where
  "SignedCommitment_serialize L commitment pk =
     (case json_commitment L commitment pk of
        Inl e \<Rightarrow> Inl (AE_DataConversionFailure e)
      | Inr content \<Rightarrow> Inr (string_bytes ''SignedCommitment::serialize'' @ content))"

definition SignedCommitment_create ::
  "aggsig_lib \<Rightarrow> AggrCommitment \<Rightarrow> ExpandedKeyPair \<Rightarrow> ExpandedKeyPair \<Rightarrow>
     (AggregateSigningError + SignedCommitment) exec" where
  "SignedCommitment_create L commitment node_key signing_keys =
     (case SignedCommitment_serialize L commitment (kp_public_key signing_keys) of
        Inl e \<Rightarrow> Done (Inl e)
      | Inr to_sign \<Rightarrow>
          exec_bind (to_dalek_signature L (sign_single L [] signing_keys)) (\<lambda>r.
          case r of
            Inl e \<Rightarrow> Done (Inl e)
          | Inr signing_public_key_sig \<Rightarrow>
              exec_bind (to_dalek_signature L (sign_single L to_sign node_key)) (\<lambda>r.
              Done (case r of
                      Inl e \<Rightarrow> Inl e
                    | Inr signature \<Rightarrow>
                        Inr \<lparr>sc_commitment = commitment, sc_signing_public_key = kp_public_key signing_keys,
                             sc_signing_public_key_sig = signing_public_key_sig, sc_signature = signature\<rparr>))))"

definition dalek_check :: "aggsig_lib \<Rightarrow> dalek_key \<Rightarrow> bytes \<Rightarrow> dalek_signature \<Rightarrow> AggregateSigningError + unit" where
  "dalek_check L key message sig =
     (case dalek_verify L key message sig of Inl e \<Rightarrow> Inl (AE_SignatureVerificationFailed e) | Inr () \<Rightarrow> Inr ())"

definition SignedCommitment_verify ::
  "aggsig_lib \<Rightarrow> SignedCommitment \<Rightarrow> EdPoint \<Rightarrow> AggregateSigningError + AggrCommitment \<times> EdPoint" where
  "SignedCommitment_verify L sc public_key =
     res_bind (to_dalek_public_key L public_key) (\<lambda>key.
     res_bind (SignedCommitment_serialize L (sc_commitment sc) (sc_signing_public_key sc)) (\<lambda>message.
     res_bind (dalek_check L key message (sc_signature sc)) (\<lambda>_.
     res_bind (to_dalek_public_key L (sc_signing_public_key sc)) (\<lambda>signing_key.
     res_bind (dalek_check L signing_key [] (sc_signing_public_key_sig sc)) (\<lambda>_.
     Inr (sc_commitment sc, sc_signing_public_key sc))))))"

definition check_commitment ::
  "aggsig_lib \<Rightarrow> EdPoint \<Rightarrow> BigInt \<Rightarrow> BigInt \<Rightarrow> (AggregateSigningError + unit) exec" where
  "check_commitment L r_to_test blind_factor comm =
     exec_bind (unwrap ''y_coord'' (y_coord L r_to_test)) (\<lambda>y.
     let computed_comm = hash_commitment L y blind_factor in
     Done (if computed_comm \<noteq> comm then Inl (AE_InvalidCommitment r_to_test blind_factor computed_comm comm)
           else Inr ()))"

section \<open>The three steps of a signature\<close>

record Committed =
  co_ephemeral_key :: EphemeralKey
  co_our_signature :: Reveal
  co_message :: bytes
  co_our_key :: ExpandedKeyPair

record Revealed =
  re_commitments :: "AggrCommitment list"
  re_signing_public_keys :: "EdPoint list"
  re_committed :: Committed

record NodeInfo =
  ni_nodes_public_keys :: "EdPoint list option"
  ni_our_index :: u64

definition NodeInfo_new :: "u64 \<Rightarrow> EdPoint list option \<Rightarrow> NodeInfo" where
  "NodeInfo_new our_index nodes_public_keys =
     \<lparr>ni_nodes_public_keys = nodes_public_keys, ni_our_index = our_index\<rparr>"

text \<open>\<open>rng\<close> is what the generator yields for this call.\<close>

definition Committed_commit ::
  "aggsig_lib \<Rightarrow> ExpandedKeyPair \<Rightarrow> ExpandedKeyPair \<Rightarrow> bytes \<Rightarrow> bytes \<Rightarrow>
     (AggregateSigningError + SignedCommitment \<times> Committed) exec" where
  "Committed_commit L our_key node_key message rng =
     (case create_ephemeral L our_key message rng of
        (ephemeral_key, commitment, our_signature) \<Rightarrow>
          exec_bind (SignedCommitment_create L commitment node_key our_key) (\<lambda>r.
          Done (case r of
                  Inl e \<Rightarrow> Inl e
                | Inr sc \<Rightarrow>
                    Inr (sc, \<lparr>co_ephemeral_key = ephemeral_key, co_our_signature = our_signature,
                              co_message = message, co_our_key = our_key\<rparr>))))"

text \<open>\<open>zip\<close> ends with the shorter of the two lists; the first error ends the collection.\<close>

definition signed_by_every_node ::
  "aggsig_lib \<Rightarrow> NodeInfo \<Rightarrow> SignedCommitment list \<Rightarrow> AggregateSigningError + (AggrCommitment \<times> EdPoint) list" where
  "signed_by_every_node L info commitments =
     (case ni_nodes_public_keys info of
        None \<Rightarrow> Inl AE_NodeKeysUnavailable
      | Some public_keys \<Rightarrow> res_map (\<lambda>(pk, s). SignedCommitment_verify L s pk) (zip public_keys commitments))"

definition Committed_reveal ::
  "aggsig_lib \<Rightarrow> Committed \<Rightarrow> NodeInfo \<Rightarrow> SignedCommitment list \<Rightarrow> AggregateSigningError + Reveal \<times> Revealed" where
  "Committed_reveal L c info commitments =
     res_bind (signed_by_every_node L info commitments) (\<lambda>pairs.
     Inr (co_our_signature c,
          \<lparr>re_commitments = map fst pairs, re_signing_public_keys = map snd pairs, re_committed = c\<rparr>))"

fun check_reveals ::
  "aggsig_lib \<Rightarrow> (AggrCommitment \<times> Reveal) list \<Rightarrow> (AggregateSigningError + unit) exec" where
  "check_reveals L [] = Done (Inr ())"
| "check_reveals L ((c, p) # rest) =
     exec_bind (check_commitment L (rv_R p) (rv_blind_factor p) c) (\<lambda>r.
     case r of Inl e \<Rightarrow> Done (Inl e) | Inr () \<Rightarrow> check_reveals L rest)"

definition Revealed_combine ::
  "aggsig_lib \<Rightarrow> Revealed \<Rightarrow> Reveal list \<Rightarrow> NodeInfo \<Rightarrow> (AggregateSigningError + eddsa_signature) exec" where
  "Revealed_combine L r signature_parts info =
     exec_bind (check_reveals L (zip (re_commitments r) signature_parts)) (\<lambda>checked.
     case checked of
       Inl e \<Rightarrow> Done (Inl e)
     | Inr () \<Rightarrow>
         (let r_tot = get_R_tot L (map rv_R signature_parts) in
          exec_bind (key_aggregation_n L (re_signing_public_keys r) (unat (ni_our_index info))) (\<lambda>key_agg.
          Done (Inr (partial_sign L (co_ephemeral_key (re_committed r)) (co_our_key (re_committed r))
            (ka_hash key_agg) r_tot (ka_apk key_agg) (co_message (re_committed r)))))))"

section \<open>The state of the signer\<close>

record SigningState =
  ss_committed :: "(AggrCommitment, Committed) hmap"
  ss_revealed :: "(Reveal, Revealed) hmap"

definition SigningState_new :: SigningState where
  "SigningState_new = \<lparr>ss_committed = [], ss_revealed = []\<rparr>"

text \<open>\<open>xs.get(i)\<close>\<close>

definition list_get :: "'a list \<Rightarrow> u64 \<Rightarrow> 'a option" where
  "list_get xs i = (if unat i < length xs then Some (xs ! unat i) else None)"

definition get_commitment ::
  "aggsig_lib \<Rightarrow> ExpandedKeyPair \<Rightarrow> ExpandedKeyPair \<Rightarrow> bytes \<Rightarrow> bytes \<Rightarrow> SigningState \<Rightarrow>
     (SigningState \<times> (AggregateSigningError + SignedCommitment)) exec" where
  "get_commitment L our_key node_key message rng S =
     exec_bind (Committed_commit L our_key node_key message rng) (\<lambda>r.
     Done (case r of
             Inl e \<Rightarrow> (S, Inl e)
           | Inr (commitment, state) \<Rightarrow>
               (S\<lparr>ss_committed := hm_insert (sc_commitment commitment) state (ss_committed S)\<rparr>, Inr commitment)))"

text \<open>
  \<open>get_reveal\<close> takes the lock twice, and other requests may run in between: its first half
  removes the commitment, its second half verifies the others and files the reveal.
\<close>

definition take_committed ::
  "NodeInfo \<Rightarrow> SignedCommitment list \<Rightarrow> SigningState \<Rightarrow> SigningState \<times> (AggregateSigningError + Committed)" where
  "take_committed info recieved_commitments S =
     (case list_get recieved_commitments (ni_our_index info) of
        None \<Rightarrow> (S, Inl (AE_InvalidCommitmentNumbers (unat (ni_our_index info)) (length recieved_commitments)))
      | Some our_c \<Rightarrow>
          (case hm_get (ss_committed S) (sc_commitment our_c) of
             None \<Rightarrow> (S, Inl (AE_CommitmentNotFound (sc_commitment our_c)))
           | Some state \<Rightarrow> (S\<lparr>ss_committed := hm_remove (sc_commitment our_c) (ss_committed S)\<rparr>, Inr state)))"

definition file_reveal ::
  "aggsig_lib \<Rightarrow> NodeInfo \<Rightarrow> SignedCommitment list \<Rightarrow> Committed \<Rightarrow> SigningState \<Rightarrow>
     SigningState \<times> (AggregateSigningError + Reveal)" where
  "file_reveal L info recieved_commitments c S =
     (case Committed_reveal L c info recieved_commitments of
        Inl e \<Rightarrow> (S, Inl e)
      | Inr (reveal, state) \<Rightarrow> (S\<lparr>ss_revealed := hm_insert reveal state (ss_revealed S)\<rparr>, Inr reveal))"

definition get_reveal ::
  "aggsig_lib \<Rightarrow> NodeInfo \<Rightarrow> SignedCommitment list \<Rightarrow> SigningState \<Rightarrow>
     SigningState \<times> (AggregateSigningError + Reveal)" where
  "get_reveal L info recieved_commitments S =
     (case take_committed info recieved_commitments S of
        (S', Inl e) \<Rightarrow> (S', Inl e)
      | (S', Inr state) \<Rightarrow> file_reveal L info recieved_commitments state S')"

definition take_revealed ::
  "NodeInfo \<Rightarrow> Reveal list \<Rightarrow> SigningState \<Rightarrow> SigningState \<times> (AggregateSigningError + Revealed)" where
  "take_revealed info signature_parts S =
     (case list_get signature_parts (ni_our_index info) of
        None \<Rightarrow> (S, Inl (AE_InvalidRevealNumbers (unat (ni_our_index info)) (length signature_parts)))
      | Some our_r \<Rightarrow>
          (case hm_get (ss_revealed S) our_r of
             None \<Rightarrow> (S, Inl (AE_RevealNotFound (rv_R our_r) (rv_blind_factor our_r)))
           | Some state \<Rightarrow> (S\<lparr>ss_revealed := hm_remove our_r (ss_revealed S)\<rparr>, Inr state)))"

text \<open>The new state comes first: a panic in \<open>combine\<close> is after the removal.\<close>

definition get_signature_share ::
  "aggsig_lib \<Rightarrow> NodeInfo \<Rightarrow> Reveal list \<Rightarrow> SigningState \<Rightarrow>
     SigningState \<times> (AggregateSigningError + eddsa_signature) exec" where
  "get_signature_share L info signature_parts S =
     (case take_revealed info signature_parts S of
        (S', Inl e) \<Rightarrow> (S', Done (Inl e))
      | (S', Inr state) \<Rightarrow> (S', Revealed_combine L state signature_parts info))"

section \<open>Runs of the signer\<close>

text \<open>
  A sign node serves requests concurrently. Its runs are sequences of the atomic parts of the
  three operations, with the requests for a reveal that are in flight between their halves,
  under any view of the other nodes at each step. Two ghosts record the ephemeral keys that
  were drawn and those that a partial signature was made with.
\<close>

record signer_run =
  sr_state :: SigningState
  sr_inflight :: "(Committed \<times> SignedCommitment list) list"
  sr_drawn :: "EphemeralKey multiset"
  sr_used :: "EphemeralKey multiset"

definition signer_start :: signer_run where
  "signer_start = \<lparr>sr_state = SigningState_new, sr_inflight = [], sr_drawn = {#}, sr_used = {#}\<rparr>"

datatype signer_event =
    EvCommit ExpandedKeyPair ExpandedKeyPair bytes bytes
  | EvTake NodeInfo "SignedCommitment list"
  | EvFile nat NodeInfo
  | EvShare NodeInfo "Reveal list"

fun signer_step :: "aggsig_lib \<Rightarrow> signer_event \<Rightarrow> signer_run \<Rightarrow> signer_run" where
  "signer_step L (EvCommit our_key node_key message rng) r =
     (let r' = r\<lparr>sr_drawn := add_mset (fst (create_ephemeral L our_key message rng)) (sr_drawn r)\<rparr> in
      case get_commitment L our_key node_key message rng (sr_state r) of
        Done (S, _) \<Rightarrow> r'\<lparr>sr_state := S\<rparr>
      | _ \<Rightarrow> r')"
| "signer_step L (EvTake info cs) r =
     (case take_committed info cs (sr_state r) of
        (S, Inl _) \<Rightarrow> r\<lparr>sr_state := S\<rparr>
      | (S, Inr c) \<Rightarrow> r\<lparr>sr_state := S, sr_inflight := (c, cs) # sr_inflight r\<rparr>)"
| "signer_step L (EvFile i info) r =
     (if i < length (sr_inflight r)
      then (case sr_inflight r ! i of
              (c, cs) \<Rightarrow> r\<lparr>sr_state := fst (file_reveal L info cs c (sr_state r)),
                          sr_inflight := take i (sr_inflight r) @ drop (Suc i) (sr_inflight r)\<rparr>)
      else r)"
| "signer_step L (EvShare info rs) r =
     (case take_revealed info rs (sr_state r) of
        (S, Inl _) \<Rightarrow> r\<lparr>sr_state := S\<rparr>
      | (S, Inr state) \<Rightarrow>
          (case Revealed_combine L state rs info of
             Done (Inr _) \<Rightarrow>
               r\<lparr>sr_state := S, sr_used := add_mset (co_ephemeral_key (re_committed state)) (sr_used r)\<rparr>
           | _ \<Rightarrow> r\<lparr>sr_state := S\<rparr>))"

section \<open>Laws\<close>

lemma get_reveal_halves:
  "get_reveal L info cs S =
     (case take_committed info cs S of (S', Inl e) \<Rightarrow> (S', Inl e) | (S', Inr c) \<Rightarrow> file_reveal L info cs c S')"
  by (simp add: get_reveal_def)

text \<open>What the entries of a map hold, under an insertion and a removal.\<close>

definition held :: "('v \<Rightarrow> 'e) \<Rightarrow> ('k, 'v) hmap \<Rightarrow> 'e multiset" where
  "held f m = mset (map (f \<circ> snd) m)"

lemma held_insert: "held f (hm_insert k v m) \<subseteq># add_mset (f v) (held f m)"
proof (induction m)
  case (Cons e m)
  then show ?case by (cases e) (auto simp: held_def subset_mset.add_mono add_mset_commute subset_mset.le_add_same_cancel1)
qed (simp add: held_def)

lemma held_delete: "held f (hm_remove k m) \<subseteq># held f m"
  by (simp add: held_def AList.delete_eq mset_filter image_mset_subseteq_mono)

lemma held_remove: "hm_get m k = Some v \<Longrightarrow> add_mset (f v) (held f (hm_remove k m)) \<subseteq># held f m"
proof (induction m)
  case (Cons e m)
  obtain j w where e: "e = (j, w)" by (cases e)
  show ?case
  proof (cases "j = k")
    case True
    with Cons.prems e held_delete [of f k m] show ?thesis by (simp add: held_def)
  next
    case False
    with Cons e have "add_mset (f v) (held f (hm_remove k m)) \<subseteq># held f m" by simp
    with False e show ?thesis by (simp add: held_def add_mset_commute)
  qed
qed simp

definition keys_held :: "signer_run \<Rightarrow> EphemeralKey multiset" where
  "keys_held r = held co_ephemeral_key (ss_committed (sr_state r)) +
     held (co_ephemeral_key \<circ> re_committed) (ss_revealed (sr_state r)) +
     mset (map (co_ephemeral_key \<circ> fst) (sr_inflight r)) + sr_used r"

lemma keys_commit:
  "keys_held (signer_step L (EvCommit k n m g) r) \<subseteq># add_mset (fst (create_ephemeral L k m g)) (keys_held r)"
proof (cases "get_commitment L k n m g (sr_state r)")
  case (Done x)
  obtain S y where x: "x = (S, y)" by (cases x)
  obtain e c w where ew: "create_ephemeral L k m g = (e, c, w)" by (cases "create_ephemeral L k m g")
  from Done x have "S = sr_state r \<or>
      (\<exists>v i. co_ephemeral_key v = e \<and> S = (sr_state r)\<lparr>ss_committed := hm_insert i v (ss_committed (sr_state r))\<rparr>)"
    by (cases "SignedCommitment_create L c n k"; cases "\<exists>sc. SignedCommitment_create L c n k = Done (Inr sc)")
      (force simp: get_commitment_def Committed_commit_def ew split: sum.splits)+
  then have "held co_ephemeral_key (ss_committed S) \<subseteq># add_mset e (held co_ephemeral_key (ss_committed (sr_state r)))"
    "ss_revealed S = ss_revealed (sr_state r)"
    using held_insert [of co_ephemeral_key] by fastforce+
  then show ?thesis by (simp add: Done x ew keys_held_def)
qed (simp_all add: keys_held_def)

lemma keys_take: "keys_held (signer_step L (EvTake info cs) r) \<subseteq># keys_held r"
proof (cases "take_committed info cs (sr_state r)")
  case (Pair S y)
  show ?thesis
  proof (cases y)
    case (Inr c)
    with Pair obtain k where "hm_get (ss_committed (sr_state r)) k = Some c"
      "S = (sr_state r)\<lparr>ss_committed := hm_remove k (ss_committed (sr_state r))\<rparr>"
      by (auto simp: take_committed_def split: option.splits)
    with held_remove [of "ss_committed (sr_state r)" k c co_ephemeral_key] show ?thesis
      by (simp add: Pair Inr keys_held_def)
  qed (use Pair in \<open>auto simp: take_committed_def keys_held_def split: option.splits\<close>)
qed

lemma mset_without: "i < length xs \<Longrightarrow> add_mset (xs ! i) (mset (take i xs @ drop (Suc i) xs)) = mset xs"
  by (metis add_mset_add_single id_take_nth_drop mset.simps(2) mset_append union_mset_add_mset_right)

lemma keys_file: "keys_held (signer_step L (EvFile i info) r) \<subseteq># keys_held r"
proof (cases "i < length (sr_inflight r)")
  case True
  obtain c cs where c: "sr_inflight r ! i = (c, cs)" by (cases "sr_inflight r ! i")
  let ?S = "fst (file_reveal L info cs c (sr_state r))"
  let ?g = "co_ephemeral_key \<circ> fst :: Committed \<times> SignedCommitment list \<Rightarrow> EphemeralKey"
  have "?S = sr_state r \<or> (\<exists>v k. re_committed v = c \<and>
      ?S = (sr_state r)\<lparr>ss_revealed := hm_insert k v (ss_revealed (sr_state r))\<rparr>)"
    by (cases "signed_by_every_node L info cs")
      (force simp: file_reveal_def Committed_reveal_def intro: exI [of _ "\<lparr>re_commitments = _, re_signing_public_keys = _, re_committed = c\<rparr>"])+
  then have S: "held (co_ephemeral_key \<circ> re_committed) (ss_revealed ?S) \<subseteq>#
      add_mset (co_ephemeral_key c) (held (co_ephemeral_key \<circ> re_committed) (ss_revealed (sr_state r)))"
    "ss_committed ?S = ss_committed (sr_state r)"
    using held_insert [of "co_ephemeral_key \<circ> re_committed"] by fastforce+
  have "image_mset ?g (mset (sr_inflight r)) =
      add_mset (co_ephemeral_key c) (image_mset ?g (mset (take i (sr_inflight r) @ drop (Suc i) (sr_inflight r))))"
    unfolding mset_without [OF True, symmetric] by (simp add: c)
  with S True show ?thesis by (simp add: c keys_held_def)
qed simp

lemma keys_share: "keys_held (signer_step L (EvShare info rs) r) \<subseteq># keys_held r"
proof (cases "take_revealed info rs (sr_state r)")
  case (Pair S y)
  show ?thesis
  proof (cases y)
    case (Inr v)
    with Pair obtain k where "hm_get (ss_revealed (sr_state r)) k = Some v"
      and S: "S = (sr_state r)\<lparr>ss_revealed := hm_remove k (ss_revealed (sr_state r))\<rparr>"
      by (auto simp: take_revealed_def split: option.splits)
    from held_remove [OF this(1), of "co_ephemeral_key \<circ> re_committed"]
    have h: "add_mset (co_ephemeral_key (re_committed v)) (held (co_ephemeral_key \<circ> re_committed) (ss_revealed S)) \<subseteq>#
        held (co_ephemeral_key \<circ> re_committed) (ss_revealed (sr_state r))" by (simp add: S)
    then have "held (co_ephemeral_key \<circ> re_committed) (ss_revealed S) \<subseteq>#
        held (co_ephemeral_key \<circ> re_committed) (ss_revealed (sr_state r))" by (auto intro: subset_mset.order_trans [rotated])
    with h S show ?thesis
      by (auto simp: Pair Inr keys_held_def split: exec.split sum.split)
  qed (use Pair in \<open>auto simp: take_revealed_def keys_held_def split: option.splits\<close>)
qed

lemma drawn_step:
  "sr_drawn (signer_step L ev r) =
     (case ev of EvCommit k n m g \<Rightarrow> add_mset (fst (create_ephemeral L k m g)) (sr_drawn r) | _ \<Rightarrow> sr_drawn r)"
  by (cases ev) (auto simp: Let_def split: exec.split prod.split sum.split)

lemma keys_step:
  "keys_held r \<subseteq># sr_drawn r \<Longrightarrow> keys_held (signer_step L ev r) \<subseteq># sr_drawn (signer_step L ev r)"
  unfolding drawn_step
  by (cases ev)
    (auto intro: subset_mset.order_trans [OF keys_commit] subset_mset.order_trans [OF keys_take]
      subset_mset.order_trans [OF keys_file] subset_mset.order_trans [OF keys_share] simp del: signer_step.simps)

interpretation signer: invariant_system "signer_step L" "\<lambda>r. keys_held r \<subseteq># sr_drawn r"
  by unfold_locales (rule keys_step)

text \<open>When a share is given, and which.\<close>

definition opens :: "aggsig_lib \<Rightarrow> AggrCommitment \<times> Reveal \<Rightarrow> bool" where
  "opens L cp \<longleftrightarrow>
     (case y_coord L (rv_R (snd cp)) of
        None \<Rightarrow> False
      | Some y \<Rightarrow> hash_commitment L y (rv_blind_factor (snd cp)) = fst cp)"

lemma check_reveals_Inr:
  "check_reveals L ps = Done (Inr ()) \<longleftrightarrow>
     list_all (opens L) ps"
proof (induction ps)
  case (Cons x ps)
  obtain c p where x: "x = (c, p)" by (cases x)
  show ?case
  proof (cases "y_coord L (rv_R p)")
    case (Some y)
    with Cons x show ?thesis by (cases "hash_commitment L y (rv_blind_factor p) = c")
      (auto simp: check_commitment_def opens_def Let_def case_unit_Unity)
  qed (simp add: x check_commitment_def opens_def)
qed simp

lemma Revealed_combine_Inr:
  "Revealed_combine L v rs info = Done (Inr sig) \<longleftrightarrow>
     check_reveals L (zip (re_commitments v) rs) = Done (Inr ()) \<and>
     (\<exists>ka. key_aggregation_n L (re_signing_public_keys v) (unat (ni_our_index info)) = Done ka \<and>
       sig = partial_sign L (co_ephemeral_key (re_committed v)) (co_our_key (re_committed v)) (ka_hash ka)
         (get_R_tot L (map rv_R rs)) (ka_apk ka) (co_message (re_committed v)))"
proof (cases "check_reveals L (zip (re_commitments v) rs)")
  case (Done x)
  then show ?thesis
    by (cases x) (auto simp: Revealed_combine_def Let_def exec_bind_eq_Done case_unit_Unity)
qed (simp_all add: Revealed_combine_def)

lemma signed_by_every_node_Inr:
  "signed_by_every_node L info cs = Inr ps \<longleftrightarrow>
     (\<exists>pks. ni_nodes_public_keys info = Some pks \<and>
        list_all2 (\<lambda>(pk, c) p. SignedCommitment_verify L c pk = Inr p) (zip pks cs) ps)"
  by (auto simp: signed_by_every_node_def res_map_eq_Inr case_prod_beta' split: option.splits)

text \<open>
  Neither pairing notices a shorter list: the commitments of the last nodes may be left out,
  and reveals beyond the commitments are added to the point of the signature unchecked.
\<close>

lemma missing_commitments_accepted:
  assumes "signed_by_every_node L info (cs @ ds) = Inr ps"
  shows "signed_by_every_node L info cs = Inr (take (length cs) ps)"
proof -
  from assms obtain pks where pks: "ni_nodes_public_keys info = Some pks"
    "list_all2 (\<lambda>(pk, c) p. SignedCommitment_verify L c pk = Inr p) (zip pks (cs @ ds)) ps"
    by (auto simp: signed_by_every_node_Inr)
  have "zip pks cs = take (length cs) (zip pks (cs @ ds))" by (intro nth_equalityI) (auto simp: nth_append)
  with pks show ?thesis by (auto simp: signed_by_every_node_Inr intro: list_all2_takeI)
qed

lemma extra_reveals_unchecked:
  assumes "length (re_commitments v) \<le> length rs"
  shows "check_reveals L (zip (re_commitments v) (rs @ extra)) = check_reveals L (zip (re_commitments v) rs)"
  using assms by (simp add: zip_append2)

section \<open>Properties\<close>

text \<open>
  C16: An ephemeral key signs at most once. In every run of a sign node, whatever requests
  arrive and however the two halves of the requests for reveals interleave with the others, a
  partial signature is made with an ephemeral key at most as often as the generator drew it;
  as long as the draws are different, no key is ever used twice, which would give away the
  share of the signing key.
\<close>

theorem ephemeral_key_signs_once:
  "count (sr_used (fold (signer_step L) evs signer_start)) k \<le>
   count (sr_drawn (fold (signer_step L) evs signer_start)) k"
proof -
  have "keys_held signer_start \<subseteq># sr_drawn signer_start"
    by (simp add: keys_held_def signer_start_def SigningState_new_def held_def)
  from signer.run_inv [OF this] have "sr_used (fold (signer_step L) evs signer_start) \<subseteq>#
      sr_drawn (fold (signer_step L) evs signer_start)"
    unfolding keys_held_def by (rule subset_mset.order_trans [OF mset_subset_eq_add_right])
  then show ?thesis by (rule mset_subset_eq_count)
qed

text \<open>
  A share is given exactly when this node's reveal is among the filed ones, each reveal
  opens the commitment at its place, and the keys can be aggregated; the reveal is used up,
  and the share signs the message of the commitment with its ephemeral key, under the
  aggregate of the keys that came with the commitments.
\<close>

theorem signature_share_exact:
  "get_signature_share L info parts S = (S', Done (Inr sig)) \<longleftrightarrow>
     (\<exists>r v ka. list_get parts (ni_our_index info) = Some r \<and> hm_get (ss_revealed S) r = Some v \<and>
        S' = S\<lparr>ss_revealed := hm_remove r (ss_revealed S)\<rparr> \<and>
        list_all (opens L) (zip (re_commitments v) parts) \<and>
        key_aggregation_n L (re_signing_public_keys v) (unat (ni_our_index info)) = Done ka \<and>
        sig = partial_sign L (co_ephemeral_key (re_committed v)) (co_our_key (re_committed v)) (ka_hash ka)
          (get_R_tot L (map rv_R parts)) (ka_apk ka) (co_message (re_committed v)))"
  unfolding get_signature_share_def take_revealed_def check_reveals_Inr [symmetric]
  by (auto simp: Revealed_combine_Inr split: option.split)

end
