(* ===== verification/Relayer.thy ===== *)
theory Relayer
  imports Aggregate_Signer
begin

text \<open>
  The leader's client of NEAR's RPC and of the relayers,
  \<^verbatim>\<open>mpc-recovery/src/relayer\<close>, and the delegate action that creates an account
  (\<^verbatim>\<open>transaction.rs\<close>). The RPC client, the http client and \<open>serde_json\<close> are arguments over the
  state \<open>'s\<close> of what is outside.
\<close>

section \<open>Messages\<close>

record SignedDelegateAction =
  sda_delegate_action :: DelegateAction
  sda_signature :: near_signature

record RegisterAccountRequest =
  rar_account_id :: AccountId
  rar_allowance :: u64
  rar_oauth_token :: string

record CreateAccountAtomicRequest =
  caar_account_id :: AccountId
  caar_allowance :: u64
  caar_oauth_token :: string
  caar_signed_delegate_action :: SignedDelegateAction

datatype FinalExecutionStatus = NotStarted | Started | Failure string | SuccessValue bytes

text \<open>The outcomes of the transaction and of its receipts are not looked at.\<close>

record SendMetaTxResponse =
  smr_message :: string
  smr_status :: FinalExecutionStatus
  smr_outcomes :: bytes

datatype rpc_error = RpcUnknownAccount AccountId | RpcUnknownAccessKey near_public_key | RpcOther anyhow_error

record 's relayer_lib =
  fetch_nonce :: "AccountId \<Rightarrow> near_public_key \<Rightarrow> 's \<Rightarrow> 's \<times> (rpc_error + u64 \<times> bytes \<times> u64)"
  invalidate_cache :: "AccountId \<times> near_public_key \<Rightarrow> 's \<Rightarrow> 's"
  build_request :: "string \<Rightarrow> string option \<Rightarrow> bytes \<Rightarrow> anyhow_error + bytes"
  http_send :: "bytes \<Rightarrow> 's \<Rightarrow> 's \<times> (anyhow_error + StatusCode \<times> (anyhow_error + bytes))"
  from_utf8 :: "bytes \<Rightarrow> anyhow_error + string"
  json_register :: "RegisterAccountRequest \<Rightarrow> anyhow_error + bytes"
  json_atomic :: "CreateAccountAtomicRequest \<Rightarrow> anyhow_error + bytes"
  json_meta_tx :: "SignedDelegateAction \<Rightarrow> anyhow_error + bytes"
  parse_meta_tx :: "bytes \<Rightarrow> anyhow_error + SendMetaTxResponse"
  debug_relayer_error :: "RelayerError \<Rightarrow> string"

definition is_success :: "StatusCode \<Rightarrow> bool" where
  "is_success code \<longleftrightarrow> 200 \<le> code \<and> code < 300"

section \<open>Calls\<close>

definition access_key ::
  "'s relayer_lib \<Rightarrow> AccountId \<Rightarrow> near_public_key \<Rightarrow> ('s, RelayerError + bytes \<times> u64 \<times> u64) handler" where
  "access_key Y account_id public_key s =
     (case fetch_nonce Y account_id public_key s of
        (s', Inr (nonce, hash, height)) \<Rightarrow> (s', Done (Inr (hash, height, nonce)))
      | (s', Inl (RpcUnknownAccount a)) \<Rightarrow> (s', Done (Inl (RE_UnknownAccount a)))
      | (s', Inl (RpcUnknownAccessKey k)) \<Rightarrow> (s', Done (Inl (RE_UnknownAccessKey k)))
      | (s', Inl (RpcOther e)) \<Rightarrow> (s', Done (Inl (RE_Other e))))"

text \<open>
  What the three calls of a relayer share: build the request, send it, read the body as text,
  and refuse any status that is not a success.
\<close>

definition relayer_post ::
  "'s relayer_lib \<Rightarrow> string \<Rightarrow> string option \<Rightarrow> anyhow_error + bytes \<Rightarrow> ('s, RelayerError + bytes) handler" where
  "relayer_post Y url api_key body =
     h_check (map_err RE_DataConversionFailure body) (\<lambda>payload.
     h_check (map_err RE_NetworkFailure (build_request Y url api_key payload)) (\<lambda>request.
     \<lambda>s. case http_send Y request s of
            (s', Inl e) \<Rightarrow> (s', Done (Inl (RE_NetworkFailure e)))
          | (s', Inr (status, Inl e)) \<Rightarrow> (s', Done (Inl (RE_NetworkFailure e)))
          | (s', Inr (status, Inr response_body)) \<Rightarrow>
              (s', Done (case from_utf8 Y response_body of
                           Inl e \<Rightarrow> Inl (RE_DataConversionFailure e)
                         | Inr msg \<Rightarrow> if is_success status then Inr response_body
                                      else Inl (RE_RequestFailure status msg)))))"

definition register_account_and_allowance ::
  "'s relayer_lib \<Rightarrow> RegisterAccountRequest \<Rightarrow> DelegateActionRelayer \<Rightarrow> ('s, RelayerError + unit) handler" where
  "register_account_and_allowance Y request relayer =
     h_try (relayer_post Y (dar_url relayer @ ''/register_account'') (dar_api_key relayer) (json_register Y request)) (\<lambda>_.
     h_return (Inr ()))"

definition create_account_atomic ::
  "'s relayer_lib \<Rightarrow> CreateAccountAtomicRequest \<Rightarrow> DelegateActionRelayer \<Rightarrow> ('s, RelayerError + unit) handler" where
  "create_account_atomic Y request relayer =
     h_try (relayer_post Y (dar_url relayer @ ''/create_account_atomic'') (dar_api_key relayer) (json_atomic Y request)) (\<lambda>_.
     h_return (Inr ()))"

text \<open>This call sends no api key; the value of a success has to be text.\<close>

definition send_meta_tx ::
  "'s relayer_lib \<Rightarrow> SignedDelegateAction \<Rightarrow> DelegateActionRelayer \<Rightarrow> ('s, RelayerError + SendMetaTxResponse) handler" where
  "send_meta_tx Y request relayer =
     h_try (relayer_post Y (dar_url relayer @ ''/send_meta_tx'') None (json_meta_tx Y request)) (\<lambda>response_body.
     h_check (map_err RE_DataConversionFailure (parse_meta_tx Y response_body)) (\<lambda>response.
     h_return (case smr_status response of
         NotStarted \<Rightarrow> Inl RE_TxNotReady
       | Started \<Rightarrow> Inl RE_TxNotReady
       | Failure e \<Rightarrow> Inl (RE_TxExecutionFailure e)
       | SuccessValue value \<Rightarrow>
           (case from_utf8 Y value of Inl e \<Rightarrow> Inl (RE_DataConversionFailure e) | Inr _ \<Rightarrow> Inr response))))"

definition text_contains :: "string \<Rightarrow> string \<Rightarrow> bool" where
  "text_contains s pat \<longleftrightarrow> list_ex (\<lambda>i. take (length pat) (drop i s) = pat) [0..<Suc (length s)]"

definition invalidate_cache_if_acc_creation_failed ::
  "'s relayer_lib \<Rightarrow> AccountId \<times> near_public_key \<Rightarrow> string \<Rightarrow> ('s, unit) handler" where
  "invalidate_cache_if_acc_creation_failed Y cache_key err_str s =
     (if text_contains err_str ''InvalidNonce'' \<or> text_contains err_str ''DelegateActionInvalidNonce'' \<or>
         text_contains err_str ''must be larger than nonce of the used access key''
      then invalidate_cache Y cache_key s else s, Done ())"

section \<open>The creation of an account\<close>

record InMemorySigner =
  ims_account_id :: AccountId
  ims_public_key :: near_public_key
  ims_secret_key :: bytes

text \<open>\<open>json_args\<close> prints the arguments of the call, \<open>sign\<close> signs a delegate action.\<close>

definition new_create_account_delegate_action ::
  "(AccountId \<Rightarrow> CreateAccountOptions \<Rightarrow> bytes) \<Rightarrow> (InMemorySigner \<Rightarrow> DelegateAction \<Rightarrow> near_signature) \<Rightarrow>
     InMemorySigner \<Rightarrow> AccountId \<Rightarrow> CreateAccountOptions \<Rightarrow> AccountId \<Rightarrow> u64 \<Rightarrow> u64 \<Rightarrow> anyhow_error + SignedDelegateAction" where
  "new_create_account_delegate_action json_args sign signer new_account_id new_account_options near_root_account nonce max_block_height =
     (let create_acc_action = FunctionCall ''create_account_advanced'' (json_args new_account_id new_account_options) 300000000000000 0;
          delegate_action = \<lparr>da_sender_id = ims_account_id signer, da_receiver_id = near_root_account,
            da_actions = [create_acc_action], da_nonce = nonce, da_max_block_height = max_block_height,
            da_public_key = ims_public_key signer\<rparr> in
      Inr \<lparr>sda_delegate_action = delegate_action, sda_signature = sign signer delegate_action\<rparr>)"

section \<open>Laws\<close>

text \<open>
  The second of the three texts contains the first: the test for it is never the one that
  decides.
\<close>

lemma text_contains_iff: "text_contains s pat \<longleftrightarrow> (\<exists>a b. s = a @ pat @ b)"
proof
  assume "text_contains s pat"
  then obtain i where "take (length pat) (drop i s) = pat" by (auto simp: text_contains_def list_ex_iff)
  then have "s = take i s @ pat @ drop (length pat) (drop i s)" by (metis append_take_drop_id)
  then show "\<exists>a b. s = a @ pat @ b" by blast
next
  assume "\<exists>a b. s = a @ pat @ b"
  then obtain a b where s: "s = a @ pat @ b" by blast
  then have "take (length pat) (drop (length a) s) = pat" "length a < Suc (length s)" by auto
  then show "text_contains s pat" unfolding text_contains_def list_ex_iff by force
qed

lemma second_test_redundant: "text_contains s ''DelegateActionInvalidNonce'' \<Longrightarrow> text_contains s ''InvalidNonce''"
proof -
  assume "text_contains s ''DelegateActionInvalidNonce''"
  then obtain a b where "s = (a @ ''DelegateAction'') @ ''InvalidNonce'' @ b" by (auto simp: text_contains_iff)
  then show ?thesis unfolding text_contains_iff by blast
qed

lemma relayer_post_Inr:
  "relayer_post Y url key body s = (s', Done (Inr b)) \<longleftrightarrow>
     (\<exists>payload request status msg. body = Inr payload \<and> build_request Y url key payload = Inr request \<and>
        http_send Y request s = (s', Inr (status, Inr b)) \<and> from_utf8 Y b = Inr msg \<and> is_success status)"
proof -
  have "(case http_send Y request s of
            (s', Inl e) \<Rightarrow> (s', Done (Inl (RE_NetworkFailure e)))
          | (s', Inr (status, Inl e)) \<Rightarrow> (s', Done (Inl (RE_NetworkFailure e)))
          | (s', Inr (status, Inr response_body)) \<Rightarrow>
              (s', Done (case from_utf8 Y response_body of
                           Inl e \<Rightarrow> Inl (RE_DataConversionFailure e)
                         | Inr msg \<Rightarrow> if is_success status then Inr response_body
                                      else Inl (RE_RequestFailure status msg)))) = (s', Done (Inr b)) \<longleftrightarrow>
      (\<exists>status msg. http_send Y request s = (s', Inr (status, Inr b)) \<and> from_utf8 Y b = Inr msg \<and> is_success status)" for request
  proof -
    obtain s1 r where sr: "http_send Y request s = (s1, r)" by (cases "http_send Y request s")
    show ?thesis
    proof (cases r)
      case (Inr x)
      obtain status y where x: "x = (status, y)" by (cases x)
      show ?thesis
      proof (cases y)
        case (Inr body')
        with sr \<open>r = Inr x\<close> x show ?thesis by (cases "from_utf8 Y body'") auto
      qed (use sr \<open>r = Inr x\<close> x in simp)
    qed (use sr in simp)
  qed
  then show ?thesis unfolding relayer_post_def h_check_Inr map_err_Inr by auto
qed

end
