(* ===== verification/Sign_Node.thy ===== *)
theory Sign_Node
  imports Aggregate_Signer
begin

text \<open>
  A sign node of the recovery service, \<^verbatim>\<open>mpc-recovery/src/sign_node/mod.rs\<close>: the claims of
  identity tokens, the commitments to signatures, the public keys of users, and the set of
  public keys of the sign nodes.
\<close>

section \<open>State and libraries\<close>

record 'd sign_libs =
  sl_digest :: digest_lib
  sl_jwt :: jwt_lib
  sl_codec :: codec_lib
  sl_cipher :: cipher_lib
  sl_aggsig :: aggsig_lib
  sl_gcp :: "'d gcp_lib"
  sl_signable :: "DelegateAction \<Rightarrow> anyhow_error + bytes"
  sl_near_hash :: "bytes \<Rightarrow> bytes"
  sl_show_aggregate :: "AggregateSigningError \<Rightarrow> string"
  sl_show_error :: "SignNodeError \<Rightarrow> string"

record SignNodeState =
  sn_gcp_service :: GcpService
  sn_node_key :: ExpandedKeyPair
  sn_cipher :: bytes
  sn_signing_state :: SigningState
  sn_node_info :: NodeInfo

text \<open>A node and the datastore. What is fetched or drawn during a request is an argument.\<close>

record 'd sign_world =
  sw_node :: SignNodeState
  sw_store :: 'd

record sign_inputs =
  si_jwt_keys :: "anyhow_error + string list"
  si_drawn :: ExpandedKeyPair
  si_rng :: bytes

abbreviation our_index :: "'d sign_world \<Rightarrow> u64" where
  "our_index w \<equiv> ni_our_index (sn_node_info (sw_node w))"

definition store_get ::
  "'d sign_libs \<Rightarrow> string \<Rightarrow> (gvalue \<Rightarrow> ConvertError + 'a) \<Rightarrow> string \<Rightarrow> ('d sign_world, anyhow_error + 'a option) handler" where
  "store_get X kind from_value name w =
     (w, gcp_get (sl_gcp X) (sn_gcp_service (sw_node w)) kind from_value name (sw_store w))"

definition store_insert :: "'d sign_libs \<Rightarrow> string \<Rightarrow> gvalue \<Rightarrow> ('d sign_world, anyhow_error + unit) handler" where
  "store_insert X kind value w =
     (case gcp_insert (sl_gcp X) (sn_gcp_service (sw_node w)) kind value (sw_store w) of
        (d, r) \<Rightarrow> (w\<lparr>sw_store := d\<rparr>, Done r))"

text \<open>The start of a node: an error of the datastore counts as no set of keys.\<close>

definition sign_node_start ::
  "'d sign_libs \<Rightarrow> GcpService \<Rightarrow> u64 \<Rightarrow> ExpandedKeyPair \<Rightarrow> bytes \<Rightarrow> 'd \<Rightarrow> SignNodeState exec" where
  "sign_node_start X S index node_key cipher d =
     exec_bind (gcp_get (sl_gcp X) S SignerNodePkSet_kind (SignerNodePkSet_from_value (sl_codec X)) (pk_set_name index) d) (\<lambda>r.
     let pk_set = (case r of Inl _ \<Rightarrow> None | Inr s \<Rightarrow> s) in
     Done \<lparr>sn_gcp_service = S, sn_node_key = node_key, sn_cipher = cipher,
           sn_signing_state = SigningState_new,
           sn_node_info = NodeInfo_new index (map_option ps_public_keys pk_set)\<rparr>)"

section \<open>Users\<close>

definition get_or_generate_user_creds ::
  "'d sign_libs \<Rightarrow> ExpandedKeyPair \<Rightarrow> InternalAccountId \<Rightarrow> ('d sign_world, anyhow_error + EncryptedUserCredentials) handler" where
  "get_or_generate_user_creds X drawn internal_account_id =
     h_bind (h_read (\<lambda>w. (our_index w, sn_cipher (sw_node w)))) (\<lambda>(index, cipher).
     h_try (store_get X EncryptedUserCredentials_kind (EncryptedUserCredentials_from_value (sl_codec X))
              (credentials_name index internal_account_id)) (\<lambda>found.
     case found of
       Some user_credentials \<Rightarrow> h_return (Inr user_credentials)
     | None \<Rightarrow>
         h_try (h_lift (EncryptedUserCredentials_random (sl_cipher X) drawn index internal_account_id cipher)) (\<lambda>user_credentials.
         h_try (store_insert X EncryptedUserCredentials_kind
                  (EncryptedUserCredentials_into_value (sl_codec X) user_credentials)) (\<lambda>_.
         h_return (Inr user_credentials)))))"

text \<open>The check of a claim that the two requests about users share.\<close>

definition check_claimed :: "'d sign_libs \<Rightarrow> OidcDigest \<Rightarrow> ('d sign_world, SignNodeError + unit) handler" where
  "check_claimed X oidc_digest =
     h_bind (store_get X OidcDigest_kind (OidcDigest_from_value (sl_codec X)) (OidcDigest_to_name (sl_codec X) oidc_digest)) (\<lambda>r.
     h_return (case r of
         Inr (Some stored_digest) \<Rightarrow>
           if stored_digest = oidc_digest then Inr () else Inl (SE_OidcTokenClaimedWithAnotherKey oidc_digest)
       | Inr None \<Rightarrow> Inl (SE_OidcTokenNotClaimed oidc_digest)
       | Inl e \<Rightarrow> Inl (SE_Other e)))"

definition sign_commitment ::
  "'d sign_libs \<Rightarrow> sign_inputs \<Rightarrow> ExpandedKeyPair \<Rightarrow> bytes \<Rightarrow> ('d sign_world, SignNodeError + SignedCommitment) handler" where
  "sign_commitment X inp our_key payload w =
     (case get_commitment (sl_aggsig X) our_key (sn_node_key (sw_node w)) payload (si_rng inp)
             (sn_signing_state (sw_node w)) of
        Done (S, r) \<Rightarrow>
          (w\<lparr>sw_node := (sw_node w)\<lparr>sn_signing_state := S\<rparr>\<rparr>,
           Done (map_err (\<lambda>e. SE_Other (sl_show_aggregate X e)) r))
      | Panics p \<Rightarrow> (w, Panics p)
      | Loops \<Rightarrow> (w, Loops))"

section \<open>Commitments\<close>

text \<open>
  A claim looks the token up, records it when it is new, and commits to a signature. The
  lookup says whether something is left to record.
\<close>

definition claim_lookup ::
  "'d sign_libs \<Rightarrow> ClaimOidcNodeRequest \<Rightarrow> ('d sign_world, SignNodeError + OidcDigest \<times> bool) handler" where
  "claim_lookup X request =
     h_bind (h_read our_index) (\<lambda>index.
     h_check (map_err SE_Other (claim_oidc_request_digest (sl_digest X) (conr_oidc_token_hash request) (conr_public_key request))) (\<lambda>request_digest.
     h_check (map_err SE_DigestSignatureVerificationFailed
                (check_digest_signature (sl_digest X) (conr_public_key request) (conr_signature request) request_digest)) (\<lambda>_.
     let oidc_digest = \<lparr>od_node_id = index, od_digest = conr_oidc_token_hash request,
                        od_public_key = conr_public_key request\<rparr> in
     h_bind (store_get X OidcDigest_kind (OidcDigest_from_value (sl_codec X)) (OidcDigest_to_name (sl_codec X) oidc_digest)) (\<lambda>r.
     h_return (case r of
         Inr (Some stored_digest) \<Rightarrow>
           if stored_digest = oidc_digest then Inr (oidc_digest, False)
           else Inl (SE_OidcTokenAlreadyClaimed oidc_digest)
       | Inr None \<Rightarrow> Inr (oidc_digest, True)
       | Inl e \<Rightarrow> Inl (SE_Other e))))))"

definition claim_record :: "'d sign_libs \<Rightarrow> OidcDigest \<Rightarrow> ('d sign_world, SignNodeError + unit) handler" where
  "claim_record X oidc_digest =
     h_map_err SE_Other (store_insert X OidcDigest_kind (OidcDigest_into_value (sl_codec X) oidc_digest))"

definition claim_commit ::
  "'d sign_libs \<Rightarrow> sign_inputs \<Rightarrow> ClaimOidcNodeRequest \<Rightarrow> ('d sign_world, SignNodeError + SignedCommitment) handler" where
  "claim_commit X inp request =
     h_check (map_err SE_Other (claim_oidc_response_digest (sl_digest X) (conr_signature request))) (\<lambda>payload.
     h_bind (h_read (\<lambda>w. sn_node_key (sw_node w))) (\<lambda>node_key.
     sign_commitment X inp node_key payload))"

definition process_claim ::
  "'d sign_libs \<Rightarrow> sign_inputs \<Rightarrow> ClaimOidcNodeRequest \<Rightarrow> ('d sign_world, SignNodeError + SignedCommitment) handler" where
  "process_claim X inp request =
     h_try (claim_lookup X request) (\<lambda>(oidc_digest, is_new).
     h_try (if is_new then claim_record X oidc_digest else h_return (Inr ())) (\<lambda>_.
     claim_commit X inp request))"

definition process_sign_share ::
  "'d sign_libs \<Rightarrow> sign_inputs \<Rightarrow> SignShareNodeRequest \<Rightarrow> ('d sign_world, SignNodeError + SignedCommitment) handler" where
  "process_sign_share X inp request =
     h_bind (h_read (\<lambda>w. (our_index w, sn_cipher (sw_node w)))) (\<lambda>(index, cipher).
     h_check (map_err SE_OidcVerificationFailed
                (verify_oidc_token (sl_jwt X) (si_jwt_keys inp) (ssnr_oidc_token request) None)) (\<lambda>oidc_token_claims.
     let frp_pk = ssnr_frp_public_key request in
     h_check (map_err SE_Other
                (sign_request_digest (sl_digest X) (ssnr_delegate_action request) (ssnr_oidc_token request) frp_pk)) (\<lambda>digest.
     h_check (map_err SE_DigestSignatureVerificationFailed
                (check_digest_signature (sl_digest X) frp_pk (ssnr_frp_signature request) digest)) (\<lambda>_.
     h_try (check_claimed X \<lparr>od_node_id = index,
              od_digest = digest_hash (sl_digest X) (ssnr_oidc_token request), od_public_key = frp_pk\<rparr>) (\<lambda>_.
     h_try (h_map_err SE_Other (get_or_generate_user_creds X (si_drawn inp) (get_internal_account_id oidc_token_claims))) (\<lambda>user_credentials.
     h_check (map_err SE_Other (sl_signable X (ssnr_delegate_action request))) (\<lambda>message.
     h_try (h_map_err SE_Other (h_lift (decrypt_key_pair (sl_cipher X) user_credentials cipher))) (\<lambda>key_pair.
     sign_commitment X inp key_pair (sl_near_hash X message)))))))))"

fun process_commit ::
  "'d sign_libs \<Rightarrow> sign_inputs \<Rightarrow> SignNodeRequest \<Rightarrow> ('d sign_world, SignNodeError + SignedCommitment) handler" where
  "process_commit X inp (ClaimOidc request) = process_claim X inp request"
| "process_commit X inp (SignShare request) = process_sign_share X inp request"

section \<open>Endpoints\<close>

type_synonym 'a response = "StatusCode \<times> (string + 'a)"

definition check_if_ready :: "'d sign_world \<Rightarrow> string + unit" where
  "check_if_ready w =
     (if ni_nodes_public_keys (sn_node_info (sw_node w)) = None
      then Inl ''Sign node is not ready yet: waiting on all public keys from leader node'' else Inr ())"

definition respond :: "('e \<Rightarrow> StatusCode) \<Rightarrow> ('e \<Rightarrow> string) \<Rightarrow> 'e + 'a \<Rightarrow> 'a response" where
  "respond code show_error r = (case r of Inl e \<Rightarrow> (code e, Inl (show_error e)) | Inr x \<Rightarrow> (200, Inr x))"

definition when_ready :: "('d sign_world, 'a response) handler \<Rightarrow> ('d sign_world, 'a response) handler" where
  "when_ready m w = (case check_if_ready w of Inl msg \<Rightarrow> (w, Done (500, Inl msg)) | Inr () \<Rightarrow> m w)"

definition commit_endpoint ::
  "'d sign_libs \<Rightarrow> sign_inputs \<Rightarrow> SignNodeRequest \<Rightarrow> ('d sign_world, SignedCommitment response) handler" where
  "commit_endpoint X inp request =
     when_ready (h_bind (process_commit X inp request) (\<lambda>r.
     h_return (respond SignNodeError_code (sl_show_error X) r)))"

definition reveal_endpoint ::
  "'d sign_libs \<Rightarrow> SignedCommitment list \<Rightarrow> ('d sign_world, Reveal response) handler" where
  "reveal_endpoint X request =
     when_ready (\<lambda>w.
     case get_reveal (sl_aggsig X) (sn_node_info (sw_node w)) request (sn_signing_state (sw_node w)) of
       (S, r) \<Rightarrow> (w\<lparr>sw_node := (sw_node w)\<lparr>sn_signing_state := S\<rparr>\<rparr>,
                  Done (respond AggregateSigningError_code (sl_show_aggregate X) r)))"

definition signature_share_endpoint ::
  "'d sign_libs \<Rightarrow> Reveal list \<Rightarrow> ('d sign_world, eddsa_signature response) handler" where
  "signature_share_endpoint X request =
     when_ready (\<lambda>w.
     case get_signature_share (sl_aggsig X) (sn_node_info (sw_node w)) request (sn_signing_state (sw_node w)) of
       (S, r) \<Rightarrow> (w\<lparr>sw_node := (sw_node w)\<lparr>sn_signing_state := S\<rparr>\<rparr>,
                  exec_bind r (\<lambda>x. Done (respond AggregateSigningError_code (sl_show_aggregate X) x))))"

definition process_public_key ::
  "'d sign_libs \<Rightarrow> sign_inputs \<Rightarrow> PublicKeyNodeRequest \<Rightarrow> ('d sign_world, SignNodeError + EdPoint) handler" where
  "process_public_key X inp request =
     h_bind (h_read our_index) (\<lambda>index.
     h_check (map_err SE_OidcVerificationFailed
                (verify_oidc_token (sl_jwt X) (si_jwt_keys inp) (pknr_oidc_token request) None)) (\<lambda>oidc_token_claims.
     let frp_pk = pknr_frp_public_key request in
     h_check (map_err SE_Other (user_credentials_request_digest (sl_digest X) (pknr_oidc_token request) frp_pk)) (\<lambda>digest.
     h_check (map_err SE_DigestSignatureVerificationFailed
                (check_digest_signature (sl_digest X) frp_pk (pknr_frp_signature request) digest)) (\<lambda>_.
     h_try (check_claimed X \<lparr>od_node_id = index,
              od_digest = digest_hash (sl_digest X) (pknr_oidc_token request), od_public_key = frp_pk\<rparr>) (\<lambda>_.
     h_map_err SE_Other
       (h_try (get_or_generate_user_creds X (si_drawn inp) (get_internal_account_id oidc_token_claims)) (\<lambda>user_credentials.
        h_return (Inr (euc_public_key user_credentials)))))))))"

definition public_key_endpoint ::
  "'d sign_libs \<Rightarrow> sign_inputs \<Rightarrow> PublicKeyNodeRequest \<Rightarrow> ('d sign_world, EdPoint response) handler" where
  "public_key_endpoint X inp request =
     h_bind (process_public_key X inp request) (\<lambda>r. h_return (respond SignNodeError_code (sl_show_error X) r))"

definition public_key_node :: "('d sign_world, (u64 \<times> EdPoint) response) handler" where
  "public_key_node w = (w, Done (200, Inr (our_index w, kp_public_key (sn_node_key (sw_node w)))))"

text \<open>The write lock on the keys is held until the end; a failed insert is answered with 500 and \<open>Ok\<close>.\<close>

definition accept_pk_set ::
  "'d sign_libs \<Rightarrow> EdPoint list \<Rightarrow> ('d sign_world, string response) handler" where
  "accept_pk_set X public_keys w =
     (if list_get public_keys (our_index w) \<noteq> Some (kp_public_key (sn_node_key (sw_node w)))
      then (w, Done (400, Inl ''Sign node could not accept the public keys: current node index does not match up''))
      else
        (case ni_nodes_public_keys (sn_node_info (sw_node w)) of
           Some pk_set \<Rightarrow>
             if pk_set = public_keys
             then (w, Done (200, Inr ''This node is already initialized with provided public keys''))
             else (w, Done (400, Inl ''This node is already initialized with different public keys''))
         | None \<Rightarrow>
             h_bind (store_insert X SignerNodePkSet_kind (SignerNodePkSet_into_value (sl_codec X)
                       \<lparr>ps_node_id = our_index w, ps_public_keys = public_keys\<rparr>)) (\<lambda>r.
             h_return (case r of
                 Inr () \<Rightarrow> (200, Inr ''Successfully set node public keys'')
               | Inl _ \<Rightarrow> (500, Inr ''failed to save node public keys'')))
               (w\<lparr>sw_node := (sw_node w)\<lparr>sn_node_info := (sn_node_info (sw_node w))\<lparr>ni_nodes_public_keys := Some public_keys\<rparr>\<rparr>\<rparr>)))"

section \<open>Laws\<close>

text \<open>Nothing stored is lost or changed, and the node stays the same node.\<close>

definition extends :: "('d \<Rightarrow> string \<times> string \<Rightarrow> Entity option) \<Rightarrow> 'd sign_world \<Rightarrow> 'd sign_world \<Rightarrow> bool" where
  "extends view w w' \<longleftrightarrow>
     view (sw_store w) \<subseteq>\<^sub>m view (sw_store w') \<and> our_index w' = our_index w \<and>
     sn_gcp_service (sw_node w') = sn_gcp_service (sw_node w) \<and> sn_node_key (sw_node w') = sn_node_key (sw_node w) \<and>
     sn_cipher (sw_node w') = sn_cipher (sw_node w)"

interpretation ext: state_order "extends view"
  by unfold_locales (auto simp: extends_def intro: map_le_trans)

text \<open>Assumed of the libraries: the codecs and the cipher read back what they write, and the
  datastore is as documented, for every service.\<close>

definition libs_ok :: "'d sign_libs \<Rightarrow> ('d \<Rightarrow> string \<times> string \<Rightarrow> Entity option) \<Rightarrow> bool" where
  "libs_ok X view \<longleftrightarrow> codec_ok (sl_codec X) \<and> cipher_ok (sl_cipher X) \<and> (\<forall>S. datastore_ok (sl_gcp X) S view) \<and>
     (\<forall>m. length (sha256_of (sl_digest X) m) = 32)"

lemma libs_okD:
  assumes "libs_ok X view"
  shows "codec_ok (sl_codec X)" "cipher_ok (sl_cipher X)" "datastore_ok (sl_gcp X) S view"
    "length (digest_hash (sl_digest X) t) = 32"
  using assms by (simp_all add: libs_ok_def digest_hash_def)

lemma keeps_get: "h_keeps (extends view) (store_get X kind from n)"
  by (simp add: h_keeps_def store_get_def ext.ord_refl)

lemma keeps_insert_creds:
  "libs_ok X view \<Longrightarrow> h_keeps (extends view) (store_insert X EncryptedUserCredentials_kind (EncryptedUserCredentials_into_value C c))"
  unfolding h_keeps_def store_insert_def extends_def
  by (auto split: prod.split intro: user_credentials.insert_extends [OF libs_okD(3)])

lemma keeps_insert_digest:
  "libs_ok X view \<Longrightarrow> h_keeps (extends view) (store_insert X OidcDigest_kind (OidcDigest_into_value C c))"
  unfolding h_keeps_def store_insert_def extends_def
  by (auto split: prod.split intro: oidc_digest.insert_extends [OF libs_okD(3)])

lemma keeps_insert_pk_set:
  "libs_ok X view \<Longrightarrow> h_keeps (extends view) (store_insert X SignerNodePkSet_kind (SignerNodePkSet_into_value C c))"
  unfolding h_keeps_def store_insert_def extends_def
  by (auto split: prod.split intro: pk_set.insert_extends [OF libs_okD(3)])

lemma keeps_sign_commitment: "h_keeps (extends view) (sign_commitment X inp k p)"
  unfolding h_keeps_def sign_commitment_def by (auto simp: extends_def split: exec.split)

lemmas keeps_rules = ext.keeps_return ext.keeps_lift ext.keeps_read ext.keeps_bind ext.keeps_try ext.keeps_map_err keeps_get
  keeps_insert_creds keeps_insert_digest keeps_insert_pk_set keeps_sign_commitment

lemma keeps_creds: "libs_ok X view \<Longrightarrow> h_keeps (extends view) (get_or_generate_user_creds X k a)"
  unfolding get_or_generate_user_creds_def by (auto intro!: keeps_rules split: option.split prod.split)

lemma keeps_lookup: "h_keeps (extends view) (claim_lookup X rq)"
  unfolding claim_lookup_def Let_def by (auto intro!: keeps_rules)

lemma keeps_record: "libs_ok X view \<Longrightarrow> h_keeps (extends view) (claim_record X dg)"
  unfolding claim_record_def by (auto intro!: keeps_rules)

lemma keeps_check_claimed: "h_keeps (extends view) (check_claimed X dg)"
  unfolding check_claimed_def by (auto intro!: keeps_rules)

lemma keeps_commit: "libs_ok X view \<Longrightarrow> h_keeps (extends view) (process_commit X inp rq)"
  by (cases rq)
    (auto simp: process_claim_def claim_commit_def process_sign_share_def Let_def
      intro!: keeps_rules keeps_lookup keeps_record keeps_check_claimed keeps_creds split: prod.split)

lemma keeps_public_key: "libs_ok X view \<Longrightarrow> h_keeps (extends view) (process_public_key X inp rq)"
  unfolding process_public_key_def Let_def
  by (auto intro!: keeps_rules keeps_check_claimed keeps_creds)

section \<open>What the datastore says\<close>

definition claimed :: "('d \<Rightarrow> string \<times> string \<Rightarrow> Entity option) \<Rightarrow> 'd sign_libs \<Rightarrow> 'd sign_world \<Rightarrow> OidcDigest \<Rightarrow> bool" where
  "claimed view X w dg \<longleftrightarrow>
     store_holds view (sn_gcp_service (sw_node w)) OidcDigest_kind (OidcDigest_from_value (sl_codec X))
       (OidcDigest_to_name (sl_codec X) dg) (sw_store w) dg"

definition user_held ::
  "('d \<Rightarrow> string \<times> string \<Rightarrow> Entity option) \<Rightarrow> 'd sign_libs \<Rightarrow> 'd sign_world \<Rightarrow> InternalAccountId \<Rightarrow> EncryptedUserCredentials \<Rightarrow> bool" where
  "user_held view X w a c \<longleftrightarrow>
     store_holds view (sn_gcp_service (sw_node w)) EncryptedUserCredentials_kind
       (EncryptedUserCredentials_from_value (sl_codec X)) (credentials_name (our_index w) a) (sw_store w) c"

lemma claimed_mono: "extends view w w' \<Longrightarrow> claimed view X w dg \<Longrightarrow> claimed view X w' dg"
  by (auto simp: claimed_def extends_def intro: holds_mono)

lemma user_held_mono: "extends view w w' \<Longrightarrow> user_held view X w a c \<Longrightarrow> user_held view X w' a c"
  by (auto simp: user_held_def extends_def intro: holds_mono)

lemma claimed_unique:
  assumes "claimed view X w dg" and "claimed view X w dg'"
    and "od_node_id dg = od_node_id dg'" and "od_digest dg = od_digest dg'"
  shows "dg = dg'"
proof -
  from assms(3,4) have "OidcDigest_to_name (sl_codec X) dg = OidcDigest_to_name (sl_codec X) dg'"
    by (simp add: OidcDigest_to_name_def)
  with assms(1,2) show ?thesis unfolding claimed_def by (auto intro: holds_unique)
qed

lemma user_held_unique: "user_held view X w a c \<Longrightarrow> user_held view X w a c' \<Longrightarrow> c = c'"
  unfolding user_held_def by (rule holds_unique)

lemma claim_lookup_Inr:
  assumes "libs_ok X view" and "claim_lookup X rq w = (w', Done (Inr (dg, is_new)))"
  shows "w' = w" and "dg = \<lparr>od_node_id = our_index w, od_digest = conr_oidc_token_hash rq, od_public_key = conr_public_key rq\<rparr>"
    and "\<not> is_new \<Longrightarrow> claimed view X w dg"
proof -
  let ?dg = "\<lparr>od_node_id = our_index w, od_digest = conr_oidc_token_hash rq, od_public_key = conr_public_key rq\<rparr>"
  from assms(2) obtain r where
    r: "gcp_get (sl_gcp X) (sn_gcp_service (sw_node w)) OidcDigest_kind (OidcDigest_from_value (sl_codec X))
      (OidcDigest_to_name (sl_codec X) ?dg) (sw_store w) = Done r"
    and w': "w' = w"
    and res: "(case r of
         Inr (Some stored_digest) \<Rightarrow>
           if stored_digest = ?dg then Inr (?dg, False)
           else Inl (SE_OidcTokenAlreadyClaimed ?dg)
       | Inr None \<Rightarrow> Inr (?dg, True)
       | Inl e \<Rightarrow> Inl (SE_Other e)) = Inr (dg, is_new)"
    by (auto simp: claim_lookup_def h_check_Inr Let_def h_bind_Done store_get_def)
  show "w' = w" by (rule w')
  from res show "dg = ?dg" by (auto split: sum.splits option.splits if_splits)
  assume "\<not> is_new"
  with res have "r = Inr (Some dg)" "dg = ?dg" by (auto split: sum.splits option.splits if_splits)
  with r show "claimed view X w dg" unfolding claimed_def by (auto intro: get_holds [OF libs_okD(3) [OF assms(1)]])
qed

lemma claim_record_Inr:
  assumes "libs_ok X view" and "length (od_digest dg) = 32" and "claim_record X dg w = (w', Done (Inr ()))"
  shows "claimed view X w' dg"
  using assms oidc_digest.insert_holds [OF _ libs_okD(3) [OF assms(1)], of "sl_codec X" dg] libs_okD(1) [OF assms(1)]
  by (auto simp: claim_record_def h_map_err_Inr store_insert_def claimed_def split: prod.splits)

lemma check_claimed_Inr:
  assumes "libs_ok X view" and "check_claimed X dg w = (w', Done (Inr ()))"
  shows "w' = w" and "claimed view X w dg"
proof -
  from assms(2) obtain r where
    r: "gcp_get (sl_gcp X) (sn_gcp_service (sw_node w)) OidcDigest_kind (OidcDigest_from_value (sl_codec X))
      (OidcDigest_to_name (sl_codec X) dg) (sw_store w) = Done r"
    and w': "w' = w"
    and res: "(case r of
         Inr (Some stored_digest) \<Rightarrow>
           if stored_digest = dg then Inr () else Inl (SE_OidcTokenClaimedWithAnotherKey dg)
       | Inr None \<Rightarrow> Inl (SE_OidcTokenNotClaimed dg)
       | Inl e \<Rightarrow> Inl (SE_Other e)) = Inr ()"
    by (auto simp: check_claimed_def h_bind_Done store_get_def)
  show "w' = w" by (rule w')
  from res have "r = Inr (Some dg)" by (auto split: sum.splits option.splits if_splits)
  with r show "claimed view X w dg" unfolding claimed_def by (auto intro: get_holds [OF libs_okD(3) [OF assms(1)]])
qed

lemma creds_Inr:
  assumes "libs_ok X view" and "get_or_generate_user_creds X k a w = (w', Done (Inr c))"
  shows "user_held view X w' a c" and "sw_node w' = sw_node w"
proof -
  note ok = libs_okD [OF assms(1)]
  from assms(2) obtain found where
    get: "gcp_get (sl_gcp X) (sn_gcp_service (sw_node w)) EncryptedUserCredentials_kind
      (EncryptedUserCredentials_from_value (sl_codec X)) (credentials_name (our_index w) a) (sw_store w) = Done (Inr found)"
    and rest: "(case found of
       Some user_credentials \<Rightarrow> h_return (Inr user_credentials)
     | None \<Rightarrow>
         h_try (h_lift (EncryptedUserCredentials_random (sl_cipher X) k (our_index w) a (sn_cipher (sw_node w)))) (\<lambda>user_credentials.
         h_try (store_insert X EncryptedUserCredentials_kind
                  (EncryptedUserCredentials_into_value (sl_codec X) user_credentials)) (\<lambda>_.
         h_return (Inr user_credentials)))) w = (w', Done (Inr c))"
    by (auto simp: get_or_generate_user_creds_def h_try_Inr store_get_def)
  have "user_held view X w' a c \<and> sw_node w' = sw_node w"
  proof (cases found)
    case None
    with rest have new: "EncryptedUserCredentials_new (sl_cipher X) (our_index w) a (sn_cipher (sw_node w)) k = Done (Inr c)"
      and ins: "store_insert X EncryptedUserCredentials_kind (EncryptedUserCredentials_into_value (sl_codec X) c) w = (w', Done (Inr ()))"
      by (auto simp: h_try_Inr EncryptedUserCredentials_random_def)
    from new_credentials_decrypt [OF ok(2) new] have "euc_node_id c = our_index w" "euc_internal_account_id c = a" by auto
    with ins user_credentials.insert_holds [OF ok(1) ok(3), of _ c] show ?thesis
      by (auto simp: store_insert_def user_held_def split: prod.splits)
  next
    case (Some c')
    with rest get get_holds [OF ok(3)] show ?thesis by (auto simp: user_held_def)
  qed
  then show "user_held view X w' a c" and "sw_node w' = sw_node w" by auto
qed

lemma check_digest_signature_Inr:
  "check_digest_signature B pk sig d = Inr x \<longleftrightarrow> near_verify B (NSigEd25519 sig) d pk"
  by (auto simp: check_digest_signature_def)

definition share_digest :: "'d sign_libs \<Rightarrow> 'd sign_world \<Rightarrow> OidcToken \<Rightarrow> near_public_key \<Rightarrow> OidcDigest" where
  "share_digest X w token pk = \<lparr>od_node_id = our_index w, od_digest = digest_hash (sl_digest X) token, od_public_key = pk\<rparr>"

lemma process_public_key_Inr:
  assumes "libs_ok X view" and "process_public_key X inp rq w = (w', Done (Inr pk))"
  obtains claims c where "verify_oidc_token (sl_jwt X) (si_jwt_keys inp) (pknr_oidc_token rq) None = Inr claims"
    and "claimed view X w (share_digest X w (pknr_oidc_token rq) (pknr_frp_public_key rq))"
    and "user_held view X w' (get_internal_account_id claims) c" and "pk = euc_public_key c"
proof -
  from assms(2) obtain claims w1 c where
    claims: "verify_oidc_token (sl_jwt X) (si_jwt_keys inp) (pknr_oidc_token rq) None = Inr claims"
    and cl: "check_claimed X (share_digest X w (pknr_oidc_token rq) (pknr_frp_public_key rq)) w = (w1, Done (Inr ()))"
    and c: "get_or_generate_user_creds X (si_drawn inp) (get_internal_account_id claims) w1 = (w', Done (Inr c))"
      "pk = euc_public_key c"
    by (auto simp: process_public_key_def h_check_Inr Let_def h_try_Inr h_map_err_Inr share_digest_def)
  from check_claimed_Inr [OF assms(1) cl] creds_Inr [OF assms(1) c(1)] claims c(2) that show ?thesis by blast
qed

lemma process_sign_share_Inr:
  assumes "libs_ok X view" and "process_sign_share X inp rq w = (w', Done (Inr sc))"
  obtains claims digest w1 c message key S where
    "verify_oidc_token (sl_jwt X) (si_jwt_keys inp) (ssnr_oidc_token rq) None = Inr claims"
    and "sign_request_digest (sl_digest X) (ssnr_delegate_action rq) (ssnr_oidc_token rq) (ssnr_frp_public_key rq) = Inr digest"
    and "near_verify (sl_digest X) (NSigEd25519 (ssnr_frp_signature rq)) digest (ssnr_frp_public_key rq)"
    and "claimed view X w (share_digest X w (ssnr_oidc_token rq) (ssnr_frp_public_key rq))"
    and "user_held view X w' (get_internal_account_id claims) c"
    and "decrypt_key_pair (sl_cipher X) c (sn_cipher (sw_node w)) = Done (Inr key)"
    and "sl_signable X (ssnr_delegate_action rq) = Inr message"
    and "get_commitment (sl_aggsig X) key (sn_node_key (sw_node w)) (sl_near_hash X message) (si_rng inp)
      (sn_signing_state (sw_node w)) = Done (S, Inr sc)"
    and "sn_signing_state (sw_node w') = S"
proof -
  from assms(2) obtain claims digest w1 w2 c message key where
    claims: "verify_oidc_token (sl_jwt X) (si_jwt_keys inp) (ssnr_oidc_token rq) None = Inr claims"
    and digest: "sign_request_digest (sl_digest X) (ssnr_delegate_action rq) (ssnr_oidc_token rq) (ssnr_frp_public_key rq) = Inr digest"
      "near_verify (sl_digest X) (NSigEd25519 (ssnr_frp_signature rq)) digest (ssnr_frp_public_key rq)"
    and cl: "check_claimed X (share_digest X w (ssnr_oidc_token rq) (ssnr_frp_public_key rq)) w = (w1, Done (Inr ()))"
    and c: "get_or_generate_user_creds X (si_drawn inp) (get_internal_account_id claims) w1 = (w2, Done (Inr c))"
    and key: "sl_signable X (ssnr_delegate_action rq) = Inr message"
      "decrypt_key_pair (sl_cipher X) c (sn_cipher (sw_node w)) = Done (Inr key)"
    and sign: "sign_commitment X inp key (sl_near_hash X message) w2 = (w', Done (Inr sc))"
    by (auto simp: process_sign_share_def h_check_Inr Let_def h_try_Inr h_map_err_Inr share_digest_def
        check_digest_signature_Inr)
  note check_claimed_Inr [OF assms(1) cl]
  moreover note creds_Inr [OF assms(1) c]
  ultimately have w2: "sw_node w2 = sw_node w" and held: "user_held view X w2 (get_internal_account_id claims) c"
    and cl': "claimed view X w (share_digest X w (ssnr_oidc_token rq) (ssnr_frp_public_key rq))" by auto
  from sign w2 obtain S where S: "get_commitment (sl_aggsig X) key (sn_node_key (sw_node w)) (sl_near_hash X message) (si_rng inp)
      (sn_signing_state (sw_node w)) = Done (S, Inr sc)" "sn_signing_state (sw_node w') = S"
    by (auto simp: sign_commitment_def split: exec.splits)
  from keeps_sign_commitment [of view X inp key "sl_near_hash X message"] sign have "extends view w2 w'"
    by (metis fst_conv h_keeps_def)
  from user_held_mono [OF this held] that claims digest cl' key S show ?thesis by blast
qed

section \<open>Runs of a sign node\<close>

text \<open>
  Requests are served concurrently, and the datastore is shared. A run keeps the claims that
  found no record and have yet to write one, the digests granted so far (a claim recorded or
  found, a request about a user served), and the keys reported for users. Between the steps
  anything may happen to the state that changes nothing stored (\<open>extends\<close>): so do all the
  endpoints, and other nodes with their own names.
\<close>

record 'd node_run =
  nr_world :: "'d sign_world"
  nr_pending :: "OidcDigest set"
  nr_granted :: "OidcDigest set"
  nr_users :: "(InternalAccountId \<times> EdPoint) set"

fun looked_up :: "(SignNodeError + OidcDigest \<times> bool) exec \<Rightarrow> bool \<Rightarrow> OidcDigest set" where
  "looked_up (Done (Inr (dg, is_new))) b = (if is_new = b then {dg} else {})"
| "looked_up _ b = {}"

inductive sign_run ::
  "'d sign_libs \<Rightarrow> ('d \<Rightarrow> string \<times> string \<Rightarrow> Entity option) \<Rightarrow> 'd node_run \<Rightarrow> bool"
  for X view where
  start: "sign_run X view \<lparr>nr_world = w, nr_pending = {}, nr_granted = {}, nr_users = {}\<rparr>"
| others: "sign_run X view r \<Longrightarrow> extends view (nr_world r) w \<Longrightarrow> sign_run X view (r\<lparr>nr_world := w\<rparr>)"
| look: "sign_run X view r \<Longrightarrow> length (conr_oidc_token_hash rq) = 32 \<Longrightarrow> claim_lookup X rq (nr_world r) = (w, res) \<Longrightarrow>
    sign_run X view (r\<lparr>nr_world := w, nr_pending := nr_pending r \<union> looked_up res True,
      nr_granted := nr_granted r \<union> looked_up res False\<rparr>)"
| recorded: "sign_run X view r \<Longrightarrow> dg \<in> nr_pending r \<Longrightarrow> claim_record X dg (nr_world r) = (w, res) \<Longrightarrow>
    sign_run X view (r\<lparr>nr_world := w,
      nr_granted := (if res = Done (Inr ()) then insert dg (nr_granted r) else nr_granted r)\<rparr>)"
| shared: "sign_run X view r \<Longrightarrow> process_sign_share X inp rq (nr_world r) = (w, Done (Inr sc)) \<Longrightarrow>
    sign_run X view (r\<lparr>nr_world := w,
      nr_granted := insert (share_digest X w (ssnr_oidc_token rq) (ssnr_frp_public_key rq)) (nr_granted r)\<rparr>)"
| told: "sign_run X view r \<Longrightarrow> process_public_key X inp rq' (nr_world r) = (w, Done (Inr pk)) \<Longrightarrow>
    verify_oidc_token (sl_jwt X) (si_jwt_keys inp) (pknr_oidc_token rq') None = Inr claims \<Longrightarrow>
    sign_run X view (r\<lparr>nr_world := w,
      nr_granted := insert (share_digest X w (pknr_oidc_token rq') (pknr_frp_public_key rq')) (nr_granted r),
      nr_users := insert (get_internal_account_id claims, pk) (nr_users r)\<rparr>)"

text \<open>Everything granted is recorded, everything reported is stored.\<close>

definition run_ok :: "'d sign_libs \<Rightarrow> ('d \<Rightarrow> string \<times> string \<Rightarrow> Entity option) \<Rightarrow> 'd node_run \<Rightarrow> bool" where
  "run_ok X view r \<longleftrightarrow>
     (\<forall>dg \<in> nr_pending r. od_node_id dg = our_index (nr_world r) \<and> length (od_digest dg) = 32) \<and>
     (\<forall>dg \<in> nr_granted r. od_node_id dg = our_index (nr_world r) \<and> claimed view X (nr_world r) dg) \<and>
     (\<forall>a pk. (a, pk) \<in> nr_users r \<longrightarrow> (\<exists>c. user_held view X (nr_world r) a c \<and> euc_public_key c = pk))"

lemma run_ok_extends: "run_ok X view r \<Longrightarrow> extends view (nr_world r) w \<Longrightarrow> run_ok X view (r\<lparr>nr_world := w\<rparr>)"
proof -
  assume r: "run_ok X view r" and e: "extends view (nr_world r) w"
  from e have "our_index w = our_index (nr_world r)" by (simp add: extends_def)
  with r claimed_mono [OF e] user_held_mono [OF e] show ?thesis
    unfolding run_ok_def by simp blast
qed

lemma run_ok_grant:
  assumes "run_ok X view r" and "claimed view X (nr_world r) dg" and "od_node_id dg = our_index (nr_world r)"
  shows "run_ok X view (r\<lparr>nr_granted := insert dg (nr_granted r)\<rparr>)"
  using assms by (simp add: run_ok_def)

lemma run_ok_user:
  assumes "run_ok X view r" and "user_held view X (nr_world r) a c"
  shows "run_ok X view (r\<lparr>nr_users := insert (a, euc_public_key c) (nr_users r)\<rparr>)"
  using assms by (auto simp: run_ok_def)

lemma sign_run_ok:
  assumes ok: "libs_ok X view" and "sign_run X view r"
  shows "run_ok X view r"
  using assms(2)
proof induction
  case (start w)
  then show ?case by (simp add: run_ok_def)
next
  case (others r w)
  then show ?case by (intro run_ok_extends)
next
  case (look r rq w res)
  show ?case
  proof (cases "\<exists>dg is_new. res = Done (Inr (dg, is_new))")
    case True
    then obtain dg is_new where res: "res = Done (Inr (dg, is_new))" by blast
    from claim_lookup_Inr [OF ok look.hyps(3) [unfolded res]] look.IH look.hyps(2) res show ?thesis
      by (cases is_new) (simp_all add: run_ok_def)
  next
    case False
    then have "looked_up res b = {}" for b by (cases "(res, b)" rule: looked_up.cases) auto
    moreover have "extends view (nr_world r) w"
      using keeps_lookup [of view X rq] look.hyps(3) by (metis fst_conv h_keeps_def)
    ultimately show ?thesis using run_ok_extends [OF look.IH] by simp
  qed
next
  case (recorded r dg w res)
  have e: "extends view (nr_world r) w"
    using keeps_record [OF ok, of dg] recorded.hyps(3) by (metis fst_conv h_keeps_def)
  note r = run_ok_extends [OF recorded.IH e]
  show ?case
  proof (cases "res = Done (Inr ())")
    case True
    from recorded.IH recorded.hyps(2) have dg: "length (od_digest dg) = 32" "od_node_id dg = our_index w"
      using e by (auto simp: run_ok_def extends_def)
    from claim_record_Inr [OF ok dg(1) recorded.hyps(3) [unfolded True]] run_ok_grant [OF r, of dg] dg(2) True
    show ?thesis by simp
  qed (use r in simp)
next
  case (shared r inp rq w sc)
  have e: "extends view (nr_world r) w"
    using keeps_commit [OF ok, of inp "SignShare rq"] shared.hyps(2) by (metis fst_conv h_keeps_def process_commit.simps(2))
  from process_sign_share_Inr [OF ok shared.hyps(2)]
  have "claimed view X (nr_world r) (share_digest X (nr_world r) (ssnr_oidc_token rq) (ssnr_frp_public_key rq))" by metis
  from claimed_mono [OF e this] run_ok_grant [OF run_ok_extends [OF shared.IH e],
      of "share_digest X w (ssnr_oidc_token rq) (ssnr_frp_public_key rq)"] e
  show ?case by (simp add: share_digest_def extends_def)
next
  case (told r inp rq w pk claims)
  have e: "extends view (nr_world r) w"
    using keeps_public_key [OF ok, of inp rq] told.hyps(2) by (metis fst_conv h_keeps_def)
  from process_public_key_Inr [OF ok told.hyps(2)] told.hyps(3) obtain c where
    cl: "claimed view X (nr_world r) (share_digest X (nr_world r) (pknr_oidc_token rq) (pknr_frp_public_key rq))"
    and c: "user_held view X w (get_internal_account_id claims) c" "pk = euc_public_key c" by (metis sum.inject(2))
  from claimed_mono [OF e cl] run_ok_grant [OF run_ok_extends [OF told.IH e],
      of "share_digest X w (pknr_oidc_token rq) (pknr_frp_public_key rq)"] e
  have "run_ok X view (r\<lparr>nr_world := w,
      nr_granted := insert (share_digest X w (pknr_oidc_token rq) (pknr_frp_public_key rq)) (nr_granted r)\<rparr>)"
    by (simp add: share_digest_def extends_def)
  from run_ok_user [OF this, of "get_internal_account_id claims" c] c show ?case by simp
qed

text \<open>The endpoints change nothing stored: they are among the steps of others.\<close>

lemma when_ready_extends: "h_keeps (extends view) m \<Longrightarrow> h_keeps (extends view) (when_ready m)"
  unfolding h_keeps_def when_ready_def check_if_ready_def by (simp add: ext.ord_refl case_unit_Unity)

lemma endpoints_extend:
  assumes "libs_ok X view"
  shows "h_keeps (extends view) (commit_endpoint X inp rq)"
    and "h_keeps (extends view) (reveal_endpoint X cs)"
    and "h_keeps (extends view) (signature_share_endpoint X rs)"
    and "h_keeps (extends view) (public_key_endpoint X inp rq')"
    and "h_keeps (extends view) public_key_node"
    and "h_keeps (extends view) (accept_pk_set X pks)"
proof -
  show "h_keeps (extends view) (commit_endpoint X inp rq)"
    unfolding commit_endpoint_def by (auto intro!: when_ready_extends keeps_rules keeps_commit assms)
  show "h_keeps (extends view) (reveal_endpoint X cs)"
    unfolding reveal_endpoint_def by (rule when_ready_extends) (auto simp: h_keeps_def extends_def split: prod.split)
  show "h_keeps (extends view) (signature_share_endpoint X rs)"
    unfolding signature_share_endpoint_def by (rule when_ready_extends) (auto simp: h_keeps_def extends_def split: prod.split)
  show "h_keeps (extends view) (public_key_endpoint X inp rq')"
    unfolding public_key_endpoint_def by (auto intro!: keeps_rules keeps_public_key assms)
  show "h_keeps (extends view) public_key_node"
    by (simp add: h_keeps_def public_key_node_def ext.ord_refl)
  note ins = ext.keeps_at [OF ext.keeps_bind [OF keeps_insert_pk_set [OF assms] ext.keeps_return]]
  have mem: "extends view w (w\<lparr>sw_node := (sw_node w)\<lparr>sn_node_info := (sn_node_info (sw_node w))\<lparr>ni_nodes_public_keys := k\<rparr>\<rparr>\<rparr>)" for w k
    by (simp add: extends_def)
  show "h_keeps (extends view) (accept_pk_set X pks)"
    unfolding h_keeps_def accept_pk_set_def
    by (auto simp: ext.ord_refl split: option.split intro: ext.ord_trans [OF mem ins])
qed

section \<open>The keys of the sign nodes\<close>

datatype node_event =
    NCommit sign_inputs SignNodeRequest
  | NReveal "SignedCommitment list"
  | NShare "Reveal list"
  | NPublicKey sign_inputs PublicKeyNodeRequest
  | NPublicKeyNode
  | NAccept "EdPoint list"

fun node_step :: "'d sign_libs \<Rightarrow> node_event \<Rightarrow> 'd sign_world \<Rightarrow> 'd sign_world" where
  "node_step X (NCommit inp rq) w = fst (commit_endpoint X inp rq w)"
| "node_step X (NReveal cs) w = fst (reveal_endpoint X cs w)"
| "node_step X (NShare rs) w = fst (signature_share_endpoint X rs w)"
| "node_step X (NPublicKey inp rq) w = fst (public_key_endpoint X inp rq w)"
| "node_step X NPublicKeyNode w = fst (public_key_node w)"
| "node_step X (NAccept pks) w = fst (accept_pk_set X pks w)"

definition same_info :: "'d sign_world \<Rightarrow> 'd sign_world \<Rightarrow> bool" where
  "same_info w w' \<longleftrightarrow> sn_node_info (sw_node w') = sn_node_info (sw_node w) \<and> sn_node_key (sw_node w') = sn_node_key (sw_node w)"

interpretation info: state_order same_info
  by unfold_locales (auto simp: same_info_def)

lemma info_store: "h_keeps same_info (store_get X kind from n)" "h_keeps same_info (store_insert X kind v)"
  by (auto simp: h_keeps_def store_get_def store_insert_def same_info_def split: prod.split)

lemma info_sign: "h_keeps same_info (sign_commitment X inp k p)"
  unfolding h_keeps_def sign_commitment_def by (auto simp: same_info_def split: exec.split)

lemmas info_rules = info.keeps_return info.keeps_lift info.keeps_read info.keeps_bind info.keeps_try info.keeps_map_err
  info_store info_sign

lemma info_creds: "h_keeps same_info (get_or_generate_user_creds X k a)"
  unfolding get_or_generate_user_creds_def by (auto intro!: info_rules split: option.split prod.split)

lemma info_commit: "h_keeps same_info (process_commit X inp rq)"
  by (cases rq)
    (auto simp: process_claim_def claim_lookup_def claim_record_def claim_commit_def process_sign_share_def check_claimed_def Let_def
      intro!: info_rules info_creds split: prod.split)

lemma info_public_key: "h_keeps same_info (process_public_key X inp rq)"
  unfolding process_public_key_def check_claimed_def Let_def by (auto intro!: info_rules info_creds)

lemma info_ready: "h_keeps same_info m \<Longrightarrow> h_keeps same_info (when_ready m)"
  unfolding h_keeps_def when_ready_def check_if_ready_def by (simp add: info.ord_refl case_unit_Unity)

lemma info_endpoints:
  "h_keeps same_info (commit_endpoint X inp rq)" "h_keeps same_info (reveal_endpoint X cs)"
  "h_keeps same_info (signature_share_endpoint X rs)" "h_keeps same_info (public_key_endpoint X inp rq')"
  "h_keeps same_info public_key_node"
proof -
  show "h_keeps same_info (commit_endpoint X inp rq)"
    unfolding commit_endpoint_def by (intro info_ready info_rules info_commit)
  show "h_keeps same_info (public_key_endpoint X inp rq')"
    unfolding public_key_endpoint_def by (intro info_rules info_public_key)
  show "h_keeps same_info (reveal_endpoint X cs)"
    unfolding reveal_endpoint_def by (rule info_ready) (auto simp: h_keeps_def same_info_def split: prod.split)
  show "h_keeps same_info (signature_share_endpoint X rs)"
    unfolding signature_share_endpoint_def by (rule info_ready) (auto simp: h_keeps_def same_info_def split: prod.split)
  show "h_keeps same_info public_key_node"
    by (simp add: h_keeps_def public_key_node_def info.ord_refl)
qed

abbreviation node_keys :: "'d sign_world \<Rightarrow> EdPoint list option" where
  "node_keys w \<equiv> ni_nodes_public_keys (sn_node_info (sw_node w))"

text \<open>Whatever set of keys a node has, its own key is at its own place.\<close>

definition keys_ok :: "'d sign_world \<Rightarrow> bool" where
  "keys_ok w \<longleftrightarrow> (\<forall>ks. node_keys w = Some ks \<longrightarrow> list_get ks (our_index w) = Some (kp_public_key (sn_node_key (sw_node w))))"

definition keys_kept :: "'d sign_world \<Rightarrow> 'd sign_world \<Rightarrow> bool" where
  "keys_kept w w' \<longleftrightarrow> our_index w' = our_index w \<and> (\<forall>ks. node_keys w = Some ks \<longrightarrow> node_keys w' = Some ks)"

lemma accept_keys:
  "fst (accept_pk_set X pks w) = w \<or>
   node_keys w = None \<and> list_get pks (our_index w) = Some (kp_public_key (sn_node_key (sw_node w))) \<and>
   same_info (w\<lparr>sw_node := (sw_node w)\<lparr>sn_node_info := (sn_node_info (sw_node w))\<lparr>ni_nodes_public_keys := Some pks\<rparr>\<rparr>\<rparr>)
     (fst (accept_pk_set X pks w))"
  unfolding accept_pk_set_def
  by (auto split: option.split intro!: info.keeps_at [OF info.keeps_bind [OF info_store(2) info.keeps_return]])

lemma node_step_keys: "keys_ok w \<Longrightarrow> keys_ok (node_step X ev w) \<and> keys_kept w (node_step X ev w)"
proof -
  assume w: "keys_ok w"
  have same: "same_info w w' \<Longrightarrow> keys_ok w' \<and> keys_kept w w'" for w'
    using w by (auto simp: keys_ok_def keys_kept_def same_info_def)
  show ?thesis
  proof (cases ev)
    case (NAccept pks)
    then show ?thesis using accept_keys [of X pks w] w
      by (auto simp: keys_ok_def keys_kept_def same_info_def)
  qed (auto intro!: same info.keeps_at info_endpoints)
qed

interpretation node_keys: monotone_system "node_step X" keys_ok keys_kept
  using node_step_keys by unfold_locales (auto simp: keys_kept_def)

section \<open>Failures of the datastore\<close>

text \<open>
  A set of keys that could not be saved is kept in memory, and the answer is an \<open>Ok\<close>, which
  the leader takes for success whatever the status.
\<close>

lemma unsaved_keys_accepted:
  assumes "node_keys w = None" and "list_get pks (our_index w) = Some (kp_public_key (sn_node_key (sw_node w)))"
    and "gcp_insert (sl_gcp X) (sn_gcp_service (sw_node w)) SignerNodePkSet_kind (SignerNodePkSet_into_value (sl_codec X)
      \<lparr>ps_node_id = our_index w, ps_public_keys = pks\<rparr>) (sw_store w) = (d, Inl e)"
  shows "snd (accept_pk_set X pks w) = Done (500, Inr ''failed to save node public keys'')"
    and "node_keys (fst (accept_pk_set X pks w)) = Some pks"
  using assms by (simp_all add: accept_pk_set_def store_insert_def h_bind_def)

text \<open>A read error at the start counts as no keys: the node forgets the set it had accepted.\<close>

lemma start_error_forgets_keys:
  assumes "gcp_get (sl_gcp X) S SignerNodePkSet_kind (SignerNodePkSet_from_value (sl_codec X)) (pk_set_name i) d = Done (Inl e)"
  shows "\<exists>st. sign_node_start X S i k c d = Done st \<and> ni_nodes_public_keys (sn_node_info st) = None"
  using assms by (simp add: sign_node_start_def NodeInfo_new_def)

text \<open>A saved set is back after a restart, when the datastore answers.\<close>

lemma start_reads_saved_keys:
  assumes "libs_ok X view" and "store_holds view S SignerNodePkSet_kind (SignerNodePkSet_from_value (sl_codec X)) (pk_set_name i) d s"
    and "gcp_get (sl_gcp X) S SignerNodePkSet_kind (SignerNodePkSet_from_value (sl_codec X)) (pk_set_name i) d = Done (Inr r)"
  shows "\<exists>st. sign_node_start X S i k c d = Done st \<and> ni_nodes_public_keys (sn_node_info st) = Some (ps_public_keys s)"
proof -
  have "r = Some s"
    using gcp_get_view [OF libs_okD(3) [OF assms(1)] assms(3)] assms(2)
    by (auto simp: store_holds_def split: option.splits)
  with assms(3) show ?thesis by (simp add: sign_node_start_def NodeInfo_new_def)
qed

section \<open>Examples\<close>

definition ex_jwt :: jwt_lib where
  "ex_jwt = \<lparr>b64_decode = (\<lambda>s. Inr (string_bytes s)), parse_jwt_header = (\<lambda>_. Inr RS256),
     parse_claims = (\<lambda>_. Inr \<lparr>itc_iss = ''i'', itc_sub = ''u'', itc_aud = ''a'', itc_exp = 0\<rparr>),
     rsa_pem_key = Inr, jwt_verify = (\<lambda>_ _ _ _. Inr True)\<rparr>"

text \<open>A signature is a tag of the message and the key.\<close>

definition ex_tag :: "bytes \<Rightarrow> bytes \<Rightarrow> bytes" where
  "ex_tag m p = take 16 (m @ replicate 16 0) @ take 16 (p @ replicate 32 0)"

definition ex_aggsig :: aggsig_lib where
  "ex_aggsig = \<lparr>create_ephemeral = (\<lambda>k m g. (g, int (length g), \<lparr>rv_R = g, rv_blind_factor = 0\<rparr>)),
     sign_single = (\<lambda>m k. \<lparr>es_R = kp_public_key k, es_s = ex_tag m (kp_public_key k)\<rparr>),
     partial_sign = (\<lambda>r k h R apk m. \<lparr>es_R = R, es_s = ex_tag m apk\<rparr>),
     get_R_tot = concat, key_aggregation_n = (\<lambda>ks i. Done \<lparr>ka_apk = concat ks, ka_hash = []\<rparr>),
     add_signature_parts = (\<lambda>ss. Done \<lparr>es_R = concat (map es_R ss), es_s = take 32 (concat (map es_s ss) @ replicate 32 0)\<rparr>),
     point_to_bytes = (\<lambda>p. take 32 (p @ replicate 32 0)), point_from_bytes = Inr, scalar_from_bytes = Inr,
     y_coord = (\<lambda>p. Some (int (length p))), hash_commitment = (+), dalek_signature_from_bytes = Inr,
     dalek_key_from_bytes = Inr, dalek_verify = (\<lambda>p m sig. if drop 32 sig = ex_tag m p then Inr () else Inl ''invalid''),
     json_commitment = (\<lambda>_ _. Inr [])\<rparr>"

definition ex_digest32 :: digest_lib where
  "ex_digest32 = ex_digests\<lparr>sha256_of := \<lambda>m. take 32 (m @ replicate 32 0),
     borsh_u32 := \<lambda>_. Inr [0], borsh_action := \<lambda>_. Inr []\<rparr>"

definition ex_libs :: "ex_store sign_libs" where
  "ex_libs = \<lparr>sl_digest = ex_digest32, sl_jwt = ex_jwt, sl_codec = ex_codec, sl_cipher = ex_cipher, sl_aggsig = ex_aggsig,
     sl_gcp = ex_gcp, sl_signable = (\<lambda>_. Inr []), sl_near_hash = id, sl_show_aggregate = (\<lambda>_. ''aggregate''),
     sl_show_error = (\<lambda>_. ''error'')\<rparr>"

lemma ex_libs_ok: "libs_ok ex_libs map_of"
  by (auto simp: libs_ok_def ex_libs_def ex_codec_ok ex_cipher_ok ex_gcp_ok ex_digest32_def min_def)

definition ex_node_key :: ExpandedKeyPair where
  "ex_node_key = \<lparr>kp_public_key = [3], kp_secret = [4]\<rparr>"

definition ex_node :: SignNodeState where
  "ex_node = \<lparr>sn_gcp_service = ex_service, sn_node_key = ex_node_key, sn_cipher = [5],
     sn_signing_state = SigningState_new, sn_node_info = NodeInfo_new 0 (Some [[3]])\<rparr>"

definition ex_inputs :: sign_inputs where
  "ex_inputs = \<lparr>si_jwt_keys = Inr [''k''], si_drawn = \<lparr>kp_public_key = [7], kp_secret = [9]\<rparr>, si_rng = [1, 2]\<rparr>"

lemma ex_insert:
  "map_of d (env_kind S kind, n) = None \<Longrightarrow>
   \<exists>d'. gcp_insert ex_gcp S kind (EntityValue (named_key kind n) ps) d = (d', Inr ())"
  using Entity_round_trip [of "named_key kind n" ps]
  by (fastforce simp: gcp_insert_def gcp_commit_def ex_gcp_def suffix_kind_def named_key_def ex_key_def)

lemma ex_get_none: "map_of d (env_kind S kind, n) = None \<Longrightarrow> gcp_get ex_gcp S kind from_value n d = Done (Inr None)"
  by (simp add: gcp_get_def ex_gcp_def ex_key_def named_key_def)

lemma ex_get_some:
  "store_holds map_of S kind from_value n d x \<Longrightarrow> gcp_get ex_gcp S kind from_value n d = Done (Inr (Some x))"
  by (auto simp: store_holds_def gcp_get_def ex_gcp_def ex_key_def named_key_def exec_bind_eq_Done)

text \<open>The token, its digest under the key \<open>[8]\<close>, and the requests of its owner.\<close>

definition ex_token :: OidcToken where
  "ex_token = \<lparr>token_data = ''h.p.s''\<rparr>"

definition ex_world :: "ex_store sign_world" where
  "ex_world = \<lparr>sw_node = ex_node, sw_store = []\<rparr>"

definition ex_claim :: ClaimOidcNodeRequest where
  "ex_claim = \<lparr>conr_oidc_token_hash = digest_hash ex_digest32 ex_token, conr_public_key = ED25519 [8], conr_signature = [1]\<rparr>"

definition ex_action :: DelegateAction where
  "ex_action = \<lparr>da_sender_id = ''u'', da_receiver_id = ''r'', da_actions = [], da_nonce = 1, da_max_block_height = 2,
     da_public_key = ED25519 [8]\<rparr>"

definition ex_share :: SignShareNodeRequest where
  "ex_share = \<lparr>ssnr_oidc_token = ex_token, ssnr_delegate_action = ex_action, ssnr_frp_signature = [1],
     ssnr_frp_public_key = ED25519 [8]\<rparr>"

definition ex_pk_request :: PublicKeyNodeRequest where
  "ex_pk_request = \<lparr>pknr_oidc_token = ex_token, pknr_frp_signature = [1], pknr_frp_public_key = ED25519 [8]\<rparr>"

abbreviation ex_dg :: OidcDigest where
  "ex_dg \<equiv> share_digest ex_libs ex_world ex_token (ED25519 [8])"

lemma ex_digest_ok: "length (od_digest ex_dg) = 32" "od_public_key ex_dg = ED25519 [8]"
  using libs_okD(4) [OF ex_libs_ok] by (simp_all add: share_digest_def)

lemma ex_claim_length: "length (conr_oidc_token_hash ex_claim) = 32"
  using libs_okD(4) [OF ex_libs_ok, of ex_token] by (simp add: ex_claim_def ex_libs_def)

lemma ex_digest32_simps:
  "near_verify ex_digest32 sig d pk \<longleftrightarrow> sig = NSigEd25519 [1]"
  "\<exists>d. claim_oidc_request_digest ex_digest32 h (ED25519 k) = Inr d"
  "\<exists>d. claim_oidc_response_digest ex_digest32 sig' = Inr d"
  "\<exists>d. sign_request_digest ex_digest32 a t (ED25519 k) = Inr d"
  "\<exists>d. user_credentials_request_digest ex_digest32 t (ED25519 k) = Inr d"
  by (simp_all add: claim_oidc_request_digest_def claim_oidc_response_digest_def sign_request_digest_def
      user_credentials_request_digest_def hash_parts_def ex_digest32_def ex_digests_def)

lemma ex_libs_sel [simp]:
  "sl_digest ex_libs = ex_digest32" "sl_jwt ex_libs = ex_jwt" "sl_codec ex_libs = ex_codec" "sl_cipher ex_libs = ex_cipher"
  "sl_aggsig ex_libs = ex_aggsig" "sl_gcp ex_libs = ex_gcp" "sl_signable ex_libs a = Inr []" "sl_near_hash ex_libs b = b"
  by (simp_all add: ex_libs_def)

lemma ex_lookup: "claim_lookup ex_libs ex_claim ex_world = (ex_world, Done (Inr (ex_dg, True)))"
proof -
  obtain d where "claim_oidc_request_digest ex_digest32 (digest_hash ex_digest32 ex_token) (ED25519 [8]) = Inr d"
    using ex_digest32_simps(2) by blast
  then show ?thesis
    by (simp add: claim_lookup_def check_digest_signature_def ex_digest32_simps(1) ex_claim_def
        store_get_def h_bind_def h_read_def Let_def ex_world_def ex_get_none share_digest_def)
qed

lemma ex_record: "\<exists>d. claim_record ex_libs ex_dg ex_world = (ex_world\<lparr>sw_store := d\<rparr>, Done (Inr ()))"
proof -
  obtain ps where "OidcDigest_into_value ex_codec ex_dg = EntityValue (named_key OidcDigest_kind (OidcDigest_to_name ex_codec ex_dg)) ps"
    by (simp add: OidcDigest_into_value_def)
  with ex_insert [of "[]" ex_service OidcDigest_kind "OidcDigest_to_name ex_codec ex_dg" ps]
  show ?thesis by (auto simp: claim_record_def h_map_err_def store_insert_def h_bind_def ex_world_def ex_node_def)
qed

text \<open>After the claim: the token is claimed, and the user is still unknown.\<close>

lemma ex_after_claim:
  obtains d where "claim_record ex_libs ex_dg ex_world = (ex_world\<lparr>sw_store := d\<rparr>, Done (Inr ()))"
    and "claimed map_of ex_libs (ex_world\<lparr>sw_store := d\<rparr>) ex_dg"
    and "\<And>n. map_of d (env_kind ex_service EncryptedUserCredentials_kind, n) = None"
proof -
  obtain d where d: "claim_record ex_libs ex_dg ex_world = (ex_world\<lparr>sw_store := d\<rparr>, Done (Inr ()))" using ex_record by blast
  note cl = claim_record_Inr [OF ex_libs_ok ex_digest_ok(1) d]
  from d obtain r where "gcp_insert ex_gcp ex_service OidcDigest_kind (OidcDigest_into_value ex_codec ex_dg) [] = (d, r)"
    by (auto simp: claim_record_def h_map_err_Inr store_insert_def ex_world_def ex_node_def split: prod.splits)
  from oidc_digest.insert_effect [OF _ ex_gcp_ok this] ex_codec_ok ex_digest_ok(1)
  have "map_of d (env_kind ex_service EncryptedUserCredentials_kind, n) = None" for n
    by (auto simp: env_kind_def OidcDigest_kind_def EncryptedUserCredentials_kind_def)
  with d cl that show ?thesis by blast
qed

lemma ex_user:
  assumes "\<And>n. map_of d (env_kind ex_service EncryptedUserCredentials_kind, n) = None"
  shows "\<exists>d' c. get_or_generate_user_creds ex_libs (si_drawn ex_inputs) a (ex_world\<lparr>sw_store := d\<rparr>) =
      (ex_world\<lparr>sw_store := d'\<rparr>, Done (Inr c)) \<and>
    decrypt_key_pair ex_cipher c [5] = Done (Inr (si_drawn ex_inputs)) \<and> euc_public_key c = [7]"
proof -
  obtain c where c: "EncryptedUserCredentials_new ex_cipher 0 a [5] (si_drawn ex_inputs) = Done (Inr c)"
    by (simp add: EncryptedUserCredentials_new_def ex_cipher_def)
  note dec = new_credentials_decrypt [OF ex_cipher_ok c]
  obtain ps where "EncryptedUserCredentials_into_value ex_codec c =
      EntityValue (named_key EncryptedUserCredentials_kind (credentials_name (euc_node_id c) (euc_internal_account_id c))) ps"
    by (simp add: EncryptedUserCredentials_into_value_def)
  with ex_insert [OF assms] obtain d' where
    "gcp_insert ex_gcp ex_service EncryptedUserCredentials_kind (EncryptedUserCredentials_into_value ex_codec c) d = (d', Inr ())"
    by fastforce
  with c dec assms show ?thesis
    by (auto simp: get_or_generate_user_creds_def h_try_def h_bind_def h_read_def store_get_def store_insert_def ex_get_none
        ex_world_def ex_node_def NodeInfo_new_def EncryptedUserCredentials_random_def ex_inputs_def)
qed

lemma ex_token_valid:
  "verify_oidc_token ex_jwt (si_jwt_keys ex_inputs) ex_token None = Inr \<lparr>itc_iss = ''i'', itc_sub = ''u'', itc_aud = ''a'', itc_exp = 0\<rparr>"
  by (simp add: ex_inputs_def verify_oidc_token_def validate_jwt_def OidcToken_decode_def rsplit_once_def ex_token_def ex_jwt_def)

lemma ex_check_claimed:
  assumes "claimed map_of ex_libs (ex_world\<lparr>sw_store := d\<rparr>) dg"
  shows "check_claimed ex_libs dg (ex_world\<lparr>sw_store := d\<rparr>) = (ex_world\<lparr>sw_store := d\<rparr>, Done (Inr ()))"
  using ex_get_some [OF assms [unfolded claimed_def]] by (simp add: check_claimed_def h_bind_def store_get_def)

lemma ex_lengths32: "length (take 32 (p @ replicate 32 0)) = 32" "length (ex_tag m p) = 32" for p m :: bytes
  by (auto simp: ex_tag_def min_def)

lemma ex_signs: "\<exists>d. to_dalek_signature ex_aggsig (sign_single ex_aggsig m k) = Done (Inr d)"
  by (simp add: to_dalek_signature_def ex_aggsig_def ex_lengths32 del: length_take take_append)

lemma ex_commitment: "\<exists>S' sc. get_commitment ex_aggsig k n m g S = Done (S', Inr sc)"
proof -
  have ser: "\<exists>b. SignedCommitment_serialize ex_aggsig c p = Inr b" for c p
    by (simp add: SignedCommitment_serialize_def ex_aggsig_def)
  have "\<exists>sc. SignedCommitment_create ex_aggsig c n k = Done (Inr sc)" for c
    using ser [of c "kp_public_key k"] ex_signs [of "[]" k] ex_signs [of _ n]
    by (auto simp: SignedCommitment_create_def) (metis exec_bind_simps(3) sum.simps(6))
  then obtain sc where "SignedCommitment_create ex_aggsig (fst (snd (create_ephemeral ex_aggsig k m g))) n k = Done (Inr sc)" by blast
  then show ?thesis by (simp add: get_commitment_def Committed_commit_def case_prod_beta)
qed

lemma ex_share_succeeds:
  assumes "claimed map_of ex_libs (ex_world\<lparr>sw_store := d\<rparr>) ex_dg"
    and "\<And>n. map_of d (env_kind ex_service EncryptedUserCredentials_kind, n) = None"
  shows "\<exists>w' sc. process_sign_share ex_libs ex_inputs ex_share (ex_world\<lparr>sw_store := d\<rparr>) = (w', Done (Inr sc))"
proof -
  obtain m where m: "sign_request_digest ex_digest32 ex_action ex_token (ED25519 [8]) = Inr m"
    using ex_digest32_simps(4) by blast
  obtain d' c where c: "get_or_generate_user_creds ex_libs (si_drawn ex_inputs) ''i:u'' (ex_world\<lparr>sw_store := d\<rparr>) =
      (ex_world\<lparr>sw_store := d'\<rparr>, Done (Inr c))" "decrypt_key_pair ex_cipher c [5] = Done (Inr (si_drawn ex_inputs))"
    using ex_user [OF assms(2)] by blast
  obtain S sc where "get_commitment ex_aggsig (si_drawn ex_inputs) ex_node_key [] (si_rng ex_inputs) SigningState_new = Done (S, Inr sc)"
    using ex_commitment by blast
  then have "\<exists>w'. sign_commitment ex_libs ex_inputs (si_drawn ex_inputs) [] (ex_world\<lparr>sw_store := d'\<rparr>) = (w', Done (Inr sc))"
    by (simp add: sign_commitment_def ex_world_def ex_node_def)
  with m c ex_check_claimed [OF assms(1)] ex_token_valid show ?thesis
    by (auto simp: process_sign_share_def ex_share_def check_digest_signature_def ex_digest32_simps(1)
        get_internal_account_id_def h_try_def h_bind_def h_map_err_def h_read_def Let_def share_digest_def
        ex_world_def ex_node_def NodeInfo_new_def)
qed

lemma ex_public_key_succeeds:
  assumes "claimed map_of ex_libs (ex_world\<lparr>sw_store := d\<rparr>) ex_dg"
    and "\<And>n. map_of d (env_kind ex_service EncryptedUserCredentials_kind, n) = None"
  shows "\<exists>w'. process_public_key ex_libs ex_inputs ex_pk_request (ex_world\<lparr>sw_store := d\<rparr>) = (w', Done (Inr [7]))"
proof -
  obtain m where m: "user_credentials_request_digest ex_digest32 ex_token (ED25519 [8]) = Inr m"
    using ex_digest32_simps(5) by blast
  obtain d' c where c: "get_or_generate_user_creds ex_libs (si_drawn ex_inputs) ''i:u'' (ex_world\<lparr>sw_store := d\<rparr>) =
      (ex_world\<lparr>sw_store := d'\<rparr>, Done (Inr c))" "euc_public_key c = [7]"
    using ex_user [OF assms(2)] by blast
  with m ex_check_claimed [OF assms(1)] ex_token_valid show ?thesis
    by (auto simp: process_public_key_def ex_pk_request_def check_digest_signature_def ex_digest32_simps(1)
        get_internal_account_id_def h_try_def h_bind_def h_map_err_def h_read_def Let_def share_digest_def
        ex_world_def ex_node_def NodeInfo_new_def)
qed

section \<open>Properties\<close>

text \<open>
  C9: A token belongs to one key. In every run of a sign node, with requests interleaved in any
  way and lookups and inserts of claims apart, all the claims granted and all the requests
  served for the same token hash were made with the same public key: whoever claims a token
  first keeps it. Assumed: the datastore as documented (an insert succeeds only when nothing
  is stored under the key) and codecs that read back what they write.
\<close>

theorem one_key_per_token:
  assumes "libs_ok X view" and "sign_run X view r"
    and "dg \<in> nr_granted r" and "dg' \<in> nr_granted r" and "od_digest dg = od_digest dg'"
  shows "od_public_key dg = od_public_key dg'"
proof -
  from sign_run_ok [OF assms(1,2)] assms(3,4)
  have "claimed view X (nr_world r) dg" "claimed view X (nr_world r) dg'" "od_node_id dg = od_node_id dg'"
    by (auto simp: run_ok_def)
  from claimed_unique [OF this assms(5)] show ?thesis by simp
qed

theorem one_key_per_token_witness:
  "\<exists>r. sign_run ex_libs map_of r \<and> ex_dg \<in> nr_granted r \<and>
     (\<forall>dg \<in> nr_granted r. od_digest dg = od_digest ex_dg \<longrightarrow> od_public_key dg = ED25519 [8])"
proof -
  obtain d where d: "claim_record ex_libs ex_dg ex_world = (ex_world\<lparr>sw_store := d\<rparr>, Done (Inr ()))" using ex_record by blast
  let ?r0 = "\<lparr>nr_world = ex_world, nr_pending = {}, nr_granted = {}, nr_users = {}\<rparr>"
  have "sign_run ex_libs map_of (?r0\<lparr>nr_world := ex_world, nr_pending := nr_pending ?r0 \<union> {ex_dg}, nr_granted := nr_granted ?r0 \<union> {}\<rparr>)"
    using sign_run.look [OF sign_run.start ex_claim_length, of ex_libs ex_world _ _ map_of] ex_lookup by simp
  then have r: "sign_run ex_libs map_of \<lparr>nr_world = ex_world\<lparr>sw_store := d\<rparr>, nr_pending = {ex_dg}, nr_granted = {ex_dg}, nr_users = {}\<rparr>"
    using sign_run.recorded [of ex_libs map_of "\<lparr>nr_world = ex_world, nr_pending = {ex_dg}, nr_granted = {}, nr_users = {}\<rparr>" ex_dg] d by simp
  show ?thesis
    by (intro exI [of _ "\<lparr>nr_world = ex_world\<lparr>sw_store := d\<rparr>, nr_pending = {ex_dg}, nr_granted = {ex_dg}, nr_users = {}\<rparr>"])
      (use r one_key_per_token [OF ex_libs_ok r, of _ ex_dg] ex_digest_ok in auto)
qed



text \<open>
  C10: A node commits to a signature only when it is asked for by the owner of the token. If it
  returns a commitment for a delegate action, then the token is valid under a key of the
  issuer, the claimed public key signed exactly this action, token and key, the token's hash
  is recorded for this key, the user's credentials are stored, and the commitment is to a
  signature of the hash of exactly this action with the decrypted key of that user.
\<close>

theorem sign_share_authorised:
  assumes "libs_ok X view" and "process_commit X inp (SignShare rq) w = (w', Done (Inr sc))"
  shows "\<exists>claims ks k digest c key message S.
    si_jwt_keys inp = Inr ks \<and> k \<in> set ks \<and> valid_under (sl_jwt X) None (ssnr_oidc_token rq) k claims \<and>
    sign_request_digest (sl_digest X) (ssnr_delegate_action rq) (ssnr_oidc_token rq) (ssnr_frp_public_key rq) = Inr digest \<and>
    near_verify (sl_digest X) (NSigEd25519 (ssnr_frp_signature rq)) digest (ssnr_frp_public_key rq) \<and>
    claimed view X w (share_digest X w (ssnr_oidc_token rq) (ssnr_frp_public_key rq)) \<and>
    user_held view X w' (get_internal_account_id claims) c \<and>
    decrypt_key_pair (sl_cipher X) c (sn_cipher (sw_node w)) = Done (Inr key) \<and>
    sl_signable X (ssnr_delegate_action rq) = Inr message \<and>
    get_commitment (sl_aggsig X) key (sn_node_key (sw_node w)) (sl_near_hash X message) (si_rng inp)
      (sn_signing_state (sw_node w)) = Done (S, Inr sc) \<and>
    sn_signing_state (sw_node w') = S"
proof -
  have "process_sign_share X inp rq w = (w', Done (Inr sc))" using assms(2) by simp
  from process_sign_share_Inr [OF assms(1) this] obtain claims digest c message key S where
    v: "verify_oidc_token (sl_jwt X) (si_jwt_keys inp) (ssnr_oidc_token rq) None = Inr claims" and
    rest: "sign_request_digest (sl_digest X) (ssnr_delegate_action rq) (ssnr_oidc_token rq) (ssnr_frp_public_key rq) = Inr digest"
      "near_verify (sl_digest X) (NSigEd25519 (ssnr_frp_signature rq)) digest (ssnr_frp_public_key rq)"
      "claimed view X w (share_digest X w (ssnr_oidc_token rq) (ssnr_frp_public_key rq))"
      "user_held view X w' (get_internal_account_id claims) c"
      "decrypt_key_pair (sl_cipher X) c (sn_cipher (sw_node w)) = Done (Inr key)"
      "sl_signable X (ssnr_delegate_action rq) = Inr message"
      "get_commitment (sl_aggsig X) key (sn_node_key (sw_node w)) (sl_near_hash X message) (si_rng inp)
        (sn_signing_state (sw_node w)) = Done (S, Inr sc)"
      "sn_signing_state (sw_node w') = S" by metis
  from v obtain ks k where "si_jwt_keys inp = Inr ks" "k \<in> set ks" "valid_under (sl_jwt X) None (ssnr_oidc_token rq) k claims"
    by (cases "si_jwt_keys inp") (auto simp: verify_oidc_token_def try_keys_Inr)
  with rest show ?thesis by blast
qed

theorem sign_share_authorised_witness:
  "\<exists>w w' sc c. process_commit ex_libs ex_inputs (SignShare ex_share) w = (w', Done (Inr sc)) \<and>
     claimed map_of ex_libs w (share_digest ex_libs w ex_token (ED25519 [8])) \<and> user_held map_of ex_libs w' ''i:u'' c"
proof -
  obtain d where d: "claimed map_of ex_libs (ex_world\<lparr>sw_store := d\<rparr>) ex_dg"
    "\<And>n. map_of d (env_kind ex_service EncryptedUserCredentials_kind, n) = None" using ex_after_claim by blast
  obtain w' sc where c: "process_commit ex_libs ex_inputs (SignShare ex_share) (ex_world\<lparr>sw_store := d\<rparr>) = (w', Done (Inr sc))"
    using ex_share_succeeds [OF d] by auto
  from sign_share_authorised [OF ex_libs_ok c] obtain claims k c' where
    claims: "valid_under ex_jwt None ex_token k claims" "user_held map_of ex_libs w' (get_internal_account_id claims) c'"
    and cl: "claimed map_of ex_libs (ex_world\<lparr>sw_store := d\<rparr>) (share_digest ex_libs (ex_world\<lparr>sw_store := d\<rparr>) ex_token (ED25519 [8]))"
    by (auto simp: ex_share_def)
  from claims(1) have "get_internal_account_id claims = ''i:u''"
    by (auto simp: valid_under_def ex_jwt_def get_internal_account_id_def)
  with claims(2) have "user_held map_of ex_libs w' ''i:u'' c'" by simp
  with cl c show ?thesis by (intro exI conjI)
qed

text \<open>
  The set of the sign nodes' keys is accepted once. From a start with no keys, whatever
  requests arrive, a node that has a set keeps it for good, and its own key is at its own
  place in it.
\<close>

theorem node_keys_set_once:
  assumes "node_keys w = None" and "node_keys (fold (node_step X) es w) = Some ks"
  shows "node_keys (fold (node_step X) (es @ fs) w) = Some ks \<and>
    list_get ks (our_index w) = Some (kp_public_key (sn_node_key (sw_node (fold (node_step X) es w))))"
proof -
  from assms(1) have ok: "keys_ok w" by (simp add: keys_ok_def)
  have "keys_kept (fold (node_step X) es w) (fold (node_step X) (es @ fs) w)" by (rule node_keys.run_rel_between [OF ok])
  moreover have "keys_ok (fold (node_step X) es w)" by (rule node_keys.run_inv [OF ok])
  moreover have "our_index (fold (node_step X) es w) = our_index w" using node_keys.run_rel [OF ok] by (auto simp: keys_kept_def)
  ultimately show ?thesis using assms(2) by (simp add: keys_kept_def keys_ok_def)
qed

theorem node_keys_set_once_witness:
  "\<exists>w. node_keys w = None \<and> node_keys (fold (node_step ex_libs) [NAccept [[3], [9]]] w) = Some [[3], [9]] \<and>
     node_keys (fold (node_step ex_libs) ([NAccept [[3], [9]]] @ [NAccept [[3]], NPublicKeyNode]) w) = Some [[3], [9]]"
proof -
  let ?w = "ex_world\<lparr>sw_node := ex_node\<lparr>sn_node_info := NodeInfo_new 0 None\<rparr>\<rparr>"
  have n: "node_keys ?w = None" by (simp add: NodeInfo_new_def)
  have s: "node_keys (fold (node_step ex_libs) [NAccept [[3], [9]]] ?w) = Some [[3], [9]]"
    by (auto simp: accept_pk_set_def NodeInfo_new_def ex_node_def ex_node_key_def list_get_def h_bind_def store_insert_def
        split: prod.split)
  from node_keys_set_once [OF n s, of "[NAccept [[3]], NPublicKeyNode]"] n s show ?thesis by blast
qed

end
