(* ===== verification/Leader.thy ===== *)
theory Leader
  imports Relayer Sign_Node
begin

text \<open>
  The leader of the recovery service: its calls of the sign nodes (\<^verbatim>\<open>transaction.rs\<close>,
  \<^verbatim>\<open>key_recovery.rs\<close>) and its endpoints (\<^verbatim>\<open>leader_node/mod.rs\<close>). The sign nodes, the relayers, the
  server of the issuer's keys and the rotating signer are arguments over the state \<open>'s\<close> of
  what is outside; \<^verbatim>\<open>Recovery_System\<close> puts the sign nodes of the model in their place.
\<close>

section \<open>Calls of the sign nodes\<close>

text \<open>No answer (with the status of the response, when there was one), or a status and a body.\<close>

datatype 'a http_answer =
    NetworkError "StatusCode option"
  | Answer StatusCode "anyhow_error + (string + 'a)"

fun node_answer :: "'a http_answer \<Rightarrow> LeaderNodeError + 'a" where
  "node_answer (NetworkError status) = Inl (LE_NetworkRejection status)"
| "node_answer (Answer status (Inl e)) = Inl (LE_DataConversionFailure e)"
| "node_answer (Answer status (Inr (Inr res))) = Inr res"
| "node_answer (Answer status (Inr (Inl e))) =
     (if is_client_error status then Inl (LE_ClientError e status) else Inl (LE_ServerError e))"

text \<open>
  Every node is called, whatever the others answer; the calls run concurrently, each on its
  own node, and are listed here in the order of the nodes.
\<close>

fun call_each :: "('n \<Rightarrow> 's \<Rightarrow> 's \<times> 'a) \<Rightarrow> 'n list \<Rightarrow> 's \<Rightarrow> 's \<times> 'a list" where
  "call_each call [] s = (s, [])"
| "call_each call (n # ns) s =
     (case call n s of (s', a) \<Rightarrow> (case call_each call ns s' of (s'', as) \<Rightarrow> (s'', a # as)))"

definition call_all_nodes ::
  "(string \<Rightarrow> 's \<Rightarrow> 's \<times> 'a http_answer) \<Rightarrow> string list \<Rightarrow> ('s, LeaderNodeError + 'a list) handler" where
  "call_all_nodes call sign_nodes s =
     (case call_each call sign_nodes s of (s', answers) \<Rightarrow> (s', Done (res_map node_answer answers)))"

record 's leader_lib =
  ll_commit :: "SignNodeRequest \<Rightarrow> string \<Rightarrow> 's \<Rightarrow> 's \<times> SignedCommitment http_answer"
  ll_reveal :: "SignedCommitment list \<Rightarrow> string \<Rightarrow> 's \<Rightarrow> 's \<times> Reveal http_answer"
  ll_signature_share :: "Reveal list \<Rightarrow> string \<Rightarrow> 's \<Rightarrow> 's \<times> eddsa_signature http_answer"
  ll_public_key :: "PublicKeyNodeRequest \<Rightarrow> string \<Rightarrow> 's \<Rightarrow> 's \<times> EdPoint http_answer"
  ll_public_key_node :: "string \<Rightarrow> 's \<Rightarrow> 's \<times> (u64 \<times> EdPoint) http_answer"
  ll_accept_pk_set :: "EdPoint list \<Rightarrow> string \<Rightarrow> 's \<Rightarrow> 's \<times> string http_answer"
  ll_jwt_keys :: "'s \<Rightarrow> anyhow_error + string list"
  ll_signer :: "'s \<Rightarrow> 's \<times> InMemorySigner"
  ll_relayer :: "'s relayer_lib"
  ll_digest :: digest_lib
  ll_jwt :: jwt_lib
  ll_aggsig :: aggsig_lib
  ll_delegate_action :: "bytes \<Rightarrow> string + DelegateAction"
  ll_json_args :: "AccountId \<Rightarrow> CreateAccountOptions \<Rightarrow> bytes"
  ll_sign_action :: "InMemorySigner \<Rightarrow> DelegateAction \<Rightarrow> near_signature"
  ll_show_error :: "LeaderNodeError \<Rightarrow> string"
  ll_show_aggregate :: "AggregateSigningError \<Rightarrow> string"

record LeaderState =
  ls_sign_nodes :: "string list"
  ls_near_root_account :: AccountId
  ls_partners :: PartnerList

definition sign_payload_with_mpc ::
  "'s leader_lib \<Rightarrow> string list \<Rightarrow> SignNodeRequest \<Rightarrow> ('s, LeaderNodeError + dalek_signature) handler" where
  "sign_payload_with_mpc Z sign_nodes sig_share_request =
     h_try (call_all_nodes (ll_commit Z sig_share_request) sign_nodes) (\<lambda>commitments.
     h_try (call_all_nodes (ll_reveal Z commitments) sign_nodes) (\<lambda>reveals.
     h_try (call_all_nodes (ll_signature_share Z reveals) sign_nodes) (\<lambda>signature_shares.
     h_map_err LE_AggregateSigningFailed
       (h_bind (h_lift (add_signature_parts (ll_aggsig Z) signature_shares)) (\<lambda>raw_sig.
        h_lift (to_dalek_signature (ll_aggsig Z) raw_sig))))))"

definition get_mpc_signature ::
  "'s leader_lib \<Rightarrow> string list \<Rightarrow> OidcToken \<Rightarrow> DelegateAction \<Rightarrow> dalek_signature \<Rightarrow> near_public_key \<Rightarrow>
     ('s, LeaderNodeError + dalek_signature) handler" where
  "get_mpc_signature Z sign_nodes oidc_token delegate_action frp_signature frp_public_key =
     sign_payload_with_mpc Z sign_nodes
       (SignShare \<lparr>ssnr_oidc_token = oidc_token, ssnr_delegate_action = delegate_action,
                   ssnr_frp_signature = frp_signature, ssnr_frp_public_key = frp_public_key\<rparr>)"

definition get_user_recovery_pk ::
  "'s leader_lib \<Rightarrow> string list \<Rightarrow> OidcToken \<Rightarrow> dalek_signature \<Rightarrow> near_public_key \<Rightarrow>
     ('s, LeaderNodeError + near_public_key) handler" where
  "get_user_recovery_pk Z sign_nodes oidc_token frp_signature frp_public_key =
     h_try (call_all_nodes (ll_public_key Z \<lparr>pknr_oidc_token = oidc_token, pknr_frp_signature = frp_signature,
              pknr_frp_public_key = frp_public_key\<rparr>) sign_nodes) (\<lambda>res.
     h_bind (h_lift (key_aggregation_n (ll_aggsig Z) res 0)) (\<lambda>k.
     h_return (map_err LE_AggregateSigningFailed
       (res_bind (to_dalek_public_key (ll_aggsig Z) (ka_apk k)) (\<lambda>pk. Inr (ED25519 pk))))))"

section \<open>The keys of the sign nodes\<close>

text \<open>
  \<open>retry_every\<close> under a timeout of a minute: attempt \<open>k\<close> takes \<open>dur k\<close> milliseconds, and a
  second passes between attempts. An attempt that is still running at the end is cancelled.
\<close>

definition gather_attempt :: "'s leader_lib \<Rightarrow> LeaderState \<Rightarrow> ('s, LeaderNodeError + EdPoint list) handler" where
  "gather_attempt Z st =
     h_try (call_all_nodes (ll_public_key_node Z) (ls_sign_nodes st)) (\<lambda>results.
     h_return (Inr (map snd (sort_key fst results))))"

function gather_loop ::
  "(nat \<Rightarrow> ('s, LeaderNodeError + EdPoint list) handler) \<Rightarrow> (nat \<Rightarrow> nat) \<Rightarrow> nat \<Rightarrow> nat \<Rightarrow> ('s, LeaderNodeError + EdPoint list) handler" where
  "gather_loop attempt dur left k s =
     (case attempt k s of
        (s', Done r) \<Rightarrow>
          if dur k > left then (s', Done (Inl LE_TimeoutGatheringPublicKeys))
          else (case r of
                  Inr keys \<Rightarrow> (s', Done (Inr keys))
                | Inl _ \<Rightarrow>
                    if left - dur k < 1000 then (s', Done (Inl LE_TimeoutGatheringPublicKeys))
                    else gather_loop attempt dur (left - dur k - 1000) (Suc k) s')
      | (s', Panics p) \<Rightarrow> (s', Panics p)
      | (s', Loops) \<Rightarrow> (s', Loops))"
  by pat_completeness auto

termination
  by (relation "measure (\<lambda>(_, _, left, _, _). left)") auto

declare gather_loop.simps [simp del]

definition gather_sign_node_pk_shares ::
  "'s leader_lib \<Rightarrow> (nat \<Rightarrow> nat) \<Rightarrow> LeaderState \<Rightarrow> ('s, LeaderNodeError + EdPoint list) handler" where
  "gather_sign_node_pk_shares Z dur st = gather_loop (\<lambda>_. gather_attempt Z st) dur 60000 0"

definition broadcast_pk_set ::
  "'s leader_lib \<Rightarrow> LeaderState \<Rightarrow> EdPoint list \<Rightarrow> ('s, LeaderNodeError + string list) handler" where
  "broadcast_pk_set Z st pk_set = call_all_nodes (ll_accept_pk_set Z pk_set) (ls_sign_nodes st)"

text \<open>The start: without the keys the leader ends; a failed broadcast is only logged.\<close>

definition leader_start :: "'s leader_lib \<Rightarrow> (nat \<Rightarrow> nat) \<Rightarrow> LeaderState \<Rightarrow> ('s, bool) handler" where
  "leader_start Z dur st =
     h_bind (gather_sign_node_pk_shares Z dur st) (\<lambda>r.
     case r of
       Inl _ \<Rightarrow> h_return False
     | Inr pk_set \<Rightarrow> h_bind (broadcast_pk_set Z st pk_set) (\<lambda>_. h_return True))"

section \<open>Requests\<close>

definition leader_verify ::
  "'s leader_lib \<Rightarrow> LeaderState \<Rightarrow> OidcToken \<Rightarrow> ('s, LeaderNodeError + IdTokenClaims) handler" where
  "leader_verify Z st token s =
     (s, Done (map_err LE_OidcVerificationFailed
        (verify_oidc_token (ll_jwt Z) (ll_jwt_keys Z s) token (Some (PartnerList_oidc_providers (ls_partners st))))))"

definition process_user_credentials ::
  "'s leader_lib \<Rightarrow> LeaderState \<Rightarrow> UserCredentialsRequest \<Rightarrow> ('s, LeaderNodeError + near_public_key) handler" where
  "process_user_credentials Z st request =
     h_try (leader_verify Z st (ucr_oidc_token request)) (\<lambda>_.
     nar_retry (\<lambda>_. get_user_recovery_pk Z (ls_sign_nodes st) (ucr_oidc_token request) (ucr_frp_signature request)
       (ucr_frp_public_key request)))"

definition add_recovery_key :: "near_public_key \<Rightarrow> CreateAccountOptions \<Rightarrow> CreateAccountOptions" where
  "add_recovery_key pk options =
     options\<lparr>cao_full_access_keys := Some (case cao_full_access_keys options of Some keys \<Rightarrow> keys @ [pk] | None \<Rightarrow> [pk])\<rparr>"

definition new_account_attempt ::
  "'s leader_lib \<Rightarrow> LeaderState \<Rightarrow> NewAccountRequest \<Rightarrow> InternalAccountId \<Rightarrow> FastAuthPartner \<Rightarrow> near_public_key \<Rightarrow>
     ('s, LeaderNodeError + CreateAccountOptions \<times> near_public_key \<times> AccountId) handler" where
  "new_account_attempt Z st request internal_acc_id partner recovery_pk =
     h_bind (\<lambda>s. case ll_signer Z s of (s', a) \<Rightarrow> (s', Done a)) (\<lambda>account_creator.
     h_try (h_map_err LE_RelayerError (access_key (ll_relayer Z) (ims_account_id account_creator) (ims_public_key account_creator)))
       (\<lambda>(_, block_height, nonce).
     let new_account_options = add_recovery_key recovery_pk (nar_create_account_options request) in
     h_check (map_err LE_Other (new_create_account_delegate_action (ll_json_args Z) (ll_sign_action Z) account_creator
                (nar_near_account_id request) new_account_options (ls_near_root_account st) nonce (block_height + 100)))
       (\<lambda>signed_delegate_action.
     h_bind (create_account_atomic (ll_relayer Z)
               \<lparr>caar_account_id = nar_near_account_id request, caar_allowance = 300000000000000,
                caar_oauth_token = internal_acc_id, caar_signed_delegate_action = signed_delegate_action\<rparr>
               (fap_relayer partner)) (\<lambda>result.
     case result of
       Inr () \<Rightarrow> h_return (Inr (new_account_options, recovery_pk, nar_near_account_id request))
     | Inl err \<Rightarrow>
         h_bind (invalidate_cache_if_acc_creation_failed (ll_relayer Z)
                   (ims_account_id account_creator, ims_public_key account_creator)
                   (debug_relayer_error (ll_relayer Z) err)) (\<lambda>_.
         h_return (Inl (LE_RelayerError err)))))))"

definition process_new_account ::
  "'s leader_lib \<Rightarrow> LeaderState \<Rightarrow> NewAccountRequest \<Rightarrow>
     ('s, LeaderNodeError + CreateAccountOptions \<times> near_public_key \<times> AccountId) handler" where
  "process_new_account Z st request =
     h_try (leader_verify Z st (nar_oidc_token request)) (\<lambda>oidc_token_claims.
     let frp_pk = nar_frp_public_key request in
     h_check (map_err LE_Other (user_credentials_request_digest (ll_digest Z) (nar_oidc_token request) frp_pk)) (\<lambda>digest.
     h_check (map_err LE_SignatureVerificationFailed
                (check_digest_signature (ll_digest Z) frp_pk (nar_user_credentials_frp_signature request) digest)) (\<lambda>_.
     h_check (map_err LE_Other (PartnerList_find (ls_partners st) (itc_iss oidc_token_claims) (itc_aud oidc_token_claims))) (\<lambda>partner.
     h_try (nar_retry (\<lambda>_. get_user_recovery_pk Z (ls_sign_nodes st) (nar_oidc_token request)
              (nar_user_credentials_frp_signature request) frp_pk)) (\<lambda>mpc_user_recovery_pk.
     nar_retry (\<lambda>_. new_account_attempt Z st request (get_internal_account_id oidc_token_claims) partner mpc_user_recovery_pk))))))"

fun delete_key_of :: "near_action \<Rightarrow> near_public_key option" where
  "delete_key_of (DeleteKey k) = Some k"
| "delete_key_of _ = None"

fun is_delete_account :: "near_action \<Rightarrow> bool" where
  "is_delete_account (DeleteAccount _) = True"
| "is_delete_account _ = False"

definition check_actions :: "near_public_key \<Rightarrow> near_action list \<Rightarrow> LeaderNodeError + unit" where
  "check_actions user_recovery_pk actions =
     (case find (\<lambda>k. k = user_recovery_pk) (List.map_filter delete_key_of actions) of
        Some k \<Rightarrow> Inl (LE_RecoveryKeyCanNotBeDeleted k)
      | None \<Rightarrow>
          if filter is_delete_account actions \<noteq> [] then Inl LE_AccountDeletionUnsupported else Inr ())"

definition process_sign ::
  "'s leader_lib \<Rightarrow> LeaderState \<Rightarrow> MpcSignRequest \<Rightarrow> ('s, LeaderNodeError + dalek_signature) handler" where
  "process_sign Z st request =
     h_check (map_err LE_MalformedDelegateAction (ll_delegate_action Z (msr_delegate_action request))) (\<lambda>delegate_action.
     h_try (leader_verify Z st (msr_oidc_token request)) (\<lambda>_.
     h_try (h_map_err LE_FailedToRetrieveRecoveryPk
              (nar_retry (\<lambda>_. get_user_recovery_pk Z (ls_sign_nodes st) (msr_oidc_token request)
                 (msr_user_credentials_frp_signature request) (msr_frp_public_key request)))) (\<lambda>user_recovery_pk.
     h_check (check_actions user_recovery_pk (da_actions delegate_action)) (\<lambda>_.
     nar_retry (\<lambda>_. get_mpc_signature Z (ls_sign_nodes st) (msr_oidc_token request) delegate_action
       (msr_frp_signature request) (msr_frp_public_key request))))))"

section \<open>Endpoints\<close>

definition leader_respond :: "('e \<Rightarrow> StatusCode) \<Rightarrow> ('e \<Rightarrow> string) \<Rightarrow> 'e + 'a \<Rightarrow> StatusCode \<times> 'a leader_response" where
  "leader_respond code show_error r = (case r of Inr x \<Rightarrow> (200, ROk x) | Inl e \<Rightarrow> (code e, RErr (show_error e)))"

definition mpc_public_key ::
  "'s leader_lib \<Rightarrow> (nat \<Rightarrow> nat) \<Rightarrow> LeaderState \<Rightarrow> ('s, StatusCode \<times> dalek_key leader_response) handler" where
  "mpc_public_key Z dur st =
     h_bind (gather_sign_node_pk_shares Z dur st) (\<lambda>r.
     case r of
       Inl err \<Rightarrow> h_return (LeaderNodeError_code err, RErr (ll_show_error Z err))
     | Inr pk_set \<Rightarrow>
         h_bind (h_lift (to_dalek_combined_public_key (ll_aggsig Z) pk_set)) (\<lambda>k.
         h_return (leader_respond AggregateSigningError_code (ll_show_aggregate Z) k)))"

text \<open>Every failure of a claim is answered with 400.\<close>

definition claim_oidc ::
  "'s leader_lib \<Rightarrow> LeaderState \<Rightarrow> ClaimOidcRequest \<Rightarrow> ('s, StatusCode \<times> dalek_signature leader_response) handler" where
  "claim_oidc Z st request =
     h_bind (sign_payload_with_mpc Z (ls_sign_nodes st)
       (ClaimOidc \<lparr>conr_oidc_token_hash = cor_oidc_token_hash request, conr_public_key = cor_frp_public_key request,
                   conr_signature = cor_frp_signature request\<rparr>)) (\<lambda>r.
     h_return (leader_respond (\<lambda>_. 400) (ll_show_error Z) r))"

definition user_credentials_endpoint ::
  "'s leader_lib \<Rightarrow> LeaderState \<Rightarrow> UserCredentialsRequest \<Rightarrow> ('s, StatusCode \<times> near_public_key leader_response) handler" where
  "user_credentials_endpoint Z st request =
     h_bind (process_user_credentials Z st request) (\<lambda>r.
     h_return (leader_respond LeaderNodeError_code (ll_show_error Z) r))"

definition new_account_endpoint ::
  "'s leader_lib \<Rightarrow> LeaderState \<Rightarrow> NewAccountRequest \<Rightarrow>
     ('s, StatusCode \<times> (CreateAccountOptions \<times> near_public_key \<times> AccountId) leader_response) handler" where
  "new_account_endpoint Z st request =
     h_bind (process_new_account Z st request) (\<lambda>r.
     h_return (leader_respond LeaderNodeError_code (ll_show_error Z) r))"

definition sign_endpoint ::
  "'s leader_lib \<Rightarrow> LeaderState \<Rightarrow> MpcSignRequest \<Rightarrow> ('s, StatusCode \<times> dalek_signature leader_response) handler" where
  "sign_endpoint Z st request =
     h_bind (process_sign Z st request) (\<lambda>r.
     h_return (leader_respond LeaderNodeError_code (ll_show_error Z) r))"

section \<open>Laws\<close>

context state_order
begin

lemma keeps_call_each: "(\<And>n s. R s (fst (call n s))) \<Longrightarrow> R s (fst (call_each call ns s))"
proof (induction ns arbitrary: s)
  case (Cons n ns)
  obtain s1 a where 1: "call n s = (s1, a)" by (cases "call n s")
  obtain s2 as where 2: "call_each call ns s1 = (s2, as)" by (cases "call_each call ns s1")
  from Cons.prems [of s n] Cons.IH [OF Cons.prems, of s1] 1 2 show ?case by (auto intro: ord_trans)
qed (simp add: ord_refl)

lemma keeps_call_all: "(\<And>n s. R s (fst (call n s))) \<Longrightarrow> h_keeps R (call_all_nodes call ns)"
  unfolding h_keeps_def call_all_nodes_def using keeps_call_each [of call] by (auto split: prod.split) (metis fst_conv)

lemma keeps_recovery_pk:
  "(\<And>rq n s. R s (fst (ll_public_key Z rq n s))) \<Longrightarrow> h_keeps R (get_user_recovery_pk Z ns t sig pk)"
  unfolding get_user_recovery_pk_def
  by (intro keeps_try keeps_bind keeps_return keeps_lift keeps_call_all)

lemma keeps_leader_verify: "h_keeps R (leader_verify Z st t)"
  by (simp add: h_keeps_def leader_verify_def ord_refl)

end

lemma check_actions_Inr:
  "check_actions rk actions = Inr () \<longleftrightarrow> DeleteKey rk \<notin> set actions \<and> (\<forall>b. DeleteAccount b \<notin> set actions)"
proof -
  have dk: "delete_key_of a = Some k \<longleftrightarrow> a = DeleteKey k" for a k by (cases a) auto
  have da: "is_delete_account a \<longleftrightarrow> (\<exists>b. a = DeleteAccount b)" for a by (cases a) auto
  have "find (\<lambda>k. k = rk) (List.map_filter delete_key_of actions) = None \<longleftrightarrow> DeleteKey rk \<notin> set actions"
    by (auto simp: find_None_iff map_filter_def dk)
  then show ?thesis
    by (auto simp: check_actions_def filter_empty_conv da split: option.splits)
qed

text \<open>A list of keys deletes what must not be deleted.\<close>

definition forbidden :: "near_public_key \<Rightarrow> near_action list \<Rightarrow> bool" where
  "forbidden rk actions \<longleftrightarrow> list_ex (\<lambda>a. a = DeleteKey rk \<or> is_delete_account a) actions"

lemma forbidden_check: "forbidden rk actions \<Longrightarrow> \<exists>e. check_actions rk actions = Inl e"
proof (cases "check_actions rk actions")
  case (Inr u)
  moreover have "is_delete_account a \<longleftrightarrow> (\<exists>b. a = DeleteAccount b)" for a by (cases a) auto
  moreover assume "forbidden rk actions"
  ultimately show ?thesis using check_actions_Inr [of rk actions] by (auto simp: forbidden_def list_ex_iff)
qed simp

lemma gather_loop_cong:
  "(\<And>j. k \<le> j \<Longrightarrow> j \<le> k + left div 1000 \<Longrightarrow> attempt j = attempt' j) \<Longrightarrow>
   gather_loop attempt dur left k s = gather_loop attempt' dur left k s"
proof (induction attempt dur left k s rule: gather_loop.induct)
  case (1 attempt dur left k s)
  have k: "attempt k = attempt' k" using "1.prems" by simp
  show ?case
  proof (cases "attempt k s")
    case (Pair s' r)
    show ?thesis
    proof (cases "\<exists>e. r = Done (Inl e) \<and> dur k \<le> left \<and> 1000 \<le> left - dur k")
      case True
      then obtain e where e: "r = Done (Inl e)" "dur k \<le> left" "1000 \<le> left - dur k" by blast
      have "Suc ((left - dur k - 1000) div 1000) \<le> left div 1000"
        using e(3) by (simp add: le_div_geq)
      then have "attempt j = attempt' j" if "Suc k \<le> j" "j \<le> Suc k + (left - dur k - 1000) div 1000" for j
        using "1.prems" that by simp
      with "1.IH" [OF Pair [symmetric] e(1) _ refl] e have
        "gather_loop attempt dur (left - dur k - 1000) (Suc k) s' = gather_loop attempt' dur (left - dur k - 1000) (Suc k) s'"
        by (simp add: not_less)
      with Pair e k show ?thesis by (subst (1 2) gather_loop.simps) simp
    next
      case False
      with Pair k show ?thesis
        by (subst (1 2) gather_loop.simps) (auto split: exec.split sum.split)
    qed
  qed
qed

lemma new_account_attempt_Inr:
  assumes "new_account_attempt Z st rq acc partner pk s = (s', Done (Inr (options, pk', a)))"
  shows "options = add_recovery_key pk (nar_create_account_options rq) \<and> pk' = pk \<and> a = nar_near_account_id rq \<and>
    (\<exists>s0 atomic. create_account_atomic (ll_relayer Z) atomic (fap_relayer partner) s0 = (s', Done (Inr ())) \<and>
      caar_account_id atomic = nar_near_account_id rq \<and> caar_oauth_token atomic = acc \<and>
      da_actions (sda_delegate_action (caar_signed_delegate_action atomic)) =
        [FunctionCall ''create_account_advanced'' (ll_json_args Z (nar_near_account_id rq) options) 300000000000000 0])"
proof -
  from assms obtain creator s1 s2 s3 hash height nonce signed' result where
    signed': "new_create_account_delegate_action (ll_json_args Z) (ll_sign_action Z) creator
      (nar_near_account_id rq) (add_recovery_key pk (nar_create_account_options rq)) (ls_near_root_account st) nonce (height + 100) = Inr signed'"
    and atomic: "create_account_atomic (ll_relayer Z)
      \<lparr>caar_account_id = nar_near_account_id rq, caar_allowance = 300000000000000,
       caar_oauth_token = acc, caar_signed_delegate_action = signed'\<rparr> (fap_relayer partner) s2 = (s3, Done result)"
    and result: "(case result of
       Inr () \<Rightarrow> h_return (Inr (add_recovery_key pk (nar_create_account_options rq), pk, nar_near_account_id rq))
     | Inl err \<Rightarrow>
         h_bind (invalidate_cache_if_acc_creation_failed (ll_relayer Z) (ims_account_id creator, ims_public_key creator)
                   (debug_relayer_error (ll_relayer Z) err)) (\<lambda>_. h_return (Inl (LE_RelayerError err)))) s3 =
       (s', Done (Inr (options, pk', a)))"
    unfolding new_account_attempt_def Let_def h_bind_Done h_try_Inr by (clarsimp simp: h_check_Inr h_bind_Done split: prod.splits)
  show ?thesis
  proof (cases result)
    case (Inl err)
    with result show ?thesis by (auto simp: h_bind_Done)
  next
    case (Inr u)
    with result have "options = add_recovery_key pk (nar_create_account_options rq)" "pk' = pk" "a = nar_near_account_id rq" "s3 = s'"
      by (auto simp: case_unit_Unity)
    with atomic Inr signed' show ?thesis
      by (intro conjI exI [of _ s2] exI [of _ "\<lparr>caar_account_id = nar_near_account_id rq, caar_allowance = 300000000000000,
          caar_oauth_token = acc, caar_signed_delegate_action = signed'\<rparr>"])
        (auto simp: new_create_account_delegate_action_def Let_def)
  qed
qed

section \<open>Examples\<close>

text \<open>
  A leader of one node that reports one key; the state counts the requests for commitments,
  reveals and shares, and the relayer accepts everything.
\<close>

definition ex_relayer :: "nat relayer_lib" where
  "ex_relayer = \<lparr>fetch_nonce = (\<lambda>_ _ s. (s, Inr (1, [], 10))), invalidate_cache = (\<lambda>_ s. s),
     build_request = (\<lambda>_ _ b. Inr b), http_send = (\<lambda>_ s. (s, Inr (200, Inr []))), from_utf8 = (\<lambda>_. Inr []),
     json_register = (\<lambda>_. Inr []), json_atomic = (\<lambda>_. Inr []), json_meta_tx = (\<lambda>_. Inr []),
     parse_meta_tx = (\<lambda>_. Inl ''none''), debug_relayer_error = (\<lambda>_. [])\<rparr>"

definition ex_leader :: "near_action list \<Rightarrow> nat leader_lib" where
  "ex_leader actions = \<lparr>
     ll_commit = (\<lambda>_ _ s. (Suc s, Answer 200 (Inr (Inr \<lparr>sc_commitment = 0, sc_signing_public_key = [7],
        sc_signing_public_key_sig = [], sc_signature = []\<rparr>)))),
     ll_reveal = (\<lambda>_ _ s. (Suc s, Answer 200 (Inr (Inr \<lparr>rv_R = [], rv_blind_factor = 0\<rparr>)))),
     ll_signature_share = (\<lambda>_ _ s. (Suc s, Answer 200 (Inr (Inr \<lparr>es_R = [], es_s = replicate 32 0\<rparr>)))),
     ll_public_key = (\<lambda>_ _ s. (s, Answer 200 (Inr (Inr [7])))),
     ll_public_key_node = (\<lambda>_ s. (s, Answer 200 (Inr (Inr (0, [3]))))),
     ll_accept_pk_set = (\<lambda>_ _ s. (s, Answer 200 (Inr (Inr [])))),
     ll_jwt_keys = (\<lambda>_. Inr [''k'']), ll_signer = (\<lambda>s. (s, \<lparr>ims_account_id = ''c'', ims_public_key = ED25519 [9], ims_secret_key = []\<rparr>)),
     ll_relayer = ex_relayer, ll_digest = ex_digest32, ll_jwt = ex_jwt, ll_aggsig = ex_aggsig,
     ll_delegate_action = (\<lambda>_. Inr (ex_action\<lparr>da_actions := actions\<rparr>)), ll_json_args = (\<lambda>_ _. []),
     ll_sign_action = (\<lambda>_ _. NSigEd25519 []), ll_show_error = (\<lambda>_. []), ll_show_aggregate = (\<lambda>_. [])\<rparr>"

definition ex_partner :: FastAuthPartner where
  "ex_partner = \<lparr>fap_oidc_provider = \<lparr>op_issuer = ''i'', op_audience = ''a''\<rparr>, fap_relayer = \<lparr>dar_url = ''r'', dar_api_key = None\<rparr>\<rparr>"

definition ex_lstate :: LeaderState where
  "ex_lstate = \<lparr>ls_sign_nodes = [''n''], ls_near_root_account = ''root'', ls_partners = [ex_partner]\<rparr>"

definition ex_recovery_key :: near_public_key where
  "ex_recovery_key = ED25519 (7 # replicate 31 0)"

definition ex_sign_request :: MpcSignRequest where
  "ex_sign_request = \<lparr>msr_delegate_action = [], msr_oidc_token = ex_token, msr_frp_signature = [1],
     msr_user_credentials_frp_signature = [1], msr_frp_public_key = ED25519 [8]\<rparr>"

lemma ex_recovery_pk:
  "get_user_recovery_pk (ex_leader as) (ls_sign_nodes ex_lstate) t sig pk s = (s, Done (Inr ex_recovery_key))"
  by (simp add: get_user_recovery_pk_def ex_leader_def ex_lstate_def call_all_nodes_def h_try_def h_bind_def ex_aggsig_def
      to_dalek_public_key_def ex_recovery_key_def numeral_eq_Suc)

section \<open>Properties\<close>

text \<open>
  C17: The leader has no part in deleting an account or its recovery key. If the delegate action
  of a request deletes the account, or deletes the recovery key that the sign nodes report for
  this token, the request fails, and no sign node is asked for a commitment, a reveal or a
  share: whatever relation the requests for public keys respect, the whole request respects.
\<close>

theorem sign_refuses_deletion:
  assumes "\<And>s. R s s" and "\<And>s t u. R s t \<Longrightarrow> R t u \<Longrightarrow> R s u"
    and pk: "\<And>rq n s. R s (fst (ll_public_key Z rq n s))"
    and da: "ll_delegate_action Z (msr_delegate_action rq) = Inr action"
    and rk: "\<And>s s' k. get_user_recovery_pk Z (ls_sign_nodes st) (msr_oidc_token rq)
      (msr_user_credentials_frp_signature rq) (msr_frp_public_key rq) s = (s', Done (Inr k)) \<Longrightarrow> k = rk"
    and "forbidden rk (da_actions action)"
  shows "R s (fst (process_sign Z st rq s)) \<and> process_sign Z st rq s \<noteq> (s', Done (Inr sig))"
proof
  have ord: "state_order R" by unfold_locales (use assms(1,2) in blast)+
  let ?get = "nar_retry (\<lambda>_. get_user_recovery_pk Z (ls_sign_nodes st) (msr_oidc_token rq)
      (msr_user_credentials_frp_signature rq) (msr_frp_public_key rq))"
  have got: "k = rk" if "?get s1 = (s2, Done (Inr k))" for s1 s2 k
    using nar_retry_Inr [OF that] rk by blast
  obtain e where e: "check_actions rk (da_actions action) = Inl e" using forbidden_check [OF assms(6)] by blast
  have "process_sign Z st rq = h_try (leader_verify Z st (msr_oidc_token rq)) (\<lambda>_.
      h_try (h_map_err LE_FailedToRetrieveRecoveryPk ?get) (\<lambda>k.
      h_check (check_actions k (da_actions action)) (\<lambda>_.
      nar_retry (\<lambda>_. get_mpc_signature Z (ls_sign_nodes st) (msr_oidc_token rq) action
        (msr_frp_signature rq) (msr_frp_public_key rq)))))"
    by (simp add: process_sign_def da)
  then have eq: "process_sign Z st rq = h_try (leader_verify Z st (msr_oidc_token rq)) (\<lambda>_.
      h_try (h_map_err LE_FailedToRetrieveRecoveryPk ?get) (\<lambda>k. h_return (Inl e)))"
    by (simp add: h_try_def h_map_err_def fun_eq_iff) (auto simp: h_bind_def map_err_def e dest!: got split: prod.split exec.split sum.split)
  show "process_sign Z st rq s \<noteq> (s', Done (Inr sig))"
    unfolding eq by (auto simp: h_try_Inr)
  have "h_keeps R (process_sign Z st rq)"
    unfolding eq using state_order.keeps_try [OF ord] state_order.keeps_map_err [OF ord] state_order.keeps_retry [OF ord]
      state_order.keeps_return [OF ord] state_order.keeps_leader_verify [OF ord] state_order.keeps_recovery_pk [OF ord pk] by metis
  then show "R s (fst (process_sign Z st rq s))" by (simp add: h_keeps_def)
qed

theorem sign_refuses_deletion_witness:
  "fst (process_sign (ex_leader [OtherAction [], DeleteKey ex_recovery_key]) ex_lstate ex_sign_request 0) = 0 \<and>
   \<not> (\<exists>s sig. process_sign (ex_leader [OtherAction [], DeleteKey ex_recovery_key]) ex_lstate ex_sign_request 0 = (s, Done (Inr sig)))"
proof -
  let ?Z = "ex_leader [OtherAction [], DeleteKey ex_recovery_key]"
  have "0 = fst (process_sign ?Z ex_lstate ex_sign_request 0) \<and>
      process_sign ?Z ex_lstate ex_sign_request 0 \<noteq> (s, Done (Inr sig))" for s sig
    by (rule sign_refuses_deletion [where R = "(=)" and rk = ex_recovery_key
          and action = "ex_action\<lparr>da_actions := [OtherAction [], DeleteKey ex_recovery_key]\<rparr>"])
      (auto simp: ex_recovery_pk forbidden_def, simp_all add: ex_leader_def)
  then show ?thesis by (metis (no_types))
qed




definition ex_new_account :: NewAccountRequest where
  "ex_new_account = \<lparr>nar_near_account_id = ''new'', nar_create_account_options =
       \<lparr>cao_full_access_keys = Some [ED25519 [2]], cao_limited_access_keys = None, cao_contract_bytes = None\<rparr>,
     nar_oidc_token = ex_token, nar_user_credentials_frp_signature = [1], nar_frp_public_key = ED25519 [8]\<rparr>"

lemma ex_leader_token:
  "verify_oidc_token ex_jwt (Inr [''k'']) ex_token (Some (PartnerList_oidc_providers [ex_partner])) =
   Inr \<lparr>itc_iss = ''i'', itc_sub = ''u'', itc_aud = ''a'', itc_exp = 0\<rparr>"
  by (simp add: verify_oidc_token_def validate_jwt_def OidcToken_decode_def rsplit_once_def ex_token_def ex_jwt_def
      OidcProviderList_contains_def oidc_providers_set ex_partner_def)

lemma ex_new_account_attempt:
  "\<exists>x. new_account_attempt (ex_leader []) ex_lstate ex_new_account acc p k s = (s, Done (Inr x))"
  by (simp add: new_account_attempt_def ex_leader_def ex_relayer_def access_key_def h_bind_def h_try_def h_map_err_def Let_def
      new_create_account_delegate_action_def create_account_atomic_def relayer_post_def is_success_def case_unit_Unity)


end
