(* ===== verification/Recovery_System.thy ===== *)
theory Recovery_System
  imports Leader
begin

text \<open>
  The recovery service as a whole: the leader over the sign nodes of the model, each with its
  own datastore. A leader that reaches its nodes makes them ready, and once they are, a
  request whose commitments are all granted ends with a signature.
\<close>

section \<open>The deployment\<close>

type_synonym 'd deployment = "string \<Rightarrow> 'd sign_world"

text \<open>What a leader gets from the endpoint of a node; a handler that panics closes the connection.\<close>

fun answer_of :: "'a response exec \<Rightarrow> 'a http_answer" where
  "answer_of (Done (status, body)) = Answer status (Inr body)"
| "answer_of _ = NetworkError None"

definition on_node ::
  "(string \<Rightarrow> ('d sign_world, 'a response) handler) \<Rightarrow> string \<Rightarrow> 'd deployment \<Rightarrow> 'd deployment \<times> 'a http_answer" where
  "on_node h n W = (case h n (W n) of (w, r) \<Rightarrow> (W(n := w), answer_of r))"

text \<open>\<open>X\<close> are the libraries of the sign nodes, \<open>inp\<close> what they fetch and draw in the request.\<close>

definition deployed ::
  "'d sign_libs \<Rightarrow> (string \<Rightarrow> sign_inputs) \<Rightarrow> 'd deployment leader_lib \<Rightarrow> 'd deployment leader_lib" where
  "deployed X inp Z = Z\<lparr>
     ll_commit := \<lambda>rq. on_node (\<lambda>n. commit_endpoint X (inp n) rq),
     ll_reveal := \<lambda>cs. on_node (\<lambda>_. reveal_endpoint X cs),
     ll_signature_share := \<lambda>rs. on_node (\<lambda>_. signature_share_endpoint X rs),
     ll_public_key := \<lambda>rq. on_node (\<lambda>n. public_key_endpoint X (inp n) rq),
     ll_public_key_node := on_node (\<lambda>_. public_key_node),
     ll_accept_pk_set := \<lambda>pks. on_node (\<lambda>_. accept_pk_set X pks),
     ll_aggsig := sl_aggsig X\<rparr>"

lemma deployed_simps [simp]:
  "ll_commit (deployed X inp Z) rq = on_node (\<lambda>n. commit_endpoint X (inp n) rq)"
  "ll_reveal (deployed X inp Z) cs = on_node (\<lambda>_. reveal_endpoint X cs)"
  "ll_signature_share (deployed X inp Z) rs = on_node (\<lambda>_. signature_share_endpoint X rs)"
  "ll_public_key_node (deployed X inp Z) = on_node (\<lambda>_. public_key_node)"
  "ll_accept_pk_set (deployed X inp Z) pks = on_node (\<lambda>_. accept_pk_set X pks)"
  "ll_aggsig (deployed X inp Z) = sl_aggsig X"
  by (simp_all add: deployed_def)

section \<open>Calls of distinct nodes\<close>

text \<open>Calls of distinct nodes do not see each other, whatever the order.\<close>

lemma call_each_nodes:
  "distinct us \<Longrightarrow> call_each (on_node h) us W =
     (\<lambda>u. if u \<in> set us then fst (h u (W u)) else W u, map (\<lambda>u. answer_of (snd (h u (W u)))) us)"
proof (induction us arbitrary: W)
  case (Cons n us)
  obtain w r where h: "h n (W n) = (w, r)" by (cases "h n (W n)")
  with Cons show ?case by (auto simp: on_node_def fun_eq_iff)
qed simp

lemma node_answer_Inr: "node_answer (answer_of r) = Inr x \<longleftrightarrow> (\<exists>status. r = Done (status, Inr x))"
proof (cases r)
  case (Done p)
  then show ?thesis by (cases p; cases "snd p") auto
qed simp_all

lemma call_all_nodes_answers:
  assumes "distinct us" and "length xs = length us"
    and "\<And>i. i < length us \<Longrightarrow> \<exists>status. snd (h (us ! i) (W (us ! i))) = Done (status, Inr (xs ! i))"
  shows "call_all_nodes (on_node h) us W =
    (\<lambda>u. if u \<in> set us then fst (h u (W u)) else W u, Done (Inr xs))"
proof -
  have "res_map node_answer (map (\<lambda>u. answer_of (snd (h u (W u)))) us) = Inr xs"
    using assms(2,3) by (auto simp: res_map_eq_Inr list_all2_conv_all_nth node_answer_Inr)
  then show ?thesis by (simp add: call_all_nodes_def call_each_nodes [OF assms(1)])
qed

lemma call_all_nodes_Inr:
  assumes "distinct us" and "call_all_nodes (on_node h) us W = (W', Done (Inr xs))"
  shows "W' = (\<lambda>u. if u \<in> set us then fst (h u (W u)) else W u)" and "length xs = length us"
    and "\<And>i. i < length us \<Longrightarrow> \<exists>status. snd (h (us ! i) (W (us ! i))) = Done (status, Inr (xs ! i))"
proof -
  from assms have W': "W' = (\<lambda>u. if u \<in> set us then fst (h u (W u)) else W u)"
    and "list_all2 (\<lambda>u x. node_answer (answer_of (snd (h u (W u)))) = Inr x) us xs"
    by (auto simp: call_all_nodes_def call_each_nodes res_map_eq_Inr list_all2_map1)
  then show "W' = (\<lambda>u. if u \<in> set us then fst (h u (W u)) else W u)" and "length xs = length us"
    and "\<And>i. i < length us \<Longrightarrow> \<exists>status. snd (h (us ! i) (W (us ! i))) = Done (status, Inr (xs ! i))"
    by (auto simp: list_all2_conv_all_nth node_answer_Inr)
qed

section \<open>The start\<close>

definition node_pk :: "'d sign_world \<Rightarrow> EdPoint" where
  "node_pk w = kp_public_key (sn_node_key (sw_node w))"

text \<open>The urls name the nodes \<open>0\<close> to \<open>n - 1\<close>, in any order.\<close>

definition numbered :: "'d deployment \<Rightarrow> string list \<Rightarrow> bool" where
  "numbered W us \<longleftrightarrow> distinct us \<and> length us < 2 ^ 64 \<and> sort (map (\<lambda>u. our_index (W u)) us) = map of_nat [0..<length us]"

definition keys_in_order :: "'d deployment \<Rightarrow> string list \<Rightarrow> EdPoint list" where
  "keys_in_order W us = map (\<lambda>u. node_pk (W u)) (sort_key (\<lambda>u. our_index (W u)) us)"

lemma map_sort_key: "map f (sort_key f xs) = sort (map f xs)"
proof (rule sym, rule properties_for_sort)
  have "mset (map f (sort_key f xs)) = image_mset f (mset (sort_key f xs))" by (rule mset_map)
  then show "mset (map f (sort_key f xs)) = mset (map f xs)" by simp
qed simp

lemma insort_key_map: "insort_key f (g x) (map g xs) = map g (insort_key (\<lambda>x. f (g x)) x xs)"
  by (induction xs) auto

lemma sort_key_map: "sort_key f (map g xs) = map g (sort_key (\<lambda>x. f (g x)) xs)"
  by (induction xs) (simp_all add: insort_key_map)

lemma numbered_get:
  assumes "numbered W us" and "u \<in> set us"
  shows "list_get (keys_in_order W us) (our_index (W u)) = Some (node_pk (W u))"
proof -
  let ?vs = "sort_key (\<lambda>u. our_index (W u)) us"
  have "map (\<lambda>u. our_index (W u)) ?vs = map of_nat [0..<length us]"
    using assms(1) by (simp add: numbered_def map_sort_key)
  moreover obtain i where i: "i < length us" "?vs ! i = u"
    using assms(2) by (metis in_set_conv_nth length_sort set_sort)
  ultimately have "map (\<lambda>u. our_index (W u)) ?vs ! i = map of_nat [0..<length us] ! i" by simp
  with i have "our_index (W u) = of_nat i" by simp
  moreover from i assms(1) have "i < 2 ^ 64" by (simp add: numbered_def)
  ultimately have "unat (our_index (W u)) = i" by (simp add: unsigned_of_nat take_bit_nat_eq_self)
  with i show ?thesis by (simp add: list_get_def keys_in_order_def)
qed

lemma gather_finds_keys:
  assumes "distinct (ls_sign_nodes st)" and "dur 0 \<le> 60000"
  shows "gather_sign_node_pk_shares (deployed X inp Z) dur st W = (W, Done (Inr (keys_in_order W (ls_sign_nodes st))))"
proof -
  have c: "call_all_nodes (on_node (\<lambda>_. public_key_node)) (ls_sign_nodes st) W =
      (\<lambda>u. if u \<in> set (ls_sign_nodes st) then fst (public_key_node (W u)) else W u,
       Done (Inr (map (\<lambda>u. (our_index (W u), node_pk (W u))) (ls_sign_nodes st))))"
    by (rule call_all_nodes_answers [OF assms(1)]) (simp_all add: public_key_node_def node_pk_def)
  have "sort_key fst (map (\<lambda>u. (our_index (W u), node_pk (W u))) us) =
      map (\<lambda>u. (our_index (W u), node_pk (W u))) (sort_key (\<lambda>u. our_index (W u)) us)" for us
    by (simp add: sort_key_map)
  with c have "gather_attempt (deployed X inp Z) st W = (W, Done (Inr (keys_in_order W (ls_sign_nodes st))))"
    by (simp add: gather_attempt_def h_try_def h_bind_def public_key_node_def keys_in_order_def o_def cong: if_cong)
  with assms(2) show ?thesis by (simp add: gather_sign_node_pk_shares_def gather_loop.simps)
qed

lemma accept_sets:
  assumes "list_get pks (our_index w) = Some (node_pk w)" and "node_keys w = None \<or> node_keys w = Some pks"
  shows "node_keys (fst (accept_pk_set X pks w)) = Some pks"
  using assms
  by (auto simp: accept_pk_set_def node_pk_def h_bind_def store_insert_def split: prod.split)

section \<open>A round of signing\<close>

text \<open>
  Assumed of the cryptographic libraries: what a key signs verifies under it, serialised
  commitments can be written, a commitment is opened by its reveal, and keys and shares of
  at least one node can be combined into a signature.
\<close>

definition aggsig_ok :: "aggsig_lib \<Rightarrow> bool" where
  "aggsig_ok L \<longleftrightarrow>
     (\<forall>m k d. to_dalek_signature L (sign_single L m k) = Done (Inr d) \<longrightarrow>
        (\<exists>pk. to_dalek_public_key L (kp_public_key k) = Inr pk \<and> dalek_verify L pk m d = Inr ())) \<and>
     (\<forall>k m g e c r. create_ephemeral L k m g = (e, c, r) \<longrightarrow> opens L (c, r)) \<and>
     (\<forall>ks i. i < length ks \<longrightarrow> (\<exists>a. key_aggregation_n L ks i = Done a)) \<and>
     (\<forall>ss. ss \<noteq> [] \<longrightarrow> (\<exists>raw d. add_signature_parts L ss = Done raw \<and> to_dalek_signature L raw = Done (Inr d)))"

lemma aggsig_okD:
  assumes "aggsig_ok L"
  shows "to_dalek_signature L (sign_single L m k) = Done (Inr d) \<Longrightarrow>
      \<exists>pk. to_dalek_public_key L (kp_public_key k) = Inr pk \<and> dalek_verify L pk m d = Inr ()"
    and "create_ephemeral L k' m' g = (e, c, r) \<Longrightarrow> opens L (c, r)"
    and "i < length ks \<Longrightarrow> \<exists>a. key_aggregation_n L ks i = Done a"
    and "ss \<noteq> [] \<Longrightarrow> \<exists>raw d. add_signature_parts L ss = Done raw \<and> to_dalek_signature L raw = Done (Inr d)"
  by (use assms in \<open>simp_all add: aggsig_ok_def\<close>)

text \<open>
  What a node promises with a commitment: it is signed by the node, what it waits for was drawn
  for the message and the key it will sign with, and opens the commitment.
\<close>

definition promised :: "aggsig_lib \<Rightarrow> EdPoint \<Rightarrow> SignedCommitment \<Rightarrow> Committed \<Rightarrow> bool" where
  "promised L node_key sc c \<longleftrightarrow>
     SignedCommitment_verify L sc node_key = Inr (sc_commitment sc, sc_signing_public_key sc) \<and>
     sc_signing_public_key sc = kp_public_key (co_our_key c) \<and>
     (\<exists>g. create_ephemeral L (co_our_key c) (co_message c) g = (co_ephemeral_key c, sc_commitment sc, co_our_signature c)) \<and>
     opens L (sc_commitment sc, co_our_signature c)"

lemma created_verifies:
  assumes "aggsig_ok L" and "SignedCommitment_create L c node_key key = Done (Inr sc)"
  shows "SignedCommitment_verify L sc (kp_public_key node_key) = Inr (c, kp_public_key key)"
    and "sc_commitment sc = c" and "sc_signing_public_key sc = kp_public_key key"
proof -
  obtain m where m: "SignedCommitment_serialize L c (kp_public_key key) = Inr m"
    using assms(2) by (cases "SignedCommitment_serialize L c (kp_public_key key)") (auto simp: SignedCommitment_create_def)
  obtain r1 where r1: "to_dalek_signature L (sign_single L [] key) = Done r1"
    using assms(2) m by (auto simp: SignedCommitment_create_def exec_bind_eq_Done)
  then obtain d1 where d1: "r1 = Inr d1" using assms(2) m by (cases r1) (auto simp: SignedCommitment_create_def)
  obtain r2 where r2: "to_dalek_signature L (sign_single L m node_key) = Done r2"
    using assms(2) m r1 d1 by (auto simp: SignedCommitment_create_def exec_bind_eq_Done)
  then obtain d2 where d2: "r2 = Inr d2" using assms(2) m r1 d1 by (cases r2) (auto simp: SignedCommitment_create_def)
  from assms(2) m r1 d1 r2 d2 have sc: "sc = \<lparr>sc_commitment = c, sc_signing_public_key = kp_public_key key,
      sc_signing_public_key_sig = d1, sc_signature = d2\<rparr>" by (simp add: SignedCommitment_create_def)
  from aggsig_okD(1) [OF assms(1) r1 [unfolded d1]] obtain pk1 where
    pk1: "to_dalek_public_key L (kp_public_key key) = Inr pk1" "dalek_verify L pk1 [] d1 = Inr ()" by blast
  from aggsig_okD(1) [OF assms(1) r2 [unfolded d2]] obtain pk2 where
    pk2: "to_dalek_public_key L (kp_public_key node_key) = Inr pk2" "dalek_verify L pk2 m d2 = Inr ()" by blast
  from m pk1 pk2 show "SignedCommitment_verify L sc (kp_public_key node_key) = Inr (c, kp_public_key key)"
    by (simp add: sc SignedCommitment_verify_def dalek_check_def case_unit_Unity)
  show "sc_commitment sc = c" and "sc_signing_public_key sc = kp_public_key key" by (simp_all add: sc)
qed

lemma get_commitment_promises:
  assumes "aggsig_ok L" and "get_commitment L key node_key m g S = Done (S', Inr sc)"
  shows "\<exists>c. promised L (kp_public_key node_key) sc c \<and> co_our_key c = key \<and> co_message c = m \<and>
    S' = S\<lparr>ss_committed := hm_insert (sc_commitment sc) c (ss_committed S)\<rparr>"
proof -
  obtain e cm r where ce: "create_ephemeral L key m g = (e, cm, r)" by (cases "create_ephemeral L key m g")
  from assms(2) ce obtain x where x: "SignedCommitment_create L cm node_key key = Done x"
    by (auto simp: get_commitment_def Committed_commit_def exec_bind_eq_Done)
  then obtain sc' where sc': "x = Inr sc'" using assms(2) ce by (cases x) (auto simp: get_commitment_def Committed_commit_def)
  from assms(2) ce x sc' have "sc' = sc" and S': "S' = S\<lparr>ss_committed := hm_insert (sc_commitment sc)
      \<lparr>co_ephemeral_key = e, co_our_signature = r, co_message = m, co_our_key = key\<rparr> (ss_committed S)\<rparr>"
    by (auto simp: get_commitment_def Committed_commit_def)
  with created_verifies [OF assms(1) x [unfolded sc']] aggsig_okD(2) [OF assms(1) ce] ce show ?thesis
    by (intro exI [of _ "\<lparr>co_ephemeral_key = e, co_our_signature = r, co_message = m, co_our_key = key\<rparr>"])
      (auto simp: promised_def)
qed

definition same_node :: "'d sign_world \<Rightarrow> 'd sign_world \<Rightarrow> bool" where
  "same_node w w' \<longleftrightarrow> sw_node w' = sw_node w"

interpretation node: state_order same_node
  by unfold_locales (auto simp: same_node_def)

lemma node_store: "h_keeps same_node (store_get X kind from n)" "h_keeps same_node (store_insert X kind v)"
  by (auto simp: h_keeps_def store_get_def store_insert_def same_node_def split: prod.split)

lemmas node_rules = node.keeps_return node.keeps_lift node.keeps_read node.keeps_bind node.keeps_try node.keeps_map_err node_store

lemma node_creds: "h_keeps same_node (get_or_generate_user_creds X k a)"
  unfolding get_or_generate_user_creds_def by (auto intro!: node_rules split: option.split prod.split)

lemma node_claims:
  "h_keeps same_node (claim_lookup X rq)" "h_keeps same_node (claim_record X dg)" "h_keeps same_node (check_claimed X dg)"
  unfolding claim_lookup_def claim_record_def check_claimed_def Let_def by (auto intro!: node_rules)

lemma keeps_node: "h_keeps same_node m \<Longrightarrow> m w = (w', r) \<Longrightarrow> sw_node w' = sw_node w"
  unfolding h_keeps_def same_node_def by (metis fst_conv)

text \<open>However a commitment was granted, the node that grants it has promised it.\<close>

definition waiting :: "aggsig_lib \<Rightarrow> 'd sign_world \<Rightarrow> SignedCommitment \<Rightarrow> Committed \<Rightarrow> 'd sign_world \<Rightarrow> bool" where
  "waiting L w sc c w' \<longleftrightarrow> promised L (node_pk w) sc c \<and>
     sw_node w' = (sw_node w)\<lparr>sn_signing_state := (sn_signing_state (sw_node w))
       \<lparr>ss_committed := hm_insert (sc_commitment sc) c (ss_committed (sn_signing_state (sw_node w)))\<rparr>\<rparr>"

lemma sign_commitment_waits:
  assumes "aggsig_ok (sl_aggsig X)" and "sign_commitment X inp key p w = (w', Done (Inr sc))"
  shows "\<exists>c. waiting (sl_aggsig X) w sc c w'"
proof -
  from assms(2) obtain S where
    "get_commitment (sl_aggsig X) key (sn_node_key (sw_node w)) p (si_rng inp) (sn_signing_state (sw_node w)) = Done (S, Inr sc)"
    "w' = w\<lparr>sw_node := (sw_node w)\<lparr>sn_signing_state := S\<rparr>\<rparr>"
    by (auto simp: sign_commitment_def split: exec.splits)
  with get_commitment_promises [OF assms(1)] show ?thesis by (fastforce simp: waiting_def node_pk_def)
qed

lemma waiting_same: "sw_node w1 = sw_node w \<Longrightarrow> waiting L w1 sc c w' \<Longrightarrow> waiting L w sc c w'"
  by (simp add: waiting_def node_pk_def)

lemma process_commit_waits:
  assumes "aggsig_ok (sl_aggsig X)" and "process_commit X inp rq w = (w', Done (Inr sc))"
  shows "\<exists>c. waiting (sl_aggsig X) w sc c w'"
proof (cases rq)
  case (ClaimOidc r)
  with assms(2) obtain dg is_new w1 w2 key p where
    "claim_lookup X r w = (w1, Done (Inr (dg, is_new)))"
    and rec: "(if is_new then claim_record X dg else h_return (Inr ())) w1 = (w2, Done (Inr ()))"
    and s: "sign_commitment X inp key p w2 = (w', Done (Inr sc))"
    by (auto simp: process_claim_def claim_commit_def h_try_Inr h_check_Inr)
  then have "sw_node w1 = sw_node w" by (auto intro: keeps_node [OF node_claims(1)])
  moreover from rec have "sw_node w2 = sw_node w1" by (cases is_new) (auto intro: keeps_node [OF node_claims(2)])
  ultimately show ?thesis using sign_commitment_waits [OF assms(1) s] waiting_same by metis
next
  case (SignShare r)
  with assms(2) obtain dg a w1 w2 c key p where
    "check_claimed X dg w = (w1, Done (Inr ()))" "get_or_generate_user_creds X (si_drawn inp) a w1 = (w2, Done (Inr c))"
    and s: "sign_commitment X inp key p w2 = (w', Done (Inr sc))"
    by (auto simp: process_sign_share_def h_try_Inr h_check_Inr h_map_err_Inr Let_def)
  then have "sw_node w2 = sw_node w" by (metis keeps_node node_claims(3) node_creds)
  with sign_commitment_waits [OF assms(1) s] waiting_same show ?thesis by metis
qed

lemma commit_endpoint_waits:
  assumes "aggsig_ok (sl_aggsig X)" and "commit_endpoint X inp rq w = (w', Done (status, Inr sc))"
  shows "\<exists>c. waiting (sl_aggsig X) w sc c w'"
proof -
  from assms(2) obtain r where "process_commit X inp rq w = (w', Done r)" "respond SignNodeError_code (sl_show_error X) r = (status, Inr sc)"
    by (cases "node_keys w") (auto simp: commit_endpoint_def when_ready_def check_if_ready_def case_unit_Unity h_bind_Done)
  moreover from this(2) have "r = Inr sc" by (cases r) (auto simp: respond_def)
  ultimately show ?thesis using process_commit_waits [OF assms(1)] by blast
qed

text \<open>The next two steps of a node that waits.\<close>

lemma reveal_follows:
  assumes "unat (ni_our_index info) = i" and "i < length cs" and "hm_get (ss_committed S) (sc_commitment (cs ! i)) = Some c"
    and "ni_nodes_public_keys info = Some ks" and "length ks = length cs"
    and "\<And>j. j < length cs \<Longrightarrow> SignedCommitment_verify L (cs ! j) (ks ! j) = Inr (sc_commitment (cs ! j), sc_signing_public_key (cs ! j))"
  shows "get_reveal L info cs S =
    (S\<lparr>ss_committed := hm_remove (sc_commitment (cs ! i)) (ss_committed S),
       ss_revealed := hm_insert (co_our_signature c)
         \<lparr>re_commitments = map sc_commitment cs, re_signing_public_keys = map sc_signing_public_key cs, re_committed = c\<rparr>
         (ss_revealed S)\<rparr>, Inr (co_our_signature c))"
proof -
  have "signed_by_every_node L info cs = Inr (map (\<lambda>x. (sc_commitment x, sc_signing_public_key x)) cs)"
    using assms(4-6) by (simp add: signed_by_every_node_Inr list_all2_conv_all_nth)
  with assms(1-3) show ?thesis
    by (simp add: get_reveal_def take_committed_def file_reveal_def Committed_reveal_def list_get_def o_def)
qed

text \<open>
  A node has filed its reveal for a round of reveals that open their commitments; the share it
  gives then is a signature of its message with its key under the aggregated key.
\<close>

definition filed :: "aggsig_lib \<Rightarrow> SignedCommitment list \<Rightarrow> Reveal list \<Rightarrow> Committed \<Rightarrow> SigningState \<Rightarrow> bool" where
  "filed L cs rs c S \<longleftrightarrow> length cs = length rs \<and> list_all (opens L) (zip (map sc_commitment cs) rs) \<and>
     hm_get (ss_revealed S) (co_our_signature c) =
       Some \<lparr>re_commitments = map sc_commitment cs, re_signing_public_keys = map sc_signing_public_key cs, re_committed = c\<rparr>"

definition share_of :: "aggsig_lib \<Rightarrow> EdPoint list \<Rightarrow> Reveal list \<Rightarrow> nat \<Rightarrow> Committed \<Rightarrow> eddsa_signature \<Rightarrow> bool" where
  "share_of L keys rs i c sig \<longleftrightarrow> (\<exists>ka. key_aggregation_n L keys i = Done ka \<and>
     sig = partial_sign L (co_ephemeral_key c) (co_our_key c) (ka_hash ka) (get_R_tot L (map rv_R rs)) (ka_apk ka) (co_message c))"

lemma share_follows:
  assumes "aggsig_ok L" and "unat (ni_our_index info) = i" and "i < length rs" and "rs ! i = co_our_signature c" and "filed L cs rs c S"
  shows "\<exists>S' sig. get_signature_share L info rs S = (S', Done (Inr sig)) \<and> share_of L (map sc_signing_public_key cs) rs i c sig"
proof -
  let ?v = "\<lparr>re_commitments = map sc_commitment cs, re_signing_public_keys = map sc_signing_public_key cs, re_committed = c\<rparr>"
  from assms(5) have v: "hm_get (ss_revealed S) (rs ! i) = Some ?v" "list_all (opens L) (zip (re_commitments ?v) rs)"
    "length cs = length rs" using assms(4) by (auto simp: filed_def)
  from aggsig_okD(3) [OF assms(1), of i "map sc_signing_public_key cs"] assms(3) v(3)
  obtain ka where "key_aggregation_n L (map sc_signing_public_key cs) i = Done ka" by auto
  with v(2) assms(2) have "\<exists>sig. Revealed_combine L ?v rs info = Done (Inr sig) \<and> share_of L (map sc_signing_public_key cs) rs i c sig"
    by (simp add: Revealed_combine_Inr check_reveals_Inr share_of_def)
  with assms(2,3) v(1) show ?thesis by (auto simp: get_signature_share_def take_revealed_def list_get_def)
qed

text \<open>The nodes know each other, and the leader lists them in the order of their indices.\<close>

definition ready_in_order :: "'d deployment \<Rightarrow> string list \<Rightarrow> bool" where
  "ready_in_order W us \<longleftrightarrow> distinct us \<and> us \<noteq> [] \<and> length us < 2 ^ 64 \<and>
     list_all (\<lambda>i. our_index (W (us ! i)) = of_nat i \<and> node_keys (W (us ! i)) = Some (map (\<lambda>u. node_pk (W u)) us)) [0..<length us]"

lemma ready_in_orderD:
  assumes "ready_in_order W us" and "i < length us"
  shows "unat (our_index (W (us ! i))) = i" and "node_keys (W (us ! i)) = Some (map (\<lambda>u. node_pk (W u)) us)"
    and "check_if_ready (W (us ! i)) = Inr ()"
proof -
  from assms have "our_index (W (us ! i)) = of_nat i" and k: "node_keys (W (us ! i)) = Some (map (\<lambda>u. node_pk (W u)) us)"
    and "i < 2 ^ 64" by (auto simp: ready_in_order_def list_all_iff)
  then show "unat (our_index (W (us ! i))) = i" by (simp add: unsigned_of_nat take_bit_nat_eq_self)
  from k show "node_keys (W (us ! i)) = Some (map (\<lambda>u. node_pk (W u)) us)" "check_if_ready (W (us ! i)) = Inr ()"
    by (simp_all add: check_if_ready_def)
qed

lemma round_commits:
  assumes "aggsig_ok (sl_aggsig X)" and "distinct us"
    and "call_all_nodes (on_node (\<lambda>n. commit_endpoint X (inp n) rq)) us W = (W1, Done (Inr cs))"
  obtains c where "length cs = length us" and "\<And>i. i < length us \<Longrightarrow> waiting (sl_aggsig X) (W (us ! i)) (cs ! i) (c i) (W1 (us ! i))"
proof -
  note c1 = call_all_nodes_Inr [OF assms(2,3)]
  have "\<exists>c. waiting (sl_aggsig X) (W (us ! i)) (cs ! i) c (W1 (us ! i))" if i: "i < length us" for i
  proof -
    from c1(3) [OF i] obtain status where
      "commit_endpoint X (inp (us ! i)) rq (W (us ! i)) = (W1 (us ! i), Done (status, Inr (cs ! i)))"
      using i by (auto simp: c1(1) prod_eq_iff)
    from commit_endpoint_waits [OF assms(1) this] show ?thesis .
  qed
  with c1(2) that show ?thesis by metis
qed

lemma waiting_reveals:
  assumes ready: "ready_in_order W us" and i: "i < length us" and cs: "length cs = length us"
    and w: "\<And>i. i < length us \<Longrightarrow> waiting (sl_aggsig X) (W (us ! i)) (cs ! i) (c i) (W1 (us ! i))"
  shows "\<exists>S'. reveal_endpoint X cs (W1 (us ! i)) =
      ((W1 (us ! i))\<lparr>sw_node := (sw_node (W1 (us ! i)))\<lparr>sn_signing_state := S'\<rparr>\<rparr>, Done (200, Inr (co_our_signature (c i)))) \<and>
      filed (sl_aggsig X) cs (map (\<lambda>i. co_our_signature (c i)) [0..<length us]) (c i) S'"
proof -
  let ?L = "sl_aggsig X" and ?w = "W1 (us ! i)"
  let ?v = "\<lparr>re_commitments = map sc_commitment cs, re_signing_public_keys = map sc_signing_public_key cs, re_committed = c i\<rparr>"
  note d = ready_in_orderD [OF ready i]
  have verify: "SignedCommitment_verify ?L (cs ! j) (map (\<lambda>u. node_pk (W u)) us ! j) =
      Inr (sc_commitment (cs ! j), sc_signing_public_key (cs ! j))" if "j < length us" for j
    using w [OF that] that by (simp add: waiting_def promised_def)
  have opened: "list_all (opens ?L) (zip (re_commitments ?v) (map (\<lambda>i. co_our_signature (c i)) [0..<length us]))"
    using w cs by (auto simp: list_all_length waiting_def promised_def)
  from w [OF i] have info: "sn_node_info (sw_node ?w) = sn_node_info (sw_node (W (us ! i)))"
    and com: "hm_get (ss_committed (sn_signing_state (sw_node ?w))) (sc_commitment (cs ! i)) = Some (c i)"
    by (simp_all add: waiting_def hm_get_insert)
  have "get_reveal ?L (sn_node_info (sw_node ?w)) cs (sn_signing_state (sw_node ?w)) =
    ((sn_signing_state (sw_node ?w))\<lparr>ss_committed := hm_remove (sc_commitment (cs ! i)) (ss_committed (sn_signing_state (sw_node ?w))),
       ss_revealed := hm_insert (co_our_signature (c i)) ?v (ss_revealed (sn_signing_state (sw_node ?w)))\<rparr>, Inr (co_our_signature (c i)))"
    by (rule reveal_follows [where ks = "map (\<lambda>u. node_pk (W u)) us"]) (use i d com info verify cs in simp_all)
  with d(3) info i opened cs show ?thesis
    by (auto simp: reveal_endpoint_def when_ready_def check_if_ready_def respond_def filed_def hm_get_insert case_unit_Unity)
qed

lemma round_reveals:
  assumes L: "aggsig_ok (sl_aggsig X)" and ready: "ready_in_order W us"
    and commits: "call_all_nodes (on_node (\<lambda>n. commit_endpoint X (inp n) rq)) us W = (W1, Done (Inr cs))"
  obtains c W2 rs where "call_all_nodes (on_node (\<lambda>_. reveal_endpoint X cs)) us W1 = (W2, Done (Inr rs))"
    and "length cs = length us" and "rs = map (\<lambda>i. co_our_signature (c i)) [0..<length us]"
    and "\<And>i. i < length us \<Longrightarrow> waiting (sl_aggsig X) (W (us ! i)) (cs ! i) (c i) (W1 (us ! i)) \<and>
      sn_node_info (sw_node (W2 (us ! i))) = sn_node_info (sw_node (W (us ! i))) \<and>
      filed (sl_aggsig X) cs rs (c i) (sn_signing_state (sw_node (W2 (us ! i))))"
proof -
  have us: "distinct us" using ready by (simp add: ready_in_order_def)
  obtain c where cs: "length cs = length us"
    and w: "\<And>i. i < length us \<Longrightarrow> waiting (sl_aggsig X) (W (us ! i)) (cs ! i) (c i) (W1 (us ! i))"
    using round_commits [OF L us commits] by blast
  let ?rs = "map (\<lambda>i. co_our_signature (c i)) [0..<length us]"
  let ?W2 = "\<lambda>u. if u \<in> set us then fst (reveal_endpoint X cs (W1 u)) else W1 u"
  note r = waiting_reveals [OF ready _ cs w]
  have "call_all_nodes (on_node (\<lambda>_. reveal_endpoint X cs)) us W1 = (?W2, Done (Inr ?rs))"
    by (rule call_all_nodes_answers [OF us]) (use r in fastforce)+
  moreover have "sn_node_info (sw_node (?W2 (us ! i))) = sn_node_info (sw_node (W (us ! i))) \<and>
      filed (sl_aggsig X) cs ?rs (c i) (sn_signing_state (sw_node (?W2 (us ! i))))" if "i < length us" for i
    using r [OF that] w [OF that] that by (auto simp: waiting_def)
  ultimately show ?thesis using that [of ?W2 ?rs c] cs w by blast
qed

text \<open>The whole round: what the nodes committed to is what the leader combines.\<close>

lemma round_signs:
  assumes L: "aggsig_ok (sl_aggsig X)" and ready: "ready_in_order W us"
    and commits: "call_all_nodes (on_node (\<lambda>n. commit_endpoint X (inp n) rq)) us W = (W1, Done (Inr cs))"
  obtains c W' sig sigs raw where "sign_payload_with_mpc (deployed X inp Z) us rq W = (W', Done (Inr sig))"
    and "length cs = length us" and "\<And>i. i < length us \<Longrightarrow> waiting (sl_aggsig X) (W (us ! i)) (cs ! i) (c i) (W1 (us ! i))"
    and "length sigs = length us"
    and "\<And>i. i < length us \<Longrightarrow> share_of (sl_aggsig X) (map sc_signing_public_key cs)
      (map (\<lambda>i. co_our_signature (c i)) [0..<length us]) i (c i) (sigs ! i)"
    and "add_signature_parts (sl_aggsig X) sigs = Done raw" and "to_dalek_signature (sl_aggsig X) raw = Done (Inr sig)"
proof -
  have us: "distinct us" "us \<noteq> []" using ready by (auto simp: ready_in_order_def)
  obtain c W2 rs where reveals: "call_all_nodes (on_node (\<lambda>_. reveal_endpoint X cs)) us W1 = (W2, Done (Inr rs))"
    and cs: "length cs = length us" and rs: "rs = map (\<lambda>i. co_our_signature (c i)) [0..<length us]"
    and w2: "\<And>i. i < length us \<Longrightarrow> waiting (sl_aggsig X) (W (us ! i)) (cs ! i) (c i) (W1 (us ! i)) \<and>
      sn_node_info (sw_node (W2 (us ! i))) = sn_node_info (sw_node (W (us ! i))) \<and>
      filed (sl_aggsig X) cs rs (c i) (sn_signing_state (sw_node (W2 (us ! i))))"
    by (rule round_reveals [OF L ready commits]) (rule that, assumption+)
  have "\<exists>sig. snd (signature_share_endpoint X rs (W2 (us ! i))) = Done (200, Inr sig) \<and>
      share_of (sl_aggsig X) (map sc_signing_public_key cs) rs i (c i) sig" if i: "i < length us" for i
  proof -
    note d = ready_in_orderD [OF ready i]
    from share_follows [OF L, of "sn_node_info (sw_node (W2 (us ! i)))" i rs "c i" cs "sn_signing_state (sw_node (W2 (us ! i)))"]
      d w2 [OF i] i rs
    obtain S' sig where "get_signature_share (sl_aggsig X) (sn_node_info (sw_node (W2 (us ! i)))) rs
        (sn_signing_state (sw_node (W2 (us ! i)))) = (S', Done (Inr sig))"
      "share_of (sl_aggsig X) (map sc_signing_public_key cs) rs i (c i) sig" by auto
    with d(3) w2 [OF i] show ?thesis
      by (simp add: signature_share_endpoint_def when_ready_def check_if_ready_def respond_def case_unit_Unity)
  qed
  then obtain sg where sg: "\<And>i. i < length us \<Longrightarrow> snd (signature_share_endpoint X rs (W2 (us ! i))) = Done (200, Inr (sg i)) \<and>
      share_of (sl_aggsig X) (map sc_signing_public_key cs) rs i (c i) (sg i)" by metis
  let ?sigs = "map sg [0..<length us]"
  have shares: "call_all_nodes (on_node (\<lambda>_. signature_share_endpoint X rs)) us W2 =
      (\<lambda>u. if u \<in> set us then fst (signature_share_endpoint X rs (W2 u)) else W2 u, Done (Inr ?sigs))"
    by (rule call_all_nodes_answers [OF us(1)]) (use sg in auto)
  obtain raw d where raw: "add_signature_parts (sl_aggsig X) ?sigs = Done raw" "to_dalek_signature (sl_aggsig X) raw = Done (Inr d)"
    using aggsig_okD(4) [OF L, of ?sigs] us(2) by auto
  have "\<exists>W'. sign_payload_with_mpc (deployed X inp Z) us rq W = (W', Done (Inr d))"
    using commits reveals shares raw by (simp add: sign_payload_with_mpc_def h_try_def h_bind_def h_map_err_def)
  then obtain W' where "sign_payload_with_mpc (deployed X inp Z) us rq W = (W', Done (Inr d))" ..
  from this cs show ?thesis
    by (rule that [where c = c and sigs = ?sigs and raw = raw]) (use w2 sg raw rs in simp_all)
qed

lemma start_effect:
  assumes "numbered W (ls_sign_nodes st)" and "dur 0 \<le> 60000"
    and "\<And>u. u \<in> set (ls_sign_nodes st) \<Longrightarrow> node_keys (W u) = None \<or> node_keys (W u) = Some (keys_in_order W (ls_sign_nodes st))"
  shows "\<exists>W'. leader_start (deployed X inp Z) dur st W = (W', Done True) \<and>
    (\<forall>u \<in> set (ls_sign_nodes st). node_keys (W' u) = Some (keys_in_order W (ls_sign_nodes st)) \<and>
       our_index (W' u) = our_index (W u) \<and> node_pk (W' u) = node_pk (W u) \<and> (node_keys (W u) \<noteq> None \<longrightarrow> W' u = W u))"
proof -
  let ?us = "ls_sign_nodes st" and ?ks = "keys_in_order W (ls_sign_nodes st)"
  have us: "distinct ?us" using assms(1) by (simp add: numbered_def)
  let ?W' = "\<lambda>u. if u \<in> set ?us then fst (accept_pk_set X ?ks (W u)) else W u"
  have "fst (broadcast_pk_set (deployed X inp Z) st ?ks W) = ?W'" "\<exists>r. snd (broadcast_pk_set (deployed X inp Z) st ?ks W) = Done r"
    by (simp_all add: broadcast_pk_set_def call_all_nodes_def call_each_nodes [OF us])
  then have "leader_start (deployed X inp Z) dur st W = (?W', Done True)"
    by (auto simp: leader_start_def h_bind_def gather_finds_keys [where dur = dur, OF us assms(2)] split: prod.split exec.split)
  moreover have "node_keys (?W' u) = Some ?ks \<and> our_index (?W' u) = our_index (W u) \<and> node_pk (?W' u) = node_pk (W u) \<and>
      (node_keys (W u) \<noteq> None \<longrightarrow> ?W' u = W u)" if u: "u \<in> set ?us" for u
    using accept_sets [OF numbered_get [OF assms(1) u] assms(3) [OF u], of X] accept_keys [of X ?ks "W u"] u
    by (auto simp: same_info_def node_pk_def)
  ultimately show ?thesis by blast
qed

lemma numbered_in_order:
  assumes "distinct us" and "length us < 2 ^ 64" and "map (\<lambda>u. our_index (W u)) us = map of_nat [0..<length us]"
  shows "numbered W us" and "keys_in_order W us = map (\<lambda>u. node_pk (W u)) us"
proof -
  have "sorted (map of_nat [0..<length us] :: u64 list)"
    unfolding sorted_iff_nth_mono
  proof (intro allI impI)
    fix i j assume ij: "i \<le> j" "j < length (map of_nat [0..<length us] :: u64 list)"
    then have "i < 2 ^ 64" "j < 2 ^ 64" using assms(2) by auto
    with ij show "(map of_nat [0..<length us] :: u64 list) ! i \<le> map of_nat [0..<length us] ! j"
      by (simp add: word_le_nat_alt unsigned_of_nat take_bit_nat_eq_self)
  qed
  with assms(3) have s: "sorted (map (\<lambda>u. our_index (W u)) us)" by simp
  then show "numbered W us" using assms by (simp add: numbered_def sorted_sort_id)
  from s show "keys_in_order W us = map (\<lambda>u. node_pk (W u)) us"
    by (simp add: keys_in_order_def sort_key_id_if_sorted)
qed

text \<open>Nodes that the leader lists in the order of their indices are ready after its start.\<close>

lemma start_ready:
  assumes "distinct (ls_sign_nodes st)" and "ls_sign_nodes st \<noteq> []" and "length (ls_sign_nodes st) < 2 ^ 64"
    and "map (\<lambda>u. our_index (W u)) (ls_sign_nodes st) = map of_nat [0..<length (ls_sign_nodes st)]"
    and "\<And>u. u \<in> set (ls_sign_nodes st) \<Longrightarrow>
      node_keys (W u) = None \<or> node_keys (W u) = Some (map (\<lambda>u. node_pk (W u)) (ls_sign_nodes st))" and "dur 0 \<le> 60000"
  shows "\<exists>W0. leader_start (deployed X inp Z) dur st W = (W0, Done True) \<and> ready_in_order W0 (ls_sign_nodes st) \<and>
    map (\<lambda>u. node_pk (W0 u)) (ls_sign_nodes st) = map (\<lambda>u. node_pk (W u)) (ls_sign_nodes st)"
proof -
  let ?us = "ls_sign_nodes st"
  note o = numbered_in_order [OF assms(1,3,4)]
  from start_effect [where dur = dur and X = X and inp = inp and Z = Z, OF o(1) assms(6)] assms(5) obtain W0 where
    W0: "leader_start (deployed X inp Z) dur st W = (W0, Done True)"
    and w: "\<forall>u \<in> set ?us. node_keys (W0 u) = Some (map (\<lambda>u. node_pk (W u)) ?us) \<and>
      our_index (W0 u) = our_index (W u) \<and> node_pk (W0 u) = node_pk (W u)" by (auto simp: o(2))
  then have pks: "map (\<lambda>u. node_pk (W0 u)) ?us = map (\<lambda>u. node_pk (W u)) ?us" by simp
  have "our_index (W0 (?us ! i)) = of_nat i" if "i < length ?us" for i
  proof -
    have "map (\<lambda>u. our_index (W u)) ?us ! i = map of_nat [0..<length ?us] ! i" by (simp only: assms(4))
    with that w show ?thesis by simp
  qed
  with pks w assms(1-3) have "ready_in_order W0 ?us" by (simp add: ready_in_order_def list_all_iff)
  with W0 pks show ?thesis by blast
qed

section \<open>Examples\<close>

text \<open>Two nodes, listed in the other order, and one node that grants a claim.\<close>

definition ex_fresh :: "u64 \<Rightarrow> EdPoint \<Rightarrow> ex_store sign_world" where
  "ex_fresh i k = \<lparr>sw_node = ex_node\<lparr>sn_node_key := \<lparr>kp_public_key = k, kp_secret = [4]\<rparr>, sn_node_info := NodeInfo_new i None\<rparr>,
     sw_store = []\<rparr>"

definition ex_pair :: "ex_store deployment" where
  "ex_pair u = (if u = ''a'' then ex_fresh 1 [5] else ex_fresh 0 [3])"

definition ex_single :: "ex_store deployment" where
  "ex_single u = ex_world"

definition ex_leader_over :: "'d deployment leader_lib" where
  "ex_leader_over = \<lparr>
     ll_commit = (\<lambda>_ _ s. (s, NetworkError None)), ll_reveal = (\<lambda>_ _ s. (s, NetworkError None)),
     ll_signature_share = (\<lambda>_ _ s. (s, NetworkError None)), ll_public_key = (\<lambda>_ _ s. (s, NetworkError None)),
     ll_public_key_node = (\<lambda>_ s. (s, NetworkError None)), ll_accept_pk_set = (\<lambda>_ _ s. (s, NetworkError None)),
     ll_jwt_keys = (\<lambda>_. Inr [''k'']), ll_signer = (\<lambda>s. (s, \<lparr>ims_account_id = ''c'', ims_public_key = ED25519 [9], ims_secret_key = []\<rparr>)),
     ll_relayer = \<lparr>fetch_nonce = (\<lambda>_ _ s. (s, Inr (1, [], 10))), invalidate_cache = (\<lambda>_ s. s),
       build_request = (\<lambda>_ _ b. Inr b), http_send = (\<lambda>_ s. (s, Inr (200, Inr []))), from_utf8 = (\<lambda>_. Inr []),
       json_register = (\<lambda>_. Inr []), json_atomic = (\<lambda>_. Inr []), json_meta_tx = (\<lambda>_. Inr []),
       parse_meta_tx = (\<lambda>_. Inl ''none''), debug_relayer_error = (\<lambda>_. [])\<rparr>,
     ll_digest = ex_digest32, ll_jwt = ex_jwt, ll_aggsig = ex_aggsig,
     ll_delegate_action = (\<lambda>_. Inr ex_action), ll_json_args = (\<lambda>_ _. []),
     ll_sign_action = (\<lambda>_ _. NSigEd25519 []), ll_show_error = (\<lambda>_. []), ll_show_aggregate = (\<lambda>_. [])\<rparr>"

definition ex_two :: LeaderState where
  "ex_two = ex_lstate\<lparr>ls_sign_nodes := [''a'', ''b'']\<rparr>"

lemma ex_fresh_simps [simp]: "our_index (ex_fresh i k) = i" "node_pk (ex_fresh i k) = k" "node_keys (ex_fresh i k) = None"
  by (simp_all add: ex_fresh_def NodeInfo_new_def node_pk_def)

lemma ex_tag_key: "ex_tag m (take 32 (p @ replicate 32 0)) = ex_tag m p"
  by (auto simp: ex_tag_def min_def)

lemma ex_aggsig_ok: "aggsig_ok ex_aggsig"
  unfolding aggsig_ok_def
  by (simp add: ex_lengths32 ex_aggsig_def to_dalek_signature_def to_dalek_public_key_def opens_def ex_tag_key
      del: length_take take_append)

lemma ex_commits:
  assumes "node_keys w = Some ks" and "sn_gcp_service (sw_node w) = ex_service" and "sw_store w = []"
  shows "\<exists>w' sc. commit_endpoint ex_libs ex_inputs (ClaimOidc ex_claim) w = (w', Done (200, Inr sc))"
proof -
  let ?dg = "\<lparr>od_node_id = our_index w, od_digest = conr_oidc_token_hash ex_claim, od_public_key = ED25519 [8]\<rparr>"
  obtain d where "claim_oidc_request_digest ex_digest32 (conr_oidc_token_hash ex_claim) (ED25519 [8]) = Inr d"
    using ex_digest32_simps(2) by blast
  with assms have l: "claim_lookup ex_libs ex_claim w = (w, Done (Inr (?dg, True)))"
    by (simp add: claim_lookup_def check_digest_signature_def ex_digest32_simps(1) ex_claim_def
        store_get_def h_bind_def h_read_def Let_def ex_get_none)
  obtain ps where "OidcDigest_into_value ex_codec ?dg = EntityValue (named_key OidcDigest_kind (OidcDigest_to_name ex_codec ?dg)) ps"
    by (simp add: OidcDigest_into_value_def)
  with ex_insert [of "[]" ex_service OidcDigest_kind "OidcDigest_to_name ex_codec ?dg" ps] assms
  obtain w1 where r: "claim_record ex_libs ?dg w = (w1, Done (Inr ()))"
    by (auto simp: claim_record_def h_map_err_def store_insert_def h_bind_def)
  obtain p where p: "claim_oidc_response_digest ex_digest32 (conr_signature ex_claim) = Inr p" using ex_digest32_simps(3) by blast
  obtain S sc where "get_commitment ex_aggsig (sn_node_key (sw_node w1)) (sn_node_key (sw_node w1)) p (si_rng ex_inputs)
      (sn_signing_state (sw_node w1)) = Done (S, Inr sc)" using ex_commitment by blast
  with p have "\<exists>w'. claim_commit ex_libs ex_inputs ex_claim w1 = (w', Done (Inr sc))"
    by (simp add: claim_commit_def h_bind_def h_read_def sign_commitment_def)
  with l r have "\<exists>w'. process_commit ex_libs ex_inputs (ClaimOidc ex_claim) w = (w', Done (Inr sc))"
    by (auto simp: process_claim_def h_try_def h_bind_def)
  with assms(1) show ?thesis
    by (auto simp: commit_endpoint_def when_ready_def check_if_ready_def h_bind_def respond_def case_unit_Unity)
qed

section \<open>Properties\<close>

text \<open>
  The leader makes its nodes ready. If the urls name the nodes \<open>0\<close> to \<open>n - 1\<close>, in whatever
  order, none of them holds another set of keys, and the first round of answers is there
  within the minute, then the leader starts, and every node knows all the keys, each at the
  index of its node; a datastore that fails does not change that.
\<close>

theorem leader_start_readies_nodes:
  assumes "numbered W (ls_sign_nodes st)" and "dur 0 \<le> 60000"
    and "\<And>u. u \<in> set (ls_sign_nodes st) \<Longrightarrow> node_keys (W u) = None \<or> node_keys (W u) = Some (keys_in_order W (ls_sign_nodes st))"
  shows "\<exists>W'. leader_start (deployed X inp Z) dur st W = (W', Done True) \<and>
    (\<forall>u \<in> set (ls_sign_nodes st). node_keys (W' u) = Some (keys_in_order W (ls_sign_nodes st)) \<and>
       list_get (keys_in_order W (ls_sign_nodes st)) (our_index (W u)) = Some (node_pk (W u)))"
  using start_effect [where dur = dur and X = X and inp = inp and Z = Z, OF assms] numbered_get [OF assms(1)] by blast

theorem leader_start_readies_nodes_witness:
  "\<exists>W'. leader_start (deployed ex_libs (\<lambda>_. ex_inputs) ex_leader_over) (\<lambda>_. 10) ex_two ex_pair = (W', Done True) \<and>
     node_keys (W' ''a'') = Some [[3], [5]] \<and> node_keys (W' ''b'') = Some [[3], [5]]"
proof -
  have n: "numbered ex_pair (ls_sign_nodes ex_two)" "keys_in_order ex_pair (ls_sign_nodes ex_two) = [[3], [5]]"
    by (simp_all add: numbered_def ex_two_def ex_pair_def keys_in_order_def upt_rec)
  have "node_keys (ex_pair u) = None" for u by (simp add: ex_pair_def)
  then have "\<exists>W'. leader_start (deployed ex_libs (\<lambda>_. ex_inputs) ex_leader_over) (\<lambda>_. 10) ex_two ex_pair = (W', Done True) \<and>
    (\<forall>u \<in> set (ls_sign_nodes ex_two). node_keys (W' u) = Some [[3], [5]])"
    using leader_start_readies_nodes [OF n(1), of "\<lambda>_. 10" ex_libs "\<lambda>_. ex_inputs" ex_leader_over] by (auto simp: n(2))
  then show ?thesis by (auto simp: ex_two_def)
qed



end
