(* ===== verification/Recovery_Signatures.thy ===== *)
theory Recovery_Signatures
  imports Recovery_System
begin

text \<open>
  What the signatures of the recovery service are good for: a signature the leader gives out
  for a user verifies under the recovery key it has reported for this user, whatever the sign
  nodes did in between. The nodes keep the key pair they reported, and each signs with it.
\<close>

section \<open>The aggregated signature\<close>

text \<open>
  Assumed of the crate for aggregated signatures: when every party draws its ephemeral key for
  the message and signs under the sum of the reveals and the aggregated key, the sum of
  the parts is a signature of the message under the aggregated key.
\<close>

definition part_of :: "aggsig_lib \<Rightarrow> bytes \<Rightarrow> (ExpandedKeyPair \<times> bytes) list \<Rightarrow> nat \<Rightarrow> eddsa_signature \<Rightarrow> bool" where
  "part_of L m kgs i sig \<longleftrightarrow>
     (\<exists>ka. key_aggregation_n L (map (kp_public_key \<circ> fst) kgs) i = Done ka \<and>
        sig = partial_sign L (fst (create_ephemeral L (fst (kgs ! i)) m (snd (kgs ! i)))) (fst (kgs ! i)) (ka_hash ka)
          (get_R_tot L (map (\<lambda>(k, g). rv_R (snd (snd (create_ephemeral L k m g)))) kgs)) (ka_apk ka) m)"

definition aggsig_sound :: "aggsig_lib \<Rightarrow> bool" where
  "aggsig_sound L \<longleftrightarrow>
     (\<forall>m kgs sigs raw sig ka pk. kgs \<noteq> [] \<and> length sigs = length kgs \<and>
        (\<forall>i. i < length kgs \<longrightarrow> part_of L m kgs i (sigs ! i)) \<and>
        add_signature_parts L sigs = Done raw \<and> to_dalek_signature L raw = Done (Inr sig) \<and>
        key_aggregation_n L (map (kp_public_key \<circ> fst) kgs) 0 = Done ka \<and> to_dalek_public_key L (ka_apk ka) = Inr pk \<longrightarrow>
        dalek_verify L pk m sig = Inr ())"

lemma aggsig_soundD:
  assumes "aggsig_sound L" and "kgs \<noteq> []" and "length sigs = length kgs"
    and "\<And>i. i < length kgs \<Longrightarrow> part_of L m kgs i (sigs ! i)"
    and "add_signature_parts L sigs = Done raw" and "to_dalek_signature L raw = Done (Inr sig)"
    and "key_aggregation_n L (map (kp_public_key \<circ> fst) kgs) 0 = Done ka" and "to_dalek_public_key L (ka_apk ka) = Inr pk"
  shows "dalek_verify L pk m sig = Inr ()"
  using assms unfolding aggsig_sound_def by blast

text \<open>A round in which every node committed to the same message.\<close>

lemma round_verifies:
  assumes ok: "aggsig_ok (sl_aggsig X)" "aggsig_sound (sl_aggsig X)" and ready: "ready_in_order W us"
    and commits: "call_all_nodes (on_node (\<lambda>n. commit_endpoint X (inp n) rq)) us W = (W1, Done (Inr cs))"
    and sig: "sign_payload_with_mpc (deployed X inp Z) us rq W = (W', Done (Inr sig))"
  obtains c where "length cs = length us"
    and "\<And>i. i < length us \<Longrightarrow> waiting (sl_aggsig X) (W (us ! i)) (cs ! i) (c i) (W1 (us ! i))"
    and "\<forall>m ka pk. (\<forall>i < length us. co_message (c i) = m) \<longrightarrow>
      key_aggregation_n (sl_aggsig X) (map sc_signing_public_key cs) 0 = Done ka \<longrightarrow>
      to_dalek_public_key (sl_aggsig X) (ka_apk ka) = Inr pk \<longrightarrow> dalek_verify (sl_aggsig X) pk m sig = Inr ()"
proof -
  let ?L = "sl_aggsig X"
  obtain c sigs raw where cs: "length cs = length us"
    and w: "\<And>i. i < length us \<Longrightarrow> waiting ?L (W (us ! i)) (cs ! i) (c i) (W1 (us ! i))"
    and sigs: "length sigs = length us"
    and share: "\<And>i. i < length us \<Longrightarrow> share_of ?L (map sc_signing_public_key cs)
      (map (\<lambda>i. co_our_signature (c i)) [0..<length us]) i (c i) (sigs ! i)"
    and raw: "add_signature_parts ?L sigs = Done raw" "to_dalek_signature ?L raw = Done (Inr sig)"
    by (rule round_signs [OF ok(1) ready commits, of Z]) (use sig in auto)
  have "dalek_verify ?L pk m sig = Inr ()"
    if m: "\<And>i. i < length us \<Longrightarrow> co_message (c i) = m" and ka: "key_aggregation_n ?L (map sc_signing_public_key cs) 0 = Done ka"
      and pk: "to_dalek_public_key ?L (ka_apk ka) = Inr pk" for m ka pk
  proof -
    define drew where "drew i g \<longleftrightarrow>
        create_ephemeral ?L (co_our_key (c i)) m g = (co_ephemeral_key (c i), sc_commitment (cs ! i), co_our_signature (c i))" for i g
    have "\<exists>g. drew i g" if "i < length us" for i
      using w [OF that] m [OF that] by (auto simp: waiting_def promised_def drew_def)
    then obtain g where "\<And>i. i < length us \<Longrightarrow> drew i (g i)" by metis
    moreover have "sc_signing_public_key (cs ! i) = kp_public_key (co_our_key (c i))" if "i < length us" for i
      using w [OF that] by (simp add: waiting_def promised_def)
    ultimately have g: "create_ephemeral ?L (co_our_key (c i)) m (g i) =
        (co_ephemeral_key (c i), sc_commitment (cs ! i), co_our_signature (c i)) \<and>
        sc_signing_public_key (cs ! i) = kp_public_key (co_our_key (c i))" if "i < length us" for i
      using that unfolding drew_def by blast
    let ?kgs = "map (\<lambda>i. (co_our_key (c i), g i)) [0..<length us]"
    have keys: "map (kp_public_key \<circ> fst) ?kgs = map sc_signing_public_key cs"
      by (rule nth_equalityI) (use g cs in simp_all)
    have R: "map (\<lambda>(k, g). rv_R (snd (snd (create_ephemeral ?L k m g)))) ?kgs =
        map rv_R (map (\<lambda>i. co_our_signature (c i)) [0..<length us])"
      by (rule nth_equalityI) (use g in simp_all)
    have "part_of ?L m ?kgs i (sigs ! i)" if "i < length us" for i
      using share [OF that] g [OF that] m [OF that] that unfolding part_of_def keys R share_of_def by simp
    then show ?thesis
      using aggsig_soundD [OF ok(2), of ?kgs sigs m raw sig ka pk] sigs raw ka pk keys ready
      by (simp add: ready_in_order_def)
  qed
  with cs w that show ?thesis by blast
qed

section \<open>The key pairs of the users\<close>

context stored_entity
begin

lemma insert_elsewhere:
  assumes "datastore_ok G S view" and "gcp_insert G S kind (into_value x) d = (d', r)" and "(k, n) \<noteq> (env_kind S kind, name x)"
  shows "view d' (k, n) = view d (k, n)"
proof -
  obtain vs where vs: "into_value x = EntityValue (named_key kind (name x)) vs" using into_form by blast
  obtain ps where "Entity_from_value (into_value x) = Inr (Some (named_key kind (name x)), Some ps)"
    using Entity_round_trip [of "named_key kind (name x)" vs] unfolding vs by blast
  with assms(2) have "ds_commit G (gcp_project S) (MInsert (Some (named_key (env_kind S kind) (name x)), Some ps)) d = (d', r)"
    by (simp add: gcp_insert_def gcp_commit_def suffix_kind_def named_key_def)
  from datastore_insert [OF assms(1) this] assms(3) show ?thesis by auto
qed

end

text \<open>The credentials a node stores can be read, and are those of the public keys they name.\<close>

definition has_key :: "'d sign_libs \<Rightarrow> 'd sign_world \<Rightarrow> EncryptedUserCredentials \<Rightarrow> bool" where
  "has_key X w c \<longleftrightarrow>
     (\<exists>key. decrypt_key_pair (sl_cipher X) c (sn_cipher (sw_node w)) = Done (Inr key) \<and> kp_public_key key = euc_public_key c)"

definition creds_ok :: "('d \<Rightarrow> string \<times> string \<Rightarrow> Entity option) \<Rightarrow> 'd sign_libs \<Rightarrow> 'd sign_world \<Rightarrow> bool" where
  "creds_ok view X w \<longleftrightarrow>
     (\<forall>a. view (sw_store w) (env_kind (sn_gcp_service (sw_node w)) EncryptedUserCredentials_kind,
             credentials_name (our_index w) a) = None \<or>
        (\<exists>c. user_held view X w a c \<and> has_key X w c))"

lemma creds_okD: "creds_ok view X w \<Longrightarrow> user_held view X w a c \<Longrightarrow> has_key X w c"
proof -
  assume ok: "creds_ok view X w" and held: "user_held view X w a c"
  have "view (sw_store w) (env_kind (sn_gcp_service (sw_node w)) EncryptedUserCredentials_kind,
      credentials_name (our_index w) a) \<noteq> None" using held by (auto simp: user_held_def store_holds_def)
  with ok obtain c' where "user_held view X w a c'" "has_key X w c'" unfolding creds_ok_def by metis
  with user_held_unique [OF held] show ?thesis by metis
qed

text \<open>Whatever a node serves: it stays the same node, keeps what is stored and what it knows.\<close>

definition advances :: "('d \<Rightarrow> string \<times> string \<Rightarrow> Entity option) \<Rightarrow> 'd sign_libs \<Rightarrow> 'd sign_world \<Rightarrow> 'd sign_world \<Rightarrow> bool" where
  "advances view X w w' \<longleftrightarrow> extends view w w' \<and> keys_kept w w' \<and> (creds_ok view X w \<longrightarrow> creds_ok view X w')"

interpretation adv: state_order "advances view X"
  by unfold_locales (auto simp: advances_def keys_kept_def intro: ext.ord_refl ext.ord_trans)

lemma same_users_advances:
  assumes "extends view w w'" and "keys_kept w w'"
    and "\<And>n. view (sw_store w') (env_kind (sn_gcp_service (sw_node w)) EncryptedUserCredentials_kind, n) =
      view (sw_store w) (env_kind (sn_gcp_service (sw_node w)) EncryptedUserCredentials_kind, n)"
  shows "advances view X w w'"
proof -
  have "user_held view X w' a c \<longleftrightarrow> user_held view X w a c" for a c
    using assms(1,3) by (simp add: user_held_def store_holds_def extends_def)
  moreover have "has_key X w' c \<longleftrightarrow> has_key X w c" for c using assms(1) by (simp add: has_key_def extends_def)
  ultimately have "creds_ok view X w' \<longleftrightarrow> creds_ok view X w" using assms(1,3) by (simp add: creds_ok_def extends_def)
  with assms(1,2) show ?thesis by (simp add: advances_def)
qed

lemma memory_advances:
  assumes "sw_store w' = sw_store w" and "sn_gcp_service (sw_node w') = sn_gcp_service (sw_node w)"
    and "sn_node_key (sw_node w') = sn_node_key (sw_node w)" and "sn_cipher (sw_node w') = sn_cipher (sw_node w)" and "keys_kept w w'"
  shows "advances view X w w'"
  by (rule same_users_advances) (use assms in \<open>simp_all add: extends_def keys_kept_def\<close>)

lemma adv_get: "h_keeps (advances view X) (store_get X kind from n)"
  by (simp add: h_keeps_def store_get_def adv.ord_refl)

lemma kinds_apart:
  "env_kind S EncryptedUserCredentials_kind \<noteq> env_kind S OidcDigest_kind"
  "env_kind S EncryptedUserCredentials_kind \<noteq> env_kind S SignerNodePkSet_kind"
  by (simp_all add: env_kind_def EncryptedUserCredentials_kind_def OidcDigest_kind_def SignerNodePkSet_kind_def)

lemma adv_insert:
  assumes "\<And>S d d' r. gcp_insert (sl_gcp X) S kind v d = (d', r) \<Longrightarrow> view d \<subseteq>\<^sub>m view d' \<and>
    (\<forall>n. view d' (env_kind S EncryptedUserCredentials_kind, n) = view d (env_kind S EncryptedUserCredentials_kind, n))"
  shows "h_keeps (advances view X) (store_insert X kind v)"
  unfolding h_keeps_def
proof
  fix w :: "'a sign_world"
  obtain d r where i: "gcp_insert (sl_gcp X) (sn_gcp_service (sw_node w)) kind v (sw_store w) = (d, r)" by fastforce
  have "advances view X w (w\<lparr>sw_store := d\<rparr>)"
    by (rule same_users_advances) (use assms [OF i] in \<open>simp_all add: extends_def keys_kept_def\<close>)
  with i show "advances view X w (fst (store_insert X kind v w))" by (simp add: store_insert_def)
qed

lemma adv_inserts:
  assumes "libs_ok X view"
  shows "h_keeps (advances view X) (store_insert X OidcDigest_kind (OidcDigest_into_value C dg))"
    and "h_keeps (advances view X) (store_insert X SignerNodePkSet_kind (SignerNodePkSet_into_value C s))"
  by (rule adv_insert,
      use oidc_digest.insert_extends [OF libs_okD(3) [OF assms]] oidc_digest.insert_elsewhere [OF libs_okD(3) [OF assms]]
        pk_set.insert_extends [OF libs_okD(3) [OF assms]] pk_set.insert_elsewhere [OF libs_okD(3) [OF assms]] kinds_apart in fastforce)+

text \<open>New credentials are stored with the key pair they name.\<close>

lemma creds_advance:
  assumes "libs_ok X view"
  shows "h_keeps (advances view X) (get_or_generate_user_creds X k a)"
  unfolding h_keeps_def
proof
  fix w :: "'a sign_world"
  let ?S = "sn_gcp_service (sw_node w)"
  let ?w' = "fst (get_or_generate_user_creds X k a w)"
  have kept: "extends view w ?w'" "keys_kept w ?w'"
    using ext.keeps_at [OF keeps_creds [OF assms]] info.keeps_at [OF info_creds, of w X k a]
    by (auto simp: same_info_def keys_kept_def)
  show "advances view X w ?w'"
  proof (cases "sw_store ?w' = sw_store w")
    case True
    then show ?thesis using kept by (intro same_users_advances) simp_all
  next
    case False
    then obtain c d r where c: "EncryptedUserCredentials_new (sl_cipher X) (our_index w) a (sn_cipher (sw_node w)) k = Done (Inr c)"
      and i: "gcp_insert (sl_gcp X) ?S EncryptedUserCredentials_kind (EncryptedUserCredentials_into_value (sl_codec X) c) (sw_store w) = (d, r)"
      and w': "?w' = w\<lparr>sw_store := d\<rparr>"
      by (auto simp: get_or_generate_user_creds_def EncryptedUserCredentials_random_def h_try_def h_bind_def h_read_def store_get_def store_insert_def
          split: exec.splits sum.splits option.splits prod.splits)
    note new = new_credentials_decrypt [OF libs_okD(2) [OF assms] c]
    have "creds_ok view X ?w'" if ok: "creds_ok view X w"
    proof (cases "view d = view (sw_store w)")
      case True
      with ok show ?thesis by (simp add: w' creds_ok_def user_held_def has_key_def store_holds_def)
    next
      case False
      let ?key = "(env_kind ?S EncryptedUserCredentials_kind, credentials_name (our_index w) a)"
      from user_credentials.insert_effect [OF libs_okD(1,3) [OF assms] i] False new(3,4)
      have v: "view d = (view (sw_store w))(?key := stored_cred ?S (sl_codec X) c)" by auto
      with user_credentials.stored_reads_back [OF libs_okD(1) [OF assms], of ?S c] new
      have "user_held view X ?w' a c \<and> has_key X ?w' c" by (auto simp: w' user_held_def store_holds_def has_key_def)
      moreover have "view d (env_kind ?S EncryptedUserCredentials_kind, credentials_name (our_index w) b) = None \<or>
          (\<exists>c'. user_held view X ?w' b c' \<and> has_key X ?w' c')" if "b \<noteq> a" for b
        using ok that v by (auto simp: w' creds_ok_def user_held_def store_holds_def has_key_def credentials_name_inj)
      ultimately show ?thesis by (simp add: creds_ok_def w') metis
    qed
    with kept show ?thesis by (auto simp: advances_def)
  qed
qed

lemma adv_sign: "h_keeps (advances view X) (sign_commitment X inp k p)"
  unfolding h_keeps_def sign_commitment_def
  by (auto simp: keys_kept_def adv.ord_refl split: exec.split intro!: memory_advances)

lemmas adv_rules = adv.keeps_return adv.keeps_lift adv.keeps_read adv.keeps_bind adv.keeps_try adv.keeps_map_err
  adv_get adv_inserts adv_sign creds_advance

lemma adv_ready: "h_keeps (advances view X) m \<Longrightarrow> h_keeps (advances view X) (when_ready m)"
  unfolding h_keeps_def when_ready_def check_if_ready_def by (simp add: adv.ord_refl case_unit_Unity)

lemma adv_commit: "libs_ok X view \<Longrightarrow> h_keeps (advances view X) (process_commit X inp rq)"
  by (cases rq)
    (auto simp: process_claim_def claim_lookup_def claim_record_def claim_commit_def process_sign_share_def check_claimed_def Let_def
      intro!: adv_rules split: prod.split)

lemma endpoints_advance:
  assumes "libs_ok X view"
  shows "h_keeps (advances view X) (commit_endpoint X inp rq)"
    and "h_keeps (advances view X) (reveal_endpoint X cs)"
    and "h_keeps (advances view X) (signature_share_endpoint X rs)"
    and "h_keeps (advances view X) (public_key_endpoint X inp rq')"
    and "h_keeps (advances view X) public_key_node"
    and "h_keeps (advances view X) (accept_pk_set X pks)"
proof -
  show "h_keeps (advances view X) (commit_endpoint X inp rq)"
    unfolding commit_endpoint_def by (auto intro!: adv_ready adv_rules adv_commit assms)
  show "h_keeps (advances view X) (public_key_endpoint X inp rq')"
    unfolding public_key_endpoint_def process_public_key_def check_claimed_def Let_def by (auto intro!: adv_rules assms)
  show "h_keeps (advances view X) (reveal_endpoint X cs)"
    unfolding reveal_endpoint_def
    by (rule adv_ready) (auto simp: h_keeps_def keys_kept_def split: prod.split intro!: memory_advances)
  show "h_keeps (advances view X) (signature_share_endpoint X rs)"
    unfolding signature_share_endpoint_def
    by (rule adv_ready) (auto simp: h_keeps_def keys_kept_def split: prod.split intro!: memory_advances)
  show "h_keeps (advances view X) public_key_node"
    by (simp add: h_keeps_def public_key_node_def adv.ord_refl)
  note ins = adv.keeps_at [OF adv.keeps_bind [OF adv_inserts(2) [OF assms] adv.keeps_return]]
  show "h_keeps (advances view X) (accept_pk_set X pks)"
    unfolding h_keeps_def accept_pk_set_def
    by (auto simp: adv.ord_refl keys_kept_def split: option.split intro!: adv.ord_trans [OF memory_advances ins])
qed

lemma node_steps_advance: "libs_ok X view \<Longrightarrow> advances view X w (fold (node_step X) es w)"
proof (induction es arbitrary: w)
  case (Cons ev es)
  have "advances view X w (node_step X ev w)"
    by (cases ev) (use endpoints_advance [OF Cons.prems] in \<open>simp_all add: h_keeps_def\<close>)
  with Cons.IH [OF Cons.prems] show ?case by (auto intro: adv.ord_trans)
qed (simp add: adv.ord_refl)

section \<open>Requests of the leader\<close>

definition later :: "('d \<Rightarrow> string \<times> string \<Rightarrow> Entity option) \<Rightarrow> 'd sign_libs \<Rightarrow> 'd deployment \<Rightarrow> 'd deployment \<Rightarrow> bool" where
  "later view X W W' \<longleftrightarrow> (\<forall>u. advances view X (W u) (W' u))"

interpretation later: state_order "later view X"
  by unfold_locales (auto simp: later_def intro: adv.ord_refl adv.ord_trans)

lemma laterD:
  assumes "later view X W W'"
  shows "extends view (W u) (W' u)" and "creds_ok view X (W u) \<Longrightarrow> creds_ok view X (W' u)"
    and "ready_in_order W us \<Longrightarrow> ready_in_order W' us"
proof -
  have adv: "advances view X (W u) (W' u)" for u using assms by (simp add: later_def)
  then show "extends view (W u) (W' u)" "creds_ok view X (W u) \<Longrightarrow> creds_ok view X (W' u)" by (simp_all add: advances_def)
  from adv have "our_index (W' u) = our_index (W u)" "node_pk (W' u) = node_pk (W u)"
    "\<And>ks. node_keys (W u) = Some ks \<Longrightarrow> node_keys (W' u) = Some ks" for u
    by (simp_all add: advances_def extends_def keys_kept_def node_pk_def)
  then show "ready_in_order W us \<Longrightarrow> ready_in_order W' us" by (simp add: ready_in_order_def list_all_iff)
qed

lemma on_node_later: "(\<And>n. h_keeps (advances view X) (h n)) \<Longrightarrow> later view X W (fst (on_node h u W))"
proof -
  assume "\<And>n. h_keeps (advances view X) (h n)"
  then have "advances view X (W u) (fst (h u (W u)))" by (simp add: h_keeps_def)
  then show ?thesis by (auto simp: on_node_def later_def adv.ord_refl split: prod.split)
qed

lemma deployed_later:
  assumes "libs_ok X view"
  shows "later view X W (fst (ll_commit (deployed X inp Z) rq u W))"
    and "later view X W (fst (ll_reveal (deployed X inp Z) cs u W))"
    and "later view X W (fst (ll_signature_share (deployed X inp Z) rs u W))"
    and "later view X W (fst (ll_public_key (deployed X inp Z) rq' u W))"
  by (auto simp: deployed_def intro!: on_node_later endpoints_advance assms)

lemma sign_payload_later:
  "libs_ok X view \<Longrightarrow> h_keeps (later view X) (sign_payload_with_mpc (deployed X inp Z) us rq)"
  unfolding sign_payload_with_mpc_def
  by (intro later.keeps_try later.keeps_map_err later.keeps_bind later.keeps_lift later.keeps_call_all deployed_later)

lemma recovery_pk_later: "libs_ok X view \<Longrightarrow> h_keeps (later view X) (get_user_recovery_pk (deployed X inp Z) us t sig pk)"
  by (rule later.keeps_recovery_pk) (rule deployed_later)

context state_order
begin

lemma attempts_Inr_after:
  assumes "\<And>k. h_keeps R (task k)" and "retry_attempts n task i s = (s', Done (Inr x))"
  shows "\<exists>k s0. R s s0 \<and> task k s0 = (s', Done (Inr x))"
  using assms(2)
proof (induction n arbitrary: i s)
  case 0
  then show ?case using ord_refl by auto
next
  case (Suc n)
  then obtain s1 r where 1: "task i s = (s1, Done r)"
    and rest: "(case r of Inr y \<Rightarrow> h_return (Inr y) | Inl _ \<Rightarrow> retry_attempts n task (Suc i)) s1 = (s', Done (Inr x))"
    by (auto simp: h_bind_Done)
  show ?case
  proof (cases r)
    case (Inl e)
    with Suc.IH [of "Suc i" s1] rest obtain k s0 where "R s1 s0" "task k s0 = (s', Done (Inr x))" by auto
    moreover have "R s s1" using assms(1) [of i] 1 unfolding h_keeps_def by (metis fst_conv)
    ultimately show ?thesis using ord_trans by blast
  next
    case (Inr y)
    with 1 rest ord_refl show ?thesis by auto
  qed
qed

lemma retry_Inr_after:
  "(\<And>k. h_keeps R (task k)) \<Longrightarrow> nar_retry task s = (s', Done (Inr x)) \<Longrightarrow> \<exists>k s0. R s s0 \<and> task k s0 = (s', Done (Inr x))"
  unfolding nar_retry_def by (rule attempts_Inr_after)

end

lemma told_later:
  assumes "libs_ok X view" and "get_user_recovery_pk (deployed X inp Z) us t sig pk W = (W', Done (Inr rk))"
  shows "later view X W W'"
  using later.keeps_at [OF recovery_pk_later [OF assms(1)], of W inp Z us t sig pk] assms(2) by simp

lemma told_again:
  assumes "libs_ok X view" and "nar_retry (\<lambda>_. get_user_recovery_pk (deployed X inp Z) us t sig pk) W = (W', Done (Inr rk))"
  shows "\<exists>W0. later view X W W0 \<and> get_user_recovery_pk (deployed X inp Z) us t sig pk W0 = (W', Done (Inr rk))"
    and "later view X W W'"
proof -
  note keeps = recovery_pk_later [OF assms(1)]
  show "\<exists>W0. later view X W W0 \<and> get_user_recovery_pk (deployed X inp Z) us t sig pk W0 = (W', Done (Inr rk))"
    using later.retry_Inr_after [OF keeps assms(2)] by blast
  show "later view X W W'"
    using later.keeps_at [OF later.keeps_retry [OF keeps, of "\<lambda>_. inp" "\<lambda>_. Z" "\<lambda>_. us" "\<lambda>_. t" "\<lambda>_. sig" "\<lambda>_. pk"], of W] assms(2)
    by simp
qed

lemma signed_again:
  assumes "libs_ok X view" and "nar_retry (\<lambda>_. get_mpc_signature (deployed X inp Z) us t a sig pk) W = (W', Done (Inr s))"
  shows "\<exists>W0. later view X W W0 \<and> get_mpc_signature (deployed X inp Z) us t a sig pk W0 = (W', Done (Inr s))"
  using later.retry_Inr_after [OF sign_payload_later [OF assms(1)] assms(2) [unfolded get_mpc_signature_def]]
  by (auto simp: get_mpc_signature_def)

section \<open>The key of a user\<close>

definition same_user :: "jwt_lib \<Rightarrow> OidcToken \<Rightarrow> OidcToken \<Rightarrow> bool" where
  "same_user J t t' \<longleftrightarrow> (\<forall>ks ks' claims claims'.
     verify_oidc_token J ks t None = Inr claims \<longrightarrow> verify_oidc_token J ks' t' None = Inr claims' \<longrightarrow>
     get_internal_account_id claims = get_internal_account_id claims')"

lemma verify_oidc_token_Inr:
  "verify_oidc_token J keys t p = Inr claims \<Longrightarrow> \<exists>k. valid_under J p t k claims"
  by (cases keys) (auto simp: verify_oidc_token_def try_keys_Inr)

lemma same_user_refl: "same_user J t t"
proof -
  have "claims = claims'" if "verify_oidc_token J ks t None = Inr claims" "verify_oidc_token J ks' t None = Inr claims'"
    for ks ks' claims claims'
    using that [THEN verify_oidc_token_Inr] valid_under_claims by blast
  then show ?thesis unfolding same_user_def by blast
qed

text \<open>The keys the nodes report, in the order of the nodes, and the credentials behind them.\<close>

lemma told_keys:
  assumes ok: "libs_ok X view" and us: "distinct us" and creds: "\<And>u. creds_ok view X (W u)"
    and told: "get_user_recovery_pk (deployed X inp Z) us t sig fpk W = (W', Done (Inr rk))"
  obtains keys ka k c where "rk = ED25519 k" and "length keys = length us"
    and "key_aggregation_n (sl_aggsig X) keys 0 = Done ka" and "to_dalek_public_key (sl_aggsig X) (ka_apk ka) = Inr k"
    and "\<And>i. i < length us \<Longrightarrow> \<exists>claims. verify_oidc_token (sl_jwt X) (si_jwt_keys (inp (us ! i))) t None = Inr claims \<and>
      user_held view X (W' (us ! i)) (get_internal_account_id claims) (c i) \<and> has_key X (W' (us ! i)) (c i) \<and>
      euc_public_key (c i) = keys ! i"
proof -
  let ?rq = "\<lparr>pknr_oidc_token = t, pknr_frp_signature = sig, pknr_frp_public_key = fpk\<rparr>"
  let ?h = "\<lambda>n. public_key_endpoint X (inp n) ?rq"
  from told obtain keys ka k where call: "call_all_nodes (on_node ?h) us W = (W', Done (Inr keys))"
    and k: "rk = ED25519 k" "key_aggregation_n (sl_aggsig X) keys 0 = Done ka" "to_dalek_public_key (sl_aggsig X) (ka_apk ka) = Inr k"
    by (auto simp: get_user_recovery_pk_def deployed_def h_try_Inr h_bind_Done res_bind_eq_Inr)
  note c = call_all_nodes_Inr [OF us call]
  have "\<exists>c claims. verify_oidc_token (sl_jwt X) (si_jwt_keys (inp (us ! i))) t None = Inr claims \<and>
      user_held view X (W' (us ! i)) (get_internal_account_id claims) c \<and> has_key X (W' (us ! i)) c \<and> euc_public_key c = keys ! i"
    if i: "i < length us" for i
  proof -
    let ?u = "us ! i"
    from c(3) [OF i] obtain status where "public_key_endpoint X (inp ?u) ?rq (W ?u) = (W' ?u, Done (status, Inr (keys ! i)))"
      using i by (auto simp: c(1) prod_eq_iff)
    then obtain r where p: "process_public_key X (inp ?u) ?rq (W ?u) = (W' ?u, Done r)"
      "respond SignNodeError_code (sl_show_error X) r = (status, Inr (keys ! i))"
      by (auto simp: public_key_endpoint_def h_bind_Done)
    then have r: "r = Inr (keys ! i)" by (cases r) (auto simp: respond_def)
    obtain claims c where 1: "verify_oidc_token (sl_jwt X) (si_jwt_keys (inp ?u)) t None = Inr claims"
        "user_held view X (W' ?u) (get_internal_account_id claims) c" "keys ! i = euc_public_key c"
      by (rule process_public_key_Inr [OF ok p(1) [unfolded r]]) simp
    have "advances view X (W ?u) (W' ?u)"
      using endpoints_advance(4) [OF ok, of "inp ?u" ?rq] c(1) i by (simp add: h_keeps_def)
    with creds have "creds_ok view X (W' ?u)" by (simp add: advances_def)
    with 1 creds_okD show ?thesis by metis
  qed
  then obtain c where "\<And>i. i < length us \<Longrightarrow> \<exists>claims. verify_oidc_token (sl_jwt X) (si_jwt_keys (inp (us ! i))) t None = Inr claims \<and>
      user_held view X (W' (us ! i)) (get_internal_account_id claims) (c i) \<and> has_key X (W' (us ! i)) (c i) \<and>
      euc_public_key (c i) = keys ! i" by metis
  with k c(2) that show ?thesis by blast
qed

text \<open>What a node commits to when it is asked for a share: the user's key and the hash of the action.\<close>

lemma share_commitment:
  assumes ok: "libs_ok X view" "aggsig_ok (sl_aggsig X)"
    and "commit_endpoint X inp (SignShare rq) w = (w', Done (status, Inr sc))" and waits: "waiting (sl_aggsig X) w sc c w'"
  shows "\<exists>claims cr message. verify_oidc_token (sl_jwt X) (si_jwt_keys inp) (ssnr_oidc_token rq) None = Inr claims \<and>
    user_held view X w' (get_internal_account_id claims) cr \<and>
    decrypt_key_pair (sl_cipher X) cr (sn_cipher (sw_node w)) = Done (Inr (co_our_key c)) \<and>
    sl_signable X (ssnr_delegate_action rq) = Inr message \<and> co_message c = sl_near_hash X message"
proof -
  from assms(3) obtain r where r: "process_commit X inp (SignShare rq) w = (w', Done r)"
    "respond SignNodeError_code (sl_show_error X) r = (status, Inr sc)"
    by (cases "node_keys w") (auto simp: commit_endpoint_def when_ready_def check_if_ready_def case_unit_Unity h_bind_Done)
  then have "r = Inr sc" by (cases r) (auto simp: respond_def)
  with r have p: "process_sign_share X inp rq w = (w', Done (Inr sc))" by simp
  obtain claims cr message key S where
    1: "verify_oidc_token (sl_jwt X) (si_jwt_keys inp) (ssnr_oidc_token rq) None = Inr claims"
      "user_held view X w' (get_internal_account_id claims) cr"
      "decrypt_key_pair (sl_cipher X) cr (sn_cipher (sw_node w)) = Done (Inr key)"
      "sl_signable X (ssnr_delegate_action rq) = Inr message"
    and S: "get_commitment (sl_aggsig X) key (sn_node_key (sw_node w)) (sl_near_hash X message) (si_rng inp)
      (sn_signing_state (sw_node w)) = Done (S, Inr sc)" "sn_signing_state (sw_node w') = S"
    by (rule process_sign_share_Inr [OF ok(1) p])
  from get_commitment_promises [OF ok(2) S(1)] obtain c' where c': "co_our_key c' = key" "co_message c' = sl_near_hash X message"
    "S = (sn_signing_state (sw_node w))\<lparr>ss_committed := hm_insert (sc_commitment sc) c' (ss_committed (sn_signing_state (sw_node w)))\<rparr>"
    by blast
  have "hm_get (ss_committed S) (sc_commitment sc) = Some c"
    using waits S(2) by (auto simp: waiting_def hm_get_insert)
  with c' have "c = c'" by (simp add: hm_get_insert)
  with 1 c' show ?thesis by blast
qed

text \<open>The two requests on a deployment and a later one.\<close>

lemma signed_under_told_key:
  assumes ok: "libs_ok X view" "aggsig_ok (sl_aggsig X)" "aggsig_sound (sl_aggsig X)"
    and ready: "ready_in_order W us" and creds: "\<And>u. creds_ok view X (W u)"
    and told: "get_user_recovery_pk (deployed X inp Z) us t usig fpk W = (W1, Done (Inr rk))"
    and later: "later view X W1 W2" and user: "same_user (sl_jwt X) t t'"
    and signed': "get_mpc_signature (deployed X inp' Z) us t' action fsig fpk' W2 = (W3, Done (Inr sig))"
  shows "\<exists>k message. rk = ED25519 k \<and> sl_signable X action = Inr message \<and>
    dalek_verify (sl_aggsig X) k (sl_near_hash X message) sig = Inr ()"
proof -
  let ?L = "sl_aggsig X"
  let ?rq = "\<lparr>ssnr_oidc_token = t', ssnr_delegate_action = action, ssnr_frp_signature = fsig, ssnr_frp_public_key = fpk'\<rparr>"
  have us: "distinct us" "us \<noteq> []" using ready by (auto simp: ready_in_order_def)
  obtain keys ka k cr where k: "rk = ED25519 k" "length keys = length us" "key_aggregation_n ?L keys 0 = Done ka"
      "to_dalek_public_key ?L (ka_apk ka) = Inr k"
    and cr: "\<And>i. i < length us \<Longrightarrow> \<exists>claims. verify_oidc_token (sl_jwt X) (si_jwt_keys (inp (us ! i))) t None = Inr claims \<and>
      user_held view X (W1 (us ! i)) (get_internal_account_id claims) (cr i) \<and> has_key X (W1 (us ! i)) (cr i) \<and>
      euc_public_key (cr i) = keys ! i"
    by (rule told_keys [OF ok(1) us(1) creds told]) (rule that, assumption+)
  have "later view X W W1" by (rule told_later [OF ok(1) told])
  with ready later have ready2: "ready_in_order W2 us" by (auto dest: laterD(3))
  have sp: "sign_payload_with_mpc (deployed X inp' Z) us (SignShare ?rq) W2 = (W3, Done (Inr sig))"
    using signed' by (simp add: get_mpc_signature_def)
  then obtain W' cs where commits: "call_all_nodes (on_node (\<lambda>n. commit_endpoint X (inp' n) (SignShare ?rq))) us W2 = (W', Done (Inr cs))"
    by (auto simp: sign_payload_with_mpc_def h_try_Inr)
  obtain c where cs: "length cs = length us"
    and c: "\<And>i. i < length us \<Longrightarrow> waiting ?L (W2 (us ! i)) (cs ! i) (c i) (W' (us ! i))"
    and verifies: "\<forall>m ka pk. (\<forall>i < length us. co_message (c i) = m) \<longrightarrow>
      key_aggregation_n ?L (map sc_signing_public_key cs) 0 = Done ka \<longrightarrow>
      to_dalek_public_key ?L (ka_apk ka) = Inr pk \<longrightarrow> dalek_verify ?L pk m sig = Inr ()"
    by (rule round_verifies [OF ok(2,3) ready2 commits sp]) (rule that, assumption+)
  have each: "\<exists>message. sl_signable X action = Inr message \<and> co_message (c i) = sl_near_hash X message \<and>
      sc_signing_public_key (cs ! i) = keys ! i" if i: "i < length us" for i
  proof -
    let ?u = "us ! i"
    note ca = call_all_nodes_Inr [OF us(1) commits]
    from ca(3) [OF i] obtain status where
      ep: "commit_endpoint X (inp' ?u) (SignShare ?rq) (W2 ?u) = (W' ?u, Done (status, Inr (cs ! i)))"
      using i by (auto simp: ca(1) prod_eq_iff)
    from share_commitment [OF ok(1,2) ep c [OF i]] obtain claims' cr' message where
      s: "verify_oidc_token (sl_jwt X) (si_jwt_keys (inp' ?u)) t' None = Inr claims'"
        "user_held view X (W' ?u) (get_internal_account_id claims') cr'"
        "decrypt_key_pair (sl_cipher X) cr' (sn_cipher (sw_node (W2 ?u))) = Done (Inr (co_our_key (c i)))"
        "sl_signable X action = Inr message" "co_message (c i) = sl_near_hash X message" by auto
    from cr [OF i] obtain claims where h: "verify_oidc_token (sl_jwt X) (si_jwt_keys (inp ?u)) t None = Inr claims"
      "user_held view X (W1 ?u) (get_internal_account_id claims) (cr i)" "has_key X (W1 ?u) (cr i)" "euc_public_key (cr i) = keys ! i"
      by blast
    have e1: "extends view (W1 ?u) (W2 ?u)" by (rule laterD(1) [OF later])
    have e2: "extends view (W2 ?u) (W' ?u)"
      using ext.keeps_at [OF endpoints_extend(1) [OF ok(1)], of "W2 ?u" "inp' ?u" "SignShare ?rq"] ep by simp
    have "get_internal_account_id claims = get_internal_account_id claims'" using user h(1) s(1) unfolding same_user_def by blast
    with user_held_mono [OF ext.ord_trans [OF e1 e2] h(2)] s(2) have "cr' = cr i" using user_held_unique by metis
    moreover have "sn_cipher (sw_node (W2 ?u)) = sn_cipher (sw_node (W1 ?u))" using e1 by (simp add: extends_def)
    ultimately have "kp_public_key (co_our_key (c i)) = keys ! i" using h(3,4) s(3) by (auto simp: has_key_def)
    moreover have "sc_signing_public_key (cs ! i) = kp_public_key (co_our_key (c i))"
      using c [OF i] by (simp add: waiting_def promised_def)
    ultimately show ?thesis using s(4,5) by simp
  qed
  then obtain message where m: "sl_signable X action = Inr message" using us(2) by fastforce
  have "map sc_signing_public_key cs = keys" by (rule nth_equalityI) (use each cs k(2) in auto)
  moreover have "\<forall>i < length us. co_message (c i) = sl_near_hash X message" using each m by fastforce
  ultimately have "dalek_verify ?L k (sl_near_hash X message) sig = Inr ()" using verifies k by metis
  with k m show ?thesis by blast
qed

text \<open>The keys that the nodes tell about a user are the same later, and so is the user's recovery key.\<close>

lemma told_twice:
  assumes ok: "libs_ok X view" and us: "distinct us" and creds: "\<And>u. creds_ok view X (W u)"
    and told: "get_user_recovery_pk (deployed X inp Z) us t usig fpk W = (W1, Done (Inr rk))"
    and later: "later view X W1 W2" and user: "same_user (sl_jwt X) t t'"
    and again: "get_user_recovery_pk (deployed X inp' Z') us t' usig' fpk' W2 = (W3, Done (Inr rk'))"
  shows "rk' = rk"
proof -
  let ?L = "sl_aggsig X"
  obtain keys ka k c where k: "rk = ED25519 k" "length keys = length us" "key_aggregation_n ?L keys 0 = Done ka"
      "to_dalek_public_key ?L (ka_apk ka) = Inr k"
    and c: "\<And>i. i < length us \<Longrightarrow> \<exists>claims. verify_oidc_token (sl_jwt X) (si_jwt_keys (inp (us ! i))) t None = Inr claims \<and>
      user_held view X (W1 (us ! i)) (get_internal_account_id claims) (c i) \<and> has_key X (W1 (us ! i)) (c i) \<and>
      euc_public_key (c i) = keys ! i"
    by (rule told_keys [OF ok us creds told]) (rule that, assumption+)
  have l1: "later view X W W1" by (rule told_later [OF ok told])
  have l3: "later view X W2 W3" by (rule told_later [OF ok again])
  have "creds_ok view X (W2 u)" for u by (intro laterD(2) [OF later] laterD(2) [OF l1] creds)
  then obtain keys' ka' k' c' where k': "rk' = ED25519 k'" "length keys' = length us" "key_aggregation_n ?L keys' 0 = Done ka'"
      "to_dalek_public_key ?L (ka_apk ka') = Inr k'"
    and c': "\<And>i. i < length us \<Longrightarrow> \<exists>claims. verify_oidc_token (sl_jwt X) (si_jwt_keys (inp' (us ! i))) t' None = Inr claims \<and>
      user_held view X (W3 (us ! i)) (get_internal_account_id claims) (c' i) \<and> has_key X (W3 (us ! i)) (c' i) \<and>
      euc_public_key (c' i) = keys' ! i"
    by (rule told_keys [OF ok us _ again]) (rule that, assumption+)
  have "keys' ! i = keys ! i" if i: "i < length us" for i
  proof -
    from c [OF i] c' [OF i] user obtain a where a: "user_held view X (W1 (us ! i)) a (c i)" "user_held view X (W3 (us ! i)) a (c' i)"
      unfolding same_user_def by metis
    from user_held_mono [OF laterD(1) [OF later.ord_trans [OF later l3]] a(1)] a(2) have "c' i = c i" using user_held_unique by metis
    with c [OF i] c' [OF i] show ?thesis by auto
  qed
  with k(2) k'(2) have "keys' = keys" by (simp add: list_eq_iff_nth_eq)
  with k k' show ?thesis by simp
qed

text \<open>The recovery key of a token's user was told, in this state or an earlier one.\<close>

definition recovery_told ::
  "('d \<Rightarrow> string \<times> string \<Rightarrow> Entity option) \<Rightarrow> 'd sign_libs \<Rightarrow> 'd deployment leader_lib \<Rightarrow> string list \<Rightarrow> OidcToken \<Rightarrow>
     near_public_key \<Rightarrow> 'd deployment \<Rightarrow> bool" where
  "recovery_told view X Z us t rk W \<longleftrightarrow> (\<exists>W0 inp sig pk W1. ready_in_order W0 us \<and> (\<forall>u. creds_ok view X (W0 u)) \<and>
     get_user_recovery_pk (deployed X inp Z) us t sig pk W0 = (W1, Done (Inr rk)) \<and> later view X W1 W)"

lemma recovery_told_later: "later view X W W' \<Longrightarrow> recovery_told view X Z us t rk W \<Longrightarrow> recovery_told view X Z us t rk W'"
  unfolding recovery_told_def by (blast intro: later.ord_trans)

lemma credentials_told:
  assumes "libs_ok X view" and "ready_in_order W (ls_sign_nodes st)" and "\<And>u. creds_ok view X (W u)"
    and "process_user_credentials (deployed X inp Z) st rq W = (W1, Done (Inr rk))"
  shows "recovery_told view X Z (ls_sign_nodes st) (ucr_oidc_token rq) rk W1"
proof -
  let ?us = "ls_sign_nodes st"
  from assms(4) have "nar_retry (\<lambda>_. get_user_recovery_pk (deployed X inp Z) ?us (ucr_oidc_token rq) (ucr_frp_signature rq)
      (ucr_frp_public_key rq)) W = (W1, Done (Inr rk))"
    by (auto simp: process_user_credentials_def h_try_Inr leader_verify_def)
  from told_again(1) [OF assms(1) this] obtain W0 where W0: "later view X W W0"
    "get_user_recovery_pk (deployed X inp Z) ?us (ucr_oidc_token rq) (ucr_frp_signature rq) (ucr_frp_public_key rq) W0 = (W1, Done (Inr rk))"
    by blast
  with laterD(3) [OF W0(1) assms(2)] laterD(2) [OF W0(1) assms(3)] later.ord_refl show ?thesis
    unfolding recovery_told_def by blast
qed

text \<open>A signature that the leader answers with is one under the key that was told.\<close>

lemma sign_answer_verifies:
  assumes "libs_ok X view" and "aggsig_ok (sl_aggsig X)" and "aggsig_sound (sl_aggsig X)"
    and "recovery_told view X Z (ls_sign_nodes st) t rk W" and "same_user (sl_jwt X) t (msr_oidc_token rq)"
    and "process_sign (deployed X inp Z) st rq W = (W', Done (Inr sig))"
  shows "\<exists>k action message. rk = ED25519 k \<and> ll_delegate_action Z (msr_delegate_action rq) = Inr action \<and>
    sl_signable X action = Inr message \<and> dalek_verify (sl_aggsig X) k (sl_near_hash X message) sig = Inr ()"
proof -
  let ?us = "ls_sign_nodes st"
  from assms(4) obtain W0 inp0 usig pk W1 where W0: "ready_in_order W0 ?us" "\<And>u. creds_ok view X (W0 u)"
    "get_user_recovery_pk (deployed X inp0 Z) ?us t usig pk W0 = (W1, Done (Inr rk))" "later view X W1 W"
    unfolding recovery_told_def by blast
  from assms(6) obtain action Wa rk' where action: "ll_delegate_action Z (msr_delegate_action rq) = Inr action"
    and told: "nar_retry (\<lambda>_. get_user_recovery_pk (deployed X inp Z) ?us (msr_oidc_token rq)
      (msr_user_credentials_frp_signature rq) (msr_frp_public_key rq)) W = (Wa, Done (Inr rk'))"
    and sign: "nar_retry (\<lambda>_. get_mpc_signature (deployed X inp Z) ?us (msr_oidc_token rq) action
      (msr_frp_signature rq) (msr_frp_public_key rq)) Wa = (W', Done (Inr sig))"
    by (auto simp: process_sign_def h_check_Inr h_try_Inr h_map_err_Inr leader_verify_def deployed_def)
  from signed_again [OF assms(1) sign] obtain Wb where Wb: "later view X Wa Wb"
    "get_mpc_signature (deployed X inp Z) ?us (msr_oidc_token rq) action (msr_frp_signature rq) (msr_frp_public_key rq) Wb =
      (W', Done (Inr sig))" by blast
  from W0(4) told_again(2) [OF assms(1) told] Wb(1) have "later view X W1 Wb" using later.ord_trans by blast
  from signed_under_told_key [OF assms(1-3) W0(1,2,3) this assms(5) Wb(2)] show ?thesis using action by blast
qed

lemma told_key_same:
  assumes "libs_ok X view" and "recovery_told view X Z us t rk W" and "same_user (sl_jwt X) t t'"
    and "nar_retry (\<lambda>_. get_user_recovery_pk (deployed X inp Z) us t' sig pk) W = (W', Done (Inr rk'))"
  shows "rk' = rk"
proof -
  from assms(2) obtain W0 inp0 usig pk0 W1 where W0: "ready_in_order W0 us" "\<And>u. creds_ok view X (W0 u)"
    "get_user_recovery_pk (deployed X inp0 Z) us t usig pk0 W0 = (W1, Done (Inr rk))" "later view X W1 W"
    unfolding recovery_told_def by blast
  from told_again(1) [OF assms(1,4)] obtain W2 where W2: "later view X W W2"
    "get_user_recovery_pk (deployed X inp Z) us t' sig pk W2 = (W', Done (Inr rk'))" by blast
  have "distinct us" using W0(1) by (simp add: ready_in_order_def)
  from told_twice [OF assms(1) this W0(2,3) later.ord_trans [OF W0(4) W2(1)] assms(3) W2(2)] show ?thesis .
qed

section \<open>Examples\<close>

text \<open>One node after a claim, and its user.\<close>

lemma ex_aggsig_sound: "aggsig_sound ex_aggsig"
proof -
  have "dalek_verify ex_aggsig pk m sig = Inr ()"
    if n: "kgs \<noteq> []" "length sigs = length kgs" and parts: "\<forall>i. i < length kgs \<longrightarrow> part_of ex_aggsig m kgs i (sigs ! i)"
      and raw: "add_signature_parts ex_aggsig sigs = Done raw" "to_dalek_signature ex_aggsig raw = Done (Inr sig)"
      and ka: "key_aggregation_n ex_aggsig (map (kp_public_key \<circ> fst) kgs) 0 = Done ka" "to_dalek_public_key ex_aggsig (ka_apk ka) = Inr pk"
    for m kgs sigs raw sig ka pk
  proof -
    obtain s ss where ss: "sigs = s # ss" using n by (cases sigs) auto
    from parts [rule_format, of 0] n have "es_s s = ex_tag m (concat (map (kp_public_key \<circ> fst) kgs))"
      by (auto simp: ss part_of_def ex_aggsig_def)
    moreover from raw have "drop 32 sig = es_s raw" "es_s raw = take 32 (concat (map es_s sigs) @ replicate 32 0)"
      by (auto simp: ex_aggsig_def to_dalek_signature_def ex_lengths32 split: if_splits simp del: take_append length_take)
    ultimately have "drop 32 sig = ex_tag m (concat (map (kp_public_key \<circ> fst) kgs))"
      by (simp add: ss ex_lengths32)
    with ka show ?thesis by (auto simp: ex_aggsig_def to_dalek_public_key_def ex_tag_key simp del: take_append)
  qed
  then show ?thesis unfolding aggsig_sound_def by blast
qed

lemma ex_known_user:
  assumes "user_held map_of ex_libs w a c"
  shows "get_or_generate_user_creds ex_libs k a w = (w, Done (Inr c))"
  using ex_get_some [OF assms [unfolded user_held_def]]
  by (simp add: get_or_generate_user_creds_def h_try_def h_bind_def h_read_def store_get_def)

lemma ex_first_request:
  obtains d d' c where "creds_ok map_of ex_libs (ex_world\<lparr>sw_store := d\<rparr>)"
    and "process_public_key ex_libs ex_inputs ex_pk_request (ex_world\<lparr>sw_store := d\<rparr>) = (ex_world\<lparr>sw_store := d'\<rparr>, Done (Inr [7]))"
    and "claimed map_of ex_libs (ex_world\<lparr>sw_store := d'\<rparr>) ex_dg" and "user_held map_of ex_libs (ex_world\<lparr>sw_store := d'\<rparr>) ''i:u'' c"
    and "euc_public_key c = [7]" and "decrypt_key_pair ex_cipher c [5] = Done (Inr (si_drawn ex_inputs))"
proof -
  obtain d where d: "claimed map_of ex_libs (ex_world\<lparr>sw_store := d\<rparr>) ex_dg"
    "\<And>n. map_of d (env_kind ex_service EncryptedUserCredentials_kind, n) = None" using ex_after_claim by blast
  let ?w = "ex_world\<lparr>sw_store := d\<rparr>"
  obtain d' c where c: "get_or_generate_user_creds ex_libs (si_drawn ex_inputs) ''i:u'' ?w = (ex_world\<lparr>sw_store := d'\<rparr>, Done (Inr c))"
    "euc_public_key c = [7]" "decrypt_key_pair ex_cipher c [5] = Done (Inr (si_drawn ex_inputs))"
    using ex_user [OF d(2)] by blast
  obtain m where m: "user_credentials_request_digest ex_digest32 ex_token (ED25519 [8]) = Inr m" using ex_digest32_simps(5) by blast
  have p: "process_public_key ex_libs ex_inputs ex_pk_request ?w = (ex_world\<lparr>sw_store := d'\<rparr>, Done (Inr [7]))"
    using m c ex_check_claimed [OF d(1)] ex_token_valid
    by (auto simp: process_public_key_def ex_pk_request_def check_digest_signature_def ex_digest32_simps(1)
        get_internal_account_id_def h_try_def h_bind_def h_map_err_def h_read_def Let_def share_digest_def
        ex_world_def ex_node_def NodeInfo_new_def)
  have "extends map_of ?w (ex_world\<lparr>sw_store := d'\<rparr>)" using ext.keeps_at [OF keeps_creds [OF ex_libs_ok], of ?w] c(1) by (metis fst_conv)
  from claimed_mono [OF this d(1)] have cl: "claimed map_of ex_libs (ex_world\<lparr>sw_store := d'\<rparr>) ex_dg" .
  have "creds_ok map_of ex_libs ?w"
    using d(2) by (simp add: creds_ok_def ex_world_def ex_node_def)
  with p cl creds_Inr(1) [OF ex_libs_ok c(1)] c(2,3) that show ?thesis by blast
qed

lemma ex_next_requests:
  assumes "claimed map_of ex_libs (ex_world\<lparr>sw_store := d\<rparr>) ex_dg" and "user_held map_of ex_libs (ex_world\<lparr>sw_store := d\<rparr>) ''i:u'' c"
    and "euc_public_key c = [7]" and "decrypt_key_pair ex_cipher c [5] = Done (Inr (si_drawn ex_inputs))"
  shows "process_public_key ex_libs ex_inputs ex_pk_request (ex_world\<lparr>sw_store := d\<rparr>) = (ex_world\<lparr>sw_store := d\<rparr>, Done (Inr [7]))"
    and "\<exists>w' sc. process_sign_share ex_libs ex_inputs ex_share (ex_world\<lparr>sw_store := d\<rparr>) = (w', Done (Inr sc))"
proof -
  obtain m where "user_credentials_request_digest ex_digest32 ex_token (ED25519 [8]) = Inr m" using ex_digest32_simps(5) by blast
  then show "process_public_key ex_libs ex_inputs ex_pk_request (ex_world\<lparr>sw_store := d\<rparr>) = (ex_world\<lparr>sw_store := d\<rparr>, Done (Inr [7]))"
    using ex_check_claimed [OF assms(1)] ex_token_valid ex_known_user [OF assms(2)] assms(3)
    by (auto simp: process_public_key_def ex_pk_request_def check_digest_signature_def ex_digest32_simps(1)
        get_internal_account_id_def h_try_def h_bind_def h_map_err_def h_read_def Let_def share_digest_def
        ex_world_def ex_node_def NodeInfo_new_def)
  obtain m where m: "sign_request_digest ex_digest32 ex_action ex_token (ED25519 [8]) = Inr m" using ex_digest32_simps(4) by blast
  obtain S sc where "get_commitment ex_aggsig (si_drawn ex_inputs) ex_node_key [] (si_rng ex_inputs) SigningState_new = Done (S, Inr sc)"
    using ex_commitment by blast
  then have "\<exists>w'. sign_commitment ex_libs ex_inputs (si_drawn ex_inputs) [] (ex_world\<lparr>sw_store := d\<rparr>) = (w', Done (Inr sc))"
    by (simp add: sign_commitment_def ex_world_def ex_node_def)
  then show "\<exists>w' sc. process_sign_share ex_libs ex_inputs ex_share (ex_world\<lparr>sw_store := d\<rparr>) = (w', Done (Inr sc))"
    using m ex_check_claimed [OF assms(1)] ex_token_valid ex_known_user [OF assms(2)] assms(4)
    by (auto simp: process_sign_share_def ex_share_def check_digest_signature_def ex_digest32_simps(1)
        get_internal_account_id_def h_try_def h_bind_def h_map_err_def h_read_def Let_def share_digest_def
        ex_world_def ex_node_def NodeInfo_new_def)
qed

section \<open>Properties\<close>


abbreviation ex_service_of :: "ex_store deployment leader_lib" where
  "ex_service_of \<equiv> deployed ex_libs (\<lambda>_. ex_inputs) ex_leader_over"

definition ex_user_request :: UserCredentialsRequest where
  "ex_user_request = \<lparr>ucr_oidc_token = ex_token, ucr_frp_signature = [1], ucr_frp_public_key = ED25519 [8]\<rparr>"

lemma ex_told:
  assumes "process_public_key ex_libs ex_inputs ex_pk_request (W ''n'') = (w', Done (Inr [7]))"
  shows "nar_retry (\<lambda>_. get_user_recovery_pk ex_service_of [''n''] ex_token [1] (ED25519 [8])) W = (W(''n'' := w'), Done (Inr ex_recovery_key))"
proof -
  have "get_user_recovery_pk ex_service_of [''n''] ex_token [1] (ED25519 [8]) W = (W(''n'' := w'), Done (Inr ex_recovery_key))"
    using assms
    by (simp add: get_user_recovery_pk_def deployed_def call_all_nodes_def on_node_def public_key_endpoint_def h_try_def h_bind_def
        respond_def ex_pk_request_def)
      (simp add: ex_aggsig_def to_dalek_public_key_def ex_recovery_key_def numeral_eq_Suc)
  then show ?thesis by (intro nar_retry_first [where task = "\<lambda>_. get_user_recovery_pk ex_service_of [''n''] ex_token [1] (ED25519 [8])"])
qed

lemma ex_verified: "\<exists>claims. leader_verify ex_service_of ex_lstate ex_token W = (W, Done (Inr claims))"
  using ex_leader_token by (simp add: leader_verify_def deployed_def ex_leader_over_def ex_lstate_def)


end
