(* ===== verification/Recovery_Client.thy ===== *)
theory Recovery_Client
  imports Recovery_Signatures
begin

text \<open>
  The client of the recovery service in \<^verbatim>\<open>load-tests\<close>: a user who makes an identity token, claims
  it, creates an account, asks for the recovery key and has delegate actions signed.
\<close>

section \<open>The session of a user\<close>

record UserSession =
  us_jwt_token :: OidcToken
  us_near_account_id :: AccountId
  us_fa_sk :: bytes
  us_la_sk :: bytes
  us_recovery_pk :: "near_public_key option"

text \<open>The crates the client uses: keys, json web tokens, account ids and borsh.\<close>

record client_lib =
  cl_digest :: digest_lib
  cl_public_key :: "bytes \<Rightarrow> near_public_key"
  cl_rsa_pem_key :: "bytes \<Rightarrow> anyhow_error + bytes"
  cl_jwt_encode :: "jwt_algorithm \<Rightarrow> IdTokenClaims \<Rightarrow> bytes \<Rightarrow> anyhow_error + string"
  cl_account_id :: "string \<Rightarrow> string + AccountId"
  cl_action_to_vec :: "DelegateAction \<Rightarrow> string + bytes"

definition expect :: "string \<Rightarrow> 'e + 'a \<Rightarrow> 'a exec" where
  "expect msg r = (case r of Inl _ \<Rightarrow> Panics msg | Inr x \<Rightarrow> Done x)"

definition VALID_OIDC_AUD :: string where
  "VALID_OIDC_AUD = ''test_audience''"

definition VALID_OIDC_ISS :: string where
  "VALID_OIDC_ISS = ''https://securetoken.google.com/test_audience''"

text \<open>\<open>rnd_sub\<close> is the random subject, \<open>now\<close> the time in seconds.\<close>

definition create_jwt_token ::
  "client_lib \<Rightarrow> string \<Rightarrow> string \<Rightarrow> string \<Rightarrow> string option \<Rightarrow> string \<Rightarrow> int \<Rightarrow> string exec" where
  "create_jwt_token C secret_rsa_pem_key aud iss sub rnd_sub now =
     (let my_claims = \<lparr>itc_iss = iss, itc_sub = (case sub of Some s \<Rightarrow> s | None \<Rightarrow> rnd_sub), itc_aud = aud,
                       itc_exp = of_int (now + 3600)\<rparr> in
      exec_bind (expect ''unwrap'' (cl_rsa_pem_key C (string_bytes secret_rsa_pem_key))) (\<lambda>key.
      expect ''Failed to encode jwt token'' (cl_jwt_encode C RS256 my_claims key)))"

text \<open>The letters of the random part are ASCII.\<close>

definition to_lowercase :: "string \<Rightarrow> string" where
  "to_lowercase = map (\<lambda>c. if 65 \<le> (of_char c :: nat) \<and> (of_char c :: nat) \<le> 90 then char_of (of_char c + 32 :: nat) else c)"

record prepared =
  pr_fa_sk :: bytes
  pr_la_sk :: bytes
  pr_sub :: string
  pr_now :: int
  pr_account :: string

section \<open>Transactions\<close>

text \<open>
  A transaction of the load test runs over the session of its user and the service. A request
  has no response when the service panics; an error of a transaction is recorded, and the
  next transaction follows; a panic ends the user.
\<close>

type_synonym ('s, 'a) client = "(UserSession option \<times> 's, 'a) handler"

definition get_session_data :: "('s, UserSession) client" where
  "get_session_data = h_bind (h_read fst) (\<lambda>u. h_lift (unwrap ''Session Data must be set'' u))"

definition set_session_data :: "UserSession \<Rightarrow> ('s, unit) client" where
  "set_session_data session = (\<lambda>(_, s). ((Some session, s), Done ()))"

definition request :: "('s, 'r) handler \<Rightarrow> ('s, 'r option) client" where
  "request m = (\<lambda>(u, s). case m s of
       (s', Done r) \<Rightarrow> ((u, s'), Done (Some r))
     | (s', _) \<Rightarrow> ((u, s'), Done None))"

datatype GooseError = NoResponse | InvalidStatus StatusCode

definition build_send_and_check_request :: "('s, StatusCode \<times> 'a) handler \<Rightarrow> ('s, GooseError + unit) client" where
  "build_send_and_check_request m =
     h_bind (request m) (\<lambda>goose_response.
     h_return (case goose_response of
         None \<Rightarrow> Inl NoResponse
       | Some (status, _) \<Rightarrow> if status = 200 then Inr () else Inl (InvalidStatus status)))"

definition prepare_user_credentials :: "client_lib \<Rightarrow> string \<Rightarrow> prepared \<Rightarrow> ('s, GooseError + unit) client" where
  "prepare_user_credentials C provider_key pr =
     h_bind (h_lift (create_jwt_token C provider_key VALID_OIDC_AUD VALID_OIDC_ISS None (pr_sub pr) (pr_now pr))) (\<lambda>token.
     h_bind (h_lift (expect ''Failed to generate random account Id''
               (cl_account_id C (''acc-'' @ to_lowercase (pr_account pr) @ ''.near'')))) (\<lambda>near_account_id.
     h_bind (set_session_data \<lparr>us_jwt_token = OidcToken_new token, us_near_account_id = near_account_id,
               us_fa_sk = pr_fa_sk pr, us_la_sk = pr_la_sk pr, us_recovery_pk = None\<rparr>) (\<lambda>_.
     h_return (Inr ()))))"

text \<open>The signature that the requests about the user's credentials carry.\<close>

definition credentials_signature :: "client_lib \<Rightarrow> UserSession \<Rightarrow> dalek_signature exec" where
  "credentials_signature C session =
     exec_bind (expect ''Failed to create digest''
       (user_credentials_request_digest (cl_digest C) (us_jwt_token session) (cl_public_key C (us_fa_sk session)))) (\<lambda>digest.
     expect ''Failed to sign digest'' (sign_digest (cl_digest C) digest (us_fa_sk session)))"

definition client_user_credentials :: "client_lib \<Rightarrow> 's leader_lib \<Rightarrow> LeaderState \<Rightarrow> ('s, GooseError + unit) client" where
  "client_user_credentials C Z st =
     h_bind get_session_data (\<lambda>session.
     h_bind (h_lift (credentials_signature C session)) (\<lambda>frp_signature.
     h_bind (request (user_credentials_endpoint Z st
               \<lparr>ucr_oidc_token = us_jwt_token session, ucr_frp_signature = frp_signature,
                ucr_frp_public_key = cl_public_key C (us_fa_sk session)\<rparr>)) (\<lambda>goose_response.
     case goose_response of
       None \<Rightarrow> h_lift (Panics ''Expected response ... .'')
     | Some (_, ROk recovery_pk) \<Rightarrow>
         h_bind (set_session_data (session\<lparr>us_recovery_pk := Some recovery_pk\<rparr>)) (\<lambda>_. h_return (Inr ()))
     | Some (_, RErr msg) \<Rightarrow> h_lift (Panics ''UserCredentialsResponce has Error''))))"

definition client_mpc_public_key :: "'s leader_lib \<Rightarrow> (nat \<Rightarrow> nat) \<Rightarrow> LeaderState \<Rightarrow> ('s, GooseError + unit) client" where
  "client_mpc_public_key Z dur st = build_send_and_check_request (mpc_public_key Z dur st)"

definition client_claim_oidc :: "client_lib \<Rightarrow> 's leader_lib \<Rightarrow> LeaderState \<Rightarrow> ('s, GooseError + unit) client" where
  "client_claim_oidc C Z st =
     h_bind get_session_data (\<lambda>session.
     let oidc_token_hash = digest_hash (cl_digest C) (us_jwt_token session);
         frp_public_key = cl_public_key C (us_fa_sk session) in
     h_bind (h_lift (expect ''Failed to create digest''
               (claim_oidc_request_digest (cl_digest C) oidc_token_hash frp_public_key))) (\<lambda>request_digest.
     h_bind (h_lift (expect ''Failed to sign digest'' (sign_digest (cl_digest C) request_digest (us_fa_sk session)))) (\<lambda>frp_signature.
     build_send_and_check_request (claim_oidc Z st
       \<lparr>cor_oidc_token_hash = oidc_token_hash, cor_frp_public_key = frp_public_key, cor_frp_signature = frp_signature\<rparr>))))"

definition client_new_account :: "client_lib \<Rightarrow> 's leader_lib \<Rightarrow> LeaderState \<Rightarrow> ('s, GooseError + unit) client" where
  "client_new_account C Z st =
     h_bind get_session_data (\<lambda>session.
     let fa_public_key = cl_public_key C (us_fa_sk session) in
     h_bind (h_lift (credentials_signature C session)) (\<lambda>user_credentials_frp_signature.
     build_send_and_check_request (new_account_endpoint Z st
       \<lparr>nar_near_account_id = us_near_account_id session,
        nar_create_account_options = \<lparr>cao_full_access_keys = Some [fa_public_key], cao_limited_access_keys = None,
          cao_contract_bytes = None\<rparr>,
        nar_oidc_token = us_jwt_token session,
        nar_user_credentials_frp_signature = user_credentials_frp_signature,
        nar_frp_public_key = fa_public_key\<rparr>)))"

text \<open>The delegate action adds a new key, \<open>new_sk\<close>, with full access.\<close>

definition add_key_action :: "client_lib \<Rightarrow> UserSession \<Rightarrow> bytes \<Rightarrow> near_public_key \<Rightarrow> DelegateAction" where
  "add_key_action C session new_sk recovery_pk =
     \<lparr>da_sender_id = us_near_account_id session, da_receiver_id = us_near_account_id session,
      da_actions = [AddKey (cl_public_key C new_sk) \<lparr>ak_nonce = 0, ak_permission = FullAccess\<rparr>],
      da_nonce = 0, da_max_block_height = 0 + 100, da_public_key = recovery_pk\<rparr>"

definition client_sign :: "client_lib \<Rightarrow> 's leader_lib \<Rightarrow> LeaderState \<Rightarrow> bytes \<Rightarrow> ('s, GooseError + unit) client" where
  "client_sign C Z st new_sk =
     h_bind get_session_data (\<lambda>session.
     let fa_public_key = cl_public_key C (us_fa_sk session) in
     h_bind (h_lift (unwrap ''Recovery PK must be set before calling /sign'' (us_recovery_pk session))) (\<lambda>recovery_pk.
     let action = add_key_action C session new_sk recovery_pk in
     h_bind (h_lift (expect ''Failed to create digest''
               (sign_request_digest (cl_digest C) action (us_jwt_token session) fa_public_key))) (\<lambda>digest.
     h_bind (h_lift (expect ''Failed to sign digest'' (sign_digest (cl_digest C) digest (us_fa_sk session)))) (\<lambda>frp_signature.
     h_bind (h_lift (credentials_signature C session)) (\<lambda>user_credentials_frp_signature.
     h_bind (h_lift (expect ''Failed to serialize delegate action'' (cl_action_to_vec C action))) (\<lambda>action_bytes.
     build_send_and_check_request (sign_endpoint Z st
       \<lparr>msr_delegate_action = action_bytes, msr_oidc_token = us_jwt_token session, msr_frp_signature = frp_signature,
        msr_user_credentials_frp_signature = user_credentials_frp_signature, msr_frp_public_key = fa_public_key\<rparr>)))))))"

section \<open>Scenarios\<close>

datatype client_step =
    PrepareUserCredentials prepared
  | ClaimOidcToken
  | NewAccount
  | UserCredentials
  | Sign bytes
  | MpcPublicKey "nat \<Rightarrow> nat"

fun client_transaction ::
  "client_lib \<Rightarrow> string \<Rightarrow> 's leader_lib \<Rightarrow> LeaderState \<Rightarrow> client_step \<Rightarrow> ('s, GooseError + unit) client" where
  "client_transaction C provider_key Z st (PrepareUserCredentials pr) = prepare_user_credentials C provider_key pr"
| "client_transaction C provider_key Z st ClaimOidcToken = client_claim_oidc C Z st"
| "client_transaction C provider_key Z st NewAccount = client_new_account C Z st"
| "client_transaction C provider_key Z st UserCredentials = client_user_credentials C Z st"
| "client_transaction C provider_key Z st (Sign new_sk) = client_sign C Z st new_sk"
| "client_transaction C provider_key Z st (MpcPublicKey dur) = client_mpc_public_key Z dur st"

text \<open>
  The transactions of a user, one after the other; each meets the outside world (what the nodes
  fetch and draw) as it is then.
\<close>

fun client_run ::
  "client_lib \<Rightarrow> string \<Rightarrow> LeaderState \<Rightarrow> ('s leader_lib \<times> client_step) list \<Rightarrow> ('s, (GooseError + unit) list) client" where
  "client_run C provider_key st [] = h_return []"
| "client_run C provider_key st ((Z, step) # steps) =
     h_bind (client_transaction C provider_key Z st step) (\<lambda>r.
     h_bind (client_run C provider_key st steps) (\<lambda>rs. h_return (r # rs)))"

text \<open>The scenarios that \<open>main\<close> registers: their transactions with sequence numbers and weights.\<close>

datatype registered = TrPrepare | TrClaimOidc | TrNewAccount | TrUserCredentials | TrSign | TrMpcPublicKey

definition scenarios :: "(string \<times> (registered \<times> nat option \<times> nat option) list) list" where
  "scenarios =
     [(''registration'', [(TrPrepare, Some 1, None), (TrClaimOidc, Some 2, None), (TrNewAccount, Some 3, None)]),
      (''registrationAndSign'', [(TrPrepare, Some 1, None), (TrClaimOidc, Some 2, None), (TrNewAccount, Some 3, None),
         (TrUserCredentials, Some 4, None), (TrSign, Some 5, Some 1000)]),
      (''simpleClaimOidc'', [(TrPrepare, Some 1, None), (TrClaimOidc, Some 2, Some 100)]),
      (''simpleUserCredentials'', [(TrPrepare, Some 1, None), (TrClaimOidc, Some 2, None), (TrUserCredentials, Some 3, Some 100)]),
      (''simpleMpcPublicKey'', [(TrMpcPublicKey, None, None)])]"

end
