(* ===== verification/Recovery_Liveness.thy ===== *)
theory Recovery_Liveness
  imports Recovery_Client
begin

text \<open>
  The client, the leader and the sign nodes together: when the parts of the service are up, the
  user of the client is served. The sections follow a request down to the nodes and back:
  what must work, a node's answers, the leader's answers, and the transactions.
\<close>

section \<open>A service that is up\<close>

text \<open>
  What has to work: the datastore answers, and takes what is new; keys and shares can be
  written, encrypted, converted and combined; requests can be hashed.
\<close>

definition datastore_up :: "'d gcp_lib \<Rightarrow> ('d \<Rightarrow> string \<times> string \<Rightarrow> Entity option) \<Rightarrow> bool" where
  "datastore_up G view \<longleftrightarrow>
     (\<forall>(S :: GcpService) kind name d. \<exists>found. ds_lookup G (gcp_project S) (named_key kind name) d = Inr found) \<and>
     (\<forall>(S :: GcpService) kind name ps d. view d (kind, name) = None \<longrightarrow>
        snd (ds_commit G (gcp_project S) (MInsert (Some (named_key kind name), ps)) d) = Inr ())"

definition signer_up :: "aggsig_lib \<Rightarrow> bool" where
  "signer_up L \<longleftrightarrow> (\<forall>c p. \<exists>b. json_commitment L c p = Inr b) \<and>
     (\<forall>m k. \<exists>d. to_dalek_signature L (sign_single L m k) = Done (Inr d)) \<and>
     (\<forall>ks. ks \<noteq> [] \<longrightarrow> (\<exists>ka pk. key_aggregation_n L ks 0 = Done ka \<and> to_dalek_public_key L (ka_apk ka) = Inr pk))"

definition cipher_up :: "cipher_lib \<Rightarrow> bool" where
  "cipher_up A \<longleftrightarrow> (\<forall>p. \<exists>b. json_key_pair A p = Inr b) \<and> (\<forall>k n m. \<exists>c. aes_encrypt A k n m = Inr c)"

definition libs_up :: "'d sign_libs \<Rightarrow> ('d \<Rightarrow> string \<times> string \<Rightarrow> Entity option) \<Rightarrow> bool" where
  "libs_up X view \<longleftrightarrow> libs_ok X view \<and> aggsig_ok (sl_aggsig X) \<and> datastore_up (sl_gcp X) view \<and> signer_up (sl_aggsig X) \<and>
     cipher_up (sl_cipher X) \<and> (\<forall>r. \<exists>d. request_digest (sl_digest X) r = Inr d) \<and> (\<forall>a. \<exists>m. sl_signable X a = Inr m)"

lemma libs_upD:
  assumes "libs_up X view"
  shows "libs_ok X view" "aggsig_ok (sl_aggsig X)" "datastore_up (sl_gcp X) view" "signer_up (sl_aggsig X)" "cipher_up (sl_cipher X)"
    "\<exists>d. request_digest (sl_digest X) r = Inr d" "\<exists>m. sl_signable X a = Inr m"
  using assms by (simp_all add: libs_up_def)

lemma get_free:
  assumes "datastore_ok G S view" and "datastore_up G view" and "view d (env_kind S kind, n) = None"
  shows "gcp_get G S kind from_value n d = Done (Inr None)"
proof -
  obtain found where f: "ds_lookup G (gcp_project S) (named_key (env_kind S kind) n) d = Inr found"
    using assms(2) unfolding datastore_up_def by blast
  from datastore_lookup [OF assms(1) f] assms(3) f show ?thesis by (simp add: gcp_get_def)
qed

lemma get_held:
  assumes "datastore_ok G S view" and "datastore_up G view" and "store_holds view S kind from_value n d x"
  shows "gcp_get G S kind from_value n d = Done (Inr (Some x))"
proof -
  obtain found where f: "ds_lookup G (gcp_project S) (named_key (env_kind S kind) n) d = Inr found"
    using assms(2) unfolding datastore_up_def by blast
  from assms(3) obtain e where e: "view d (env_kind S kind, n) = Some e"
    "exec_bind (Entity_into_value e) (\<lambda>v. Done (from_value v)) = Done (Inr x)" by (auto simp: store_holds_def)
  then obtain v where "Entity_into_value e = Done v" "from_value v = Inr x" by (auto simp: exec_bind_eq_Done)
  with datastore_lookup [OF assms(1) f] e(1) f show ?thesis by (simp add: gcp_get_def)
qed

context stored_entity
begin

lemma insert_free:
  assumes "datastore_up G view" and "view d (env_kind S kind, name x) = None"
  shows "\<exists>d'. gcp_insert G S kind (into_value x) d = (d', Inr ())"
proof -
  obtain vs where vs: "into_value x = EntityValue (named_key kind (name x)) vs" using into_form by blast
  obtain ps where ps: "Entity_from_value (into_value x) = Inr (Some (named_key kind (name x)), Some ps)"
    using Entity_round_trip [of "named_key kind (name x)" vs] unfolding vs by blast
  have "snd (ds_commit G (gcp_project S) (MInsert (Some (named_key (env_kind S kind) (name x)), Some ps)) d) = Inr ()"
    using assms unfolding datastore_up_def by blast
  then obtain d' where "ds_commit G (gcp_project S) (MInsert (Some (named_key (env_kind S kind) (name x)), Some ps)) d = (d', Inr ())"
    by (metis prod.collapse)
  with ps show ?thesis by (simp add: gcp_insert_def gcp_commit_def suffix_kind_def named_key_def)
qed

end

lemma commitment_given:
  assumes "signer_up L"
  shows "\<exists>S' sc. get_commitment L key node_key m g S = Done (S', Inr sc)"
proof -
  have "\<exists>sc. SignedCommitment_create L c node_key key = Done (Inr sc)" for c
  proof -
    obtain b where "json_commitment L c (kp_public_key key) = Inr b" using assms unfolding signer_up_def by blast
    then obtain to_sign where "SignedCommitment_serialize L c (kp_public_key key) = Inr to_sign"
      by (simp add: SignedCommitment_serialize_def)
    moreover obtain d d' where "to_dalek_signature L (sign_single L [] key) = Done (Inr d)"
      "to_dalek_signature L (sign_single L to_sign node_key) = Done (Inr d')" using assms unfolding signer_up_def by metis
    ultimately show ?thesis by (simp add: SignedCommitment_create_def)
  qed
  then obtain sc where "SignedCommitment_create L (fst (snd (create_ephemeral L key m g))) node_key key = Done (Inr sc)" by blast
  then show ?thesis by (simp add: get_commitment_def Committed_commit_def case_prod_beta)
qed

lemma sign_commitment_given:
  assumes "signer_up (sl_aggsig X)"
  shows "\<exists>w' sc. sign_commitment X inp key m w = (w', Done (Inr sc))"
proof -
  obtain S sc where "get_commitment (sl_aggsig X) key (sn_node_key (sw_node w)) m (si_rng inp) (sn_signing_state (sw_node w)) = Done (S, Inr sc)"
    using commitment_given [OF assms] by blast
  then show ?thesis by (simp add: sign_commitment_def)
qed

lemma keeps_to: "h_keeps R m \<Longrightarrow> m s = (s', r) \<Longrightarrow> R s s'"
  by (metis fst_conv h_keeps_def)

section \<open>Requests to a node\<close>

text \<open>The token is the user's, or nobody's yet.\<close>

definition token_free ::
  "('d \<Rightarrow> string \<times> string \<Rightarrow> Entity option) \<Rightarrow> 'd sign_libs \<Rightarrow> 'd sign_world \<Rightarrow> OidcDigest \<Rightarrow> bool" where
  "token_free view X w dg \<longleftrightarrow> claimed view X w dg \<or>
     view (sw_store w) (env_kind (sn_gcp_service (sw_node w)) OidcDigest_kind, OidcDigest_to_name (sl_codec X) dg) = None"

lemma claim_granted:
  assumes up: "libs_up X view" and "length (conr_oidc_token_hash rq) = 32"
    and free: "token_free view X w \<lparr>od_node_id = our_index w, od_digest = conr_oidc_token_hash rq, od_public_key = conr_public_key rq\<rparr>"
    and sig: "\<And>d. claim_oidc_request_digest (sl_digest X) (conr_oidc_token_hash rq) (conr_public_key rq) = Inr d \<Longrightarrow>
      near_verify (sl_digest X) (NSigEd25519 (conr_signature rq)) d (conr_public_key rq)"
  shows "\<exists>w' sc. process_claim X inp rq w = (w', Done (Inr sc)) \<and>
    claimed view X w' \<lparr>od_node_id = our_index w, od_digest = conr_oidc_token_hash rq, od_public_key = conr_public_key rq\<rparr>"
proof -
  let ?dg = "\<lparr>od_node_id = our_index w, od_digest = conr_oidc_token_hash rq, od_public_key = conr_public_key rq\<rparr>"
  let ?S = "sn_gcp_service (sw_node w)"
  note ok = libs_upD(1) [OF up]
  obtain d p where d: "claim_oidc_request_digest (sl_digest X) (conr_oidc_token_hash rq) (conr_public_key rq) = Inr d"
    and p: "claim_oidc_response_digest (sl_digest X) (conr_signature rq) = Inr p"
    using libs_upD(6) [OF up, of "RClaim (conr_oidc_token_hash rq) (conr_public_key rq)"]
      libs_upD(6) [OF up, of "RClaimed (conr_signature rq)"] by auto
  have commit: "\<exists>w' sc. claim_commit X inp rq w1 = (w', Done (Inr sc))" for w1
    using p sign_commitment_given [OF libs_upD(4) [OF up]] by (simp add: claim_commit_def h_try_def h_bind_def h_read_def)
  have look: "claim_lookup X rq w = (w, Done (Inr (?dg, is_new)))"
    if "gcp_get (sl_gcp X) ?S OidcDigest_kind (OidcDigest_from_value (sl_codec X)) (OidcDigest_to_name (sl_codec X) ?dg) (sw_store w) =
      Done (Inr (if is_new then None else Some ?dg))" for is_new
    using that d sig [OF d] by (simp add: claim_lookup_def h_try_def h_bind_def h_read_def check_digest_signature_def store_get_def Let_def)
  show ?thesis
  proof (cases "claimed view X w ?dg")
    case True
    from get_held [OF libs_okD(3) [OF ok] libs_upD(3) [OF up] True [unfolded claimed_def]] look [of False]
    have l: "claim_lookup X rq w = (w, Done (Inr (?dg, False)))" by simp
    obtain w' sc where c: "claim_commit X inp rq w = (w', Done (Inr sc))" using commit by blast
    with l have r: "process_claim X inp rq w = (w', Done (Inr sc))" by (simp add: process_claim_def h_try_def h_bind_def)
    with keeps_commit [OF ok, of inp "ClaimOidc rq"] have "extends view w w'" by (metis fst_conv h_keeps_def process_commit.simps(1))
    from r claimed_mono [OF this True] show ?thesis by blast
  next
    case False
    with free have none: "view (sw_store w) (env_kind ?S OidcDigest_kind, OidcDigest_to_name (sl_codec X) ?dg) = None"
      by (simp add: token_free_def)
    from get_free [OF libs_okD(3) [OF ok] libs_upD(3) [OF up] this, of "OidcDigest_from_value (sl_codec X)"] look [of True]
    have l: "claim_lookup X rq w = (w, Done (Inr (?dg, True)))" by simp
    from oidc_digest.insert_free [OF libs_upD(3) [OF up] none]
    obtain w1 where rc: "claim_record X ?dg w = (w1, Done (Inr ()))"
      by (auto simp: claim_record_def store_insert_def h_map_err_def h_bind_def)
    obtain w' sc where c: "claim_commit X inp rq w1 = (w', Done (Inr sc))" using commit by blast
    from l rc c have r: "process_claim X inp rq w = (w', Done (Inr sc))" by (simp add: process_claim_def h_try_def h_bind_def)
    have "claimed view X w1 ?dg" by (rule claim_record_Inr [OF ok _ rc]) (simp add: assms(2))
    moreover have "extends view w1 w'"
      using c keeps_sign_commitment [of view X inp] p
      by (auto simp: claim_commit_def h_try_def h_bind_def h_read_def h_keeps_def) (metis fst_conv)
    ultimately show ?thesis using r claimed_mono by blast
  qed
qed

lemma creds_given:
  assumes up: "libs_up X view" and "creds_ok view X w"
  shows "\<exists>w' c. get_or_generate_user_creds X k a w = (w', Done (Inr c)) \<and> user_held view X w' a c \<and> sw_node w' = sw_node w \<and> has_key X w' c"
proof -
  let ?S = "sn_gcp_service (sw_node w)"
  note ok = libs_upD(1) [OF up]
  have "\<exists>w' c. get_or_generate_user_creds X k a w = (w', Done (Inr c))"
  proof (cases "view (sw_store w) (env_kind ?S EncryptedUserCredentials_kind, credentials_name (our_index w) a)")
    case None
    obtain b e where "json_key_pair (sl_cipher X) k = Inr b" "aes_encrypt (sl_cipher X) (sn_cipher (sw_node w)) zero_nonce b = Inr e"
      using libs_upD(5) [OF up] unfolding cipher_up_def by metis
    then obtain c where c: "EncryptedUserCredentials_new (sl_cipher X) (our_index w) a (sn_cipher (sw_node w)) k = Done (Inr c)"
      by (simp add: EncryptedUserCredentials_new_def)
    from new_credentials_decrypt [OF libs_okD(2) [OF ok] c] None
    have "view (sw_store w) (env_kind ?S EncryptedUserCredentials_kind, credentials_name (euc_node_id c) (euc_internal_account_id c)) = None"
      by simp
    from user_credentials.insert_free [OF libs_upD(3) [OF up] this, of "sl_codec X"] c
      get_free [OF libs_okD(3) [OF ok] libs_upD(3) [OF up] None, of "EncryptedUserCredentials_from_value (sl_codec X)"]
    show ?thesis
      by (auto simp: get_or_generate_user_creds_def h_try_def h_bind_def h_read_def store_get_def store_insert_def
          EncryptedUserCredentials_random_def)
  next
    case (Some e)
    with assms(2) obtain c where "user_held view X w a c" unfolding creds_ok_def by (metis option.distinct(1))
    from get_held [OF libs_okD(3) [OF ok] libs_upD(3) [OF up] this [unfolded user_held_def]] show ?thesis
      by (simp add: get_or_generate_user_creds_def h_try_def h_bind_def h_read_def store_get_def)
  qed
  then obtain w' c where r: "get_or_generate_user_creds X k a w = (w', Done (Inr c))" by blast
  note c = creds_Inr [OF ok r]
  from adv.keeps_at [OF creds_advance [OF ok], of w k a] r assms(2) have "creds_ok view X w'" by (simp add: advances_def)
  from r c creds_okD [OF this c(1)] show ?thesis by blast
qed

lemma check_claimed_given:
  assumes "libs_up X view" and "claimed view X w dg"
  shows "check_claimed X dg w = (w, Done (Inr ()))"
  using get_held [OF libs_okD(3) [OF libs_upD(1) [OF assms(1)]] libs_upD(3) [OF assms(1)] assms(2) [unfolded claimed_def]]
  by (simp add: check_claimed_def h_bind_def store_get_def)

text \<open>What the user signs with the key of the claim.\<close>

definition signs_for :: "digest_lib \<Rightarrow> near_public_key \<Rightarrow> dalek_signature \<Rightarrow> signed_request \<Rightarrow> bool" where
  "signs_for B pk sig r \<longleftrightarrow> (\<forall>d. request_digest B r = Inr d \<longrightarrow> near_verify B (NSigEd25519 sig) d pk)"

lemma checked:
  assumes "libs_up X view" and "signs_for (sl_digest X) pk sig r"
  shows "\<exists>d. request_digest (sl_digest X) r = Inr d \<and> check_digest_signature (sl_digest X) pk sig d = Inr ()"
  using assms libs_upD(6) [OF assms(1), of r] by (auto simp: signs_for_def check_digest_signature_def)

lemma public_key_given:
  assumes up: "libs_up X view" and creds: "creds_ok view X w"
    and claims: "verify_oidc_token (sl_jwt X) (si_jwt_keys inp) t None = Inr claims"
    and cl: "claimed view X w (share_digest X w t pk)" and sig: "signs_for (sl_digest X) pk usig (RCredentials t pk)"
  shows "\<exists>w' k. public_key_endpoint X inp \<lparr>pknr_oidc_token = t, pknr_frp_signature = usig, pknr_frp_public_key = pk\<rparr> w = (w', Done (200, Inr k))"
proof -
  from checked [OF up sig] obtain d where "user_credentials_request_digest (sl_digest X) t pk = Inr d"
    "check_digest_signature (sl_digest X) pk usig d = Inr ()" by auto
  moreover obtain w' c where "get_or_generate_user_creds X (si_drawn inp) (get_internal_account_id claims) w = (w', Done (Inr c))"
    using creds_given [OF up creds] by blast
  ultimately show ?thesis using claims check_claimed_given [OF up cl]
    by (simp add: public_key_endpoint_def process_public_key_def h_try_def h_bind_def h_map_err_def h_read_def Let_def share_digest_def respond_def)
qed

lemma share_given:
  assumes up: "libs_up X view" and creds: "creds_ok view X w" and "node_keys w \<noteq> None"
    and claims: "verify_oidc_token (sl_jwt X) (si_jwt_keys inp) t None = Inr claims"
    and cl: "claimed view X w (share_digest X w t pk)" and sig: "signs_for (sl_digest X) pk fsig (RSign action t pk)"
  shows "\<exists>w' sc. commit_endpoint X inp (SignShare \<lparr>ssnr_oidc_token = t, ssnr_delegate_action = action, ssnr_frp_signature = fsig,
    ssnr_frp_public_key = pk\<rparr>) w = (w', Done (200, Inr sc))"
proof -
  from checked [OF up sig] obtain d where d: "sign_request_digest (sl_digest X) action t pk = Inr d"
    "check_digest_signature (sl_digest X) pk fsig d = Inr ()" by auto
  obtain w1 c where c: "get_or_generate_user_creds X (si_drawn inp) (get_internal_account_id claims) w = (w1, Done (Inr c))"
    "sw_node w1 = sw_node w" "has_key X w1 c" using creds_given [OF up creds] by blast
  from c(2,3) obtain key where key: "decrypt_key_pair (sl_cipher X) c (sn_cipher (sw_node w)) = Done (Inr key)" by (auto simp: has_key_def)
  obtain m where m: "sl_signable X action = Inr m" using libs_upD(7) [OF up] by blast
  obtain w' sc where s: "sign_commitment X inp key (sl_near_hash X m) w1 = (w', Done (Inr sc))"
    using sign_commitment_given [OF libs_upD(4) [OF up]] by blast
  have "process_sign_share X inp \<lparr>ssnr_oidc_token = t, ssnr_delegate_action = action, ssnr_frp_signature = fsig, ssnr_frp_public_key = pk\<rparr> w =
      (w', Done (Inr sc))"
    using d c(1) key m s claims check_claimed_given [OF up cl]
    by (simp add: process_sign_share_def h_try_def h_bind_def h_map_err_def h_read_def Let_def share_digest_def)
  with assms(3) show ?thesis
    by (auto simp: commit_endpoint_def when_ready_def check_if_ready_def h_bind_def respond_def case_unit_Unity)
qed

section \<open>Requests to the leader\<close>

definition serves ::
  "('d \<Rightarrow> string \<times> string \<Rightarrow> Entity option) \<Rightarrow> 'd sign_libs \<Rightarrow> string list \<Rightarrow> OidcToken \<Rightarrow> near_public_key \<Rightarrow> 'd deployment \<Rightarrow> bool" where
  "serves view X us t pk W \<longleftrightarrow> ready_in_order W us \<and> (\<forall>u. creds_ok view X (W u)) \<and>
     (\<forall>u \<in> set us. claimed view X (W u) (share_digest X (W u) t pk))"

lemma serves_later: "later view X W W' \<Longrightarrow> serves view X us t pk W \<Longrightarrow> serves view X us t pk W'"
proof -
  assume l: "later view X W W'" and s: "serves view X us t pk W"
  have "share_digest X (W' u) t pk = share_digest X (W u) t pk" for u
    using laterD(1) [OF l, of u] by (simp add: share_digest_def extends_def)
  with l s claimed_mono [OF laterD(1) [OF l]] laterD(2,3) [OF l] show ?thesis by (simp add: serves_def)
qed

lemma serves_ready: "serves view X us t pk W \<Longrightarrow> u \<in> set us \<Longrightarrow> node_keys (W u) \<noteq> None"
  by (auto simp: serves_def in_set_conv_nth dest: ready_in_orderD(2))

lemma all_answer:
  assumes "distinct us" and "\<And>u. u \<in> set us \<Longrightarrow> \<exists>w' x. h u (W u) = (w', Done (200, Inr x))"
  shows "\<exists>W' xs. call_all_nodes (on_node h) us W = (W', Done (Inr xs)) \<and> length xs = length us"
proof -
  from assms(2) have "\<forall>i. \<exists>x. i < length us \<longrightarrow> snd (h (us ! i) (W (us ! i))) = Done (200, Inr x)" by (metis nth_mem snd_conv)
  then obtain x where x: "\<And>i. i < length us \<Longrightarrow> snd (h (us ! i) (W (us ! i))) = Done (200, Inr (x i))" by metis
  show ?thesis
    by (rule exI, rule exI [of _ "map x [0..<length us]"], rule conjI, rule call_all_nodes_answers [OF assms(1)]) (use x in auto)
qed

text \<open>The nodes fetch keys of the issuer under which the token is valid.\<close>

definition known_issuer :: "jwt_lib \<Rightarrow> (string \<Rightarrow> sign_inputs) \<Rightarrow> string list \<Rightarrow> OidcToken \<Rightarrow> IdTokenClaims \<Rightarrow> bool" where
  "known_issuer J inp us t claims \<longleftrightarrow> (\<forall>u \<in> set us. verify_oidc_token J (si_jwt_keys (inp u)) t None = Inr claims)"

lemma told_given:
  assumes up: "libs_up X view" and s: "serves view X us t pk W" and issuer: "known_issuer (sl_jwt X) inp us t claims"
    and sig: "signs_for (sl_digest X) pk usig (RCredentials t pk)"
  shows "\<exists>W' rk. nar_retry (\<lambda>_. get_user_recovery_pk (deployed X inp Z) us t usig pk) W = (W', Done (Inr rk)) \<and> serves view X us t pk W'"
proof -
  have us: "distinct us" "us \<noteq> []" using s by (auto simp: serves_def ready_in_order_def)
  let ?h = "\<lambda>n. public_key_endpoint X (inp n) \<lparr>pknr_oidc_token = t, pknr_frp_signature = usig, pknr_frp_public_key = pk\<rparr>"
  have "\<exists>w' k. ?h u (W u) = (w', Done (200, Inr k))" if "u \<in> set us" for u
    by (rule public_key_given [OF up _ _ _ sig]) (use s issuer that in \<open>simp_all add: serves_def known_issuer_def\<close>)
  from all_answer [OF us(1), of ?h, OF this] obtain W' keys where
    call: "call_all_nodes (on_node ?h) us W = (W', Done (Inr keys))" "length keys = length us" by blast
  with us(2) have "keys \<noteq> []" by auto
  then obtain ka k where "key_aggregation_n (sl_aggsig X) keys 0 = Done ka" "to_dalek_public_key (sl_aggsig X) (ka_apk ka) = Inr k"
    using libs_upD(4) [OF up] unfolding signer_up_def by blast
  with call have g: "get_user_recovery_pk (deployed X inp Z) us t usig pk W = (W', Done (Inr (ED25519 k)))"
    by (simp add: get_user_recovery_pk_def deployed_def h_try_def h_bind_def)
  have n: "nar_retry (\<lambda>_. get_user_recovery_pk (deployed X inp Z) us t usig pk) W = (W', Done (Inr (ED25519 k)))"
    by (rule nar_retry_first [where task = "\<lambda>_. get_user_recovery_pk (deployed X inp Z) us t usig pk"]) (rule g)
  with serves_later [OF told_again(2) [OF libs_upD(1) [OF up] n] s] show ?thesis by blast
qed

lemma signed_given:
  assumes up: "libs_up X view" and s: "serves view X us t pk W" and issuer: "known_issuer (sl_jwt X) inp us t claims"
    and sig: "signs_for (sl_digest X) pk fsig (RSign action t pk)"
  shows "\<exists>W' sg. nar_retry (\<lambda>_. get_mpc_signature (deployed X inp Z) us t action fsig pk) W = (W', Done (Inr sg)) \<and> serves view X us t pk W'"
proof -
  let ?rq = "SignShare \<lparr>ssnr_oidc_token = t, ssnr_delegate_action = action, ssnr_frp_signature = fsig, ssnr_frp_public_key = pk\<rparr>"
  have ready: "ready_in_order W us" using s by (simp add: serves_def)
  then have us: "distinct us" by (simp add: ready_in_order_def)
  have "\<exists>w' sc. commit_endpoint X (inp u) ?rq (W u) = (w', Done (200, Inr sc))" if "u \<in> set us" for u
    by (rule share_given [OF up _ serves_ready [OF s that] _ _ sig]) (use s issuer that in \<open>simp_all add: serves_def known_issuer_def\<close>)
  from all_answer [OF us, of "\<lambda>n. commit_endpoint X (inp n) ?rq", OF this] obtain W1 cs where
    "call_all_nodes (on_node (\<lambda>n. commit_endpoint X (inp n) ?rq)) us W = (W1, Done (Inr cs))" by blast
  then obtain W' sg where sg: "sign_payload_with_mpc (deployed X inp Z) us ?rq W = (W', Done (Inr sg))"
    by (rule round_signs [where Z = Z, OF libs_upD(2) [OF up] ready]) (rule that)
  then have "later view X W W'" by (rule keeps_to [OF sign_payload_later [OF libs_upD(1) [OF up]]])
  moreover have "nar_retry (\<lambda>_. get_mpc_signature (deployed X inp Z) us t action fsig pk) W = (W', Done (Inr sg))"
    by (rule nar_retry_first [where task = "\<lambda>_. get_mpc_signature (deployed X inp Z) us t action fsig pk"])
      (use sg in \<open>simp add: get_mpc_signature_def\<close>)
  ultimately show ?thesis using serves_later s by blast
qed

lemma claim_given:
  assumes up: "libs_up X view" and ready: "ready_in_order W us" and creds: "\<And>u. creds_ok view X (W u)"
    and free: "\<And>u. u \<in> set us \<Longrightarrow> token_free view X (W u) (share_digest X (W u) t pk)"
    and sig: "signs_for (sl_digest X) pk csig (RClaim (digest_hash (sl_digest X) t) pk)"
  shows "\<exists>W' sg. sign_payload_with_mpc (deployed X inp Z) us (ClaimOidc \<lparr>conr_oidc_token_hash = digest_hash (sl_digest X) t,
    conr_public_key = pk, conr_signature = csig\<rparr>) W = (W', Done (Inr sg)) \<and> serves view X us t pk W'"
proof -
  let ?cl = "\<lparr>conr_oidc_token_hash = digest_hash (sl_digest X) t, conr_public_key = pk, conr_signature = csig\<rparr>"
  let ?h = "\<lambda>n. commit_endpoint X (inp n) (ClaimOidc ?cl)"
  note ok = libs_upD(1) [OF up]
  have us: "distinct us" using ready by (simp add: ready_in_order_def)
  have node: "\<exists>w' sc. ?h u (W u) = (w', Done (200, Inr sc)) \<and> claimed view X w' (share_digest X (W u) t pk)" if "u \<in> set us" for u
  proof -
    have "\<exists>w' sc. process_claim X (inp u) ?cl (W u) = (w', Done (Inr sc)) \<and> claimed view X w' (share_digest X (W u) t pk)"
      using claim_granted [OF up, of ?cl "W u" "inp u"] free [OF that] sig libs_okD(4) [OF ok]
      by (simp add: share_digest_def signs_for_def)
    moreover have "node_keys (W u) \<noteq> None" using ready_in_orderD(2) [OF ready] that by (auto simp: in_set_conv_nth)
    ultimately show ?thesis
      by (auto simp: commit_endpoint_def when_ready_def check_if_ready_def h_bind_def respond_def case_unit_Unity)
  qed
  with all_answer [OF us, of ?h W] obtain W1 cs where call: "call_all_nodes (on_node ?h) us W = (W1, Done (Inr cs))" by blast
  then obtain W' sg where sg: "sign_payload_with_mpc (deployed X inp Z) us (ClaimOidc ?cl) W = (W', Done (Inr sg))"
    by (rule round_signs [where Z = Z, OF libs_upD(2) [OF up] ready]) (rule that)
  let ?rest = "\<lambda>commitments. h_try (call_all_nodes (ll_reveal (deployed X inp Z) commitments) us) (\<lambda>reveals.
     h_try (call_all_nodes (ll_signature_share (deployed X inp Z) reveals) us) (\<lambda>signature_shares.
     h_map_err LE_AggregateSigningFailed
       (h_bind (h_lift (add_signature_parts (ll_aggsig (deployed X inp Z)) signature_shares)) (\<lambda>raw_sig.
        h_lift (to_dalek_signature (ll_aggsig (deployed X inp Z)) raw_sig)))))"
  have "h_try (call_all_nodes (on_node ?h) us) ?rest W = (W', Done (Inr sg))"
    using sg unfolding sign_payload_with_mpc_def deployed_simps .
  from iffD1 [OF h_try_Inr this] call have rest: "?rest cs W1 = (W', Done (Inr sg))" by force
  have keeps: "h_keeps (later view X) (?rest cs)"
    by (intro later.keeps_try later.keeps_map_err later.keeps_bind later.keeps_lift later.keeps_call_all deployed_later ok)
  note l1 = keeps_to [OF keeps rest]
  have l: "later view X W W'" by (rule keeps_to [OF sign_payload_later [OF ok] sg])
  have "claimed view X (W' u) (share_digest X (W' u) t pk)" if "u \<in> set us" for u
  proof -
    have "W1 u = fst (?h u (W u))" using call_all_nodes_Inr(1) [OF us call] that by simp
    with node [OF that] have "claimed view X (W1 u) (share_digest X (W u) t pk)" by auto
    moreover have "share_digest X (W' u) t pk = share_digest X (W u) t pk"
      using laterD(1) [OF l, of u] by (simp add: share_digest_def extends_def)
    ultimately show ?thesis using claimed_mono [OF laterD(1) [OF l1, of u]] by simp
  qed
  with sg l creds ready laterD(2,3) [OF l] show ?thesis unfolding serves_def by blast
qed

text \<open>The leader and the relayers, which leave the sign nodes alone.\<close>

definition relayer_up :: "'s leader_lib \<Rightarrow> bool" where
  "relayer_up Z \<longleftrightarrow> (\<forall>s. fst (ll_signer Z s) = s) \<and>
     (\<forall>a k s. \<exists>x. fetch_nonce (ll_relayer Z) a k s = (s, Inr x)) \<and> (\<forall>rq. \<exists>b. json_atomic (ll_relayer Z) rq = Inr b) \<and>
     (\<forall>url key b. \<exists>r. build_request (ll_relayer Z) url key b = Inr r) \<and>
     (\<forall>r s. \<exists>body msg. http_send (ll_relayer Z) r s = (s, Inr (200, Inr body)) \<and> from_utf8 (ll_relayer Z) body = Inr msg)"

lemma account_created:
  assumes "relayer_up Z"
  shows "\<exists>x. nar_retry (\<lambda>_. new_account_attempt Z st rq acc partner rk) s = (s, Done (Inr x))"
proof -
  obtain signer where signer: "ll_signer Z s = (s, signer)" using assms unfolding relayer_up_def by (metis prod.collapse)
  obtain nonce hash height where n: "fetch_nonce (ll_relayer Z) (ims_account_id signer) (ims_public_key signer) s = (s, Inr (nonce, hash, height))"
    using assms unfolding relayer_up_def by (metis prod_cases3)
  obtain action where a: "new_create_account_delegate_action (ll_json_args Z) (ll_sign_action Z) signer
      (nar_near_account_id rq) (add_recovery_key rk (nar_create_account_options rq)) (ls_near_root_account st) nonce (height + 100) = Inr action"
    by (simp add: new_create_account_delegate_action_def Let_def)
  obtain b where b: "json_atomic (ll_relayer Z) \<lparr>caar_account_id = nar_near_account_id rq, caar_allowance = 300000000000000,
      caar_oauth_token = acc, caar_signed_delegate_action = action\<rparr> = Inr b" using assms unfolding relayer_up_def by blast
  obtain r where r: "build_request (ll_relayer Z) (dar_url (fap_relayer partner) @ ''/create_account_atomic'') (dar_api_key (fap_relayer partner)) b = Inr r"
    using assms unfolding relayer_up_def by blast
  obtain body msg where h: "http_send (ll_relayer Z) r s = (s, Inr (200, Inr body))" "from_utf8 (ll_relayer Z) body = Inr msg"
    using assms unfolding relayer_up_def by blast
  have "\<exists>x. new_account_attempt Z st rq acc partner rk s = (s, Done (Inr x))"
    using signer n a b r h
    by (simp add: new_account_attempt_def access_key_def create_account_atomic_def relayer_post_def is_success_def
        h_try_def h_bind_def h_map_err_def Let_def case_unit_Unity)
  then obtain x where "new_account_attempt Z st rq acc partner rk s = (s, Done (Inr x))" by blast
  then have "nar_retry (\<lambda>_. new_account_attempt Z st rq acc partner rk) s = (s, Done (Inr x))"
    by (rule nar_retry_first [where task = "\<lambda>_. new_account_attempt Z st rq acc partner rk"])
  then show ?thesis by blast
qed

text \<open>
  The whole service, with the client's crates: digests and tokens are computed alike on all
  sides, actions read back, the test issuer is a partner, and its tokens are valid under a key
  that the leader fetches.
\<close>

definition service_up ::
  "client_lib \<Rightarrow> string \<Rightarrow> string \<Rightarrow> 'd sign_libs \<Rightarrow> ('d \<Rightarrow> string \<times> string \<Rightarrow> Entity option) \<Rightarrow> 'd deployment leader_lib \<Rightarrow> LeaderState \<Rightarrow> bool" where
  "service_up C provider_key issuer_key X view Z st \<longleftrightarrow> libs_up X view \<and> relayer_up Z \<and>
     cl_digest C = sl_digest X \<and> ll_digest Z = sl_digest X \<and> ll_jwt Z = sl_jwt X \<and>
     (\<forall>session sk rk. \<exists>b. cl_action_to_vec C (add_key_action C session sk rk) = Inr b \<and>
        ll_delegate_action Z b = Inr (add_key_action C session sk rk)) \<and>
     (\<exists>partner. PartnerList_find (ls_partners st) VALID_OIDC_ISS VALID_OIDC_AUD = Inr partner) \<and>
     (\<forall>W. \<exists>ks. ll_jwt_keys Z W = Inr ks \<and> issuer_key \<in> set ks) \<and>
     (\<forall>k claims t. cl_rsa_pem_key C (string_bytes provider_key) = Inr k \<longrightarrow> cl_jwt_encode C RS256 claims k = Inr t \<longrightarrow>
        valid_under (sl_jwt X) None (OidcToken_new t) issuer_key claims)"

lemma service_upD:
  assumes "service_up C provider_key issuer_key X view Z st"
  shows "libs_up X view" "relayer_up Z" "cl_digest C = sl_digest X" "ll_digest Z = sl_digest X" "ll_jwt Z = sl_jwt X"
    "\<exists>b. cl_action_to_vec C (add_key_action C session sk rk) = Inr b \<and> ll_delegate_action Z b = Inr (add_key_action C session sk rk)"
    "\<exists>partner. PartnerList_find (ls_partners st) VALID_OIDC_ISS VALID_OIDC_AUD = Inr partner"
    "\<exists>ks. ll_jwt_keys Z W = Inr ks \<and> issuer_key \<in> set ks"
  using assms by (simp_all add: service_up_def)

lemma relayer_up_deployed: "relayer_up Z \<Longrightarrow> relayer_up (deployed X inp Z)"
  by (simp add: relayer_up_def deployed_def)

text \<open>The tokens of the client, as the nodes and the leader see them.\<close>

definition fetches :: "string \<Rightarrow> (string \<Rightarrow> sign_inputs) \<Rightarrow> string list \<Rightarrow> bool" where
  "fetches issuer_key inp us \<longleftrightarrow> (\<forall>u \<in> set us. \<exists>ks. si_jwt_keys (inp u) = Inr ks \<and> issuer_key \<in> set ks)"

definition token_valid :: "string \<Rightarrow> 'd sign_libs \<Rightarrow> 'd deployment leader_lib \<Rightarrow> LeaderState \<Rightarrow> OidcToken \<Rightarrow> bool" where
  "token_valid issuer_key X Z st t \<longleftrightarrow> (\<exists>claims. itc_iss claims = VALID_OIDC_ISS \<and> itc_aud claims = VALID_OIDC_AUD \<and>
     (\<forall>inp us. fetches issuer_key inp us \<longrightarrow> known_issuer (sl_jwt X) inp us t claims) \<and>
     (\<forall>inp W. leader_verify (deployed X inp Z) st t W = (W, Done (Inr claims))))"

lemma valid_token:
  assumes up: "service_up C provider_key issuer_key X view Z st"
    and token: "create_jwt_token C provider_key VALID_OIDC_AUD VALID_OIDC_ISS None sub now = Done t"
  shows "token_valid issuer_key X Z st (OidcToken_new t)"
proof -
  let ?claims = "\<lparr>itc_iss = VALID_OIDC_ISS, itc_sub = sub, itc_aud = VALID_OIDC_AUD, itc_exp = of_int (now + 3600)\<rparr>"
  from token obtain k where k: "cl_rsa_pem_key C (string_bytes provider_key) = Inr k" "cl_jwt_encode C RS256 ?claims k = Inr t"
    by (auto simp: create_jwt_token_def Let_def expect_def exec_bind_eq_Done split: sum.splits)
  with up have v: "valid_under (sl_jwt X) None (OidcToken_new t) issuer_key ?claims"
    unfolding service_up_def by blast
  from service_upD(7) [OF up] have "OidcProviderList_contains (PartnerList_oidc_providers (ls_partners st)) VALID_OIDC_ISS VALID_OIDC_AUD"
    by (simp add: partners_agree)
  with v have v': "valid_under (sl_jwt X) (Some (PartnerList_oidc_providers (ls_partners st))) (OidcToken_new t) issuer_key ?claims"
    by (auto simp: valid_under_def)
  have verify: "verify_oidc_token (sl_jwt X) (Inr ks) (OidcToken_new t) providers = Inr ?claims"
    if "issuer_key \<in> set ks" and "valid_under (sl_jwt X) providers (OidcToken_new t) issuer_key ?claims" for ks providers
    unfolding verify_oidc_token_def sum.case try_keys_Inr using that by blast
  have "known_issuer (sl_jwt X) inp us (OidcToken_new t) ?claims" if "fetches issuer_key inp us" for inp us
    unfolding known_issuer_def
  proof
    fix u assume "u \<in> set us"
    with that obtain ks where "si_jwt_keys (inp u) = Inr ks" "issuer_key \<in> set ks" unfolding fetches_def by blast
    with verify [OF _ v] show "verify_oidc_token (sl_jwt X) (si_jwt_keys (inp u)) (OidcToken_new t) None = Inr ?claims" by simp
  qed
  moreover have "leader_verify (deployed X inp Z) st (OidcToken_new t) W = (W, Done (Inr ?claims))" for inp W
  proof -
    obtain ks where "ll_jwt_keys Z W = Inr ks" "issuer_key \<in> set ks" using service_upD(8) [OF up, of W] by blast
    with verify [OF _ v'] service_upD(5) [OF up] show ?thesis by (simp add: leader_verify_def deployed_def)
  qed
  ultimately show ?thesis unfolding token_valid_def by (intro exI [of _ ?claims]) simp
qed

lemma claim_answered:
  assumes up: "service_up C provider_key issuer_key X view Z st" and ready: "ready_in_order W (ls_sign_nodes st)"
    and creds: "\<And>u. creds_ok view X (W u)"
    and free: "\<And>u. u \<in> set (ls_sign_nodes st) \<Longrightarrow> token_free view X (W u) (share_digest X (W u) t pk)"
    and sig: "signs_for (sl_digest X) pk csig (RClaim (digest_hash (sl_digest X) t) pk)"
  shows "\<exists>W' sg. claim_oidc (deployed X inp Z) st
      \<lparr>cor_oidc_token_hash = digest_hash (sl_digest X) t, cor_frp_public_key = pk, cor_frp_signature = csig\<rparr> W = (W', Done (200, ROk sg)) \<and>
    serves view X (ls_sign_nodes st) t pk W'"
proof -
  from claim_given [OF service_upD(1) [OF up] ready creds free sig] obtain W' sg where
    "sign_payload_with_mpc (deployed X inp Z) (ls_sign_nodes st) (ClaimOidc \<lparr>conr_oidc_token_hash = digest_hash (sl_digest X) t,
       conr_public_key = pk, conr_signature = csig\<rparr>) W = (W', Done (Inr sg))" "serves view X (ls_sign_nodes st) t pk W'" by blast
  then show ?thesis by (simp add: claim_oidc_def h_bind_def leader_respond_def)
qed

lemma credentials_answered:
  assumes up: "service_up C provider_key issuer_key X view Z st" and t: "token_valid issuer_key X Z st t"
    and f: "fetches issuer_key inp (ls_sign_nodes st)" and s: "serves view X (ls_sign_nodes st) t pk W"
    and sig: "signs_for (sl_digest X) pk usig (RCredentials t pk)"
  shows "\<exists>W' rk. user_credentials_endpoint (deployed X inp Z) st
      \<lparr>ucr_oidc_token = t, ucr_frp_signature = usig, ucr_frp_public_key = pk\<rparr> W = (W', Done (200, ROk rk)) \<and>
    serves view X (ls_sign_nodes st) t pk W'"
proof -
  from t f obtain claims where c: "known_issuer (sl_jwt X) inp (ls_sign_nodes st) t claims"
    "leader_verify (deployed X inp Z) st t W = (W, Done (Inr claims))" unfolding token_valid_def by blast
  from told_given [OF service_upD(1) [OF up] s c(1) sig] obtain W' rk where
    "nar_retry (\<lambda>_. get_user_recovery_pk (deployed X inp Z) (ls_sign_nodes st) t usig pk) W = (W', Done (Inr rk))"
    "serves view X (ls_sign_nodes st) t pk W'" by blast
  with c(2) show ?thesis
    by (simp add: user_credentials_endpoint_def process_user_credentials_def h_try_def h_bind_def leader_respond_def)
qed

lemma account_answered:
  assumes up: "service_up C provider_key issuer_key X view Z st" and t: "token_valid issuer_key X Z st t"
    and f: "fetches issuer_key inp (ls_sign_nodes st)" and s: "serves view X (ls_sign_nodes st) t pk W"
    and sig: "signs_for (sl_digest X) pk usig (RCredentials t pk)"
  shows "\<exists>W' x. new_account_endpoint (deployed X inp Z) st
      \<lparr>nar_near_account_id = acc, nar_create_account_options = options, nar_oidc_token = t,
       nar_user_credentials_frp_signature = usig, nar_frp_public_key = pk\<rparr> W = (W', Done (200, ROk x)) \<and>
    serves view X (ls_sign_nodes st) t pk W'"
proof -
  let ?rq = "\<lparr>nar_near_account_id = acc, nar_create_account_options = options, nar_oidc_token = t,
       nar_user_credentials_frp_signature = usig, nar_frp_public_key = pk\<rparr>"
  from t f obtain claims where c: "itc_iss claims = VALID_OIDC_ISS" "itc_aud claims = VALID_OIDC_AUD"
    "known_issuer (sl_jwt X) inp (ls_sign_nodes st) t claims"
    "leader_verify (deployed X inp Z) st t W = (W, Done (Inr claims))" unfolding token_valid_def by blast
  from checked [OF service_upD(1) [OF up] sig] obtain d where d: "user_credentials_request_digest (sl_digest X) t pk = Inr d"
    "check_digest_signature (sl_digest X) pk usig d = Inr ()" by auto
  obtain partner where p: "PartnerList_find (ls_partners st) VALID_OIDC_ISS VALID_OIDC_AUD = Inr partner"
    using service_upD(7) [OF up] by blast
  from told_given [OF service_upD(1) [OF up] s c(3) sig] obtain W' rk where
    told: "nar_retry (\<lambda>_. get_user_recovery_pk (deployed X inp Z) (ls_sign_nodes st) t usig pk) W = (W', Done (Inr rk))"
    and s': "serves view X (ls_sign_nodes st) t pk W'" by blast
  from account_created [OF relayer_up_deployed [OF service_upD(2) [OF up]]] obtain x where
    "nar_retry (\<lambda>_. new_account_attempt (deployed X inp Z) st ?rq (get_internal_account_id claims) partner rk) W' = (W', Done (Inr x))"
    by blast
  moreover have "ll_digest (deployed X inp Z) = sl_digest X" using service_upD(4) [OF up] by (simp add: deployed_def)
  ultimately have "new_account_endpoint (deployed X inp Z) st ?rq W = (W', Done (200, ROk x))" using told c d p
    by (simp add: new_account_endpoint_def process_new_account_def h_try_def h_bind_def leader_respond_def Let_def)
  with s' show ?thesis by blast
qed

lemma sign_answered:
  assumes up: "service_up C provider_key issuer_key X view Z st" and t: "token_valid issuer_key X Z st t"
    and f: "fetches issuer_key inp (ls_sign_nodes st)" and s: "serves view X (ls_sign_nodes st) t pk W"
    and usig: "signs_for (sl_digest X) pk usig (RCredentials t pk)" and fsig: "signs_for (sl_digest X) pk fsig (RSign action t pk)"
    and action: "ll_delegate_action Z b = Inr action" "\<And>rk. check_actions rk (da_actions action) = Inr ()"
  shows "\<exists>W' sg. sign_endpoint (deployed X inp Z) st
      \<lparr>msr_delegate_action = b, msr_oidc_token = t, msr_frp_signature = fsig, msr_user_credentials_frp_signature = usig,
       msr_frp_public_key = pk\<rparr> W = (W', Done (200, ROk sg)) \<and> serves view X (ls_sign_nodes st) t pk W'"
proof -
  from t f obtain claims where c: "known_issuer (sl_jwt X) inp (ls_sign_nodes st) t claims"
    "leader_verify (deployed X inp Z) st t W = (W, Done (Inr claims))" unfolding token_valid_def by blast
  from told_given [OF service_upD(1) [OF up] s c(1) usig] obtain W1 rk where
    told: "nar_retry (\<lambda>_. get_user_recovery_pk (deployed X inp Z) (ls_sign_nodes st) t usig pk) W = (W1, Done (Inr rk))"
    and s1: "serves view X (ls_sign_nodes st) t pk W1" by blast
  from signed_given [OF service_upD(1) [OF up] s1 c(1) fsig] obtain W' sg where
    "nar_retry (\<lambda>_. get_mpc_signature (deployed X inp Z) (ls_sign_nodes st) t action fsig pk) W1 = (W', Done (Inr sg))"
    and s': "serves view X (ls_sign_nodes st) t pk W'" by blast
  moreover have "ll_delegate_action (deployed X inp Z) b = Inr action" using action(1) by (simp add: deployed_def)
  ultimately have "sign_endpoint (deployed X inp Z) st
      \<lparr>msr_delegate_action = b, msr_oidc_token = t, msr_frp_signature = fsig, msr_user_credentials_frp_signature = usig,
       msr_frp_public_key = pk\<rparr> W = (W', Done (200, ROk sg))"
    using told c(2) action(2) by (simp add: sign_endpoint_def process_sign_def h_try_def h_bind_def h_map_err_def leader_respond_def)
  with s' show ?thesis by blast
qed

section \<open>Transactions that succeed\<close>

text \<open>The secret key signs what its public key verifies.\<close>

definition key_signs :: "client_lib \<Rightarrow> bytes \<Rightarrow> bool" where
  "key_signs C sk \<longleftrightarrow> (\<forall>d. \<exists>sig. near_sign (cl_digest C) sk d = NSigEd25519 sig \<and>
     near_verify (cl_digest C) (NSigEd25519 sig) d (cl_public_key C sk))"

lemma signature_given:
  assumes up: "service_up C provider_key issuer_key X view Z st" and k: "key_signs C sk"
  obtains d sig where "request_digest (cl_digest C) r = Inr d" and "sign_digest (cl_digest C) d sk = Inr sig"
    and "signs_for (sl_digest X) (cl_public_key C sk) sig r"
proof -
  note B = service_upD(3) [OF up]
  obtain d where d: "request_digest (cl_digest C) r = Inr d" using libs_upD(6) [OF service_upD(1) [OF up]] B by metis
  moreover from k obtain sig where sig: "near_sign (cl_digest C) sk d = NSigEd25519 sig"
    "near_verify (cl_digest C) (NSigEd25519 sig) d (cl_public_key C sk)" unfolding key_signs_def by blast
  ultimately show ?thesis using that [of d sig] B by (simp add: sign_digest_def signs_for_def)
qed

lemma credentials_signed:
  assumes "service_up C provider_key issuer_key X view Z st" and "key_signs C (us_fa_sk session)"
  obtains sig where "credentials_signature C session = Done sig"
    and "signs_for (sl_digest X) (cl_public_key C (us_fa_sk session)) sig (RCredentials (us_jwt_token session) (cl_public_key C (us_fa_sk session)))"
  by (rule signature_given [OF assms, of "RCredentials (us_jwt_token session) (cl_public_key C (us_fa_sk session))"])
    (simp add: credentials_signature_def expect_def that)

lemmas client_defs = h_bind_def h_read_def get_session_data_def set_session_data_def request_def build_send_and_check_request_def expect_def Let_def

lemma claim_transaction:
  assumes up: "service_up C provider_key issuer_key X view Z st" and ready: "ready_in_order W (ls_sign_nodes st)"
    and creds: "\<And>u. creds_ok view X (W u)" and k: "key_signs C (us_fa_sk session)"
    and free: "\<And>u. u \<in> set (ls_sign_nodes st) \<Longrightarrow>
      token_free view X (W u) (share_digest X (W u) (us_jwt_token session) (cl_public_key C (us_fa_sk session)))"
  shows "\<exists>W'. client_claim_oidc C (deployed X inp Z) st (Some session, W) = ((Some session, W'), Done (Inr ())) \<and>
    serves view X (ls_sign_nodes st) (us_jwt_token session) (cl_public_key C (us_fa_sk session)) W'"
proof -
  let ?t = "us_jwt_token session" and ?pk = "cl_public_key C (us_fa_sk session)"
  obtain d sig where sig: "claim_oidc_request_digest (sl_digest X) (digest_hash (sl_digest X) ?t) ?pk = Inr d"
    "sign_digest (sl_digest X) d (us_fa_sk session) = Inr sig" "signs_for (sl_digest X) ?pk sig (RClaim (digest_hash (sl_digest X) ?t) ?pk)"
    by (rule signature_given [OF up k, of "RClaim (digest_hash (sl_digest X) ?t) ?pk"]) (simp add: service_upD(3) [OF up])
  from claim_answered [OF up ready creds free sig(3)] obtain W' sg where
    "claim_oidc (deployed X inp Z) st \<lparr>cor_oidc_token_hash = digest_hash (sl_digest X) ?t, cor_frp_public_key = ?pk,
       cor_frp_signature = sig\<rparr> W = (W', Done (200, ROk sg))" "serves view X (ls_sign_nodes st) ?t ?pk W'" by blast
  with sig(1,2) show ?thesis by (simp add: client_claim_oidc_def service_upD(3) [OF up] client_defs)
qed

lemma account_transaction:
  assumes up: "service_up C provider_key issuer_key X view Z st" and t: "token_valid issuer_key X Z st (us_jwt_token session)"
    and f: "fetches issuer_key inp (ls_sign_nodes st)" and k: "key_signs C (us_fa_sk session)"
    and s: "serves view X (ls_sign_nodes st) (us_jwt_token session) (cl_public_key C (us_fa_sk session)) W"
  shows "\<exists>W'. client_new_account C (deployed X inp Z) st (Some session, W) = ((Some session, W'), Done (Inr ())) \<and>
    serves view X (ls_sign_nodes st) (us_jwt_token session) (cl_public_key C (us_fa_sk session)) W'"
proof -
  let ?t = "us_jwt_token session" and ?pk = "cl_public_key C (us_fa_sk session)"
  obtain sig where sig: "credentials_signature C session = Done sig" "signs_for (sl_digest X) ?pk sig (RCredentials ?t ?pk)"
    using credentials_signed [OF up k] by blast
  from account_answered [OF up t f s sig(2)] obtain W' x where
    "new_account_endpoint (deployed X inp Z) st \<lparr>nar_near_account_id = us_near_account_id session,
       nar_create_account_options = \<lparr>cao_full_access_keys = Some [?pk], cao_limited_access_keys = None, cao_contract_bytes = None\<rparr>,
       nar_oidc_token = ?t, nar_user_credentials_frp_signature = sig, nar_frp_public_key = ?pk\<rparr> W = (W', Done (200, ROk x))"
    "serves view X (ls_sign_nodes st) ?t ?pk W'" by blast
  with sig(1) show ?thesis by (simp add: client_new_account_def client_defs)
qed

lemma credentials_transaction:
  assumes up: "service_up C provider_key issuer_key X view Z st" and t: "token_valid issuer_key X Z st (us_jwt_token session)"
    and f: "fetches issuer_key inp (ls_sign_nodes st)" and k: "key_signs C (us_fa_sk session)"
    and s: "serves view X (ls_sign_nodes st) (us_jwt_token session) (cl_public_key C (us_fa_sk session)) W"
  shows "\<exists>W' rk. client_user_credentials C (deployed X inp Z) st (Some session, W) =
      ((Some (session\<lparr>us_recovery_pk := Some rk\<rparr>), W'), Done (Inr ())) \<and>
    serves view X (ls_sign_nodes st) (us_jwt_token session) (cl_public_key C (us_fa_sk session)) W'"
proof -
  let ?t = "us_jwt_token session" and ?pk = "cl_public_key C (us_fa_sk session)"
  obtain sig where sig: "credentials_signature C session = Done sig" "signs_for (sl_digest X) ?pk sig (RCredentials ?t ?pk)"
    using credentials_signed [OF up k] by blast
  from credentials_answered [OF up t f s sig(2)] obtain W' rk where
    "user_credentials_endpoint (deployed X inp Z) st \<lparr>ucr_oidc_token = ?t, ucr_frp_signature = sig, ucr_frp_public_key = ?pk\<rparr> W =
      (W', Done (200, ROk rk))" "serves view X (ls_sign_nodes st) ?t ?pk W'" by blast
  with sig(1) show ?thesis by (simp add: client_user_credentials_def client_defs) blast
qed

lemma sign_transaction:
  assumes up: "service_up C provider_key issuer_key X view Z st" and t: "token_valid issuer_key X Z st (us_jwt_token session)"
    and f: "fetches issuer_key inp (ls_sign_nodes st)" and k: "key_signs C (us_fa_sk session)"
    and s: "serves view X (ls_sign_nodes st) (us_jwt_token session) (cl_public_key C (us_fa_sk session)) W"
    and rk: "us_recovery_pk session = Some rk"
  shows "\<exists>W'. client_sign C (deployed X inp Z) st new_sk (Some session, W) = ((Some session, W'), Done (Inr ())) \<and>
    serves view X (ls_sign_nodes st) (us_jwt_token session) (cl_public_key C (us_fa_sk session)) W'"
proof -
  let ?t = "us_jwt_token session" and ?pk = "cl_public_key C (us_fa_sk session)" and ?a = "add_key_action C session new_sk rk"
  obtain usig where usig: "credentials_signature C session = Done usig" "signs_for (sl_digest X) ?pk usig (RCredentials ?t ?pk)"
    using credentials_signed [OF up k] by blast
  obtain d sig where sig: "sign_request_digest (cl_digest C) ?a ?t ?pk = Inr d"
    "sign_digest (cl_digest C) d (us_fa_sk session) = Inr sig" "signs_for (sl_digest X) ?pk sig (RSign ?a ?t ?pk)"
    by (rule signature_given [OF up k, of "RSign ?a ?t ?pk"]) simp
  obtain b where b: "cl_action_to_vec C ?a = Inr b" "ll_delegate_action Z b = Inr ?a" using service_upD(6) [OF up] by blast
  have "check_actions q (da_actions ?a) = Inr ()" for q by (simp add: check_actions_Inr add_key_action_def)
  from sign_answered [OF up t f s usig(2) sig(3) b(2) this] obtain W' sg where
    "sign_endpoint (deployed X inp Z) st \<lparr>msr_delegate_action = b, msr_oidc_token = ?t, msr_frp_signature = sig,
       msr_user_credentials_frp_signature = usig, msr_frp_public_key = ?pk\<rparr> W = (W', Done (200, ROk sg))"
    "serves view X (ls_sign_nodes st) ?t ?pk W'" by blast
  with usig(1) sig(1,2) b(1) rk show ?thesis by (simp add: client_sign_def client_defs)
qed

lemma sign_transactions:
  assumes up: "service_up C provider_key issuer_key X view Z st" and t: "token_valid issuer_key X Z st (us_jwt_token session)"
    and k: "key_signs C (us_fa_sk session)" and rk: "us_recovery_pk session = Some rk"
    and f: "\<forall>(inp, _) \<in> set signs. fetches issuer_key inp (ls_sign_nodes st)"
    and s: "serves view X (ls_sign_nodes st) (us_jwt_token session) (cl_public_key C (us_fa_sk session)) W"
  shows "\<exists>W'. client_run C provider_key st (map (\<lambda>(inp, sk). (deployed X inp Z, Sign sk)) signs) (Some session, W) =
      ((Some session, W'), Done (replicate (length signs) (Inr ())))"
  using f s
proof (induction signs arbitrary: W)
  case (Cons sg signs)
  obtain inp sk where sg: "sg = (inp, sk)" by (cases sg)
  with Cons.prems have "fetches issuer_key inp (ls_sign_nodes st)" by simp
  from sign_transaction [OF up t this k Cons.prems(2) rk] obtain W1 where
    step: "client_sign C (deployed X inp Z) st sk (Some session, W) = ((Some session, W1), Done (Inr ()))"
    and s1: "serves view X (ls_sign_nodes st) (us_jwt_token session) (cl_public_key C (us_fa_sk session)) W1" by blast
  from Cons.IH [OF _ s1] Cons.prems(1) obtain W' where
    "client_run C provider_key st (map (\<lambda>(inp, sk). (deployed X inp Z, Sign sk)) signs) (Some session, W1) =
      ((Some session, W'), Done (replicate (length signs) (Inr ())))" by auto
  with sg step show ?case by (simp add: h_bind_def)
qed simp

lemma prepared_session:
  assumes "create_jwt_token C provider_key VALID_OIDC_AUD VALID_OIDC_ISS None (pr_sub pr) (pr_now pr) = Done t"
    and "cl_account_id C (''acc-'' @ to_lowercase (pr_account pr) @ ''.near'') = Inr acc"
  shows "prepare_user_credentials C provider_key pr (u, W) = ((Some \<lparr>us_jwt_token = OidcToken_new t, us_near_account_id = acc,
    us_fa_sk = pr_fa_sk pr, us_la_sk = pr_la_sk pr, us_recovery_pk = None\<rparr>, W), Done (Inr ()))"
  using assms by (simp add: prepare_user_credentials_def client_defs)


text \<open>A client of one node, whose issuer writes tokens of one subject.\<close>

definition ex_claims :: IdTokenClaims where
  "ex_claims = \<lparr>itc_iss = VALID_OIDC_ISS, itc_sub = ''u'', itc_aud = VALID_OIDC_AUD, itc_exp = 4600\<rparr>"

fun ex_key_bytes :: "near_public_key \<Rightarrow> bytes" where
  "ex_key_bytes (ED25519 b) = 0 # b"
| "ex_key_bytes (SECP256K1 b) = 1 # b"

fun ex_key_from :: "bytes \<Rightarrow> near_public_key" where
  "ex_key_from (t # b) = (if t = 0 then ED25519 b else SECP256K1 b)"
| "ex_key_from [] = ED25519 []"

lemma ex_key_from_bytes: "ex_key_from (ex_key_bytes k) = k"
  by (cases k) simp_all

lemma ex_text_untext: "ex_text (ex_untext s) = s"
proof -
  have "char_of (unat (of_nat (of_char c) :: u8)) = c" for c by (simp add: unat_of_nat of_char_mod_256)
  then show ?thesis by (induction s) (simp_all add: ex_text_def ex_untext_def)
qed

definition ex_action_to_vec :: "DelegateAction \<Rightarrow> string + bytes" where
  "ex_action_to_vec a =
     (case da_actions a of
        [AddKey k _] \<Rightarrow> Inr (ex_enc (ex_untext (da_sender_id a)) @ ex_enc (ex_key_bytes k) @ ex_key_bytes (da_public_key a))
      | _ \<Rightarrow> Inl ''unsupported'')"

definition ex_action_from :: "bytes \<Rightarrow> string + DelegateAction" where
  "ex_action_from b = (let (account, b') = ex_dec b; (k, rk) = ex_dec b' in
     Inr \<lparr>da_sender_id = ex_text account, da_receiver_id = ex_text account,
       da_actions = [AddKey (ex_key_from k) \<lparr>ak_nonce = 0, ak_permission = FullAccess\<rparr>], da_nonce = 0, da_max_block_height = 100,
       da_public_key = ex_key_from rk\<rparr>)"

definition ex_client :: client_lib where
  "ex_client = \<lparr>cl_digest = ex_digest32, cl_public_key = ED25519, cl_rsa_pem_key = Inr,
     cl_jwt_encode = (\<lambda>_ claims _. if claims = ex_claims then Inr ''h.p.s'' else Inl ''unknown''),
     cl_account_id = Inr, cl_action_to_vec = ex_action_to_vec\<rparr>"

definition ex_client_libs :: "ex_store sign_libs" where
  "ex_client_libs = ex_libs\<lparr>sl_jwt := ex_jwt\<lparr>parse_claims := \<lambda>_. Inr ex_claims\<rparr>\<rparr>"

definition ex_client_leader :: "ex_store deployment leader_lib" where
  "ex_client_leader = ex_leader_over\<lparr>ll_jwt := sl_jwt ex_client_libs, ll_delegate_action := ex_action_from\<rparr>"

definition ex_client_state :: LeaderState where
  "ex_client_state = ex_lstate\<lparr>ls_partners :=
     [ex_partner\<lparr>fap_oidc_provider := \<lparr>op_issuer = VALID_OIDC_ISS, op_audience = VALID_OIDC_AUD\<rparr>\<rparr>]\<rparr>"

definition ex_prepared :: prepared where
  "ex_prepared = \<lparr>pr_fa_sk = [8], pr_la_sk = [9], pr_sub = ''u'', pr_now = 1000, pr_account = ''A''\<rparr>"

lemma ex_client_libs_sel [simp]:
  "sl_digest ex_client_libs = ex_digest32" "sl_codec ex_client_libs = ex_codec" "sl_cipher ex_client_libs = ex_cipher"
  "sl_aggsig ex_client_libs = ex_aggsig" "sl_gcp ex_client_libs = ex_gcp" "sl_signable ex_client_libs a = Inr []"
  by (simp_all add: ex_client_libs_def)

lemma ex_libs_up: "libs_up ex_client_libs map_of"
proof -
  have "libs_ok ex_client_libs map_of" using ex_libs_ok by (simp add: libs_ok_def)
  moreover have "datastore_up ex_gcp map_of" by (simp add: datastore_up_def ex_gcp_def ex_key_def named_key_def)
  moreover have "signer_up ex_aggsig" using ex_aggsig_ok
    by (simp add: signer_up_def ex_lengths32 ex_aggsig_def to_dalek_signature_def to_dalek_public_key_def del: length_take take_append)
  moreover have "cipher_up ex_cipher" by (simp add: cipher_up_def ex_cipher_def)
  moreover have "\<exists>d. request_digest ex_digest32 r = Inr d" for r
    by (cases r) (simp_all add: claim_oidc_request_digest_def claim_oidc_response_digest_def sign_request_digest_def
      user_credentials_request_digest_def hash_parts_def ex_digest32_def ex_digests_def)
  ultimately show ?thesis by (simp add: libs_up_def ex_aggsig_ok)
qed

lemma ex_service_up: "service_up ex_client pk ''k'' ex_client_libs map_of ex_client_leader ex_client_state"
proof -
  have "\<exists>b. ex_action_to_vec (add_key_action ex_client session sk rk) = Inr b \<and> ex_action_from b = Inr (add_key_action ex_client session sk rk)"
    for session sk rk
    by (simp add: ex_action_to_vec_def ex_action_from_def add_key_action_def ex_dec_enc ex_text_untext ex_key_from_bytes)
  moreover have "valid_under (sl_jwt ex_client_libs) None (OidcToken_new ''h.p.s'') ''k'' ex_claims"
    unfolding valid_under_def
    by (intro exI [of _ "string_bytes ''k''"] exI [of _ "''h''"] exI [of _ "''p''"] exI [of _ "''s''"])
      (simp add: ex_client_libs_def ex_jwt_def OidcToken_new_def)
  ultimately show ?thesis using ex_libs_up
    by (simp add: service_up_def relayer_up_def ex_client_leader_def ex_leader_over_def ex_client_def ex_client_state_def ex_lstate_def
        ex_partner_def PartnerList_find_def partner_matches_def)
qed


end
