(* ===== verification/Recovery_Http.thy ===== *)
theory Recovery_Http
  imports Recovery_Signatures Recovery_Cli
begin

text \<open>
  The http servers of the recovery service: the routes of the leader and of the sign nodes, the
  extraction of json bodies, and the middleware of the leader that counts requests. The
  theorems are about requests as they come from the network: which of them reach a handler,
  and that the counters tell what was answered.
\<close>

section \<open>Routers\<close>

text \<open>
  A router of axum has one handler per path here. A route for \<open>GET\<close> serves \<open>HEAD\<close> as well, without
  the body. Unknown paths are answered with 404 and other methods with 405, outside the
  middleware of \<open>route_layer\<close>. A handler that panics takes the connection with it. The body
  stands for all that the json extractor reads.
\<close>

datatype http_method = GET | HEAD | POST | OtherMethod string

record http_request =
  hr_method :: http_method
  hr_path :: string
  hr_body :: bytes

type_synonym http_response = "StatusCode \<times> bytes"

type_synonym 'w route = "string \<times> http_method \<times> (bytes \<Rightarrow> ('w, http_response) handler)"

fun method_serves :: "http_method \<Rightarrow> http_method \<Rightarrow> bool" where
  "method_serves GET m \<longleftrightarrow> m = GET \<or> m = HEAD"
| "method_serves r m \<longleftrightarrow> r = m"

definition for_method :: "http_method \<Rightarrow> http_response \<Rightarrow> http_response" where
  "for_method m r = (if m = HEAD then (fst r, []) else r)"

definition http_serve ::
  "(http_method \<Rightarrow> string \<Rightarrow> ('w, http_response) handler \<Rightarrow> ('w, http_response) handler) \<Rightarrow> 'w route list \<Rightarrow>
     http_request \<Rightarrow> ('w, http_response) handler" where
  "http_serve layer routes rq =
     (case map_of routes (hr_path rq) of
        None \<Rightarrow> h_return (404, [])
      | Some (m, h) \<Rightarrow>
          if method_serves m (hr_method rq)
          then layer (hr_method rq) (hr_path rq) (h_bind (h (hr_body rq)) (\<lambda>r. h_return (for_method (hr_method rq) r)))
          else h_return (405, []))"

definition answered :: "('w, 'a) handler \<Rightarrow> 'w \<Rightarrow> 'w \<times> 'a option" where
  "answered m w = (case m w of (w', Done r) \<Rightarrow> (w', Some r) | (w', _) \<Rightarrow> (w', None))"

text \<open>A handler with a json body; a body that is refused is answered by the extractor's error.\<close>

definition with_json ::
  "(string \<Rightarrow> bytes) \<Rightarrow> (bytes \<Rightarrow> (StatusCode \<times> string) + 'r) \<Rightarrow> ('a \<Rightarrow> bytes) \<Rightarrow> ('r \<Rightarrow> ('w, StatusCode \<times> 'a) handler) \<Rightarrow>
     bytes \<Rightarrow> ('w, http_response) handler" where
  "with_json text_json decode encode handle body =
     (case decode body of
        Inl (status, body_text) \<Rightarrow>
          h_return (map_prod id text_json (MpcError_into_response (\<lambda>_. []) (ME_JsonExtractorRejection status body_text)))
      | Inr request \<Rightarrow> h_bind (handle request) (\<lambda>r. h_return (map_prod id encode r)))"

definition health_check :: "bytes \<Rightarrow> ('w, http_response) handler" where
  "health_check _ = h_return (200, [])"

section \<open>Sign nodes\<close>

text \<open>The json forms are those of \<open>serde_json\<close>.\<close>

record sign_codec =
  sj_text :: "string \<Rightarrow> bytes"
  sj_commit :: "bytes \<Rightarrow> (StatusCode \<times> string) + SignNodeRequest"
  sj_reveal :: "bytes \<Rightarrow> (StatusCode \<times> string) + SignedCommitment list"
  sj_signature_share :: "bytes \<Rightarrow> (StatusCode \<times> string) + Reveal list"
  sj_public_key :: "bytes \<Rightarrow> (StatusCode \<times> string) + PublicKeyNodeRequest"
  sj_unit :: "bytes \<Rightarrow> (StatusCode \<times> string) + unit"
  sj_accept :: "bytes \<Rightarrow> (StatusCode \<times> string) + EdPoint list"
  sj_commit_json :: "string + SignedCommitment \<Rightarrow> bytes"
  sj_reveal_json :: "string + Reveal \<Rightarrow> bytes"
  sj_signature_share_json :: "string + eddsa_signature \<Rightarrow> bytes"
  sj_public_key_json :: "string + EdPoint \<Rightarrow> bytes"
  sj_node_json :: "string + u64 \<times> EdPoint \<Rightarrow> bytes"
  sj_accept_json :: "string + string \<Rightarrow> bytes"

definition sign_node_routes :: "'d sign_libs \<Rightarrow> sign_codec \<Rightarrow> sign_inputs \<Rightarrow> 'd sign_world route list" where
  "sign_node_routes X J inp =
     [(''/'', GET, health_check),
      (''/commit'', POST, with_json (sj_text J) (sj_commit J) (sj_commit_json J) (commit_endpoint X inp)),
      (''/reveal'', POST, with_json (sj_text J) (sj_reveal J) (sj_reveal_json J) (reveal_endpoint X)),
      (''/signature_share'', POST, with_json (sj_text J) (sj_signature_share J) (sj_signature_share_json J) (signature_share_endpoint X)),
      (''/public_key'', POST, with_json (sj_text J) (sj_public_key J) (sj_public_key_json J) (public_key_endpoint X inp)),
      (''/public_key_node'', POST, with_json (sj_text J) (sj_unit J) (sj_node_json J) (\<lambda>_. public_key_node)),
      (''/accept_pk_set'', POST, with_json (sj_text J) (sj_accept J) (sj_accept_json J) (accept_pk_set X))]"

definition sign_node_http ::
  "'d sign_libs \<Rightarrow> sign_codec \<Rightarrow> sign_inputs \<times> http_request \<Rightarrow> 'd sign_world \<Rightarrow> 'd sign_world \<times> http_response option" where
  "sign_node_http X J = (\<lambda>(inp, rq). answered (http_serve (\<lambda>_ _ h. h) (sign_node_routes X J inp) rq))"

section \<open>The leader\<close>

text \<open>
  The counters of \<open>metrics.rs\<close>, by method and path. They wrap around at 64 bits; the histogram is
  the list of the observed times, which the server's text form sorts into buckets.
\<close>

type_synonym label = "http_method \<times> string"

record http_metrics =
  hm_request_count :: "label \<Rightarrow> u64"
  hm_client_error_count :: "label \<Rightarrow> u64"
  hm_server_error_count :: "label \<Rightarrow> u64"
  hm_processing_time :: "label \<Rightarrow> nat list"

definition metrics_new :: http_metrics where
  "metrics_new = \<lparr>hm_request_count = (\<lambda>_. 0), hm_client_error_count = (\<lambda>_. 0), hm_server_error_count = (\<lambda>_. 0),
     hm_processing_time = (\<lambda>_. [])\<rparr>"

definition count_if :: "bool \<Rightarrow> label \<Rightarrow> (label \<Rightarrow> u64) \<Rightarrow> label \<Rightarrow> u64" where
  "count_if b l f = (if b then f(l := f l + 1) else f)"

definition record_response :: "nat \<Rightarrow> label \<Rightarrow> StatusCode \<Rightarrow> http_metrics \<Rightarrow> http_metrics" where
  "record_response processing_time l status M =
     \<lparr>hm_request_count = count_if True l (hm_request_count M),
      hm_client_error_count = count_if (is_client_error status) l (hm_client_error_count M),
      hm_server_error_count = count_if (is_server_error status) l (hm_server_error_count M),
      hm_processing_time = (hm_processing_time M)(l := hm_processing_time M l @ [processing_time])\<rparr>"

definition track_metrics ::
  "nat \<Rightarrow> http_method \<Rightarrow> string \<Rightarrow> ('s \<times> http_metrics, http_response) handler \<Rightarrow> ('s \<times> http_metrics, http_response) handler" where
  "track_metrics processing_time method path run =
     h_bind run (\<lambda>response (s, M). ((s, record_response processing_time (method, path) (fst response) M), Done response))"

record leader_codec =
  lj_text :: "string \<Rightarrow> bytes"
  lj_mpc_pk :: "bytes \<Rightarrow> (StatusCode \<times> string) + unit"
  lj_claim_oidc :: "bytes \<Rightarrow> (StatusCode \<times> string) + ClaimOidcRequest"
  lj_user_credentials :: "bytes \<Rightarrow> (StatusCode \<times> string) + UserCredentialsRequest"
  lj_new_account :: "bytes \<Rightarrow> (StatusCode \<times> string) + NewAccountRequest"
  lj_sign :: "bytes \<Rightarrow> (StatusCode \<times> string) + MpcSignRequest"
  lj_mpc_pk_json :: "dalek_key leader_response \<Rightarrow> bytes"
  lj_claim_oidc_json :: "dalek_signature leader_response \<Rightarrow> bytes"
  lj_user_credentials_json :: "near_public_key leader_response \<Rightarrow> bytes"
  lj_new_account_json :: "(CreateAccountOptions \<times> near_public_key \<times> AccountId) leader_response \<Rightarrow> bytes"
  lj_sign_json :: "dalek_signature leader_response \<Rightarrow> bytes"
  lj_encode_metrics :: "http_metrics \<Rightarrow> anyhow_error + bytes"
  lj_from_utf8 :: "bytes \<Rightarrow> anyhow_error + string"

definition on_service :: "('s, 'a) handler \<Rightarrow> ('s \<times> http_metrics, 'a) handler" where
  "on_service m = (\<lambda>(s, M). case m s of (s', r) \<Rightarrow> ((s', M), r))"

definition metrics_endpoint :: "leader_codec \<Rightarrow> bytes \<Rightarrow> ('s \<times> http_metrics, http_response) handler" where
  "metrics_endpoint J _ = h_bind (h_read snd) (\<lambda>M.
     h_return (case res_bind (lj_encode_metrics J M) (lj_from_utf8 J) of
         Inr response \<Rightarrow> (200, string_bytes response)
       | Inl _ \<Rightarrow> (500, string_bytes ''failed to generate prometheus metrics'')))"

definition leader_routes ::
  "leader_codec \<Rightarrow> 's leader_lib \<Rightarrow> (nat \<Rightarrow> nat) \<Rightarrow> LeaderState \<Rightarrow> ('s \<times> http_metrics) route list" where
  "leader_routes J Z dur st =
     [(''/'', GET, health_check),
      (''/mpc_public_key'', POST, with_json (lj_text J) (lj_mpc_pk J) (lj_mpc_pk_json J) (\<lambda>_. on_service (mpc_public_key Z dur st))),
      (''/claim_oidc'', POST, with_json (lj_text J) (lj_claim_oidc J) (lj_claim_oidc_json J) (\<lambda>r. on_service (claim_oidc Z st r))),
      (''/user_credentials'', POST, with_json (lj_text J) (lj_user_credentials J) (lj_user_credentials_json J)
         (\<lambda>r. on_service (user_credentials_endpoint Z st r))),
      (''/new_account'', POST, with_json (lj_text J) (lj_new_account J) (lj_new_account_json J)
         (\<lambda>r. on_service (new_account_endpoint Z st r))),
      (''/sign'', POST, with_json (lj_text J) (lj_sign J) (lj_sign_json J) (\<lambda>r. on_service (sign_endpoint Z st r))),
      (''/metrics'', GET, metrics_endpoint J)]"

text \<open>The environment of a request: the outside world, the time of the attempts and of the request.\<close>

record 's leader_env =
  le_lib :: "'s leader_lib"
  le_dur :: "nat \<Rightarrow> nat"
  le_processing_time :: nat

definition leader_http ::
  "leader_codec \<Rightarrow> LeaderState \<Rightarrow> 's leader_env \<times> http_request \<Rightarrow> 's \<times> http_metrics \<Rightarrow> ('s \<times> http_metrics) \<times> http_response option" where
  "leader_http J st = (\<lambda>(e, rq). answered (http_serve (track_metrics (le_processing_time e)) (leader_routes J (le_lib e) (le_dur e) st) rq))"

text \<open>Requests one after the other.\<close>

fun http_run :: "('q \<Rightarrow> 'w \<Rightarrow> 'w \<times> http_response option) \<Rightarrow> 'q list \<Rightarrow> 'w \<Rightarrow> 'w \<times> http_response option list" where
  "http_run serve [] w = (w, [])"
| "http_run serve (q # qs) w =
     (let (w1, r) = serve q w; (w2, rs) = http_run serve qs w1 in (w2, r # rs))"

section \<open>Processes\<close>

text \<open>
  A sign node from its start. The leader serves only after it has gathered the keys of the sign
  nodes; without them it ends.
\<close>

definition sign_node_run ::
  "'d sign_libs \<Rightarrow> sign_codec \<Rightarrow> SignerConfig \<Rightarrow> (sign_inputs \<times> http_request) list \<Rightarrow> 'd \<Rightarrow>
     ('d sign_world \<times> http_response option list) exec" where
  "sign_node_run X J config qs d =
     exec_bind (sign_node_start X (sc_gcp_service config) (sc_our_index config) (sc_node_key config) (sc_cipher config) d) (\<lambda>state.
     Done (http_run (sign_node_http X J) qs \<lparr>sw_node = state, sw_store = d\<rparr>))"

definition leader_run ::
  "(string \<Rightarrow> 'e + AccountId) \<Rightarrow> 's leader_lib \<Rightarrow> (nat \<Rightarrow> nat) \<Rightarrow> leader_codec \<Rightarrow> LeaderConfig \<Rightarrow>
     ('s leader_env \<times> http_request) list \<Rightarrow> ('s \<times> http_metrics, http_response option list) handler" where
  "leader_run parse_account Z dur J config qs =
     (case parse_account (lc_near_root_account config) of
        Inl _ \<Rightarrow> h_lift (Panics ''called `Result::unwrap()` on an `Err` value'')
      | Inr near_root_account \<Rightarrow>
          let state = \<lparr>ls_sign_nodes = lc_sign_nodes config, ls_near_root_account = near_root_account,
                       ls_partners = lc_partners config\<rparr> in
          h_bind (on_service (leader_start Z dur state)) (\<lambda>started.
          if started then (\<lambda>w. map_prod id Done (http_run (leader_http J state) qs w)) else h_return []))"

section \<open>Requests as events\<close>

text \<open>
  What a request means to the program behind the server: at most one event, which depends on
  the request alone.
\<close>

locale served =
  fixes serve :: "'q \<Rightarrow> 'w \<Rightarrow> 'w \<times> http_response option"
    and event :: "'q \<Rightarrow> 'e option"
    and step :: "'e \<Rightarrow> 'v \<Rightarrow> 'v"
    and abs :: "'w \<Rightarrow> 'v"
  assumes serve_event: "abs (fst (serve q w)) = (case event q of None \<Rightarrow> abs w | Some e \<Rightarrow> step e (abs w))"
begin

lemma run_events: "abs (fst (http_run serve qs w)) = fold step (List.map_filter event qs) (abs w)"
proof (induction qs arbitrary: w)
  case (Cons q qs)
  obtain w1 r where 1: "serve q w = (w1, r)" by (cases "serve q w")
  with serve_event [of q w] Cons [of w1] show ?case
    by (auto simp: List.map_filter_def split: option.splits prod.splits)
qed (simp add: List.map_filter_def)

end

lemma answered_fst: "fst (answered m w) = fst (m w)"
  by (auto simp: answered_def split: prod.split exec.split)

lemma bind_return_fst: "fst (h_bind m (\<lambda>r. h_return (f r)) w) = fst (m w)"
  by (auto simp: h_bind_def split: prod.split exec.split)

lemma with_json_fst:
  "fst (with_json text_json decode encode handle body w) = (case decode body of Inl _ \<Rightarrow> w | Inr rq \<Rightarrow> fst (handle rq w))"
  by (simp add: with_json_def bind_return_fst split: sum.split)

definition decoded :: "('x + 'r) \<Rightarrow> ('r \<Rightarrow> 'e) \<Rightarrow> 'e option" where
  "decoded r f = (case r of Inl _ \<Rightarrow> None | Inr x \<Rightarrow> Some (f x))"

definition sign_event :: "sign_codec \<Rightarrow> sign_inputs \<times> http_request \<Rightarrow> node_event option" where
  "sign_event J = (\<lambda>(inp, rq).
     if hr_method rq \<noteq> POST then None
     else if hr_path rq = ''/commit'' then decoded (sj_commit J (hr_body rq)) (NCommit inp)
     else if hr_path rq = ''/reveal'' then decoded (sj_reveal J (hr_body rq)) NReveal
     else if hr_path rq = ''/signature_share'' then decoded (sj_signature_share J (hr_body rq)) NShare
     else if hr_path rq = ''/public_key'' then decoded (sj_public_key J (hr_body rq)) (NPublicKey inp)
     else if hr_path rq = ''/public_key_node'' then decoded (sj_unit J (hr_body rq)) (\<lambda>_. NPublicKeyNode)
     else if hr_path rq = ''/accept_pk_set'' then decoded (sj_accept J (hr_body rq)) NAccept
     else None)"

text \<open>The state after a request, through any layer that leaves the state behind the handlers alone.\<close>

lemma http_serve_fst:
  assumes "\<And>m p h w. g (fst (layer m p h w)) = g (fst (h w))"
  shows "g (fst (http_serve layer routes rq w)) = (case map_of routes (hr_path rq) of None \<Rightarrow> g w
    | Some (m, h) \<Rightarrow> if method_serves m (hr_method rq) then g (fst (h (hr_body rq) w)) else g w)"
  by (auto simp: http_serve_def assms bind_return_fst split: option.split)

interpretation sign_server: served "sign_node_http X J" "sign_event J" "node_step X" id for X :: "'d sign_libs" and J
proof
  fix q :: "sign_inputs \<times> http_request" and w :: "'d sign_world"
  obtain inp rq where q: "q = (inp, rq)" by (cases q)
  let ?paths = "[''/'', ''/commit'', ''/reveal'', ''/signature_share'', ''/public_key'', ''/public_key_node'', ''/accept_pk_set'']"
  note serve = http_serve_fst [of id "\<lambda>_ _ h. h", simplified]
  have step: "fst (sign_node_http X J q w) = (case sign_event J q of None \<Rightarrow> w | Some e \<Rightarrow> node_step X e w)"
  proof (cases "hr_path rq \<in> set ?paths")
    case True
    then consider "hr_path rq = ''/''" | "hr_path rq = ''/commit''" | "hr_path rq = ''/reveal''" | "hr_path rq = ''/signature_share''"
      | "hr_path rq = ''/public_key''" | "hr_path rq = ''/public_key_node''" | "hr_path rq = ''/accept_pk_set''" by auto
    then show ?thesis
      by cases (simp_all add: q sign_node_http_def answered_fst serve sign_node_routes_def sign_event_def decoded_def with_json_fst
          health_check_def split: sum.split)
  next
    case False
    then have "map_of (sign_node_routes X J inp) (hr_path rq) = None" by (simp add: sign_node_routes_def map_of_eq_None_iff)
    with False show ?thesis by (simp add: q sign_node_http_def answered_fst serve sign_event_def)
  qed
  then show "id (fst (sign_node_http X J q w)) = (case sign_event J q of None \<Rightarrow> id w | Some e \<Rightarrow> node_step X e (id w))" by (simp only: id_apply)
qed

datatype 's leader_event =
    LMpcPublicKey "'s leader_lib" "nat \<Rightarrow> nat"
  | LClaimOidc "'s leader_lib" ClaimOidcRequest
  | LUserCredentials "'s leader_lib" UserCredentialsRequest
  | LNewAccount "'s leader_lib" NewAccountRequest
  | LSign "'s leader_lib" MpcSignRequest

fun leader_step :: "LeaderState \<Rightarrow> 's leader_event \<Rightarrow> 's \<Rightarrow> 's" where
  "leader_step st (LMpcPublicKey Z dur) s = fst (mpc_public_key Z dur st s)"
| "leader_step st (LClaimOidc Z rq) s = fst (claim_oidc Z st rq s)"
| "leader_step st (LUserCredentials Z rq) s = fst (user_credentials_endpoint Z st rq s)"
| "leader_step st (LNewAccount Z rq) s = fst (new_account_endpoint Z st rq s)"
| "leader_step st (LSign Z rq) s = fst (sign_endpoint Z st rq s)"

definition leader_event_of :: "leader_codec \<Rightarrow> 's leader_env \<times> http_request \<Rightarrow> 's leader_event option" where
  "leader_event_of J = (\<lambda>(e, rq).
     if hr_method rq \<noteq> POST then None
     else if hr_path rq = ''/mpc_public_key'' then decoded (lj_mpc_pk J (hr_body rq)) (\<lambda>_. LMpcPublicKey (le_lib e) (le_dur e))
     else if hr_path rq = ''/claim_oidc'' then decoded (lj_claim_oidc J (hr_body rq)) (LClaimOidc (le_lib e))
     else if hr_path rq = ''/user_credentials'' then decoded (lj_user_credentials J (hr_body rq)) (LUserCredentials (le_lib e))
     else if hr_path rq = ''/new_account'' then decoded (lj_new_account J (hr_body rq)) (LNewAccount (le_lib e))
     else if hr_path rq = ''/sign'' then decoded (lj_sign J (hr_body rq)) (LSign (le_lib e))
     else None)"

lemma track_metrics_fst: "fst (fst (track_metrics t m p h w)) = fst (fst (h w))"
  by (auto simp: track_metrics_def h_bind_def split: prod.split exec.split)

lemma on_service_fst: "fst (fst (on_service m w)) = fst (m (fst w))" and on_service_snd: "snd (fst (on_service m w)) = snd w"
  by (auto simp: on_service_def split: prod.split)

lemma metrics_endpoint_fst: "fst (metrics_endpoint J b w) = w"
  by (simp add: metrics_endpoint_def)

interpretation leader_server: served "leader_http J st" "leader_event_of J" "leader_step st" fst for J and st :: LeaderState
proof
  fix q :: "'s leader_env \<times> http_request" and w :: "'s \<times> http_metrics"
  obtain e rq where q: "q = (e, rq)" by (cases q)
  let ?paths = "[''/'', ''/mpc_public_key'', ''/claim_oidc'', ''/user_credentials'', ''/new_account'', ''/sign'', ''/metrics'']"
  note serve = http_serve_fst [of fst "track_metrics (le_processing_time e)", OF track_metrics_fst]
  show "fst (fst (leader_http J st q w)) = (case leader_event_of J q of None \<Rightarrow> fst w | Some ev \<Rightarrow> leader_step st ev (fst w))"
  proof (cases "hr_path rq \<in> set ?paths")
    case True
    then consider "hr_path rq = ''/''" | "hr_path rq = ''/mpc_public_key''" | "hr_path rq = ''/claim_oidc''" | "hr_path rq = ''/user_credentials''"
      | "hr_path rq = ''/new_account''" | "hr_path rq = ''/sign''" | "hr_path rq = ''/metrics''" by auto
    then show ?thesis
      by cases (simp_all add: q leader_http_def answered_fst serve leader_routes_def leader_event_of_def decoded_def with_json_fst
          health_check_def metrics_endpoint_fst on_service_fst split: sum.split)
  next
    case False
    then have "map_of (leader_routes J (le_lib e) (le_dur e) st) (hr_path rq) = None"
      by (simp add: leader_routes_def map_of_eq_None_iff)
    with False show ?thesis by (simp add: q leader_http_def answered_fst serve leader_event_of_def)
  qed
qed

section \<open>Counters\<close>

definition routed :: "'w route list \<Rightarrow> http_request \<Rightarrow> bool" where
  "routed routes rq \<longleftrightarrow> (case map_of routes (hr_path rq) of None \<Rightarrow> False | Some (m, _) \<Rightarrow> method_serves m (hr_method rq))"

definition leader_routed :: "http_request \<Rightarrow> bool" where
  "leader_routed rq \<longleftrightarrow>
     (if hr_path rq \<in> {''/'', ''/metrics''} then hr_method rq = GET \<or> hr_method rq = HEAD
      else hr_path rq \<in> {''/mpc_public_key'', ''/claim_oidc'', ''/user_credentials'', ''/new_account'', ''/sign''} \<and> hr_method rq = POST)"

lemma leader_routes_routed: "routed (leader_routes J Z dur st) rq = leader_routed rq"
  by (auto simp: routed_def leader_routes_def leader_routed_def)

definition answer_recorded :: "nat \<Rightarrow> http_request \<Rightarrow> http_response option \<Rightarrow> http_metrics \<Rightarrow> http_metrics" where
  "answer_recorded t rq r M =
     (case r of Some (status, _) \<Rightarrow> if leader_routed rq then record_response t (hr_method rq, hr_path rq) status M else M | None \<Rightarrow> M)"

lemma http_serve_records:
  assumes "\<forall>route \<in> set routes. \<forall>b w. snd (fst (snd (snd route) b w)) = snd w"
    and "answered (http_serve (track_metrics t) routes rq) (s, M) = ((s', M'), r)"
  shows "M' = (case r of Some (status, _) \<Rightarrow>
    if routed routes rq then record_response t (hr_method rq, hr_path rq) status M else M | None \<Rightarrow> M)"
proof (cases "map_of routes (hr_path rq)")
  case None
  with assms(2) show ?thesis by (auto simp: http_serve_def routed_def answered_def)
next
  case (Some mh)
  obtain m h where mh: "mh = (m, h)" by (cases mh)
  from map_of_SomeD [OF Some] mh assms(1) have keep: "snd (fst (h b w)) = snd w" for b w by (metis snd_conv)
  obtain s1 M1 x where run: "h (hr_body rq) (s, M) = ((s1, M1), x)" by (metis surj_pair)
  with keep [of "hr_body rq" "(s, M)"] have "M1 = M" by simp
  with Some mh assms(2) run show ?thesis
    by (auto simp: http_serve_def routed_def answered_def track_metrics_def h_bind_def for_method_def split: exec.splits if_splits)
qed

lemma leader_http_records:
  fixes s :: 's
  assumes "leader_http J st (e, rq) (s, M) = ((s', M'), r)"
  shows "M' = answer_recorded (le_processing_time e) rq r M"
proof -
  have keep: "snd (fst (with_json tj d en (\<lambda>r. on_service (f r)) b w)) = snd w" for tj d en f b and w :: "'s \<times> http_metrics"
    by (simp add: with_json_fst on_service_snd split: sum.split)
  have "\<forall>route \<in> set (leader_routes J (le_lib e) (le_dur e) st). \<forall>b w. snd (fst (snd (snd route) b w)) = snd w"
    by (simp add: leader_routes_def keep health_check_def metrics_endpoint_fst)
  from http_serve_records [OF this assms [unfolded leader_http_def prod.case]] show ?thesis
    unfolding answer_recorded_def leader_routes_routed .
qed

text \<open>A request was answered under a label, with a status of some kind.\<close>

definition answered_as :: "label \<Rightarrow> (StatusCode \<Rightarrow> bool) \<Rightarrow> http_request \<times> http_response option \<Rightarrow> bool" where
  "answered_as l kind = (\<lambda>(rq, r). leader_routed rq \<and> (hr_method rq, hr_path rq) = l \<and>
     (case r of Some (status, _) \<Rightarrow> kind status | None \<Rightarrow> False))"

definition counts_exactly :: "http_metrics \<Rightarrow> (http_request \<times> http_response option) list \<Rightarrow> http_metrics \<Rightarrow> label \<Rightarrow> bool" where
  "counts_exactly M log M' l \<longleftrightarrow>
     hm_request_count M' l = hm_request_count M l + of_nat (length (filter (answered_as l (\<lambda>_. True)) log)) \<and>
     hm_client_error_count M' l = hm_client_error_count M l + of_nat (length (filter (answered_as l is_client_error) log)) \<and>
     hm_server_error_count M' l = hm_server_error_count M l + of_nat (length (filter (answered_as l is_server_error) log))"

lemma record_counts: "counts_exactly M [(rq, r)] (answer_recorded t rq r M) l"
  by (auto simp: counts_exactly_def answer_recorded_def answered_as_def record_response_def count_if_def split: option.split)

lemma counts_exactly_trans: "counts_exactly M xs M1 l \<Longrightarrow> counts_exactly M1 ys M2 l \<Longrightarrow> counts_exactly M (xs @ ys) M2 l"
  by (simp add: counts_exactly_def algebra_simps)

section \<open>Properties\<close>

text \<open>
  A leader serves nobody before its nodes are ready, if they are numbered as the exchange of
  keys expects.
\<close>

lemma leader_run_serves_ready_nodes:
  assumes "Recovery_System.numbered W (lc_sign_nodes config)" and "dur 0 \<le> 60000" and "parse_account (lc_near_root_account config) = Inr root"
    and "\<And>u. u \<in> set (lc_sign_nodes config) \<Longrightarrow> node_keys (W u) = None \<or> node_keys (W u) = Some (keys_in_order W (lc_sign_nodes config))"
  obtains W1 where "\<And>u. u \<in> set (lc_sign_nodes config) \<Longrightarrow> node_keys (W1 u) = Some (keys_in_order W (lc_sign_nodes config))"
    and "leader_run parse_account (deployed X inp Z) dur J config qs (W, M) = map_prod id Done (http_run (leader_http J
      \<lparr>ls_sign_nodes = lc_sign_nodes config, ls_near_root_account = root, ls_partners = lc_partners config\<rparr>) qs (W1, M))"
proof -
  let ?st = "\<lparr>ls_sign_nodes = lc_sign_nodes config, ls_near_root_account = root, ls_partners = lc_partners config\<rparr>"
  obtain W1 where "leader_start (deployed X inp Z) dur ?st W = (W1, Done True)"
    "\<And>u. u \<in> set (lc_sign_nodes config) \<Longrightarrow> node_keys (W1 u) = Some (keys_in_order W (lc_sign_nodes config))"
    using start_effect [of W ?st dur X inp Z] assms by auto
  with assms(3) show ?thesis using that [of W1] by (simp add: leader_run_def on_service_def h_bind_def Let_def)
qed


text \<open>
  The counters of the leader are exact. After any requests, with handlers that panic
  among them, the number of requests counted for a method and a path has grown by the number
  of those that were answered there, and the numbers of client and server errors by the
  numbers of answers with such a status (modulo \<open>2 ^ 64\<close>); requests that match no route are not
  counted, and the counting changes nothing of the service: its state is that after the
  events of the requests.
\<close>

theorem leader_counters_exact:
  assumes "http_run (leader_http J st) qs (s, M) = ((s', M'), rs)"
  shows "counts_exactly M (zip (map snd qs) rs) M' l \<and> s' = fold (leader_step st) (List.map_filter (leader_event_of J) qs) s"
proof
  show "counts_exactly M (zip (map snd qs) rs) M' l"
    using assms
  proof (induction qs arbitrary: s M rs)
    case Nil
    then show ?case by (simp add: counts_exactly_def)
  next
    case (Cons q qs)
    obtain e rq where q: "q = (e, rq)" by (cases q)
    obtain s1 M1 r where 1: "leader_http J st q (s, M) = ((s1, M1), r)" by (metis surj_pair)
    obtain rs' where 2: "http_run (leader_http J st) qs (s1, M1) = ((s', M'), rs')" "rs = r # rs'"
      using Cons.prems 1 by (auto split: prod.splits)
    from leader_http_records [OF 1 [unfolded q]] record_counts have "counts_exactly M [(rq, r)] M1 l" by metis
    from counts_exactly_trans [OF this Cons.IH [OF 2(1)]] show ?case by (simp add: q 2(2))
  qed
  from leader_server.run_events [of J st qs "(s, M)"] assms
  show "s' = fold (leader_step st) (List.map_filter (leader_event_of J) qs) s" by simp
qed

definition ex_leader_codec :: leader_codec where
  "ex_leader_codec = \<lparr>lj_text = string_bytes, lj_mpc_pk = (\<lambda>_. Inr ()), lj_claim_oidc = (\<lambda>_. Inl (422, ''claim'')),
     lj_user_credentials = (\<lambda>_. Inl (422, ''credentials'')), lj_new_account = (\<lambda>_. Inl (422, ''account'')),
     lj_sign = (\<lambda>_. Inl (422, ''sign'')), lj_mpc_pk_json = (\<lambda>_. []), lj_claim_oidc_json = (\<lambda>_. []),
     lj_user_credentials_json = (\<lambda>_. []), lj_new_account_json = (\<lambda>_. []), lj_sign_json = (\<lambda>_. []),
     lj_encode_metrics = (\<lambda>_. Inl ''full''), lj_from_utf8 = (\<lambda>_. Inr [])\<rparr>"

definition ex_traffic :: "(nat leader_env \<times> http_request) list" where
  "ex_traffic = map (\<lambda>(m, p). (\<lparr>le_lib = ex_leader [], le_dur = (\<lambda>_. 0), le_processing_time = 1\<rparr>, \<lparr>hr_method = m, hr_path = p, hr_body = []\<rparr>))
     [(POST, ''/sign''), (HEAD, ''/''), (GET, ''/sign''), (GET, ''/unknown''), (GET, ''/metrics''), (POST, ''/sign'')]"

lemma ex_traffic_run: "\<exists>M'. http_run (leader_http ex_leader_codec ex_lstate) ex_traffic (0, metrics_new) =
    ((0, M'), [Some (422, string_bytes ''sign''), Some (200, []), Some (405, []), Some (404, []),
       Some (500, string_bytes ''failed to generate prometheus metrics''), Some (422, string_bytes ''sign'')])"
  by (simp add: ex_traffic_def leader_http_def http_serve_def answered_def track_metrics_def leader_routes_def with_json_def health_check_def
      metrics_endpoint_def ex_leader_codec_def MpcError_into_response_def safe_error_message_def is_server_error_def h_bind_def h_read_def
      for_method_def)

theorem leader_counters_exact_witness:
  "\<exists>s' M' rs. http_run (leader_http ex_leader_codec ex_lstate) ex_traffic (0, metrics_new) = ((s', M'), rs) \<and>
     hm_request_count M' (POST, ''/sign'') = 2 \<and> hm_client_error_count M' (POST, ''/sign'') = 2 \<and>
     hm_server_error_count M' (POST, ''/sign'') = 0"
proof -
  obtain M' where run: "http_run (leader_http ex_leader_codec ex_lstate) ex_traffic (0, metrics_new) =
    ((0, M'), [Some (422, string_bytes ''sign''), Some (200, []), Some (405, []), Some (404, []),
       Some (500, string_bytes ''failed to generate prometheus metrics''), Some (422, string_bytes ''sign'')])"
    using ex_traffic_run by blast
  from leader_counters_exact [OF run, of "(POST, ''/sign'')"] run show ?thesis
    by (simp add: ex_traffic_def counts_exactly_def answered_as_def leader_routed_def metrics_new_def is_client_error_def is_server_error_def)
qed

end
