(* ===== verification/Recovery_Api.thy ===== *)
theory Recovery_Api
  imports Recovery_Liveness Recovery_Http
begin

text \<open>
  The client of \<^verbatim>\<open>integration-tests/src/env\<close>: the helpers that the tests call on the leader and on the
  sign nodes, over the http servers. The helper for a claim checks the leader's signature under
  the key that the leader reports; the theorem is that this check passes, end to end.
\<close>

section \<open>Requests over http\<close>

definition context_err :: "string \<Rightarrow> 'e + 'a \<Rightarrow> anyhow_error + 'a" where
  "context_err msg r = (case r of Inl _ \<Rightarrow> Inl msg | Inr x \<Rightarrow> Inr x)"

text \<open>\<open>serve\<close> is the server at the address; a connection that breaks has no response.\<close>

definition post ::
  "(http_request \<Rightarrow> 'w \<Rightarrow> 'w \<times> http_response option) \<Rightarrow> ('q \<Rightarrow> anyhow_error + bytes) \<Rightarrow> (bytes \<Rightarrow> anyhow_error + 'r) \<Rightarrow>
     string \<Rightarrow> 'q \<Rightarrow> ('w, anyhow_error + StatusCode \<times> 'r) handler" where
  "post serve to_json from_json path rq =
     h_check (context_err ''failed to serialize the request body'' (to_json rq)) (\<lambda>body w.
     case serve \<lparr>hr_method = POST, hr_path = path, hr_body = body\<rparr> w of
       (w', None) \<Rightarrow> (w', Done (Inl ''failed to send the request''))
     | (w', Some (status, data)) \<Rightarrow>
         (w', Done (res_bind (context_err ''failed to deserialize the response body'' (from_json data)) (\<lambda>response.
            Inr (status, response)))))"

text \<open>The client's side of the crates: digests and keys, \<open>serde_json\<close>, borsh.\<close>

record api_lib =
  ap_client :: client_lib
  ap_verify :: "dalek_key \<Rightarrow> bytes \<Rightarrow> dalek_signature \<Rightarrow> anyhow_error + unit"
  ap_show_relayer :: "RelayerError \<Rightarrow> anyhow_error"
  ap_show_status :: "FinalExecutionStatus \<Rightarrow> string"
  ap_mpc_pk :: "unit \<Rightarrow> anyhow_error + bytes"
  ap_claim_oidc :: "ClaimOidcRequest \<Rightarrow> anyhow_error + bytes"
  ap_user_credentials :: "UserCredentialsRequest \<Rightarrow> anyhow_error + bytes"
  ap_new_account :: "NewAccountRequest \<Rightarrow> anyhow_error + bytes"
  ap_sign :: "MpcSignRequest \<Rightarrow> anyhow_error + bytes"
  ap_mpc_pk_from :: "bytes \<Rightarrow> anyhow_error + dalek_key leader_response"
  ap_claim_oidc_from :: "bytes \<Rightarrow> anyhow_error + dalek_signature leader_response"
  ap_user_credentials_from :: "bytes \<Rightarrow> anyhow_error + near_public_key leader_response"
  ap_new_account_from :: "bytes \<Rightarrow> anyhow_error + (CreateAccountOptions \<times> near_public_key \<times> AccountId) leader_response"
  ap_sign_from :: "bytes \<Rightarrow> anyhow_error + dalek_signature leader_response"

record 'w LeaderNodeApi =
  la_address :: "http_request \<Rightarrow> 'w \<Rightarrow> 'w \<times> http_response option"
  la_relayer :: DelegateActionRelayer
  la_client :: "'w relayer_lib"

type_synonym ('w, 'a) api_call = "('w, anyhow_error + StatusCode \<times> 'a leader_response) handler"

definition api_claim_oidc :: "api_lib \<Rightarrow> 'w LeaderNodeApi \<Rightarrow> ClaimOidcRequest \<Rightarrow> ('w, dalek_signature) api_call" where
  "api_claim_oidc A api = post (la_address api) (ap_claim_oidc A) (ap_claim_oidc_from A) ''/claim_oidc''"

definition api_get_mpc_pk :: "api_lib \<Rightarrow> 'w LeaderNodeApi \<Rightarrow> unit \<Rightarrow> ('w, dalek_key) api_call" where
  "api_get_mpc_pk A api = post (la_address api) (ap_mpc_pk A) (ap_mpc_pk_from A) ''/mpc_public_key''"

definition api_user_credentials :: "api_lib \<Rightarrow> 'w LeaderNodeApi \<Rightarrow> UserCredentialsRequest \<Rightarrow> ('w, near_public_key) api_call" where
  "api_user_credentials A api = post (la_address api) (ap_user_credentials A) (ap_user_credentials_from A) ''/user_credentials''"

definition api_sign :: "api_lib \<Rightarrow> 'w LeaderNodeApi \<Rightarrow> MpcSignRequest \<Rightarrow> ('w, dalek_signature) api_call" where
  "api_sign A api = post (la_address api) (ap_sign A) (ap_sign_from A) ''/sign''"

definition api_new_account ::
  "api_lib \<Rightarrow> 'w LeaderNodeApi \<Rightarrow> NewAccountRequest \<Rightarrow> ('w, CreateAccountOptions \<times> near_public_key \<times> AccountId) api_call" where
  "api_new_account A api = post (la_address api) (ap_new_account A) (ap_new_account_from A) ''/new_account''"

section \<open>Helpers\<close>

definition new_account_with_helper ::
  "api_lib \<Rightarrow> 'w LeaderNodeApi \<Rightarrow> AccountId \<Rightarrow> near_public_key \<Rightarrow> LimitedAccessKey option \<Rightarrow> SecretKey \<Rightarrow> OidcToken \<Rightarrow>
     ('w, CreateAccountOptions \<times> near_public_key \<times> AccountId) api_call" where
  "new_account_with_helper A api account_id user_fa_public_key user_la_public_key user_secret_key oidc_token =
     (let user_pk = cl_public_key (ap_client A) user_secret_key;
          create_account_options = \<lparr>cao_full_access_keys = Some [user_fa_public_key],
            cao_limited_access_keys = map_option (\<lambda>pk. [pk]) user_la_public_key, cao_contract_bytes = None\<rparr> in
      h_check (user_credentials_request_digest (cl_digest (ap_client A)) oidc_token user_pk) (\<lambda>digest.
      case near_sign (cl_digest (ap_client A)) user_secret_key digest of
        NSigSecp256k1 _ \<Rightarrow> h_return (Inl ''Wrong signature type'')
      | NSigEd25519 frp_signature \<Rightarrow>
          api_new_account A api \<lparr>nar_near_account_id = account_id, nar_create_account_options = create_account_options,
            nar_oidc_token = oidc_token, nar_user_credentials_frp_signature = frp_signature, nar_frp_public_key = user_pk\<rparr>))"

definition sign_with_helper ::
  "api_lib \<Rightarrow> 'w LeaderNodeApi \<Rightarrow> DelegateAction \<Rightarrow> OidcToken \<Rightarrow> SecretKey \<Rightarrow> near_public_key \<Rightarrow> ('w, dalek_signature) api_call" where
  "sign_with_helper A api delegate_action oidc_token frp_sk frp_pk =
     h_check (sign_request_digest (cl_digest (ap_client A)) delegate_action oidc_token frp_pk) (\<lambda>request_digest.
     h_check (sign_digest (cl_digest (ap_client A)) request_digest frp_sk) (\<lambda>frp_signature.
     h_check (user_credentials_request_digest (cl_digest (ap_client A)) oidc_token frp_pk) (\<lambda>credentials_digest.
     h_check (sign_digest (cl_digest (ap_client A)) credentials_digest frp_sk) (\<lambda>user_credentials_frp_signature.
     h_check (cl_action_to_vec (ap_client A) delegate_action) (\<lambda>action_bytes.
     api_sign A api \<lparr>msr_delegate_action = action_bytes, msr_oidc_token = oidc_token, msr_frp_signature = frp_signature,
       msr_user_credentials_frp_signature = user_credentials_frp_signature, msr_frp_public_key = frp_pk\<rparr>)))))"

text \<open>The tests run with overflow checks.\<close>

definition add_u64 :: "u64 \<Rightarrow> u64 \<Rightarrow> u64 exec" where
  "add_u64 a b = (if unat a + unat b < 2 ^ 64 then Done (a + b) else Panics ''attempt to add with overflow'')"

text \<open>
  What the helpers for keys share: the account sends itself one action, under the nonce of its
  recovery key, and a signature of the service goes to the relayer. \<open>failed\<close> names the helper.
\<close>

definition delegate_with_helper ::
  "string \<Rightarrow> near_action \<Rightarrow> api_lib \<Rightarrow> 'w LeaderNodeApi \<Rightarrow> AccountId \<Rightarrow> OidcToken \<Rightarrow> near_public_key \<Rightarrow> SecretKey \<Rightarrow> near_public_key \<Rightarrow>
     ('w, dalek_signature) api_call" where
  "delegate_with_helper failed action A api account_id oidc_token recovery_pk frp_sk frp_pk =
     h_try (h_map_err (ap_show_relayer A) (access_key (la_client api) account_id recovery_pk)) (\<lambda>(_, block_height, nonce).
     h_bind (h_lift (add_u64 block_height 100)) (\<lambda>max_block_height.
     let delegate_action = \<lparr>da_sender_id = account_id, da_receiver_id = account_id, da_actions = [action], da_nonce = nonce,
           da_max_block_height = max_block_height, da_public_key = recovery_pk\<rparr> in
     h_try (sign_with_helper A api delegate_action oidc_token frp_sk frp_pk) (\<lambda>(status_code, sign_response).
     case sign_response of
       RErr _ \<Rightarrow> h_return (Inr (status_code, sign_response))
     | ROk signature \<Rightarrow>
         h_try (h_map_err (ap_show_relayer A) (send_meta_tx (la_client api)
             \<lparr>sda_delegate_action = delegate_action, sda_signature = NSigEd25519 signature\<rparr> (la_relayer api))) (\<lambda>response.
         case smr_status response of
           FinalExecutionStatus.SuccessValue _ \<Rightarrow> h_return (Inr (status_code, sign_response))
         | s \<Rightarrow> h_return (Inl (failed @ '' failed with '' @ ap_show_status A s))))))"

definition add_key_with_helper ::
  "api_lib \<Rightarrow> 'w LeaderNodeApi \<Rightarrow> AccountId \<Rightarrow> OidcToken \<Rightarrow> near_public_key \<Rightarrow> near_public_key \<Rightarrow> SecretKey \<Rightarrow> near_public_key \<Rightarrow>
     ('w, dalek_signature) api_call" where
  "add_key_with_helper A api account_id oidc_token public_key =
     delegate_with_helper ''add_key'' (AddKey public_key \<lparr>ak_nonce = 0, ak_permission = FullAccess\<rparr>) A api account_id oidc_token"

definition delete_key_with_helper ::
  "api_lib \<Rightarrow> 'w LeaderNodeApi \<Rightarrow> AccountId \<Rightarrow> OidcToken \<Rightarrow> near_public_key \<Rightarrow> near_public_key \<Rightarrow> SecretKey \<Rightarrow> near_public_key \<Rightarrow>
     ('w, dalek_signature) api_call" where
  "delete_key_with_helper A api account_id oidc_token public_key =
     delegate_with_helper ''delete_key'' (DeleteKey public_key) A api account_id oidc_token"

definition claim_oidc_with_helper ::
  "api_lib \<Rightarrow> 'w LeaderNodeApi \<Rightarrow> OidcToken \<Rightarrow> near_public_key \<Rightarrow> SecretKey \<Rightarrow> ('w, dalek_signature) api_call" where
  "claim_oidc_with_helper A api oidc_token user_public_key user_secret_key =
     (let oidc_token_hash = digest_hash (cl_digest (ap_client A)) oidc_token in
      h_bind (h_lift (expect ''unwrap'' (claim_oidc_request_digest (cl_digest (ap_client A)) oidc_token_hash user_public_key))) (\<lambda>request_digest.
      h_check (sign_digest (cl_digest (ap_client A)) request_digest user_secret_key) (\<lambda>request_digest_signature.
      let oidc_request = \<lparr>cor_oidc_token_hash = oidc_token_hash, cor_frp_public_key = user_public_key,
            cor_frp_signature = request_digest_signature\<rparr> in
      h_try (api_claim_oidc A api oidc_request) (\<lambda>response.
      case snd response of
        RErr _ \<Rightarrow> h_return (Inr response)
      | ROk mpc_signature \<Rightarrow>
          h_try (api_get_mpc_pk A api ()) (\<lambda>(_, pk_response).
          h_check (response_try_into pk_response) (\<lambda>mpc_pk.
          h_check (claim_oidc_response_digest (cl_digest (ap_client A)) (cor_frp_signature oidc_request)) (\<lambda>response_digest.
          h_check (ap_verify A mpc_pk response_digest mpc_signature) (\<lambda>_.
          h_return (Inr response)))))))))"

definition user_credentials_with_helper ::
  "api_lib \<Rightarrow> 'w LeaderNodeApi \<Rightarrow> OidcToken \<Rightarrow> SecretKey \<Rightarrow> near_public_key \<Rightarrow> ('w, near_public_key) api_call" where
  "user_credentials_with_helper A api oidc_token client_sk client_pk =
     h_check (user_credentials_request_digest (cl_digest (ap_client A)) oidc_token client_pk) (\<lambda>digest.
     case near_sign (cl_digest (ap_client A)) client_sk digest of
       NSigSecp256k1 _ \<Rightarrow> h_return (Inl ''Wrong signature type'')
     | NSigEd25519 frp_signature \<Rightarrow>
         api_user_credentials A api \<lparr>ucr_oidc_token = oidc_token, ucr_frp_signature = frp_signature, ucr_frp_public_key = client_pk\<rparr>)"

section \<open>Sign nodes\<close>

record 'w SignerNodeApi =
  sa_env :: string
  sa_address :: "http_request \<Rightarrow> 'w \<Rightarrow> 'w \<times> http_response option"
  sa_node_id :: u64
  sa_sk_share :: ExpandedKeyPair
  sa_cipher_key :: bytes
  sa_gcp_project_id :: string
  sa_gcp_datastore_local_url :: string

definition api_accept_pk_set ::
  "(EdPoint list \<Rightarrow> anyhow_error + bytes) \<Rightarrow> (bytes \<Rightarrow> anyhow_error + (string + string)) \<Rightarrow> 'w SignerNodeApi \<Rightarrow> EdPoint list \<Rightarrow>
     ('w, anyhow_error + StatusCode \<times> (string + string)) handler" where
  "api_accept_pk_set to_json from_json api = post (sa_address api) to_json from_json ''/accept_pk_set''"

text \<open>The credentials of the node are read and written under one environment; both ciphers come back.\<close>

definition run_rotate_node_key ::
  "'d cli_lib \<Rightarrow> codec_lib \<Rightarrow> cipher_lib \<Rightarrow> 'w SignerNodeApi \<Rightarrow> bytes \<Rightarrow> ('d, anyhow_error + bytes \<times> bytes) handler" where
  "run_rotate_node_key X C E api new_cipher_key d =
     (case cl_connect X (sa_env api) (sa_gcp_project_id api) (Some (sa_gcp_datastore_local_url api)) of
        Inl e \<Rightarrow> (d, Done (Inl e))
      | Inr gcp_service \<Rightarrow>
          (case rotate_cipher (cl_gcp X) C E (sa_node_id api) (sa_cipher_key api) new_cipher_key gcp_service gcp_service d of
             Done (d', r) \<Rightarrow> (d', Done (res_bind r (\<lambda>_. Inr (sa_cipher_key api, new_cipher_key))))
           | Panics p \<Rightarrow> (d, Panics p)
           | Loops \<Rightarrow> (d, Loops)))"

section \<open>The leader behind its server\<close>

text \<open>Every path meets its own environment: a helper asks each path at most once.\<close>

definition leader_at ::
  "leader_codec \<Rightarrow> LeaderState \<Rightarrow> (string \<Rightarrow> 's leader_env) \<Rightarrow> http_request \<Rightarrow> 's \<times> http_metrics \<Rightarrow>
     ('s \<times> http_metrics) \<times> http_response option" where
  "leader_at J st e rq = leader_http J st (e (hr_path rq), rq)"

text \<open>What is assumed of the formats: what one side writes the other reads.\<close>

definition formats_agree :: "api_lib \<Rightarrow> leader_codec \<Rightarrow> 's leader_lib \<Rightarrow> bool" where
  "formats_agree A J Z \<longleftrightarrow>
     (\<exists>b. ap_mpc_pk A () = Inr b \<and> lj_mpc_pk J b = Inr ()) \<and> (\<forall>x. ap_mpc_pk_from A (lj_mpc_pk_json J x) = Inr x) \<and>
     (\<forall>rq. \<exists>b. ap_claim_oidc A rq = Inr b \<and> lj_claim_oidc J b = Inr rq) \<and>
     (\<forall>x. ap_claim_oidc_from A (lj_claim_oidc_json J x) = Inr x) \<and>
     (\<forall>rq. \<exists>b. ap_user_credentials A rq = Inr b \<and> lj_user_credentials J b = Inr rq) \<and>
     (\<forall>x. ap_user_credentials_from A (lj_user_credentials_json J x) = Inr x) \<and>
     (\<forall>rq. \<exists>b. ap_sign A rq = Inr b \<and> lj_sign J b = Inr rq) \<and> (\<forall>x. ap_sign_from A (lj_sign_json J x) = Inr x) \<and>
     (\<forall>a. \<exists>b. cl_action_to_vec (ap_client A) a = Inr b \<and> ll_delegate_action Z b = Inr a)"

lemma on_service_pair: "on_service m (s, M) = (case m s of (s', r) \<Rightarrow> ((s', M), r))"
  by (simp add: on_service_def)

lemma leader_at_post:
  assumes "map_of (leader_routes J (le_lib (e path)) (le_dur (e path)) st) path =
      Some (POST, with_json (lj_text J) decode encode (\<lambda>r. on_service (h r)))"
    and "decode body = Inr rq" and "h rq s = (s', Done (status, x))"
  shows "\<exists>M'. leader_at J st e \<lparr>hr_method = POST, hr_path = path, hr_body = body\<rparr> (s, M) = ((s', M'), Some (status, encode x))"
  using assms
  by (simp add: leader_at_def leader_http_def http_serve_def answered_def track_metrics_def with_json_def on_service_pair h_bind_def
      for_method_def)

lemma post_leader:
  assumes "map_of (leader_routes J (le_lib (e path)) (le_dur (e path)) st) path =
      Some (POST, with_json (lj_text J) decode encode (\<lambda>r. on_service (h r)))"
    and "to_json rq = Inr body" and "decode body = Inr rq" and "from_json (encode x) = Inr x"
    and "h rq s = (s', Done (status, x))"
  shows "\<exists>M'. post (leader_at J st e) to_json from_json path rq (s, M) = ((s', M'), Done (Inr (status, x)))"
proof -
  from leader_at_post [where h = h and e = e and path = path, OF assms(1,3,5)] obtain M' where
    "leader_at J st e \<lparr>hr_method = POST, hr_path = path, hr_body = body\<rparr> (s, M) = ((s', M'), Some (status, encode x))" by blast
  with assms(2,4) show ?thesis by (simp add: post_def context_err_def)
qed

lemma formats_agreeD:
  assumes "formats_agree A J Z"
  shows "\<exists>b. ap_mpc_pk A () = Inr b \<and> lj_mpc_pk J b = Inr ()" "ap_mpc_pk_from A (lj_mpc_pk_json J pk) = Inr pk"
    "\<exists>b. ap_claim_oidc A cq = Inr b \<and> lj_claim_oidc J b = Inr cq" "ap_claim_oidc_from A (lj_claim_oidc_json J x) = Inr x"
    "\<exists>b. ap_user_credentials A uq = Inr b \<and> lj_user_credentials J b = Inr uq"
    "ap_user_credentials_from A (lj_user_credentials_json J rk) = Inr rk"
    "\<exists>b. ap_sign A sq = Inr b \<and> lj_sign J b = Inr sq" "ap_sign_from A (lj_sign_json J sig) = Inr sig"
    "\<exists>b. cl_action_to_vec (ap_client A) a = Inr b \<and> ll_delegate_action Z b = Inr a"
  using assms by (simp_all add: formats_agree_def)

lemma api_answers:
  assumes f: "formats_agree A J Z" and api: "la_address api = leader_at J st e"
  shows "claim_oidc (le_lib (e ''/claim_oidc'')) st cq s = (s', Done (status, x)) \<Longrightarrow>
      \<exists>M'. api_claim_oidc A api cq (s, M) = ((s', M'), Done (Inr (status, x)))"
    and "mpc_public_key (le_lib (e ''/mpc_public_key'')) (le_dur (e ''/mpc_public_key'')) st s = (s', Done (status, pk)) \<Longrightarrow>
      \<exists>M'. api_get_mpc_pk A api () (s, M) = ((s', M'), Done (Inr (status, pk)))"
    and "user_credentials_endpoint (le_lib (e ''/user_credentials'')) st uq s = (s', Done (status, rk)) \<Longrightarrow>
      \<exists>M'. api_user_credentials A api uq (s, M) = ((s', M'), Done (Inr (status, rk)))"
    and "sign_endpoint (le_lib (e ''/sign'')) st sq s = (s', Done (status, sig)) \<Longrightarrow>
      \<exists>M'. api_sign A api sq (s, M) = ((s', M'), Done (Inr (status, sig)))"
  unfolding api_claim_oidc_def api_get_mpc_pk_def api_user_credentials_def api_sign_def api
  subgoal
    by (rule exE [OF formats_agreeD(3) [OF f, of cq]], erule conjE,
        rule post_leader [where h = "claim_oidc (le_lib (e ''/claim_oidc'')) st" and decode = "lj_claim_oidc J" and encode = "lj_claim_oidc_json J"])
      (simp_all add: leader_routes_def formats_agreeD(4) [OF f])
  subgoal
    by (rule exE [OF formats_agreeD(1) [OF f]], erule conjE,
        rule post_leader [where h = "\<lambda>_. mpc_public_key (le_lib (e ''/mpc_public_key'')) (le_dur (e ''/mpc_public_key'')) st"
          and decode = "lj_mpc_pk J" and encode = "lj_mpc_pk_json J"])
      (simp_all add: leader_routes_def formats_agreeD(2) [OF f])
  subgoal
    by (rule exE [OF formats_agreeD(5) [OF f, of uq]], erule conjE,
        rule post_leader [where h = "user_credentials_endpoint (le_lib (e ''/user_credentials'')) st"
          and decode = "lj_user_credentials J" and encode = "lj_user_credentials_json J"])
      (simp_all add: leader_routes_def formats_agreeD(6) [OF f])
  subgoal
    by (rule exE [OF formats_agreeD(7) [OF f, of sq]], erule conjE,
        rule post_leader [where h = "sign_endpoint (le_lib (e ''/sign'')) st" and decode = "lj_sign J" and encode = "lj_sign_json J"])
      (simp_all add: leader_routes_def formats_agreeD(8) [OF f])
  done

section \<open>The signature over a claim\<close>

lemma claim_commitment:
  assumes ok: "aggsig_ok (sl_aggsig X)"
    and "commit_endpoint X inp (ClaimOidc rq) w = (w', Done (status, Inr sc))" and waits: "waiting (sl_aggsig X) w sc c w'"
  shows "claim_oidc_response_digest (sl_digest X) (conr_signature rq) = Inr (co_message c)"
    and "sc_signing_public_key sc = node_pk w"
proof -
  from assms(2) obtain r where r: "process_commit X inp (ClaimOidc rq) w = (w', Done r)"
    "respond SignNodeError_code (sl_show_error X) r = (status, Inr sc)"
    by (cases "node_keys w") (auto simp: commit_endpoint_def when_ready_def check_if_ready_def case_unit_Unity h_bind_Done)
  then have "r = Inr sc" by (cases r) (auto simp: respond_def)
  with r obtain w1 payload where payload: "claim_oidc_response_digest (sl_digest X) (conr_signature rq) = Inr payload"
    and sign: "sign_commitment X inp (sn_node_key (sw_node w1)) payload w1 = (w', Done (Inr sc))"
    by (auto simp: process_claim_def claim_commit_def h_try_Inr h_check_Inr h_bind_Done h_read_def Recovery_Base.map_err_Inr)
  then obtain S where S: "get_commitment (sl_aggsig X) (sn_node_key (sw_node w1)) (sn_node_key (sw_node w1)) payload (si_rng inp)
      (sn_signing_state (sw_node w1)) = Done (S, Inr sc)" "sn_signing_state (sw_node w') = S"
      "sn_node_key (sw_node w') = sn_node_key (sw_node w1)"
    by (auto simp: sign_commitment_def Recovery_Base.map_err_Inr split: exec.splits prod.splits)
  from get_commitment_promises [OF ok S(1)] obtain c' where c': "co_our_key c' = sn_node_key (sw_node w1)" "co_message c' = payload"
    "S = (sn_signing_state (sw_node w1))\<lparr>ss_committed := hm_insert (sc_commitment sc) c' (ss_committed (sn_signing_state (sw_node w1)))\<rparr>"
    by blast
  have "hm_get (ss_committed S) (sc_commitment sc) = Some c"
    using waits S(2) by (auto simp: waiting_def hm_get_insert)
  with c' have "c = c'" by (simp add: hm_get_insert)
  moreover have "sn_node_key (sw_node w1) = sn_node_key (sw_node w)" using waits S(3) by (simp add: waiting_def)
  ultimately show "claim_oidc_response_digest (sl_digest X) (conr_signature rq) = Inr (co_message c)"
    and "sc_signing_public_key sc = node_pk w"
    using payload c' waits by (simp_all add: waiting_def promised_def node_pk_def)
qed

lemma claim_signature_verifies:
  assumes up: "libs_up X view" "aggsig_sound (sl_aggsig X)" and ready: "ready_in_order W us"
    and sp: "sign_payload_with_mpc (deployed X inp Z) us (ClaimOidc rq) W = (W', Done (Inr sig))"
  shows "\<exists>d pk. claim_oidc_response_digest (sl_digest X) (conr_signature rq) = Inr d \<and>
    to_dalek_combined_public_key (sl_aggsig X) (map (\<lambda>u. node_pk (W u)) us) = Done (Inr pk) \<and>
    dalek_verify (sl_aggsig X) pk d sig = Inr ()"
proof -
  let ?L = "sl_aggsig X"
  have us: "distinct us" "us \<noteq> []" using ready by (auto simp: ready_in_order_def)
  from sp obtain W1 cs where commits: "call_all_nodes (on_node (\<lambda>n. commit_endpoint X (inp n) (ClaimOidc rq))) us W = (W1, Done (Inr cs))"
    by (auto simp: sign_payload_with_mpc_def h_try_Inr)
  obtain c where cs: "length cs = length us"
    and c: "\<And>i. i < length us \<Longrightarrow> waiting ?L (W (us ! i)) (cs ! i) (c i) (W1 (us ! i))"
    and verifies: "\<forall>m ka pk. (\<forall>i < length us. co_message (c i) = m) \<longrightarrow>
      key_aggregation_n ?L (map sc_signing_public_key cs) 0 = Done ka \<longrightarrow>
      to_dalek_public_key ?L (ka_apk ka) = Inr pk \<longrightarrow> dalek_verify ?L pk m sig = Inr ()"
    by (rule round_verifies [OF libs_upD(2) [OF up(1)] up(2) ready commits sp]) (rule that, assumption+)
  have each: "claim_oidc_response_digest (sl_digest X) (conr_signature rq) = Inr (co_message (c i)) \<and>
      sc_signing_public_key (cs ! i) = node_pk (W (us ! i))" if i: "i < length us" for i
  proof -
    note ca = call_all_nodes_Inr [OF us(1) commits]
    from ca(3) [OF i] obtain status where
      "commit_endpoint X (inp (us ! i)) (ClaimOidc rq) (W (us ! i)) = (W1 (us ! i), Done (status, Inr (cs ! i)))"
      using i by (auto simp: ca(1) prod_eq_iff)
    from claim_commitment [OF libs_upD(2) [OF up(1)] this c [OF i]] show ?thesis by blast
  qed
  from each [of 0] us(2) have d: "claim_oidc_response_digest (sl_digest X) (conr_signature rq) = Inr (co_message (c 0))" by simp
  have "map sc_signing_public_key cs = map (\<lambda>u. node_pk (W u)) us" by (rule nth_equalityI) (use each cs in auto)
  moreover have "\<forall>i < length us. co_message (c i) = co_message (c 0)" using each d by fastforce
  moreover have "map (\<lambda>u. node_pk (W u)) us \<noteq> []" using us(2) by simp
  then obtain ka pk where "key_aggregation_n ?L (map (\<lambda>u. node_pk (W u)) us) 0 = Done ka" "to_dalek_public_key ?L (ka_apk ka) = Inr pk"
    using libs_upD(4) [OF up(1)] unfolding signer_up_def by blast
  ultimately show ?thesis using verifies d by (auto simp: to_dalek_combined_public_key_def)
qed

lemma mpc_pk_answered:
  assumes ready: "ready_in_order W (ls_sign_nodes st)" and "dur 0 \<le> 60000"
    and "to_dalek_combined_public_key (sl_aggsig X) (map (\<lambda>u. node_pk (W u)) (ls_sign_nodes st)) = Done (Inr pk)"
  shows "mpc_public_key (deployed X inp Z) dur st W = (W, Done (200, ROk pk))"
proof -
  let ?us = "ls_sign_nodes st"
  have us: "distinct ?us" "length ?us < 2 ^ 64" using ready by (auto simp: ready_in_order_def)
  have "map (\<lambda>u. our_index (W u)) ?us = map of_nat [0..<length ?us]"
    by (rule nth_equalityI) (use ready in \<open>auto simp: ready_in_order_def list_all_iff\<close>)
  from numbered_in_order(2) [OF us this] gather_finds_keys [where dur = dur, OF us(1) assms(2), of X inp Z W] assms(3)
  have "gather_sign_node_pk_shares (deployed X inp Z) dur st W = (W, Done (Inr (map (\<lambda>u. node_pk (W u)) ?us)))" by simp
  with assms(3) show ?thesis by (simp add: mpc_public_key_def h_bind_def leader_respond_def)
qed

section \<open>The helpers against the service\<close>

text \<open>
  The address of the leader: its server over a deployment of sign nodes, all of which fetch the
  issuer's key; the first attempt to gather keys takes at most a minute.
\<close>

definition reaches ::
  "string \<Rightarrow> 'd sign_libs \<Rightarrow> 'd deployment leader_lib \<Rightarrow> leader_codec \<Rightarrow> LeaderState \<Rightarrow>
     ('d deployment \<times> http_metrics) LeaderNodeApi \<Rightarrow> bool" where
  "reaches issuer_key X Z J st api \<longleftrightarrow> (\<exists>e. la_address api = leader_at J st e \<and>
     (\<forall>path. le_dur (e path) 0 \<le> 60000 \<and> (\<exists>inp. le_lib (e path) = deployed X inp Z \<and> fetches issuer_key inp (ls_sign_nodes st))))"

text \<open>A delegate action that the network accepts: signed under the key that it names.\<close>

definition valid_meta_tx :: "'d sign_libs \<Rightarrow> SignedDelegateAction \<Rightarrow> bool" where
  "valid_meta_tx X tx \<longleftrightarrow> (\<exists>k sig message. da_public_key (sda_delegate_action tx) = ED25519 k \<and> sda_signature tx = NSigEd25519 sig \<and>
     sl_signable X (sda_delegate_action tx) = Inr message \<and> dalek_verify (sl_aggsig X) k (sl_near_hash X message) sig = Inr ())"

text \<open>
  The relayer answers a valid action with its success, whose value is text; the RPC knows every
  key, at heights that leave room for the hundred blocks.
\<close>

definition chain_up :: "'d sign_libs \<Rightarrow> 'w LeaderNodeApi \<Rightarrow> bool" where
  "chain_up X api \<longleftrightarrow>
     (\<forall>a k w. \<exists>nonce hash height. fetch_nonce (la_client api) a k w = (w, Inr (nonce, hash, height)) \<and> unat height + 100 < 2 ^ 64) \<and>
     (\<forall>tx. \<exists>b rq. json_meta_tx (la_client api) tx = Inr b \<and>
        build_request (la_client api) (dar_url (la_relayer api) @ ''/send_meta_tx'') None b = Inr rq \<and>
        (valid_meta_tx X tx \<longrightarrow> (\<forall>w. \<exists>body str response v vt.
           http_send (la_client api) rq w = (w, Inr (200, Inr body)) \<and> from_utf8 (la_client api) body = Inr str \<and>
           parse_meta_tx (la_client api) body = Inr response \<and> smr_status response = FinalExecutionStatus.SuccessValue v \<and>
           from_utf8 (la_client api) v = Inr vt)))"

lemma meta_tx_sent:
  assumes "chain_up X api" and "valid_meta_tx X tx"
  shows "\<exists>response v. send_meta_tx (la_client api) tx (la_relayer api) w = (w, Done (Inr response)) \<and>
    smr_status response = FinalExecutionStatus.SuccessValue v"
proof -
  from assms obtain b rq where b: "json_meta_tx (la_client api) tx = Inr b"
    "build_request (la_client api) (dar_url (la_relayer api) @ ''/send_meta_tx'') None b = Inr rq"
    and "\<forall>w. \<exists>body str response v vt.
           http_send (la_client api) rq w = (w, Inr (200, Inr body)) \<and> from_utf8 (la_client api) body = Inr str \<and>
           parse_meta_tx (la_client api) body = Inr response \<and> smr_status response = FinalExecutionStatus.SuccessValue v \<and>
           from_utf8 (la_client api) v = Inr vt"
    unfolding chain_up_def by metis
  then obtain body str response v vt where
    "http_send (la_client api) rq w = (w, Inr (200, Inr body))" "from_utf8 (la_client api) body = Inr str"
    "parse_meta_tx (la_client api) body = Inr response" and sv: "smr_status response = FinalExecutionStatus.SuccessValue v"
    "from_utf8 (la_client api) v = Inr vt" by metis
  with b have "send_meta_tx (la_client api) tx (la_relayer api) w = (w, Done (Inr response))"
    by (simp add: send_meta_tx_def relayer_post_def is_success_def h_try_def h_bind_def)
  with sv(1) show ?thesis by blast
qed

lemma claim_helper_passes:
  assumes up: "service_up (ap_client A) provider_key issuer_key X view Z st" and sound: "aggsig_sound (sl_aggsig X)"
    and f: "formats_agree A J Z" and verify: "ap_verify A = dalek_verify (sl_aggsig X)" and api: "reaches issuer_key X Z J st api"
    and ready: "ready_in_order W (ls_sign_nodes st)" and creds: "\<And>u. creds_ok view X (W u)" and k: "key_signs (ap_client A) sk"
    and free: "\<And>u. u \<in> set (ls_sign_nodes st) \<Longrightarrow>
      token_free view X (W u) (share_digest X (W u) t (cl_public_key (ap_client A) sk))"
  shows "\<exists>W' M' sig. claim_oidc_with_helper A api t (cl_public_key (ap_client A) sk) sk (W, M) = ((W', M'), Done (Inr (200, ROk sig))) \<and>
    serves view X (ls_sign_nodes st) t (cl_public_key (ap_client A) sk) W'"
proof -
  let ?us = "ls_sign_nodes st" and ?pk = "cl_public_key (ap_client A) sk" and ?B = "sl_digest X"
  note B = service_upD(3) [OF up] and lib = service_upD(1) [OF up]
  from api obtain e where e: "la_address api = leader_at J st e" and
    "\<And>path. le_dur (e path) 0 \<le> 60000" "\<And>path. \<exists>inp. le_lib (e path) = deployed X inp Z" unfolding reaches_def by blast
  then obtain inp inp' where env: "le_lib (e ''/claim_oidc'') = deployed X inp Z" "le_lib (e ''/mpc_public_key'') = deployed X inp' Z"
    "le_dur (e ''/mpc_public_key'') 0 \<le> 60000" by metis
  obtain d sig where sig: "claim_oidc_request_digest ?B (digest_hash ?B t) ?pk = Inr d"
    "sign_digest ?B d sk = Inr sig" "signs_for ?B ?pk sig (RClaim (digest_hash ?B t) ?pk)"
    by (rule signature_given [OF up k, of "RClaim (digest_hash ?B t) ?pk"]) (simp add: B)
  let ?rq = "\<lparr>conr_oidc_token_hash = digest_hash ?B t, conr_public_key = ?pk, conr_signature = sig\<rparr>"
  let ?cq = "\<lparr>cor_oidc_token_hash = digest_hash ?B t, cor_frp_public_key = ?pk, cor_frp_signature = sig\<rparr>"
  from claim_given [OF lib ready creds free sig(3)] obtain W' sg where
    sp: "sign_payload_with_mpc (deployed X inp Z) ?us (ClaimOidc ?rq) W = (W', Done (Inr sg))" and s: "serves view X ?us t ?pk W'" by blast
  then have "claim_oidc (le_lib (e ''/claim_oidc'')) st ?cq W = (W', Done (200, ROk sg))"
    by (simp add: env claim_oidc_def h_bind_def leader_respond_def)
  from api_answers(1) [OF f e this] obtain M1 where 1: "api_claim_oidc A api ?cq (W, M) = ((W', M1), Done (Inr (200, ROk sg)))" by blast
  from claim_signature_verifies [OF lib sound ready sp] obtain d' pk where
    d': "claim_oidc_response_digest ?B sig = Inr d'" "dalek_verify (sl_aggsig X) pk d' sg = Inr ()"
    and pk: "to_dalek_combined_public_key (sl_aggsig X) (map (\<lambda>u. node_pk (W u)) ?us) = Done (Inr pk)" by auto
  have "later view X W W'" by (rule keeps_to [OF sign_payload_later [OF libs_upD(1) [OF lib]] sp])
  then have "node_pk (W' u) = node_pk (W u)" for u using laterD(1) [of view X W W' u] by (simp add: extends_def node_pk_def)
  with pk have "mpc_public_key (le_lib (e ''/mpc_public_key'')) (le_dur (e ''/mpc_public_key'')) st W' = (W', Done (200, ROk pk))"
    using mpc_pk_answered [where dur = "le_dur (e ''/mpc_public_key'')" and W = W' and st = st, OF _ env(3)] s by (simp add: env serves_def)
  from api_answers(2) [OF f e this] obtain M2 where 2: "api_get_mpc_pk A api () (W', M1) = ((W', M2), Done (Inr (200, ROk pk)))" by blast
  have "claim_oidc_with_helper A api t ?pk sk (W, M) = ((W', M2), Done (Inr (200, ROk sg)))"
    using sig(1,2) 1 2 d' by (simp add: claim_oidc_with_helper_def B verify expect_def h_try_def h_bind_def Let_def)
  with s show ?thesis by blast
qed

lemma leader_respond_ROk: "(status, ROk x) = leader_respond code show_error r \<longleftrightarrow> status = 200 \<and> r = Inr x"
  "leader_respond code show_error r = (status, ROk x) \<longleftrightarrow> status = 200 \<and> r = Inr x"
  by (cases r; auto simp: leader_respond_def)+

lemma process_sign_later:
  assumes ok: "libs_ok X view" and "process_sign (deployed X inp Z) st rq W = (W', Done (Inr sig))"
  shows "later view X W W'"
proof -
  let ?us = "ls_sign_nodes st"
  from assms(2) obtain action Wa rk where
    told: "nar_retry (\<lambda>_. get_user_recovery_pk (deployed X inp Z) ?us (msr_oidc_token rq)
      (msr_user_credentials_frp_signature rq) (msr_frp_public_key rq)) W = (Wa, Done (Inr rk))"
    and sign: "nar_retry (\<lambda>_. get_mpc_signature (deployed X inp Z) ?us (msr_oidc_token rq) action
      (msr_frp_signature rq) (msr_frp_public_key rq)) Wa = (W', Done (Inr sig))"
    by (auto simp: process_sign_def h_check_Inr h_try_Inr h_map_err_Inr leader_verify_def deployed_def)
  from signed_again [OF ok sign] obtain Wb where Wb: "later view X Wa Wb"
    "get_mpc_signature (deployed X inp Z) ?us (msr_oidc_token rq) action (msr_frp_signature rq) (msr_frp_public_key rq) Wb =
      (W', Done (Inr sig))" by blast
  from keeps_to [OF sign_payload_later [OF ok] Wb(2) [unfolded get_mpc_signature_def]] told_again(2) [OF ok told] Wb(1) show ?thesis
    using later.ord_trans by blast
qed

lemma reachesD:
  assumes "reaches issuer_key X Z J st api"
  obtains e where "la_address api = leader_at J st e" and "\<And>path. \<exists>inp. le_lib (e path) = deployed X inp Z \<and> fetches issuer_key inp (ls_sign_nodes st)"
  using assms unfolding reaches_def by blast

lemma credentials_helper_tells:
  assumes up: "service_up (ap_client A) provider_key issuer_key X view Z st" and t: "token_valid issuer_key X Z st t"
    and f: "formats_agree A J Z" and api: "reaches issuer_key X Z J st api" and k: "key_signs (ap_client A) sk"
    and s: "serves view X (ls_sign_nodes st) t (cl_public_key (ap_client A) sk) W"
  shows "\<exists>W' M' rk. user_credentials_with_helper A api t sk (cl_public_key (ap_client A) sk) (W, M) = ((W', M'), Done (Inr (200, ROk rk))) \<and>
    serves view X (ls_sign_nodes st) t (cl_public_key (ap_client A) sk) W' \<and> recovery_told view X Z (ls_sign_nodes st) t rk W'"
proof -
  let ?us = "ls_sign_nodes st" and ?pk = "cl_public_key (ap_client A) sk"
  obtain e where e: "la_address api = leader_at J st e"
    and "\<exists>inp. le_lib (e ''/user_credentials'') = deployed X inp Z \<and> fetches issuer_key inp ?us" using reachesD [OF api] by metis
  then obtain inp where inp: "le_lib (e ''/user_credentials'') = deployed X inp Z" "fetches issuer_key inp ?us" by blast
  obtain d sig where sig: "user_credentials_request_digest (cl_digest (ap_client A)) t ?pk = Inr d"
    "sign_digest (cl_digest (ap_client A)) d sk = Inr sig" "signs_for (sl_digest X) ?pk sig (RCredentials t ?pk)"
    by (rule signature_given [OF up k, of "RCredentials t ?pk"]) simp
  let ?rq = "\<lparr>ucr_oidc_token = t, ucr_frp_signature = sig, ucr_frp_public_key = ?pk\<rparr>"
  from credentials_answered [OF up t inp(2) s sig(3)] obtain W' rk where
    ans: "user_credentials_endpoint (deployed X inp Z) st ?rq W = (W', Done (200, ROk rk))" and s': "serves view X ?us t ?pk W'" by blast
  from ans have p: "process_user_credentials (deployed X inp Z) st ?rq W = (W', Done (Inr rk))"
    by (auto simp: user_credentials_endpoint_def h_bind_Done leader_respond_ROk)
  have "recovery_told view X Z ?us t rk W'"
    using credentials_told [OF libs_upD(1) [OF service_upD(1) [OF up]] _ _ p] s by (simp add: serves_def)
  moreover obtain M' where "api_user_credentials A api ?rq (W, M) = ((W', M'), Done (Inr (200, ROk rk)))"
    using api_answers(3) [OF f e] ans inp(1) by metis
  then have "user_credentials_with_helper A api t sk ?pk (W, M) = ((W', M'), Done (Inr (200, ROk rk)))"
    using sig(1,2) by (auto simp: user_credentials_with_helper_def sign_digest_def split: near_signature.splits)
  ultimately show ?thesis using s' by blast
qed

text \<open>What \<open>sign_with_helper\<close> asks of the leader, and that it passes the answer on.\<close>

lemma sign_helper_asks:
  assumes up: "service_up (ap_client A) provider_key issuer_key X view Z st" and f: "formats_agree A J Z"
    and api: "reaches issuer_key X Z J st api" and k: "key_signs (ap_client A) sk"
  obtains inp b fsig usig where "fetches issuer_key inp (ls_sign_nodes st)" and "ll_delegate_action Z b = Inr action"
    and "signs_for (sl_digest X) (cl_public_key (ap_client A) sk) usig (RCredentials t (cl_public_key (ap_client A) sk))"
    and "signs_for (sl_digest X) (cl_public_key (ap_client A) sk) fsig (RSign action t (cl_public_key (ap_client A) sk))"
    and "\<And>W W' M x. sign_endpoint (deployed X inp Z) st \<lparr>msr_delegate_action = b, msr_oidc_token = t, msr_frp_signature = fsig,
        msr_user_credentials_frp_signature = usig, msr_frp_public_key = cl_public_key (ap_client A) sk\<rparr> W = (W', Done x) \<Longrightarrow>
      \<exists>M'. sign_with_helper A api action t sk (cl_public_key (ap_client A) sk) (W, M) = ((W', M'), Done (Inr x))"
proof -
  let ?us = "ls_sign_nodes st" and ?pk = "cl_public_key (ap_client A) sk" and ?B = "cl_digest (ap_client A)"
  obtain e where e: "la_address api = leader_at J st e"
    and "\<exists>inp. le_lib (e ''/sign'') = deployed X inp Z \<and> fetches issuer_key inp ?us" using reachesD [OF api] by metis
  then obtain inp where inp: "le_lib (e ''/sign'') = deployed X inp Z" "fetches issuer_key inp ?us" by blast
  obtain b where b: "cl_action_to_vec (ap_client A) action = Inr b" "ll_delegate_action Z b = Inr action"
    using formats_agreeD(9) [OF f] by blast
  obtain d fsig where fsig: "sign_request_digest ?B action t ?pk = Inr d" "sign_digest ?B d sk = Inr fsig"
    "signs_for (sl_digest X) ?pk fsig (RSign action t ?pk)" by (rule signature_given [OF up k, of "RSign action t ?pk"]) simp
  obtain d' usig where usig: "user_credentials_request_digest ?B t ?pk = Inr d'" "sign_digest ?B d' sk = Inr usig"
    "signs_for (sl_digest X) ?pk usig (RCredentials t ?pk)" by (rule signature_given [OF up k, of "RCredentials t ?pk"]) simp
  let ?rq = "\<lparr>msr_delegate_action = b, msr_oidc_token = t, msr_frp_signature = fsig,
        msr_user_credentials_frp_signature = usig, msr_frp_public_key = ?pk\<rparr>"
  show thesis
  proof (rule that [OF inp(2) b(2) usig(3) fsig(3)])
    fix W W' M x assume "sign_endpoint (deployed X inp Z) st ?rq W = (W', Done x)"
    then obtain M' where "api_sign A api ?rq (W, M) = ((W', M'), Done (Inr x))"
      using api_answers(4) [OF f e, of ?rq W W' "fst x" "snd x" M] inp(1) by auto
    with b(1) fsig(1,2) usig(1,2) show "\<exists>M'. sign_with_helper A api action t sk ?pk (W, M) = ((W', M'), Done (Inr x))"
      by (simp add: sign_with_helper_def)
  qed
qed

lemma sign_helper_signs:
  assumes up: "service_up (ap_client A) provider_key issuer_key X view Z st" and sound: "aggsig_sound (sl_aggsig X)"
    and t: "token_valid issuer_key X Z st t" and f: "formats_agree A J Z" and api: "reaches issuer_key X Z J st api"
    and k: "key_signs (ap_client A) sk" and s: "serves view X (ls_sign_nodes st) t (cl_public_key (ap_client A) sk) W"
    and told: "recovery_told view X Z (ls_sign_nodes st) t rk W" and action: "\<And>q. check_actions q (da_actions action) = Inr ()"
    and key: "da_public_key action = rk"
  shows "\<exists>W' M' sig. sign_with_helper A api action t sk (cl_public_key (ap_client A) sk) (W, M) = ((W', M'), Done (Inr (200, ROk sig))) \<and>
    serves view X (ls_sign_nodes st) t (cl_public_key (ap_client A) sk) W' \<and> later view X W W' \<and>
    valid_meta_tx X \<lparr>sda_delegate_action = action, sda_signature = NSigEd25519 sig\<rparr>"
proof -
  let ?us = "ls_sign_nodes st" and ?pk = "cl_public_key (ap_client A) sk"
  note ok = libs_upD(1) [OF service_upD(1) [OF up]]
  obtain inp b fsig usig where inp: "fetches issuer_key inp ?us" and b: "ll_delegate_action Z b = Inr action"
    and usig: "signs_for (sl_digest X) ?pk usig (RCredentials t ?pk)" and fsig: "signs_for (sl_digest X) ?pk fsig (RSign action t ?pk)"
    and asks: "\<And>W W' M x. sign_endpoint (deployed X inp Z) st \<lparr>msr_delegate_action = b, msr_oidc_token = t, msr_frp_signature = fsig,
        msr_user_credentials_frp_signature = usig, msr_frp_public_key = ?pk\<rparr> W = (W', Done x) \<Longrightarrow>
      \<exists>M'. sign_with_helper A api action t sk ?pk (W, M) = ((W', M'), Done (Inr x))"
    by (rule sign_helper_asks [OF up f api k]) (rule that, assumption+)
  let ?rq = "\<lparr>msr_delegate_action = b, msr_oidc_token = t, msr_frp_signature = fsig,
        msr_user_credentials_frp_signature = usig, msr_frp_public_key = ?pk\<rparr>"
  from sign_answered [OF up t inp s usig fsig b action] obtain W' sg where
    ans: "sign_endpoint (deployed X inp Z) st ?rq W = (W', Done (200, ROk sg))" and s': "serves view X ?us t ?pk W'" by blast
  from ans have p: "process_sign (deployed X inp Z) st ?rq W = (W', Done (Inr sg))"
    by (auto simp: sign_endpoint_def h_bind_Done leader_respond_ROk)
  have "valid_meta_tx X \<lparr>sda_delegate_action = action, sda_signature = NSigEd25519 sg\<rparr>"
    using sign_answer_verifies [OF ok libs_upD(2) [OF service_upD(1) [OF up]] sound told _ p] same_user_refl b key
    by (auto simp: valid_meta_tx_def)
  moreover have "later view X W W'" by (rule process_sign_later [OF ok p])
  ultimately show ?thesis using asks [OF ans, of M] s' by blast
qed

text \<open>A key is added.\<close>

lemma add_key_helper_adds:
  assumes up: "service_up (ap_client A) provider_key issuer_key X view Z st" and sound: "aggsig_sound (sl_aggsig X)"
    and t: "token_valid issuer_key X Z st t" and f: "formats_agree A J Z" and api: "reaches issuer_key X Z J st api" "chain_up X api"
    and k: "key_signs (ap_client A) sk" and s: "serves view X (ls_sign_nodes st) t (cl_public_key (ap_client A) sk) W"
    and told: "recovery_told view X Z (ls_sign_nodes st) t rk W"
  shows "\<exists>W' M' sig. add_key_with_helper A api acc t new_pk rk sk (cl_public_key (ap_client A) sk) (W, M) =
      ((W', M'), Done (Inr (200, ROk sig))) \<and>
    serves view X (ls_sign_nodes st) t (cl_public_key (ap_client A) sk) W' \<and> recovery_told view X Z (ls_sign_nodes st) t rk W'"
proof -
  let ?us = "ls_sign_nodes st" and ?pk = "cl_public_key (ap_client A) sk"
  obtain nonce hash height where n: "fetch_nonce (la_client api) acc rk (W, M) = ((W, M), Inr (nonce, hash, height))" "unat height + 100 < 2 ^ 64"
    using api(2) unfolding chain_up_def by metis
  let ?a = "\<lparr>da_sender_id = acc, da_receiver_id = acc, da_actions = [AddKey new_pk \<lparr>ak_nonce = 0, ak_permission = FullAccess\<rparr>],
    da_nonce = nonce, da_max_block_height = height + 100, da_public_key = rk\<rparr>"
  have "check_actions q (da_actions ?a) = Inr ()" for q by (simp add: check_actions_Inr)
  from sign_helper_signs [OF up sound t f api(1) k s told this] obtain W' M' sig where
    sg: "sign_with_helper A api ?a t sk ?pk (W, M) = ((W', M'), Done (Inr (200, ROk sig)))" "serves view X ?us t ?pk W'" "later view X W W'"
    and valid: "valid_meta_tx X \<lparr>sda_delegate_action = ?a, sda_signature = NSigEd25519 sig\<rparr>" by fastforce
  from meta_tx_sent [OF api(2) valid, of "(W', M')"] obtain response v where
    "send_meta_tx (la_client api) \<lparr>sda_delegate_action = ?a, sda_signature = NSigEd25519 sig\<rparr> (la_relayer api) (W', M') =
      ((W', M'), Done (Inr response))" "smr_status response = FinalExecutionStatus.SuccessValue v" by blast
  with n sg(1) have "add_key_with_helper A api acc t new_pk rk sk ?pk (W, M) = ((W', M'), Done (Inr (200, ROk sig)))"
    by (simp add: add_key_with_helper_def delegate_with_helper_def access_key_def add_u64_def h_try_def h_bind_def h_map_err_def Let_def)
  with sg(2,3) recovery_told_later [OF sg(3) told] show ?thesis by blast
qed

text \<open>The recovery key is not deleted: the leader refuses to sign.\<close>

lemma delete_recovery_key_refused:
  assumes up: "service_up (ap_client A) provider_key issuer_key X view Z st" and t: "token_valid issuer_key X Z st t"
    and f: "formats_agree A J Z" and api: "reaches issuer_key X Z J st api" "chain_up X api"
    and k: "key_signs (ap_client A) sk" and s: "serves view X (ls_sign_nodes st) t (cl_public_key (ap_client A) sk) W"
    and told: "recovery_told view X Z (ls_sign_nodes st) t rk W"
  shows "\<exists>w' msg. delete_key_with_helper A api acc t rk rk sk (cl_public_key (ap_client A) sk) (W, M) = (w', Done (Inr (400, RErr msg)))"
proof -
  let ?us = "ls_sign_nodes st" and ?pk = "cl_public_key (ap_client A) sk"
  obtain nonce hash height where n: "fetch_nonce (la_client api) acc rk (W, M) = ((W, M), Inr (nonce, hash, height))" "unat height + 100 < 2 ^ 64"
    using api(2) unfolding chain_up_def by metis
  let ?a = "\<lparr>da_sender_id = acc, da_receiver_id = acc, da_actions = [DeleteKey rk],
    da_nonce = nonce, da_max_block_height = height + 100, da_public_key = rk\<rparr>"
  obtain inp b fsig usig where inp: "fetches issuer_key inp ?us" and b: "ll_delegate_action Z b = Inr ?a"
    and usig: "signs_for (sl_digest X) ?pk usig (RCredentials t ?pk)"
    and asks: "\<And>W W' M x. sign_endpoint (deployed X inp Z) st \<lparr>msr_delegate_action = b, msr_oidc_token = t, msr_frp_signature = fsig,
        msr_user_credentials_frp_signature = usig, msr_frp_public_key = ?pk\<rparr> W = (W', Done x) \<Longrightarrow>
      \<exists>M'. sign_with_helper A api ?a t sk ?pk (W, M) = ((W', M'), Done (Inr x))"
    by (rule sign_helper_asks [OF up f api(1) k]) (rule that, assumption+)
  let ?rq = "\<lparr>msr_delegate_action = b, msr_oidc_token = t, msr_frp_signature = fsig,
        msr_user_credentials_frp_signature = usig, msr_frp_public_key = ?pk\<rparr>"
  from t inp obtain claims where c: "known_issuer (sl_jwt X) inp ?us t claims"
    "leader_verify (deployed X inp Z) st t W = (W, Done (Inr claims))" unfolding token_valid_def by blast
  from told_given [OF service_upD(1) [OF up] s c(1) usig] obtain W' rk' where
    again: "nar_retry (\<lambda>_. get_user_recovery_pk (deployed X inp Z) ?us t usig ?pk) W = (W', Done (Inr rk'))" by blast
  have "rk' = rk" by (rule told_key_same [OF libs_upD(1) [OF service_upD(1) [OF up]] told same_user_refl again])
  moreover have "check_actions rk [DeleteKey rk] = Inl (LE_RecoveryKeyCanNotBeDeleted rk)"
    by (simp add: check_actions_def List.map_filter_def)
  moreover have "ll_delegate_action (deployed X inp Z) b = Inr ?a" using b by (simp add: deployed_def)
  ultimately have "sign_endpoint (deployed X inp Z) st ?rq W = (W', Done (400, RErr (ll_show_error (deployed X inp Z) (LE_RecoveryKeyCanNotBeDeleted rk))))"
    using again c(2) by (simp add: sign_endpoint_def process_sign_def h_try_def h_bind_def h_map_err_def leader_respond_def)
  from asks [OF this, of M] n show ?thesis
    by (auto simp: delete_key_with_helper_def delegate_with_helper_def access_key_def add_u64_def h_try_def h_bind_def h_map_err_def Let_def)
qed


section \<open>Examples\<close>

text \<open>Formats for the example: a request is the sequence of its encoded fields.\<close>

definition ex_write :: "bytes list \<Rightarrow> bytes" where
  "ex_write fs = concat (map ex_enc fs)"

fun ex_read :: "nat \<Rightarrow> bytes \<Rightarrow> bytes list" where
  "ex_read 0 b = []"
| "ex_read (Suc n) b = fst (ex_dec b) # ex_read n (snd (ex_dec b))"

lemma ex_read_write: "length fs = n \<Longrightarrow> ex_read n (ex_write fs) = fs"
proof (induction fs arbitrary: n)
  case (Cons f fs)
  then show ?case by (cases n) (auto simp: ex_write_def ex_dec_enc)
qed simp

definition ex_unary :: "u64 \<Rightarrow> bytes" where
  "ex_unary x = replicate (unat x) 0"

definition ex_count :: "bytes \<Rightarrow> u64" where
  "ex_count b = of_nat (length b)"

lemma ex_count_unary: "ex_count (ex_unary x) = x"
  by (simp add: ex_count_def ex_unary_def)

fun ex_permission :: "AccessKeyPermission \<Rightarrow> bytes" where
  "ex_permission (FunctionCallAccess b) = 0 # b"
| "ex_permission FullAccess = [1]"

definition ex_permission_from :: "bytes \<Rightarrow> AccessKeyPermission" where
  "ex_permission_from b = (if hd b = 0 then FunctionCallAccess (tl b) else FullAccess)"

fun ex_action_fields :: "near_action \<Rightarrow> bytes list" where
  "ex_action_fields (AddKey k a) = [[0], ex_key_bytes k, ex_unary (ak_nonce a), ex_permission (ak_permission a), []]"
| "ex_action_fields (DeleteKey k) = [[1], ex_key_bytes k, [], [], []]"
| "ex_action_fields (DeleteAccount a) = [[2], ex_untext a, [], [], []]"
| "ex_action_fields (FunctionCall f b g d) = [[3], ex_untext f, b, ex_unary g, replicate d 0]"
| "ex_action_fields (OtherAction b) = [[4], b, [], [], []]"

definition ex_action_of :: "bytes list \<Rightarrow> near_action" where
  "ex_action_of fs =
     (if fs ! 0 = [0] then AddKey (ex_key_from (fs ! 1)) \<lparr>ak_nonce = ex_count (fs ! 2), ak_permission = ex_permission_from (fs ! 3)\<rparr>
      else if fs ! 0 = [1] then DeleteKey (ex_key_from (fs ! 1))
      else if fs ! 0 = [2] then DeleteAccount (ex_text (fs ! 1))
      else if fs ! 0 = [3] then FunctionCall (ex_text (fs ! 1)) (fs ! 2) (ex_count (fs ! 3)) (length (fs ! 4))
      else OtherAction (fs ! 1))"

lemma ex_action_of_fields: "ex_action_of (ex_action_fields a) = a" "length (ex_action_fields a) = 5"
proof -
  have "ex_permission_from (ex_permission q) = q" for q by (cases q) (simp_all add: ex_permission_from_def)
  then show "ex_action_of (ex_action_fields a) = a"
    by (cases a) (simp_all add: ex_action_of_def ex_key_from_bytes ex_count_unary ex_text_untext nth_Cons')
  show "length (ex_action_fields a) = 5" by (cases a) simp_all
qed

definition ex_delegate :: "DelegateAction \<Rightarrow> string + bytes" where
  "ex_delegate a = Inr (ex_write [ex_untext (da_sender_id a), ex_untext (da_receiver_id a), ex_unary (da_nonce a),
     ex_unary (da_max_block_height a), ex_key_bytes (da_public_key a), replicate (length (da_actions a)) 0,
     ex_write (map (ex_write \<circ> ex_action_fields) (da_actions a))])"

definition ex_delegate_from :: "bytes \<Rightarrow> string + DelegateAction" where
  "ex_delegate_from b = (let fs = ex_read 7 b in
     Inr \<lparr>da_sender_id = ex_text (fs ! 0), da_receiver_id = ex_text (fs ! 1),
       da_actions = map (\<lambda>c. ex_action_of (ex_read 5 c)) (ex_read (length (fs ! 5)) (fs ! 6)), da_nonce = ex_count (fs ! 2),
       da_max_block_height = ex_count (fs ! 3), da_public_key = ex_key_from (fs ! 4)\<rparr>)"

lemma ex_delegate_reads: "\<exists>b. ex_delegate a = Inr b \<and> ex_delegate_from b = Inr a"
  by (simp add: ex_delegate_def ex_delegate_from_def ex_read_write ex_action_of_fields ex_text_untext ex_count_unary ex_key_from_bytes o_def)

fun ex_response :: "('a \<Rightarrow> bytes) \<Rightarrow> 'a leader_response \<Rightarrow> bytes" where
  "ex_response f (ROk x) = 0 # f x"
| "ex_response f (RErr msg) = 1 # ex_untext msg"

definition ex_response_from :: "(bytes \<Rightarrow> 'a) \<Rightarrow> bytes \<Rightarrow> anyhow_error + 'a leader_response" where
  "ex_response_from g b = Inr (if hd b = 0 then ROk (g (tl b)) else RErr (ex_text (tl b)))"

lemma ex_response_reads: "(\<And>x. g (f x) = x) \<Longrightarrow> ex_response_from g (ex_response f r) = Inr r"
  by (cases r) (simp_all add: ex_response_from_def ex_text_untext)

definition ex_api :: api_lib where
  "ex_api = \<lparr>ap_client = ex_client\<lparr>cl_action_to_vec := ex_delegate\<rparr>, ap_verify = dalek_verify ex_aggsig, ap_show_relayer = (\<lambda>_. []),
     ap_show_status = (\<lambda>_. []), ap_mpc_pk = (\<lambda>_. Inr []),
     ap_claim_oidc = (\<lambda>r. Inr (ex_write [cor_oidc_token_hash r, ex_key_bytes (cor_frp_public_key r), cor_frp_signature r])),
     ap_user_credentials = (\<lambda>r. Inr (ex_write [ex_untext (token_data (ucr_oidc_token r)), ucr_frp_signature r, ex_key_bytes (ucr_frp_public_key r)])),
     ap_new_account = (\<lambda>_. Inl ''unsupported''),
     ap_sign = (\<lambda>r. Inr (ex_write [msr_delegate_action r, ex_untext (token_data (msr_oidc_token r)), msr_frp_signature r,
       msr_user_credentials_frp_signature r, ex_key_bytes (msr_frp_public_key r)])),
     ap_mpc_pk_from = ex_response_from id, ap_claim_oidc_from = ex_response_from id, ap_user_credentials_from = ex_response_from ex_key_from,
     ap_new_account_from = (\<lambda>_. Inl ''unsupported''), ap_sign_from = ex_response_from id\<rparr>"

definition ex_api_codec :: leader_codec where
  "ex_api_codec = \<lparr>lj_text = string_bytes, lj_mpc_pk = (\<lambda>_. Inr ()),
     lj_claim_oidc = (\<lambda>b. let fs = ex_read 3 b in
       Inr \<lparr>cor_oidc_token_hash = fs ! 0, cor_frp_public_key = ex_key_from (fs ! 1), cor_frp_signature = fs ! 2\<rparr>),
     lj_user_credentials = (\<lambda>b. let fs = ex_read 3 b in
       Inr \<lparr>ucr_oidc_token = \<lparr>token_data = ex_text (fs ! 0)\<rparr>, ucr_frp_signature = fs ! 1, ucr_frp_public_key = ex_key_from (fs ! 2)\<rparr>),
     lj_new_account = (\<lambda>_. Inl (422, ''unsupported'')),
     lj_sign = (\<lambda>b. let fs = ex_read 5 b in
       Inr \<lparr>msr_delegate_action = fs ! 0, msr_oidc_token = \<lparr>token_data = ex_text (fs ! 1)\<rparr>, msr_frp_signature = fs ! 2,
         msr_user_credentials_frp_signature = fs ! 3, msr_frp_public_key = ex_key_from (fs ! 4)\<rparr>),
     lj_mpc_pk_json = ex_response id, lj_claim_oidc_json = ex_response id, lj_user_credentials_json = ex_response ex_key_bytes,
     lj_new_account_json = (\<lambda>_. []), lj_sign_json = ex_response id, lj_encode_metrics = (\<lambda>_. Inr []), lj_from_utf8 = (\<lambda>_. Inr [])\<rparr>"

definition ex_api_leader :: "ex_store deployment leader_lib" where
  "ex_api_leader = ex_client_leader\<lparr>ll_delegate_action := ex_delegate_from\<rparr>"

definition ex_address :: "(ex_store deployment \<times> http_metrics) LeaderNodeApi" where
  "ex_address = \<lparr>la_address = leader_at ex_api_codec ex_client_state (\<lambda>_. \<lparr>le_lib = deployed ex_client_libs (\<lambda>_. ex_inputs) ex_api_leader,
       le_dur = (\<lambda>_. 10), le_processing_time = 10\<rparr>),
     la_relayer = \<lparr>dar_url = ''http://r'', dar_api_key = None\<rparr>,
     la_client = \<lparr>fetch_nonce = (\<lambda>_ _ s. (s, Inr (1, [], 10))), invalidate_cache = (\<lambda>_ s. s), build_request = (\<lambda>_ _ b. Inr b),
       http_send = (\<lambda>_ s. (s, Inr (200, Inr []))), from_utf8 = (\<lambda>_. Inr []), json_register = (\<lambda>_. Inr []), json_atomic = (\<lambda>_. Inr []),
       json_meta_tx = (\<lambda>_. Inr []), parse_meta_tx = (\<lambda>_. Inr \<lparr>smr_message = [], smr_status = FinalExecutionStatus.SuccessValue [], smr_outcomes = []\<rparr>),
       debug_relayer_error = (\<lambda>_. [])\<rparr>\<rparr>"

lemma ex_formats_agree: "formats_agree ex_api ex_api_codec ex_api_leader"
  using ex_delegate_reads
  by (simp add: formats_agree_def ex_api_def ex_api_codec_def ex_api_leader_def ex_response_reads ex_read_write ex_key_from_bytes ex_text_untext)

lemma ex_api_up: "service_up (ap_client ex_api) pk ''k'' ex_client_libs map_of ex_api_leader ex_client_state"
proof -
  have "relayer_up ex_api_leader = relayer_up ex_client_leader" by (simp add: relayer_up_def ex_api_leader_def)
  moreover have "ll_digest ex_api_leader = ll_digest ex_client_leader" "ll_jwt ex_api_leader = ll_jwt ex_client_leader"
    "ll_jwt_keys ex_api_leader = ll_jwt_keys ex_client_leader" by (simp_all add: ex_api_leader_def)
  moreover have "\<exists>b. cl_action_to_vec (ap_client ex_api) a = Inr b \<and> ll_delegate_action ex_api_leader b = Inr a" for a
    using formats_agreeD(9) [OF ex_formats_agree] .
  moreover have "cl_digest (ap_client ex_api) = cl_digest ex_client" "cl_rsa_pem_key (ap_client ex_api) = cl_rsa_pem_key ex_client"
    "cl_jwt_encode (ap_client ex_api) = cl_jwt_encode ex_client" by (simp_all add: ex_api_def)
  ultimately show ?thesis using ex_service_up [of pk] unfolding service_up_def by simp
qed


end
