(* ===== verification/Test_Containers.thy ===== *)
theory Test_Containers
  imports Recovery_Api
begin

text \<open>
  The services around the nodes in \<^verbatim>\<open>integration-tests\<close>: docker containers and their addresses, the
  files of the relayer, processes, the accounts on the sandbox. Docker, the operating system and
  the sandbox of NEAR are arguments over the state \<open>'k\<close> of what is outside. The laws are about what the
  code computes itself: addresses, batches of keys, the search for a directory, waiting.
\<close>

section \<open>Docker\<close>

datatype wait_for = NoWait | MessageOnStdout string | MessageOnStderr string

record docker_image =
  im_name :: string
  im_tag :: string
  im_wait :: wait_for
  im_ports :: "u16 list"
  im_env :: "(string \<times> string) list"
  im_entrypoint :: "string option"
  im_volumes :: "(string \<times> string) list"
  im_args :: "string list"
  im_network :: "string option"

definition GenericImage_new :: "string \<Rightarrow> string \<Rightarrow> docker_image" where
  "GenericImage_new name tag = \<lparr>im_name = name, im_tag = tag, im_wait = NoWait, im_ports = [], im_env = [], im_entrypoint = None,
     im_volumes = [], im_args = [], im_network = None\<rparr>"

text \<open>Settings of a container: the networks it is part of, with the address there if it has one.\<close>

type_synonym network_settings = "(string \<times> string option) list option"

text \<open>\<open>dk_poll\<close> is the shell command in a container that asks a port with curl until it answers 200.\<close>

datatype exec_results = Attached "(anyhow_error + bytes) list" | Detached

record 'k docker_lib =
  dk_list_networks :: "'k \<Rightarrow> anyhow_error + string option list"
  dk_create_network :: "string \<Rightarrow> 'k \<Rightarrow> 'k \<times> (anyhow_error + unit)"
  dk_run :: "docker_image \<Rightarrow> ('k, string) handler"
  dk_inspect :: "string \<Rightarrow> 'k \<Rightarrow> anyhow_error + network_settings option"
  dk_host_port_ipv4 :: "string \<Rightarrow> u16 \<Rightarrow> 'k \<Rightarrow> u16 exec"
  dk_host_port_ipv6 :: "string \<Rightarrow> u16 \<Rightarrow> 'k \<Rightarrow> u16 exec"
  dk_create_exec :: "string \<Rightarrow> string list \<Rightarrow> 'k \<Rightarrow> 'k \<times> (anyhow_error + string)"
  dk_start_exec :: "string \<Rightarrow> 'k \<Rightarrow> 'k \<times> (anyhow_error + exec_results)"
  dk_poll :: "string \<Rightarrow> u16 \<Rightarrow> wait_for list \<Rightarrow> ('k, unit) handler"

definition h_call :: "('k \<Rightarrow> 'k \<times> 'a) \<Rightarrow> ('k, 'a) handler" where
  "h_call f k = (case f k of (k', a) \<Rightarrow> (k', Done a))"

definition h_query :: "('k \<Rightarrow> 'a exec) \<Rightarrow> ('k, 'a) handler" where
  "h_query f k = (k, f k)"

definition ok_or :: "string \<Rightarrow> 'a option \<Rightarrow> anyhow_error + 'a" where
  "ok_or e x = (case x of None \<Rightarrow> Inl e | Some y \<Rightarrow> Inr y)"

definition get_network_ip_address :: "'k docker_lib \<Rightarrow> string \<Rightarrow> string \<Rightarrow> ('k, anyhow_error + string) handler" where
  "get_network_ip_address D container network =
     h_bind (h_read (dk_inspect D container)) (\<lambda>inspected.
     h_return
       (res_bind inspected (\<lambda>settings.
        res_bind (ok_or (''missing NetworkSettings on container '' @ container) settings) (\<lambda>network_settings.
        res_bind (ok_or (''missing NetworkSettings.Networks on container '' @ container) network_settings) (\<lambda>networks.
        res_bind (ok_or (''container '' @ container @ '' is not a part of network '' @ network) (map_of networks network)) (\<lambda>endpoint.
        ok_or (''container '' @ container @ '' belongs to network '' @ network @ '', but is not assigned an IP address'') endpoint)))))) "

definition create_network :: "'k docker_lib \<Rightarrow> string \<Rightarrow> ('k, anyhow_error + unit) handler" where
  "create_network D network =
     h_bind (h_read (dk_list_networks D)) (\<lambda>listed.
     h_check listed (\<lambda>networks.
     if Some network \<in> set networks then h_return (Inr ()) else h_call (dk_create_network D network)))"

text \<open>What the containers share: start the image in the network, then ask for its address.\<close>

definition run_in ::
  "'k docker_lib \<Rightarrow> string \<Rightarrow> docker_image \<Rightarrow> ('k, anyhow_error + string \<times> string) handler" where
  "run_in D network img =
     h_bind (dk_run D (img\<lparr>im_network := Some network\<rparr>)) (\<lambda>container.
     h_try (get_network_ip_address D container network) (\<lambda>ip_address.
     h_return (Inr (container, ip_address))))"

definition http_at :: "string \<Rightarrow> u16 \<Rightarrow> string" where
  "http_at host port = ''http://'' @ host @ '':'' @ show_u16 port"

definition host_port :: "'k docker_lib \<Rightarrow> string \<Rightarrow> u16 \<Rightarrow> ('k, u16) handler" where
  "host_port D container port = h_query (dk_host_port_ipv4 D container port)"

section \<open>Containers\<close>

record Redis =
  re_container :: string
  re_address :: string
  re_full_address :: string
  re_local_address :: string

definition Redis_run :: "'k docker_lib \<Rightarrow> string \<Rightarrow> ('k, anyhow_error + Redis) handler" where
  "Redis_run D network =
     h_try (run_in D network ((GenericImage_new ''redis'' ''latest'')\<lparr>im_ports := [3000],
              im_wait := MessageOnStdout ''Ready to accept connections''\<rparr>)) (\<lambda>(container, address).
     h_bind (host_port D container 3000) (\<lambda>port.
     h_return (Inr \<lparr>re_container = container, re_address = address, re_full_address = ''redis://'' @ address @ '':'' @ show_u16 6379,
       re_local_address = http_at ''127.0.0.1'' port\<rparr>)))"

record Sandbox =
  sb_container :: string
  sb_address :: string
  sb_local_address :: string

definition Sandbox_run :: "'k docker_lib \<Rightarrow> string \<Rightarrow> ('k, anyhow_error + Sandbox) handler" where
  "Sandbox_run D network =
     h_try (run_in D network ((GenericImage_new ''ghcr.io/near/sandbox'' ''latest'')\<lparr>im_ports := [3000],
              im_args := [''--rpc-addr'', ''0.0.0.0:'' @ show_u16 3000, ''--network-addr'', ''0.0.0.0:'' @ show_u16 3001]\<rparr>)) (\<lambda>(container, address).
     h_bind (host_port D container 3000) (\<lambda>port.
     h_bind (dk_poll D container 3000 [MessageOnStderr ''ready'']) (\<lambda>_.
     h_return (Inr \<lparr>sb_container = container, sb_address = http_at address 3000, sb_local_address = http_at ''127.0.0.1'' port\<rparr>))))"

record OidcProviderContainer =
  oc_container :: string
  oc_jwt_pk_url :: string
  oc_jwt_pk_local_url :: string

definition OidcProvider_run :: "'k docker_lib \<Rightarrow> string \<Rightarrow> ('k, anyhow_error + OidcProviderContainer) handler" where
  "OidcProvider_run D network =
     h_try (run_in D network ((GenericImage_new ''near/test-oidc-provider'' ''latest'')\<lparr>im_ports := [3000],
              im_env := [(''RUST_LOG'', ''DEBUG'')]\<rparr>)) (\<lambda>(container, ip_address).
     h_bind (host_port D container 3000) (\<lambda>port.
     h_return (Inr \<lparr>oc_container = container, oc_jwt_pk_url = http_at ip_address 3000 @ ''/jwt_signature_public_keys'',
       oc_jwt_pk_local_url = http_at ''127.0.0.1'' port @ ''/jwt_signature_public_keys''\<rparr>)))"

record Datastore =
  da_container :: string
  da_address :: string
  da_local_address :: string

definition Datastore_run :: "'k docker_lib \<Rightarrow> string \<Rightarrow> string \<Rightarrow> ('k, anyhow_error + Datastore) handler" where
  "Datastore_run D network project_id =
     h_try (run_in D network ((GenericImage_new ''gcr.io/google.com/cloudsdktool/google-cloud-cli'' ''436.0.0-emulators'')\<lparr>
              im_wait := MessageOnStderr ''Dev App Server is now running.'', im_ports := [3000], im_entrypoint := Some ''gcloud'',
              im_env := [(''DATASTORE_EMULATOR_HOST'', ''0.0.0.0:'' @ show_u16 3000), (''DATASTORE_PROJECT_ID'', project_id)],
              im_args := [''beta'', ''emulators'', ''datastore'', ''start'', ''--project='' @ project_id, ''--host-port'',
                ''0.0.0.0:'' @ show_u16 3000, ''--no-store-on-disk'']\<rparr>)) (\<lambda>(container, ip_address).
     h_bind (host_port D container 3000) (\<lambda>port.
     h_return (Inr \<lparr>da_container = container, da_address = http_at ip_address 3000 @ ''/'',
       da_local_address = http_at ''127.0.0.1'' port @ ''/''\<rparr>)))"

record LocalStack =
  lo_container :: string
  lo_address :: string
  lo_s3_address :: string
  lo_s3_host_address :: string
  lo_s3_bucket :: string
  lo_s3_region :: string

text \<open>On x86-64 the host reaches the stack over IPv6.\<close>

definition LocalStack_run :: "'k docker_lib \<Rightarrow> string \<Rightarrow> string \<Rightarrow> string \<Rightarrow> ('k, anyhow_error + LocalStack) handler" where
  "LocalStack_run D network s3_bucket s3_region =
     h_try (run_in D network ((GenericImage_new ''localstack/localstack'' ''3.0.0'')\<lparr>im_wait := MessageOnStdout ''Running on''\<rparr>))
       (\<lambda>(container, address).
     h_try (h_call (dk_create_exec D container
              [''awslocal'', ''s3api'', ''create-bucket'', ''--bucket'', s3_bucket, ''--region'', s3_region])) (\<lambda>create_result.
     h_try (h_call (dk_start_exec D create_result)) (\<lambda>_.
     h_bind (h_query (dk_host_port_ipv6 D container 4566)) (\<lambda>s3_host_port.
     h_return (Inr \<lparr>lo_container = container, lo_address = address, lo_s3_address = http_at address 4566,
       lo_s3_host_address = http_at ''[::1]'' s3_host_port, lo_s3_bucket = s3_bucket, lo_s3_region = s3_region\<rparr>)))))"

record LakeIndexer =
  li_container :: string
  li_bucket_name :: string
  li_region :: string
  li_rpc_address :: string
  li_rpc_host_address :: string

definition LakeIndexer_run ::
  "'k docker_lib \<Rightarrow> string \<Rightarrow> string \<Rightarrow> string \<Rightarrow> string \<Rightarrow> ('k, anyhow_error + LakeIndexer) handler" where
  "LakeIndexer_run D network s3_address bucket_name region =
     h_try (run_in D network ((GenericImage_new ''ghcr.io/near/near-lake-indexer'' ''18ef24922fd7b5b8985ea793fdf7a939e57216ba'')\<lparr>
              im_env := [(''AWS_ACCESS_KEY_ID'', ''FAKE_LOCALSTACK_KEY_ID''), (''AWS_SECRET_ACCESS_KEY'', ''FAKE_LOCALSTACK_ACCESS_KEY'')],
              im_wait := MessageOnStderr ''Starting Streamer'', im_ports := [3030],
              im_args := [''--endpoint'', s3_address, ''--bucket'', bucket_name, ''--region'', region, ''--stream-while-syncing'',
                ''sync-from-latest'']\<rparr>)) (\<lambda>(container, address).
     h_bind (host_port D container 3030) (\<lambda>rpc_host_port.
     h_return (Inr \<lparr>li_container = container, li_bucket_name = bucket_name, li_region = region, li_rpc_address = http_at address 3030,
       li_rpc_host_address = http_at ''127.0.0.1'' rpc_host_port\<rparr>)))"

section \<open>Files of the relayer\<close>

datatype toml = TInteger int | TString string | TArray "toml list"

record 'k files_lib =
  fl_create_dir_all :: "string \<Rightarrow> 'k \<Rightarrow> 'k \<times> (string + unit)"
  fl_remove_dir_all :: "string \<Rightarrow> 'k \<Rightarrow> 'k \<times> (string + unit)"
  fl_create :: "string \<Rightarrow> 'k \<Rightarrow> 'k \<times> (string + unit)"
  fl_write_all :: "string \<Rightarrow> string \<Rightarrow> 'k \<Rightarrow> 'k \<times> (string + unit)"
  fl_canonicalize :: "string \<Rightarrow> 'k \<Rightarrow> string + PathBuf"
  fl_to_str :: "PathBuf \<Rightarrow> string option"
  fl_show_public_key :: "SecretKey \<Rightarrow> string"
  fl_show_sk :: "SecretKey \<Rightarrow> string"
  fl_key_json :: "string \<times> string \<times> string \<Rightarrow> string + string"
  fl_toml :: "(string \<rightharpoonup> toml) \<Rightarrow> string + string"

definition h_expect :: "string \<Rightarrow> ('k \<Rightarrow> 'k \<times> (string + 'a)) \<Rightarrow> ('k, 'a) handler" where
  "h_expect msg f = h_bind (h_call f) (\<lambda>r. h_lift (expect msg r))"

definition create_key_file_with_filepath ::
  "'k files_lib \<Rightarrow> AccountId \<Rightarrow> SecretKey \<Rightarrow> string \<Rightarrow> ('k, anyhow_error + unit) handler" where
  "create_key_file_with_filepath F account_id account_sk filepath =
     h_bind (h_lift (expect ''Failed to serialize to JSON'' (fl_key_json F (account_id, fl_show_public_key F account_sk, fl_show_sk F account_sk))))
       (\<lambda>key_json_str.
     h_bind (h_expect ''Failed to create JSON key file'' (fl_create F filepath)) (\<lambda>_.
     h_bind (h_expect ''Failed to write to JSON key file'' (fl_write_all F filepath key_json_str)) (\<lambda>_.
     h_return (Inr ()))))"

definition create_key_file :: "'k files_lib \<Rightarrow> AccountId \<Rightarrow> SecretKey \<Rightarrow> string \<Rightarrow> ('k, anyhow_error + unit) handler" where
  "create_key_file F account_id account_sk key_dir =
     create_key_file_with_filepath F account_id account_sk (key_dir @ ''/'' @ account_id @ ''.json'')"

record RelayerConfig =
  rc_ip_address :: "u8 list"
  rc_port :: u16
  rc_relayer_account_id :: AccountId
  rc_keys_filenames :: "string list"
  rc_shared_storage_account_id :: AccountId
  rc_shared_storage_keys_filename :: string
  rc_whitelisted_contracts :: "AccountId list"
  rc_whitelisted_delegate_action_receiver_ids :: "AccountId list"
  rc_redis_url :: string
  rc_social_db_contract_id :: AccountId
  rc_rpc_url :: string
  rc_wallet_url :: string
  rc_explorer_transaction_url :: string
  rc_rpc_api_key :: string

definition relayer_table :: "RelayerConfig \<Rightarrow> (string \<rightharpoonup> toml)" where
  "relayer_table c = map_of
     [(''ip_address'', TArray (map (\<lambda>ip. TInteger (uint ip)) (rc_ip_address c))), (''port'', TInteger (uint (rc_port c))),
      (''relayer_account_id'', TString (rc_relayer_account_id c)), (''keys_filenames'', TArray (map TString (rc_keys_filenames c))),
      (''shared_storage_account_id'', TString (rc_shared_storage_account_id c)),
      (''shared_storage_keys_filename'', TString (rc_shared_storage_keys_filename c)),
      (''whitelisted_contracts'', TArray (map TString (rc_whitelisted_contracts c))),
      (''whitelisted_delegate_action_receiver_ids'', TArray (map TString (rc_whitelisted_delegate_action_receiver_ids c))),
      (''redis_url'', TString (rc_redis_url c)), (''social_db_contract_id'', TString (rc_social_db_contract_id c)),
      (''rpc_url'', TString (rc_rpc_url c)), (''wallet_url'', TString (rc_wallet_url c)),
      (''explorer_transaction_url'', TString (rc_explorer_transaction_url c)), (''rpc_api_key'', TString (rc_rpc_api_key c))]"

definition create_relayer_cofig_file :: "'k files_lib \<Rightarrow> RelayerConfig \<Rightarrow> string \<Rightarrow> ('k, anyhow_error + string) handler" where
  "create_relayer_cofig_file F config config_path =
     h_bind (h_expect ''Failed to write'' (fl_create F config_path)) (\<lambda>_.
     h_bind (h_lift (expect ''Failed to convert to TOML string'' (fl_toml F (relayer_table config)))) (\<lambda>toml_string.
     h_bind (h_expect ''Failed to write'' (fl_write_all F config_path toml_string)) (\<lambda>_.
     h_bind (h_read (fl_canonicalize F config_path)) (\<lambda>canonical.
     h_bind (h_lift (expect ''Failed to get absolute path'' canonical)) (\<lambda>config_absolute_path.
     h_bind (h_lift (unwrap ''Failed to convert config file path to string'' (fl_to_str F config_absolute_path))) (\<lambda>path.
     h_return (Inr path)))))))"

record RelayerContainer =
  rl_id :: string
  rl_container :: string
  rl_address :: string
  rl_local_address :: string

fun create_relayer_keys ::
  "'k files_lib \<Rightarrow> AccountId \<Rightarrow> string \<Rightarrow> nat \<Rightarrow> SecretKey list \<Rightarrow> ('k, anyhow_error + string list) handler" where
  "create_relayer_keys F relayer_account_id key_dir i [] = h_return (Inr [])"
| "create_relayer_keys F relayer_account_id key_dir i (relayer_sk # sks) =
     (let filename = show_nat i @ ''-'' @ relayer_account_id in
      h_try (create_key_file_with_filepath F relayer_account_id relayer_sk (key_dir @ ''/'' @ filename @ ''.json'')) (\<lambda>_.
      h_try (create_relayer_keys F relayer_account_id key_dir (Suc i) sks) (\<lambda>keyfiles.
      h_return (Inr ((''./account_keys/'' @ filename @ ''.json'') # keyfiles)))))"

definition relayer_config ::
  "AccountId \<Rightarrow> string list \<Rightarrow> AccountId \<Rightarrow> AccountId \<Rightarrow> AccountId \<Rightarrow> string \<Rightarrow> string \<Rightarrow> RelayerConfig" where
  "relayer_config relayer_account_id relayer_keyfiles social_account_id creator_account_id social_db_id redis_full_address near_rpc =
     \<lparr>rc_ip_address = [0, 0, 0, 0], rc_port = 3000, rc_relayer_account_id = relayer_account_id, rc_keys_filenames = relayer_keyfiles,
      rc_shared_storage_account_id = social_account_id,
      rc_shared_storage_keys_filename = ''./account_keys/'' @ social_account_id @ ''.json'',
      rc_whitelisted_contracts = [creator_account_id], rc_whitelisted_delegate_action_receiver_ids = [creator_account_id],
      rc_redis_url = redis_full_address, rc_social_db_contract_id = social_db_id, rc_rpc_url = near_rpc,
      rc_wallet_url = ''https://wallet.testnet.near.org'',
      rc_explorer_transaction_url = ''https://explorer.testnet.near.org/transactions/'', rc_rpc_api_key = []\<rparr>"

definition Relayer_run ::
  "'k docker_lib \<Rightarrow> 'k files_lib \<Rightarrow> string \<Rightarrow> string \<Rightarrow> string \<Rightarrow> AccountId \<Rightarrow> SecretKey list \<Rightarrow> AccountId \<Rightarrow> AccountId \<Rightarrow> AccountId \<Rightarrow>
     SecretKey \<Rightarrow> string \<Rightarrow> ('k, anyhow_error + RelayerContainer) handler" where
  "Relayer_run D F network near_rpc redis_full_address relayer_account_id relayer_account_sks creator_account_id social_db_id
     social_account_id social_account_sk relayer_id =
     (let relayer_configs_path = ''./tmp/'' @ relayer_id; key_dir = relayer_configs_path @ ''/account_keys'' in
      h_bind (h_expect (''Failed to create '' @ relayer_configs_path @ '' directory'') (fl_create_dir_all F relayer_configs_path)) (\<lambda>_.
      h_bind (h_expect ''Failed to create account_keys directory'' (fl_create_dir_all F key_dir)) (\<lambda>_.
      h_bind (h_read (fl_canonicalize F key_dir)) (\<lambda>canonical.
      h_bind (h_lift (expect ''Failed to get absolute path for keys'' canonical)) (\<lambda>keys_absolute_path.
      h_try (create_key_file F social_account_id social_account_sk key_dir) (\<lambda>_.
      h_try (create_relayer_keys F relayer_account_id key_dir 0 relayer_account_sks) (\<lambda>relayer_keyfiles.
      h_try (create_relayer_cofig_file F (relayer_config relayer_account_id relayer_keyfiles social_account_id creator_account_id
               social_db_id redis_full_address near_rpc) (relayer_configs_path @ ''/config.toml'')) (\<lambda>config_absolute_path.
      h_bind (h_lift (unwrap ''Failed to convert keys path to string'' (fl_to_str F keys_absolute_path))) (\<lambda>keys_path.
      h_try (run_in D network ((GenericImage_new ''ghcr.io/near/os-relayer'' ''12ba6e35690df3979fce0b36a41d0ca0db9c0ab4'')\<lparr>
               im_wait := MessageOnStdout ''listening on'', im_ports := [3000],
               im_volumes := [(config_absolute_path, ''/relayer-app/config.toml''), (keys_path, ''/relayer-app/account_keys'')],
               im_env := [(''RUST_LOG'', ''DEBUG'')]\<rparr>)) (\<lambda>(container, ip_address).
      h_bind (host_port D container 3000) (\<lambda>port.
      h_return (Inr \<lparr>rl_id = relayer_id, rl_container = container, rl_address = http_at ip_address 3000,
        rl_local_address = http_at ''127.0.0.1'' port\<rparr>))))))))))))"

definition clean_tmp_files :: "'k files_lib \<Rightarrow> RelayerContainer \<Rightarrow> ('k, anyhow_error + unit) handler" where
  "clean_tmp_files F self =
     h_bind (h_expect (''Failed to clean tmp files for relayer '' @ rl_id self) (fl_remove_dir_all F (''./tmp/'' @ rl_id self))) (\<lambda>_.
     h_return (Inr ()))"

section \<open>Accounts on the sandbox\<close>

record account =
  ac_id :: AccountId
  ac_secret_key :: SecretKey

text \<open>
  \<open>near_workspaces\<close>: a worker is known by the address of its RPC; a call that fails in its
  transaction or in its outcome is an error.
\<close>

record 'k sandbox_lib =
  sx_key_file :: "bytes \<Rightarrow> anyhow_error + string \<times> string"
  sx_parse_account :: "string \<Rightarrow> anyhow_error + AccountId"
  sx_parse_sk :: "string \<Rightarrow> anyhow_error + SecretKey"
  sx_connect :: "string \<Rightarrow> AccountId \<times> SecretKey \<Rightarrow> 'k \<Rightarrow> 'k \<times> (anyhow_error + string)"
  sx_root_account :: "string \<Rightarrow> anyhow_error + account"
  sx_mainnet :: "'k \<Rightarrow> anyhow_error + unit"
  sx_import_contract :: "string \<Rightarrow> AccountId \<Rightarrow> 'k \<Rightarrow> 'k \<times> (anyhow_error + AccountId)"
  sx_deploy_linkdrop :: "string \<Rightarrow> account \<Rightarrow> 'k \<Rightarrow> 'k \<times> (anyhow_error + unit)"
  sx_call :: "string \<Rightarrow> AccountId \<Rightarrow> string \<Rightarrow> 'k \<Rightarrow> 'k \<times> (anyhow_error + unit)"
  sx_create_subaccount :: "string \<Rightarrow> account \<Rightarrow> string \<Rightarrow> nat \<Rightarrow> 'k \<Rightarrow> 'k \<times> (anyhow_error + account)"
  sx_add_keys :: "string \<Rightarrow> account \<Rightarrow> near_public_key list \<Rightarrow> 'k \<Rightarrow> 'k \<times> (anyhow_error + unit)"
  sx_from_seed :: "'k \<Rightarrow> 'k \<times> SecretKey"
  sx_public_key :: "SecretKey \<Rightarrow> near_public_key"

definition initialize_social_db :: "'k sandbox_lib \<Rightarrow> string \<Rightarrow> ('k, anyhow_error + AccountId) handler" where
  "initialize_social_db N worker =
     h_check (sx_parse_account N ''social.near'') (\<lambda>social.
     h_bind (h_read (sx_mainnet N)) (\<lambda>mainnet.
     h_check mainnet (\<lambda>_.
     h_try (h_call (sx_import_contract N worker social)) (\<lambda>social_db.
     h_try (h_call (sx_call N worker social_db ''new'')) (\<lambda>_.
     h_return (Inr social_db))))))"

definition initialize_linkdrop :: "'k sandbox_lib \<Rightarrow> string \<Rightarrow> ('k, anyhow_error + unit) handler" where
  "initialize_linkdrop N worker =
     h_check (sx_root_account N worker) (\<lambda>near_root_account.
     h_try (h_call (sx_deploy_linkdrop N worker near_root_account)) (\<lambda>_.
     h_try (h_call (sx_call N worker (ac_id near_root_account) ''new'')) (\<lambda>_.
     h_return (Inr ()))))"

definition sandbox_create_account :: "'k sandbox_lib \<Rightarrow> string \<Rightarrow> string \<Rightarrow> nat \<Rightarrow> ('k, anyhow_error + account) handler" where
  "sandbox_create_account N worker prefix initial_balance =
     h_check (sx_root_account N worker) (\<lambda>root. h_call (sx_create_subaccount N worker root prefix initial_balance))"

definition BATCH_COUNT_LIMIT :: nat where
  "BATCH_COUNT_LIMIT = 100"

definition batch_counts :: "nat \<Rightarrow> nat list" where
  "batch_counts amount =
     (let num_batches = amount div BATCH_COUNT_LIMIT + 1; rem_batches = amount mod BATCH_COUNT_LIMIT in
      map (\<lambda>i. if i = num_batches - 1 then rem_batches else BATCH_COUNT_LIMIT) [0..<num_batches])"

fun draw_keys :: "'k sandbox_lib \<Rightarrow> nat \<Rightarrow> ('k, SecretKey list) handler" where
  "draw_keys N 0 = h_return []"
| "draw_keys N (Suc n) = h_bind (h_call (sx_from_seed N)) (\<lambda>sk. h_bind (draw_keys N n) (\<lambda>sks. h_return (sk # sks)))"

fun add_batches :: "'k sandbox_lib \<Rightarrow> string \<Rightarrow> account \<Rightarrow> nat list \<Rightarrow> SecretKey list \<Rightarrow> ('k, anyhow_error + SecretKey list) handler" where
  "add_batches N worker account [] keys = h_return (Inr keys)"
| "add_batches N worker account (batch_count # batches) keys =
     h_bind (draw_keys N batch_count) (\<lambda>sks.
     h_try (h_call (sx_add_keys N worker account (map (sx_public_key N) sks))) (\<lambda>_.
     add_batches N worker account batches (keys @ sks)))"

definition gen_rotating_keys :: "'k sandbox_lib \<Rightarrow> string \<Rightarrow> account \<Rightarrow> nat \<Rightarrow> ('k, anyhow_error + SecretKey list) handler" where
  "gen_rotating_keys N worker account amount = add_batches N worker account (batch_counts amount) [ac_secret_key account]"

text \<open>The validator's key is read from the container.\<close>

definition fetch_from_validator :: "'k docker_lib \<Rightarrow> string \<Rightarrow> string \<Rightarrow> ('k, anyhow_error + bytes) handler" where
  "fetch_from_validator D container path =
     h_try (h_call (dk_create_exec D container [''cat'', path])) (\<lambda>create_result.
     h_try (h_call (dk_start_exec D create_result)) (\<lambda>start_result.
     case start_result of
       Attached output \<Rightarrow> h_return (res_bind (res_map id output) (\<lambda>chunks. Inr (concat chunks)))
     | Detached \<Rightarrow> h_lift (Panics ''internal error: entered unreachable code: unexpected detached output'')))"

definition fetch_validator_keys :: "'k docker_lib \<Rightarrow> 'k sandbox_lib \<Rightarrow> string \<Rightarrow> ('k, anyhow_error + string \<times> string) handler" where
  "fetch_validator_keys D N container =
     h_try (fetch_from_validator D container ''/root/.near/validator_key.json'') (\<lambda>key_data. h_return (sx_key_file N key_data))"

text \<open>The worker that both kinds of environment make.\<close>

definition sandbox_worker :: "'k sandbox_lib \<Rightarrow> string \<Rightarrow> string \<times> string \<Rightarrow> ('k, anyhow_error + string) handler" where
  "sandbox_worker N rpc_addr = (\<lambda>(account_id, secret_key).
     h_check (sx_parse_account N account_id) (\<lambda>account.
     h_check (sx_parse_sk N secret_key) (\<lambda>sk.
     h_call (sx_connect N rpc_addr (account, sk)))))"

definition initialize_sandbox :: "'k docker_lib \<Rightarrow> 'k sandbox_lib \<Rightarrow> string \<Rightarrow> ('k, anyhow_error + Sandbox \<times> string) handler" where
  "initialize_sandbox D N network =
     h_try (Sandbox_run D network) (\<lambda>sandbox.
     h_try (fetch_validator_keys D N (sb_container sandbox)) (\<lambda>validator_key.
     h_try (sandbox_worker N (sb_local_address sandbox) validator_key) (\<lambda>worker.
     h_return (Inr (sandbox, worker)))))"

definition initialize_lake_indexer ::
  "'k docker_lib \<Rightarrow> 'k sandbox_lib \<Rightarrow> string \<Rightarrow> ('k, anyhow_error + LocalStack \<times> LakeIndexer \<times> string) handler" where
  "initialize_lake_indexer D N network =
     (let s3_bucket = ''near-lake-custom''; s3_region = ''us-east-1'' in
      h_try (LocalStack_run D network s3_bucket s3_region) (\<lambda>localstack.
      h_try (LakeIndexer_run D network (lo_s3_address localstack) s3_bucket s3_region) (\<lambda>lake_indexer.
      h_try (fetch_validator_keys D N (li_container lake_indexer)) (\<lambda>validator_key.
      h_try (sandbox_worker N (li_rpc_host_address lake_indexer) validator_key) (\<lambda>worker.
      h_return (Inr (localstack, lake_indexer, worker)))))))"

record RelayerCtx =
  rx_sandbox :: Sandbox
  rx_redis :: Redis
  rx_relayer :: RelayerContainer
  rx_worker :: string
  rx_creator_account :: account
  rx_creator_account_keys :: "SecretKey list"

definition initialize_relayer ::
  "'k docker_lib \<Rightarrow> 'k files_lib \<Rightarrow> 'k sandbox_lib \<Rightarrow> string \<Rightarrow> string \<Rightarrow> ('k, anyhow_error + RelayerCtx) handler" where
  "initialize_relayer D F N network relayer_id =
     h_try (initialize_sandbox D N network) (\<lambda>(sandbox, worker).
     h_try (initialize_social_db N worker) (\<lambda>social_db.
     h_try (initialize_linkdrop N worker) (\<lambda>_.
     h_try (sandbox_create_account N worker ''relayer'' 1000) (\<lambda>relayer_account.
     h_try (gen_rotating_keys N worker relayer_account 5) (\<lambda>relayer_account_keys.
     h_try (sandbox_create_account N worker ''creator'' 200) (\<lambda>creator_account.
     h_try (gen_rotating_keys N worker creator_account 5) (\<lambda>creator_account_keys.
     h_try (sandbox_create_account N worker ''social'' 1000) (\<lambda>social_account.
     h_try (Redis_run D network) (\<lambda>redis.
     h_try (Relayer_run D F network (sb_address sandbox) (re_full_address redis) (ac_id relayer_account) relayer_account_keys
              (ac_id creator_account) social_db (ac_id social_account) (ac_secret_key social_account) relayer_id) (\<lambda>relayer.
     h_return (Inr \<lparr>rx_sandbox = sandbox, rx_redis = redis, rx_relayer = relayer, rx_worker = worker,
       rx_creator_account = creator_account, rx_creator_account_keys = creator_account_keys\<rparr>)))))))))))"

section \<open>Processes\<close>

text \<open>\<open>os_out_dir\<close> is the path of the build's output, by components; \<open>os_cargo\<close> tells whether cargo succeeded.\<close>

record 'k process_lib =
  os_out_dir :: "string list"
  os_cargo :: "string list \<Rightarrow> 'k \<Rightarrow> 'k \<times> (anyhow_error + bool)"
  os_spawn :: "string list \<Rightarrow> string list \<Rightarrow> 'k \<Rightarrow> 'k \<times> (anyhow_error + unit)"
  os_unused_port :: "'k \<Rightarrow> 'k \<times> (anyhow_error + u16)"
  os_get :: "string \<Rightarrow> 'k \<Rightarrow> 'k \<times> (anyhow_error + StatusCode)"
  os_get_time :: "nat \<Rightarrow> nat"
  os_json_sks :: "SecretKey list \<Rightarrow> string"
  os_path_str :: "PathBuf \<Rightarrow> string option"

function target_dir :: "string list \<Rightarrow> string list option" where
  "target_dir out_dir =
     (if out_dir = [] then None else if last out_dir = ''target'' then Some out_dir else target_dir (butlast out_dir))"
  by pat_completeness auto

termination
  by (relation "measure length") auto

declare target_dir.simps [simp del]

definition executable :: "'k process_lib \<Rightarrow> bool \<Rightarrow> string \<Rightarrow> string list option" where
  "executable P release name = map_option (\<lambda>d. d @ [if release then ''release'' else ''debug'', name]) (target_dir (os_out_dir P))"

definition build_args :: "bool \<Rightarrow> string \<Rightarrow> string option \<Rightarrow> string list" where
  "build_args release package target =
     [''build'', ''--package'', package] @ (if release then [''--release''] else []) @
     (case target of None \<Rightarrow> [] | Some t \<Rightarrow> [''--target'', t])"

definition build_package :: "'k process_lib \<Rightarrow> bool \<Rightarrow> string \<Rightarrow> string option \<Rightarrow> ('k, anyhow_error + bool) handler" where
  "build_package P release package target = h_call (os_cargo P (build_args release package target))"

definition mpc_build :: "'k process_lib \<Rightarrow> bool \<Rightarrow> ('k, anyhow_error + bool) handler" where
  "mpc_build P release = build_package P release ''mpc-recovery'' None"

definition build_multichain :: "'k process_lib \<Rightarrow> bool \<Rightarrow> ('k, anyhow_error + bool) handler" where
  "build_multichain P release = build_package P release ''mpc-recovery-node'' None"

definition build_multichain_contract :: "'k process_lib \<Rightarrow> ('k, anyhow_error + bool) handler" where
  "build_multichain_contract P = build_package P True ''mpc-contract'' (Some ''wasm32-unknown-unknown'')"

text \<open>Without the feature \<open>flamegraph\<close> a node is a process of its own.\<close>

definition mpc_spawn :: "'k process_lib \<Rightarrow> bool \<Rightarrow> string \<Rightarrow> Cli \<Rightarrow> ('k, anyhow_error + unit) handler" where
  "mpc_spawn P release node cli =
     h_check (ok_or (''could not find target dir while starting '' @ node @ '' node'') (executable P release ''mpc-recovery'')) (\<lambda>exe.
     h_bind (h_lift (Cli_into_str_args (os_json_sks P) (os_path_str P) cli)) (\<lambda>args.
     h_bind (h_call (os_spawn P exe args)) (\<lambda>r.
     h_return (context_err (''failed to execute '' @ node @ '' node'') r))))"

definition spawn_multichain :: "'k process_lib \<Rightarrow> (SecretKey \<Rightarrow> string) \<Rightarrow> bool \<Rightarrow> string \<Rightarrow> NodeStart \<Rightarrow> ('k, anyhow_error + unit) handler" where
  "spawn_multichain P show_sk release node cli =
     h_check (ok_or (''could not find target dir while starting '' @ node @ '' node'') (executable P release ''mpc-recovery-node'')) (\<lambda>exe.
     h_bind (h_call (os_spawn P exe (NodeStart_into_str_args show_sk cli))) (\<lambda>r.
     h_return (context_err (''failed to run '' @ node @ '' node: '' @ concat (map (\<lambda>c. ''/'' @ c) exe)) r)))"

definition pick_unused_port :: "'k process_lib \<Rightarrow> ('k, anyhow_error + u16) handler" where
  "pick_unused_port P = h_call (os_unused_port P)"

text \<open>Attempt \<open>j\<close> takes \<open>os_get_time P j\<close> milliseconds, and half a second passes between attempts.\<close>

function ping_loop :: "'k process_lib \<Rightarrow> string \<Rightarrow> nat \<Rightarrow> nat \<Rightarrow> ('k, anyhow_error + unit) handler" where
  "ping_loop P addr left j k =
     (case os_get P addr k of
        (k', r) \<Rightarrow>
          if os_get_time P j > left then (k', Done (Inl ''deadline has elapsed''))
          else if r = Inr 200 then (k', Done (Inr ()))
          else if left - os_get_time P j < 500 then (k', Done (Inl ''deadline has elapsed''))
          else ping_loop P addr (left - os_get_time P j - 500) (Suc j) k')"
  by pat_completeness auto

termination
  by (relation "measure (\<lambda>(_, _, left, _, _). left)") auto

declare ping_loop.simps [simp del]

definition ping_until_ok :: "'k process_lib \<Rightarrow> string \<Rightarrow> nat \<Rightarrow> ('k, anyhow_error + unit) handler" where
  "ping_until_ok P addr timeout = ping_loop P addr (timeout * 1000) 0"

section \<open>Laws\<close>

text \<open>The batches are the keys that were asked for, at most a hundred at a time.\<close>

lemma batch_counts_shape: "batch_counts amount = replicate (amount div 100) 100 @ [amount mod 100]"
proof -
  have "map (\<lambda>i. if i = amount div 100 then amount mod 100 else 100) [0..<amount div 100] = replicate (amount div 100) 100"
    by (rule nth_equalityI) auto
  then show ?thesis unfolding batch_counts_def BATCH_COUNT_LIMIT_def by simp
qed

lemma batch_counts_sum: "sum_list (batch_counts amount) = amount"
  by (simp add: batch_counts_shape sum_list_replicate)

lemma batch_counts_limit: "c \<in> set (batch_counts amount) \<Longrightarrow> c \<le> BATCH_COUNT_LIMIT"
  by (auto simp: batch_counts_shape BATCH_COUNT_LIMIT_def split: if_splits)

lemma draw_keys_length: "draw_keys N n k = (k', Done sks) \<Longrightarrow> length sks = n"
  by (induction n arbitrary: k sks) (auto simp: h_bind_Done)

lemma add_batches_length: "add_batches N worker account cs keys k = (k', Done (Inr sks)) \<Longrightarrow> length sks = length keys + sum_list cs"
  by (induction cs arbitrary: keys k) (auto simp: h_bind_Done h_try_Inr dest!: draw_keys_length)

lemma rotating_keys_length:
  "gen_rotating_keys N worker account amount k = (k', Done (Inr sks)) \<Longrightarrow> length sks = Suc amount"
  by (auto simp: gen_rotating_keys_def batch_counts_sum dest!: add_batches_length)

text \<open>The directory found is a prefix of the path, and the longest one that ends as it should.\<close>

lemma target_dir_None: "target_dir p = None \<longleftrightarrow> ''target'' \<notin> set p"
proof (induction p rule: rev_induct)
  case (snoc x p)
  then show ?case by (subst target_dir.simps) auto
qed (simp add: target_dir.simps)

lemma target_dir_Some:
  "target_dir p = Some d \<Longrightarrow> (\<exists>rest. p = d @ rest \<and> ''target'' \<notin> set rest) \<and> d \<noteq> [] \<and> last d = ''target''"
proof (induction p rule: rev_induct)
  case (snoc x p)
  show ?case
  proof (cases "x = ''target''")
    case True
    then have "target_dir (p @ [x]) = Some (p @ [x])" by (subst target_dir.simps) simp
    with snoc.prems True show ?thesis by auto
  next
    case False
    then have "target_dir (p @ [x]) = target_dir p" by (subst target_dir.simps) simp
    with snoc obtain rest where "p = d @ rest" "''target'' \<notin> set rest" "d \<noteq> []" "last d = ''target''" by auto
    with False show ?thesis by (intro conjI exI [of _ "rest @ [x]"]) auto
  qed
qed (simp add: target_dir.simps)

text \<open>The wait ends well only after an answer with 200.\<close>

lemma ping_loop_Inr: "ping_loop P addr left j k = (k', Done (Inr ())) \<Longrightarrow> \<exists>k0. os_get P addr k0 = (k', Inr 200)"
proof (induction P addr left j k rule: ping_loop.induct)
  case (1 P addr left j k)
  obtain k1 r where g: "os_get P addr k = (k1, r)" by (cases "os_get P addr k")
  show ?case
  proof (cases "os_get_time P j > left \<or> r = Inr 200 \<or> left - os_get_time P j < 500")
    case True
    with "1.prems" g show ?thesis by (subst (asm) ping_loop.simps) (auto split: if_splits)
  next
    case False
    with "1.prems" g have "ping_loop P addr (left - os_get_time P j - 500) (Suc j) k1 = (k', Done (Inr ()))"
      by (subst (asm) ping_loop.simps) auto
    with "1.IH" [OF g [symmetric]] False show ?thesis by auto
  qed
qed

end
