(* ===== verification/Multichain_Environment.thy ===== *)
theory Multichain_Environment
  imports Multichain_Setup Test_Containers
begin

text \<open>
  The environment of the multichain tests, \<^verbatim>\<open>integration-tests/src/multichain/mod.rs\<close>: the builds, the
  network, the indexer with its store, and the contract, in front of the nodes of
  \<open>Multichain_Setup\<close>.
\<close>

text \<open>\<open>read_wasm\<close> reads the contract that was built, \<open>dev_deploy\<close> deploys it through a worker.\<close>

definition multichain_setup ::
  "'k process_lib \<Rightarrow> 'k docker_lib \<Rightarrow> 'k sandbox_lib \<Rightarrow> (string \<Rightarrow> 'k \<Rightarrow> anyhow_error + bytes) \<Rightarrow>
     (string \<Rightarrow> bytes \<Rightarrow> 'k \<Rightarrow> 'k \<times> (anyhow_error + AccountId)) \<Rightarrow> ('k, anyhow_error + Context) handler" where
  "multichain_setup P D N read_wasm dev_deploy =
     (let docker_network = ''mpc_it_network'' in
      h_try (build_multichain_contract P) (\<lambda>success.
      if \<not> success then h_return (Inl ''failed to prebuild multichain contract'') else
      h_try (build_multichain P True) (\<lambda>success.
      if \<not> success then h_return (Inl ''failed to prebuild multichain node service'') else
      h_try (create_network D docker_network) (\<lambda>_.
      h_try (initialize_lake_indexer D N docker_network) (\<lambda>(localstack, lake_indexer, worker).
      h_bind (h_read (read_wasm ''../target/wasm32-unknown-unknown/release/mpc_contract.wasm'')) (\<lambda>wasm.
      h_check wasm (\<lambda>code.
      h_try (h_call (dev_deploy worker code)) (\<lambda>mpc_contract.
      h_return (Inr \<lparr>hc_rpc_host_address = li_rpc_host_address lake_indexer, hc_s3_bucket = lo_s3_bucket localstack,
        hc_s3_region = lo_s3_region localstack, hc_s3_host_address = lo_s3_host_address localstack,
        hc_mpc_contract_id = mpc_contract\<rparr>)))))))))"

text \<open>What the nodes then meet is given with \<open>created\<close>, \<open>draws\<close> and \<open>transact\<close>, as in \<open>host\<close> and \<open>docker\<close>.\<close>

definition multichain_run ::
  "bool \<Rightarrow> ('k, anyhow_error + Context) handler \<Rightarrow> harness_lib \<Rightarrow> (SecretKey \<Rightarrow> string) \<Rightarrow> (string + AccountId \<times> SecretKey) list \<Rightarrow>
     node_draws list \<Rightarrow> string + unit \<Rightarrow> ('k, anyhow_error + Nodes \<times> MpcContract) handler" where
  "multichain_run docker_test setup T show_sk created draws transact =
     h_try setup (\<lambda>ctx.
     if docker_test
     then h_try (h_lift (docker T show_sk ctx created draws transact)) (\<lambda>(nodes, contract). h_return (Inr (DockerNodes ctx nodes, contract)))
     else h_try (h_lift (host T ctx created draws transact)) (\<lambda>(nodes, contract). h_return (Inr (LocalNodes ctx nodes, contract))))"

text \<open>The nodes read the blocks from the bucket that the indexer writes, and call the contract through its node.\<close>

lemma lake_indexer_bucket:
  "initialize_lake_indexer D N network k = (k', Done (Inr (localstack, lake_indexer, worker))) \<Longrightarrow>
     lo_s3_bucket localstack = li_bucket_name lake_indexer \<and> lo_s3_region localstack = li_region lake_indexer"
  by (auto simp: initialize_lake_indexer_def LocalStack_run_def LakeIndexer_run_def h_try_Inr h_bind_Done Let_def)

lemma multichain_setup_lake:
  assumes "multichain_setup P D N read_wasm dev_deploy k = (k', Done (Inr ctx))"
  shows "\<exists>k1 k2 localstack lake_indexer worker. initialize_lake_indexer D N ''mpc_it_network'' k1 = (k2, Done (Inr (localstack, lake_indexer, worker))) \<and>
    hc_s3_bucket ctx = li_bucket_name lake_indexer \<and> hc_s3_region ctx = li_region lake_indexer \<and>
    hc_rpc_host_address ctx = li_rpc_host_address lake_indexer"
proof -
  from assms obtain k1 k2 localstack lake_indexer worker where
    "initialize_lake_indexer D N ''mpc_it_network'' k1 = (k2, Done (Inr (localstack, lake_indexer, worker)))"
    "hc_s3_bucket ctx = lo_s3_bucket localstack" "hc_s3_region ctx = lo_s3_region localstack"
    "hc_rpc_host_address ctx = li_rpc_host_address lake_indexer"
    by (auto simp: multichain_setup_def h_try_Inr h_check_Inr h_bind_Done Let_def split: if_splits)
  moreover from lake_indexer_bucket [OF this(1)] have "lo_s3_bucket localstack = li_bucket_name lake_indexer"
    "lo_s3_region localstack = li_region lake_indexer" by simp_all
  ultimately show ?thesis by metis
qed

lemma multichain_run_host:
  "multichain_run False setup T show_sk created draws transact k = (k', Done (Inr (N, contract))) \<Longrightarrow>
     \<exists>ctx nodes. setup k = (k', Done (Inr ctx)) \<and> host T ctx created draws transact = Done (Inr (nodes, contract)) \<and> N = LocalNodes ctx nodes"
  by (auto simp: multichain_run_def h_try_Inr)

end
