(* ===== verification/Bitcoin_Address.thy ===== *)
theory Bitcoin_Address
  imports Kdf
begin

text \<open>
  The derivation of a Bitcoin address from the root key of the network
  (\<^verbatim>\<open>testing-irfi/src/main.rs\<close>): the key of an account and a path, hashed, with a version byte
  and a checksum. RIPEMD-160, Base58 and the encodings of points are arguments.
\<close>

record address_lib =
  al_curve :: curve_lib
  ripemd160 :: "bytes \<Rightarrow> bytes"
  point_from_bytes :: "bytes \<Rightarrow> AffinePoint option"
  point_to_bytes :: "AffinePoint \<Rightarrow> bytes"
  to_base58 :: "bytes \<Rightarrow> string"

text \<open>The hash of the key with the version byte of the main network.\<close>

definition extended_hash :: "address_lib \<Rightarrow> bytes \<Rightarrow> bytes" where
  "extended_hash A pk = 0 # ripemd160 A (sha256 (al_curve A) pk)"

text \<open>The slice \<open>[0..4]\<close> panics on a shorter hash.\<close>

definition address_checksum :: "address_lib \<Rightarrow> bytes \<Rightarrow> bytes exec" where
  "address_checksum A payload =
     (let hash = sha256 (al_curve A) (sha256 (al_curve A) payload) in
      if length hash < 4 then Panics ''range end index 4 out of range'' else Done (take 4 hash))"

definition bitcoin_address :: "address_lib \<Rightarrow> bytes \<Rightarrow> string exec" where
  "bitcoin_address A pk =
     exec_bind (address_checksum A (extended_hash A pk)) (\<lambda>checksum.
     Done (to_base58 A (extended_hash A pk @ checksum)))"

definition irfi_key :: bytes where
  "irfi_key = [3, 187, 24, 21, 82, 105, 165, 254, 26, 167, 89, 195, 236, 44, 83, 69, 87, 30, 151, 139,
     229, 233, 182, 65, 230, 7, 234, 204, 91, 38, 70, 254, 254]"

definition irfi_main :: "address_lib \<Rightarrow> string exec" where
  "irfi_main A =
     exec_bind (unwrap ''unwrap'' (point_from_bytes A irfi_key)) (\<lambda>public_key.
     let epsilon = derive_epsilon (al_curve A) ''irfi.near'' '',bitcoin-2'';
         pk = point_to_bytes A (derive_key (al_curve A) public_key epsilon) in
     exec_bind (unwrap ''unwrap'' (point_from_bytes A pk)) (\<lambda>new_public_key.
     bitcoin_address A pk))"

section \<open>Laws\<close>

text \<open>How a wallet reads an address: the payload, if the checksum is right.\<close>

definition address_payload :: "address_lib \<Rightarrow> (string \<Rightarrow> bytes option) \<Rightarrow> string \<Rightarrow> bytes option" where
  "address_payload A decode s =
     (case decode s of
        None \<Rightarrow> None
      | Some b \<Rightarrow>
          (let payload = take (length b - 4) b in
           if 4 \<le> length b \<and> address_checksum A payload = Done (drop (length b - 4) b) then Some payload else None))"

lemma checksum_length: "address_checksum A payload = Done c \<Longrightarrow> length c = 4"
  by (auto simp: address_checksum_def Let_def split: if_splits)

text \<open>
  A wallet reads from the address exactly the version byte and the hash of the key. Assumed:
  SHA-256 gives 32 bytes, and Base58 is read back.
\<close>

theorem bitcoin_address_reads_back:
  assumes "\<And>m. length (sha256 (al_curve A) m) = 32" and "\<And>b. decode (to_base58 A b) = Some b"
  shows "\<exists>s. bitcoin_address A pk = Done s \<and> address_payload A decode s = Some (0 # ripemd160 A (sha256 (al_curve A) pk))"
proof -
  obtain c where c: "address_checksum A (extended_hash A pk) = Done c" using assms(1) by (simp add: address_checksum_def Let_def)
  with checksum_length [OF c] assms(2) show ?thesis
    by (simp add: bitcoin_address_def address_payload_def extended_hash_def)
qed

text \<open>
  Addresses of one root key: two paths of an account have the same address only if their
  derived keys have the same hash.
\<close>

theorem bitcoin_address_inj:
  assumes "\<And>m. length (sha256 (al_curve A) m) = 32" and "\<And>b. decode (to_base58 A b) = Some b"
    and "bitcoin_address A pk = Done s" and "bitcoin_address A pk' = Done s"
  shows "ripemd160 A (sha256 (al_curve A) pk) = ripemd160 A (sha256 (al_curve A) pk')"
proof -
  from bitcoin_address_reads_back [where pk = pk and decode = decode and A = A, OF assms(1,2)]
    bitcoin_address_reads_back [where pk = pk' and decode = decode and A = A, OF assms(1,2)] assms(3,4)
  show ?thesis by auto
qed

end
