(* ===== verification/Test_Environment.thy ===== *)
theory Test_Environment
  imports Test_Containers
begin

text \<open>
  The environment of the recovery tests, \<^verbatim>\<open>integration-tests/src/env\<close>: the services, the sign nodes with
  generated shares and the leader, as processes on the host or as containers. The theorem goes
  from the environment to the service: the commands it starts make nodes that are ready once the
  leader has started.
\<close>

section \<open>The context\<close>

record EnvContext =
  ec_env :: string
  ec_docker_network :: string
  ec_gcp_project_id :: string
  ec_audience_id :: string
  ec_issuer :: string
  ec_release :: bool
  ec_relayer_ctx :: RelayerCtx
  ec_datastore :: Datastore
  ec_oidc_provider :: OidcProviderContainer

text \<open>All that is outside: docker, files, the sandbox, processes; the printers of the crates.\<close>

record 'k env_lib =
  el_docker :: "'k docker_lib"
  el_files :: "'k files_lib"
  el_sandbox :: "'k sandbox_lib"
  el_process :: "'k process_lib"
  el_random_string :: "'k \<Rightarrow> 'k \<times> string"
  el_key_pair_json :: "ExpandedKeyPair \<Rightarrow> anyhow_error + string"
  el_hex :: "bytes \<Rightarrow> string"
  el_reparse_sk :: "SecretKey \<Rightarrow> anyhow_error + SecretKey"
  el_partners_json :: "string \<Rightarrow> string \<Rightarrow> string \<Rightarrow> string"

text \<open>
  Three services start side by side; each runs to its end, and the first error in their order is
  the result.
\<close>

definition env_setup :: "'k env_lib \<Rightarrow> ('k, anyhow_error + EnvContext) handler" where
  "env_setup E =
     (let D = el_docker E; gcp_project_id = ''mpc-recovery-gcp-project''; docker_network = ''mpc_it_network'' in
      h_try (mpc_build (el_process E) True) (\<lambda>success.
      if \<not> success then h_return (Inl ''failed to prebuild MPC service'') else
      h_try (create_network D docker_network) (\<lambda>_.
      h_bind (h_call (el_random_string E)) (\<lambda>relayer_id.
      h_bind (initialize_relayer D (el_files E) (el_sandbox E) docker_network relayer_id) (\<lambda>relayer_result.
      h_bind (Datastore_run D docker_network gcp_project_id) (\<lambda>datastore_result.
      h_bind (OidcProvider_run D docker_network) (\<lambda>oidc_result.
      h_check relayer_result (\<lambda>relayer_ctx.
      h_check datastore_result (\<lambda>datastore.
      h_check oidc_result (\<lambda>oidc_provider.
      h_return (Inr \<lparr>ec_env = ''dev'', ec_docker_network = docker_network, ec_gcp_project_id = gcp_project_id,
        ec_audience_id = ''test_audience'', ec_issuer = ''https://securetoken.google.com/test_audience'', ec_release = True,
        ec_relayer_ctx = relayer_ctx, ec_datastore = datastore, ec_oidc_provider = oidc_provider\<rparr>)))))))))))"

section \<open>env_Nodes\<close>

definition sign_command ::
  "'k env_lib \<Rightarrow> EnvContext \<Rightarrow> u64 \<Rightarrow> u16 \<Rightarrow> ExpandedKeyPair \<Rightarrow> bytes \<Rightarrow> string \<Rightarrow> string \<Rightarrow> anyhow_error + StartSign" where
  "sign_command E ctx node_id web_port sk_share cipher_key datastore_url jwt_signature_pk_url =
     res_bind (el_key_pair_json E sk_share) (\<lambda>sk_share_text.
     Inr \<lparr>st_env = ec_env ctx, st_node_id = node_id, st_cipher_key = Some (el_hex E cipher_key), st_sk_share = Some sk_share_text,
          st_web_port = web_port, st_gcp_project_id = ec_gcp_project_id ctx, st_gcp_datastore_url = Some datastore_url,
          st_jwt_signature_pk_url = jwt_signature_pk_url, st_logging_options = logging_default\<rparr>)"

definition leader_command ::
  "'k env_lib \<Rightarrow> EnvContext \<Rightarrow> u16 \<Rightarrow> string list \<Rightarrow> string \<Rightarrow> string \<Rightarrow> string \<Rightarrow> string \<Rightarrow> anyhow_error + StartLeader" where
  "leader_command E ctx web_port sign_nodes near_rpc relayer_url datastore_url jwt_signature_pk_url =
     res_bind (sx_root_account (el_sandbox E) (rx_worker (ec_relayer_ctx ctx))) (\<lambda>root.
     res_bind (res_map (el_reparse_sk E) (rx_creator_account_keys (ec_relayer_ctx ctx))) (\<lambda>account_creator_sk.
     Inr \<lparr>sl_env = ec_env ctx, sl_web_port = web_port, sl_sign_nodes = sign_nodes, sl_near_rpc = near_rpc,
          sl_near_root_account = ac_id root, sl_account_creator_id = ac_id (rx_creator_account (ec_relayer_ctx ctx)),
          sl_account_creator_sk = account_creator_sk,
          sl_fast_auth_partners = Some (el_partners_json E (ec_issuer ctx) (ec_audience_id ctx) relayer_url),
          sl_fast_auth_partners_filepath = None, sl_gcp_project_id = ec_gcp_project_id ctx,
          sl_gcp_datastore_url = Some datastore_url, sl_jwt_signature_pk_url = jwt_signature_pk_url,
          sl_logging_options = logging_default\<rparr>))"

text \<open>A node as a process; \<open>sg_process\<close> is the command it runs.\<close>

record local_SignerNode =
  sg_address :: string
  sg_env :: string
  sg_node_id :: u64
  sg_sk_share :: ExpandedKeyPair
  sg_cipher_key :: bytes
  sg_gcp_project_id :: string
  sg_gcp_datastore_url :: string
  sg_process :: StartSign

definition local_SignerNode_run ::
  "'k env_lib \<Rightarrow> EnvContext \<Rightarrow> u64 \<Rightarrow> ExpandedKeyPair \<Rightarrow> bytes \<Rightarrow> ('k, anyhow_error + local_SignerNode) handler" where
  "local_SignerNode_run E ctx node_id sk_share cipher_key =
     h_try (pick_unused_port (el_process E)) (\<lambda>web_port.
     h_check (sign_command E ctx node_id web_port sk_share cipher_key (da_local_address (ec_datastore ctx))
                (oc_jwt_pk_local_url (ec_oidc_provider ctx))) (\<lambda>cli.
     h_try (mpc_spawn (el_process E) (ec_release ctx) (''sign-'' @ show_usize node_id) (CliStartSign cli)) (\<lambda>_.
     let address = http_at ''127.0.0.1'' web_port in
     h_try (ping_until_ok (el_process E) address 60) (\<lambda>_.
     h_return (Inr \<lparr>sg_address = address, sg_env = ec_env ctx, sg_node_id = node_id, sg_sk_share = sk_share, sg_cipher_key = cipher_key,
       sg_gcp_project_id = ec_gcp_project_id ctx, sg_gcp_datastore_url = da_local_address (ec_datastore ctx), sg_process = cli\<rparr>)))))"

record local_LeaderNode =
  ld_address :: string
  ld_near_rpc :: string
  ld_relayer_url :: string
  ld_process :: StartLeader

definition local_LeaderNode_run ::
  "'k env_lib \<Rightarrow> EnvContext \<Rightarrow> string list \<Rightarrow> ('k, anyhow_error + local_LeaderNode) handler" where
  "local_LeaderNode_run E ctx sign_nodes =
     h_try (pick_unused_port (el_process E)) (\<lambda>web_port.
     let near_rpc = sb_local_address (rx_sandbox (ec_relayer_ctx ctx)); relayer_url = rl_local_address (rx_relayer (ec_relayer_ctx ctx)) in
     h_check (leader_command E ctx web_port sign_nodes near_rpc relayer_url (da_local_address (ec_datastore ctx))
                (oc_jwt_pk_local_url (ec_oidc_provider ctx))) (\<lambda>cli.
     h_try (mpc_spawn (el_process E) (ec_release ctx) ''leader'' (CliStartLeader cli)) (\<lambda>_.
     let address = http_at ''127.0.0.1'' web_port in
     h_try (ping_until_ok (el_process E) address 60) (\<lambda>_.
     h_return (Inr \<lparr>ld_address = address, ld_near_rpc = near_rpc, ld_relayer_url = relayer_url, ld_process = cli\<rparr>)))))"

text \<open>A node as a container; \<open>dg_command\<close> is the command whose arguments the container got.\<close>

record docker_SignerNode =
  dg_container :: string
  dg_address :: string
  dg_local_address :: string
  dg_env :: string
  dg_node_id :: u64
  dg_sk_share :: ExpandedKeyPair
  dg_cipher_key :: bytes
  dg_gcp_project_id :: string
  dg_gcp_datastore_local_url :: string
  dg_command :: StartSign

text \<open>The image of both kinds of nodes, and the wait for it.\<close>

definition run_node_container ::
  "'k env_lib \<Rightarrow> EnvContext \<Rightarrow> Cli \<Rightarrow> ('k, anyhow_error + string \<times> string \<times> u16) handler" where
  "run_node_container E ctx cli =
     (let D = el_docker E in
      h_bind (h_lift (Cli_into_str_args (os_json_sks (el_process E)) (os_path_str (el_process E)) cli)) (\<lambda>args.
      h_try (run_in D (ec_docker_network ctx) ((GenericImage_new ''near/mpc-recovery'' ''latest'')\<lparr>im_ports := [3000],
               im_env := [(''RUST_LOG'', ''mpc_recovery=DEBUG'')], im_args := args\<rparr>)) (\<lambda>(container, ip_address).
      h_bind (host_port D container 3000) (\<lambda>port.
      h_bind (dk_poll D container 3000 [MessageOnStderr ''node is ready to accept connections'']) (\<lambda>_.
      h_return (Inr (container, ip_address, port)))))))"

definition docker_SignerNode_run ::
  "'k env_lib \<Rightarrow> EnvContext \<Rightarrow> u64 \<Rightarrow> ExpandedKeyPair \<Rightarrow> bytes \<Rightarrow> ('k, anyhow_error + docker_SignerNode) handler" where
  "docker_SignerNode_run E ctx node_id sk_share cipher_key =
     h_check (sign_command E ctx node_id 3000 sk_share cipher_key (da_address (ec_datastore ctx)) (oc_jwt_pk_url (ec_oidc_provider ctx))) (\<lambda>cli.
     h_try (run_node_container E ctx (CliStartSign cli)) (\<lambda>(container, ip_address, port).
     h_return (Inr \<lparr>dg_container = container, dg_address = http_at ip_address 3000, dg_local_address = http_at ''127.0.0.1'' port,
       dg_env = ec_env ctx, dg_node_id = node_id, dg_sk_share = sk_share, dg_cipher_key = cipher_key,
       dg_gcp_project_id = ec_gcp_project_id ctx, dg_gcp_datastore_local_url = da_local_address (ec_datastore ctx), dg_command = cli\<rparr>)))"

record docker_LeaderNode =
  dl_container :: string
  dl_address :: string
  dl_local_address :: string
  dl_local_rpc_url :: string
  dl_local_relayer_url :: string
  dl_command :: StartLeader

definition docker_LeaderNode_run ::
  "'k env_lib \<Rightarrow> EnvContext \<Rightarrow> string list \<Rightarrow> ('k, anyhow_error + docker_LeaderNode) handler" where
  "docker_LeaderNode_run E ctx sign_nodes =
     h_check (leader_command E ctx 3000 sign_nodes (sb_address (rx_sandbox (ec_relayer_ctx ctx))) (rl_address (rx_relayer (ec_relayer_ctx ctx)))
                (da_address (ec_datastore ctx)) (oc_jwt_pk_url (ec_oidc_provider ctx))) (\<lambda>cli.
     h_try (run_node_container E ctx (CliStartLeader cli)) (\<lambda>(container, ip_address, port).
     h_return (Inr \<lparr>dl_container = container, dl_address = http_at ip_address 3000, dl_local_address = http_at ''127.0.0.1'' port,
       dl_local_rpc_url = sb_local_address (rx_sandbox (ec_relayer_ctx ctx)),
       dl_local_relayer_url = rl_local_address (rx_relayer (ec_relayer_ctx ctx)), dl_command = cli\<rparr>)))"

text \<open>The handles that the tests use: the server behind an address is the argument \<open>net\<close>.\<close>

definition local_signer_api :: "(string \<Rightarrow> http_request \<Rightarrow> 'w \<Rightarrow> 'w \<times> http_response option) \<Rightarrow> local_SignerNode \<Rightarrow> 'w SignerNodeApi" where
  "local_signer_api net self =
     \<lparr>sa_env = sg_env self, sa_address = net (sg_address self), sa_node_id = sg_node_id self, sa_sk_share = sg_sk_share self,
      sa_cipher_key = sg_cipher_key self, sa_gcp_project_id = sg_gcp_project_id self,
      sa_gcp_datastore_local_url = sg_gcp_datastore_url self\<rparr>"

definition docker_signer_api :: "(string \<Rightarrow> http_request \<Rightarrow> 'w \<Rightarrow> 'w \<times> http_response option) \<Rightarrow> docker_SignerNode \<Rightarrow> 'w SignerNodeApi" where
  "docker_signer_api net self =
     \<lparr>sa_env = dg_env self, sa_address = net (dg_local_address self), sa_node_id = dg_node_id self, sa_sk_share = dg_sk_share self,
      sa_cipher_key = dg_cipher_key self, sa_gcp_project_id = dg_gcp_project_id self,
      sa_gcp_datastore_local_url = dg_gcp_datastore_local_url self\<rparr>"

definition local_leader_api ::
  "(string \<Rightarrow> http_request \<Rightarrow> 'w \<Rightarrow> 'w \<times> http_response option) \<Rightarrow> (string \<Rightarrow> 'w relayer_lib) \<Rightarrow> local_LeaderNode \<Rightarrow> 'w LeaderNodeApi" where
  "local_leader_api net connect self =
     \<lparr>la_address = net (ld_address self), la_relayer = \<lparr>dar_url = ld_relayer_url self, dar_api_key = None\<rparr>,
      la_client = connect (ld_near_rpc self)\<rparr>"

definition docker_leader_api ::
  "(string \<Rightarrow> http_request \<Rightarrow> 'w \<Rightarrow> 'w \<times> http_response option) \<Rightarrow> (string \<Rightarrow> 'w relayer_lib) \<Rightarrow> docker_LeaderNode \<Rightarrow> 'w LeaderNodeApi" where
  "docker_leader_api net connect self =
     \<lparr>la_address = net (dl_local_address self), la_relayer = \<lparr>dar_url = dl_local_relayer_url self, dar_api_key = None\<rparr>,
      la_client = connect (dl_local_rpc_url self)\<rparr>"

section \<open>The environment\<close>

datatype env_Nodes =
    EnvLocal EnvContext "EdPoint list" local_LeaderNode "local_SignerNode list"
  | EnvDocker EnvContext "EdPoint list" docker_LeaderNode "docker_SignerNode list"

fun env_ctx :: "env_Nodes \<Rightarrow> EnvContext" where
  "env_ctx (EnvLocal ctx _ _ _) = ctx"
| "env_ctx (EnvDocker ctx _ _ _) = ctx"

fun env_pk_set :: "env_Nodes \<Rightarrow> EdPoint list" where
  "env_pk_set (EnvLocal _ pk_set _ _) = pk_set"
| "env_pk_set (EnvDocker _ pk_set _ _) = pk_set"

fun env_leader_api ::
  "(string \<Rightarrow> http_request \<Rightarrow> 'w \<Rightarrow> 'w \<times> http_response option) \<Rightarrow> (string \<Rightarrow> 'w relayer_lib) \<Rightarrow> env_Nodes \<Rightarrow> 'w LeaderNodeApi" where
  "env_leader_api net connect (EnvLocal _ _ leader _) = local_leader_api net connect leader"
| "env_leader_api net connect (EnvDocker _ _ leader _) = docker_leader_api net connect leader"

fun env_signer_apis :: "(string \<Rightarrow> http_request \<Rightarrow> 'w \<Rightarrow> 'w \<times> http_response option) \<Rightarrow> env_Nodes \<Rightarrow> 'w SignerNodeApi list" where
  "env_signer_apis net (EnvLocal _ _ _ signer_nodes) = map (local_signer_api net) signer_nodes"
| "env_signer_apis net (EnvDocker _ _ _ signer_nodes) = map (docker_signer_api net) signer_nodes"

definition env_datastore_addr :: "env_Nodes \<Rightarrow> string" where
  "env_datastore_addr self = da_local_address (ec_datastore (env_ctx self))"

text \<open>Futures that are awaited together, one after the other here.\<close>

fun join_all :: "('k, 'a) handler list \<Rightarrow> ('k, 'a list) handler" where
  "join_all [] = h_return []"
| "join_all (m # ms) = h_bind m (\<lambda>x. h_bind (join_all ms) (\<lambda>xs. h_return (x # xs)))"

definition numbered_secrets :: "(ExpandedKeyPair \<times> bytes) list \<Rightarrow> u64 \<Rightarrow> (nat \<times> ExpandedKeyPair \<times> bytes) list" where
  "numbered_secrets secrets nodes = take (unat nodes) (zip [0..<length secrets] secrets)"

definition env_docker ::
  "'k env_lib \<Rightarrow> (nat \<Rightarrow> ExpandedKeyPair) \<Rightarrow> (nat \<Rightarrow> bytes) \<Rightarrow> u64 \<Rightarrow> ('k, anyhow_error + env_Nodes) handler" where
  "env_docker E create generate_key nodes =
     h_try (env_setup E) (\<lambda>ctx.
     let result = generate create generate_key nodes in
     h_bind (join_all (map (\<lambda>(node_id, share, cipher_key). docker_SignerNode_run E ctx (of_nat node_id) share cipher_key)
               (numbered_secrets (gr_secrets result) nodes))) (\<lambda>started.
     h_check (res_map id started) (\<lambda>signer_nodes.
     h_try (docker_LeaderNode_run E ctx (map dg_address signer_nodes)) (\<lambda>leader_node.
     h_return (Inr (EnvDocker ctx (gr_pk_set result) leader_node signer_nodes))))))"

definition env_host ::
  "'k env_lib \<Rightarrow> (nat \<Rightarrow> ExpandedKeyPair) \<Rightarrow> (nat \<Rightarrow> bytes) \<Rightarrow> u64 \<Rightarrow> ('k, anyhow_error + env_Nodes) handler" where
  "env_host E create generate_key nodes =
     h_try (env_setup E) (\<lambda>ctx.
     let result = generate create generate_key nodes in
     h_bind (join_all (map (\<lambda>(i, share, cipher_key). local_SignerNode_run E ctx (of_nat i) share cipher_key)
               (numbered_secrets (gr_secrets result) nodes))) (\<lambda>started.
     h_check (res_map id started) (\<lambda>signer_nodes.
     h_try (local_LeaderNode_run E ctx (map sg_address signer_nodes)) (\<lambda>leader_node.
     h_return (Inr (EnvLocal ctx (gr_pk_set result) leader_node signer_nodes))))))"

definition test_env_run ::
  "bool \<Rightarrow> 'k env_lib \<Rightarrow> (nat \<Rightarrow> ExpandedKeyPair) \<Rightarrow> (nat \<Rightarrow> bytes) \<Rightarrow> u64 \<Rightarrow> ('k, anyhow_error + env_Nodes) handler" where
  "test_env_run docker_test E = (if docker_test then env_docker E else env_host E)"

text \<open>The commands that run behind the addresses, and a sign node that runs one of them.\<close>

fun env_sign_commands :: "env_Nodes \<Rightarrow> (string \<times> StartSign) list" where
  "env_sign_commands (EnvLocal _ _ _ signer_nodes) = map (\<lambda>n. (sg_address n, sg_process n)) signer_nodes"
| "env_sign_commands (EnvDocker _ _ _ signer_nodes) = map (\<lambda>n. (dg_address n, dg_command n)) signer_nodes"

fun env_leader_command :: "env_Nodes \<Rightarrow> StartLeader" where
  "env_leader_command (EnvLocal _ _ leader _) = ld_process leader"
| "env_leader_command (EnvDocker _ _ leader _) = dl_command leader"

definition sign_process :: "'d cli_lib \<Rightarrow> 'd sign_libs \<Rightarrow> StartSign \<Rightarrow> 'd \<Rightarrow> (anyhow_error + 'd sign_world) exec" where
  "sign_process L X cli d =
     exec_try (run_start_sign L cli) (\<lambda>config.
     exec_bind (sign_node_start X (sc_gcp_service config) (sc_our_index config) (sc_node_key config) (sc_cipher config) d) (\<lambda>state.
     Done (Inr \<lparr>sw_node = state, sw_store = d\<rparr>)))"

section \<open>From the environment to the service\<close>

text \<open>What is assumed of the formats: the commands read what the environment has written.\<close>

definition env_formats :: "'k env_lib \<Rightarrow> 'd cli_lib \<Rightarrow> bool" where
  "env_formats E L \<longleftrightarrow>
     (\<forall>p t. el_key_pair_json E p = Inr t \<longrightarrow> cl_key_pair L t = Inr p) \<and> (\<forall>b. cl_hex L (el_hex E b) = Inr b) \<and>
     (\<forall>env project url. \<exists>S. cl_connect L env project url = Inr S) \<and>
     (\<forall>i a u. cl_partners L (el_partners_json E i a u) =
        Inr [\<lparr>fap_oidc_provider = \<lparr>op_issuer = i, op_audience = a\<rparr>, fap_relayer = \<lparr>dar_url = u, dar_api_key = None\<rparr>\<rparr>])"

definition signs_with :: "'k env_lib \<Rightarrow> nat \<Rightarrow> ExpandedKeyPair \<Rightarrow> bytes \<Rightarrow> StartSign \<Rightarrow> bool" where
  "signs_with E i share cipher_key c \<longleftrightarrow> st_node_id c = of_nat i \<and> st_cipher_key c = Some (el_hex E cipher_key) \<and>
     (\<exists>t. el_key_pair_json E share = Inr t \<and> st_sk_share c = Some t)"

lemma sign_command_signs:
  "sign_command E ctx (of_nat i) port share cipher_key url url' = Inr c \<Longrightarrow> signs_with E i share cipher_key c"
  by (auto simp: sign_command_def signs_with_def res_bind_eq_Inr)

lemma sign_process_starts:
  assumes "env_formats E L" and "signs_with E i share cipher_key c" and "length cipher_key = 32"
    and "\<And>S j. gcp_get (sl_gcp X) S SignerNodePkSet_kind (SignerNodePkSet_from_value (sl_codec X)) (pk_set_name j) d = Done (Inr None)"
  shows "\<exists>w. sign_process L X c d = Done (Inr w) \<and> our_index w = of_nat i \<and> node_pk w = kp_public_key share \<and> node_keys w = None"
proof -
  obtain S where "cl_connect L (st_env c) (st_gcp_project_id c) (st_gcp_datastore_url c) = Inr S"
    using assms(1) unfolding env_formats_def by blast
  with assms show ?thesis
    by (auto simp: sign_process_def run_start_sign_def exec_try_def load_cipher_key_def load_sh_skare_def decode_cipher_key_def
        env_formats_def signs_with_def sign_node_start_def NodeInfo_new_def node_pk_def)
qed

lemma join_all_Done: "join_all ms k = (k', Done xs) \<Longrightarrow> list_all2 (\<lambda>m x. \<exists>k1 k2. m k1 = (k2, Done x)) ms xs"
  by (induction ms arbitrary: k xs) (auto simp: h_bind_Done)

lemma generated_secrets:
  "numbered_secrets (gr_secrets (generate create generate_key n)) n = map (\<lambda>i. (i, create i, generate_key i)) [0..<unat n]"
  by (rule nth_equalityI) (simp_all add: numbered_secrets_def generate_def Let_def)

text \<open>The two ways to start nodes agree on the commands.\<close>

lemma started_commands:
  assumes "join_all (map (\<lambda>(i, share, cipher_key). run (of_nat i) share cipher_key) (numbered_secrets (gr_secrets (generate create generate_key n)) n)) k =
      (k', Done (map Inr nodes))"
    and "\<And>i share cipher_key k1 k2 node. run (of_nat i) share cipher_key k1 = (k2, Done (Inr node)) \<Longrightarrow> signs_with E i share cipher_key (command node)"
  shows "list_all2 (\<lambda>i node. signs_with E i (create i) (generate_key i) (command node)) [0..<unat n] nodes"
proof -
  from join_all_Done [OF assms(1)] have "list_all2 (\<lambda>i node. \<exists>k1 k2. run (of_nat i) (create i) (generate_key i) k1 = (k2, Done (Inr node))) [0..<unat n] nodes"
    by (simp add: generated_secrets list_all2_map1 list_all2_map2)
  then show ?thesis by (rule list_all2_mono) (use assms(2) in blast)
qed

definition leads :: "'k env_lib \<Rightarrow> EnvContext \<Rightarrow> string list \<Rightarrow> StartLeader \<Rightarrow> bool" where
  "leads E ctx sign_nodes c \<longleftrightarrow> (\<exists>port rpc relayer_url url url'. leader_command E ctx port sign_nodes rpc relayer_url url url' = Inr c)"

lemma leadsI: "leader_command E ctx port sign_nodes rpc relayer_url url url' = Inr c \<Longrightarrow> leads E ctx sign_nodes c"
  unfolding leads_def by blast

lemma res_map_id_Inr: "res_map id xs = Inr ys \<longleftrightarrow> xs = map Inr ys"
  by (auto simp: res_map_eq_Inr list_all2_conv_all_nth list_eq_iff_nth_eq)

lemma runs_signs:
  "local_SignerNode_run E ctx (of_nat i) share cipher_key k1 = (k2, Done (Inr node)) \<Longrightarrow> signs_with E i share cipher_key (sg_process node)"
  "docker_SignerNode_run E ctx (of_nat i) share cipher_key k1 = (k2, Done (Inr node')) \<Longrightarrow> signs_with E i share cipher_key (dg_command node')"
  by (auto simp: local_SignerNode_run_def docker_SignerNode_run_def h_try_Inr h_check_Inr Let_def dest: sign_command_signs)

lemma runs_leads:
  "local_LeaderNode_run E ctx us k1 = (k2, Done (Inr leader)) \<Longrightarrow> leads E ctx us (ld_process leader)"
  "docker_LeaderNode_run E ctx us k1 = (k2, Done (Inr leader')) \<Longrightarrow> leads E ctx us (dl_command leader')"
  by (auto simp: local_LeaderNode_run_def docker_LeaderNode_run_def h_try_Inr h_check_Inr Let_def intro: leadsI)

lemma test_env_run_commands:
  assumes "test_env_run docker_test E create generate_key n k = (k', Done (Inr env))"
  shows "\<exists>k1 k2. env_setup E k1 = (k2, Done (Inr (env_ctx env)))"
    and "list_all2 (\<lambda>i c. signs_with E i (create i) (generate_key i) (snd c)) [0..<unat n] (env_sign_commands env)"
    and "leads E (env_ctx env) (map fst (env_sign_commands env)) (env_leader_command env)"
    and "env_pk_set env = map (\<lambda>i. kp_public_key (create i)) [0..<unat n]"
proof -
  have *: "(\<exists>k1 k2. env_setup E k1 = (k2, Done (Inr (env_ctx env)))) \<and>
    list_all2 (\<lambda>i c. signs_with E i (create i) (generate_key i) (snd c)) [0..<unat n] (env_sign_commands env) \<and>
    leads E (env_ctx env) (map fst (env_sign_commands env)) (env_leader_command env) \<and>
    env_pk_set env = map (\<lambda>i. kp_public_key (create i)) [0..<unat n]"
  proof (cases docker_test)
    case True
    with assms obtain ctx ka kb kc kd nodes leader where 1: "env_setup E k = (ka, Done (Inr ctx))"
      "join_all (map (\<lambda>(i, share, cipher_key). docker_SignerNode_run E ctx (of_nat i) share cipher_key)
        (numbered_secrets (gr_secrets (generate create generate_key n)) n)) ka = (kb, Done (map Inr nodes))"
      "docker_LeaderNode_run E ctx (map dg_address nodes) kc = (kd, Done (Inr leader))"
      "env = EnvDocker ctx (gr_pk_set (generate create generate_key n)) leader nodes"
      by (auto simp: test_env_run_def env_docker_def h_try_Inr h_check_Inr h_bind_Done Let_def res_map_id_Inr)
    from started_commands [OF 1(2) runs_signs(2)] runs_leads(2) [OF 1(3)] 1(1,4) show ?thesis
      by (auto simp: list_all2_map2 generate_def Let_def o_def)
  next
    case False
    with assms obtain ctx ka kb kc kd nodes leader where 1: "env_setup E k = (ka, Done (Inr ctx))"
      "join_all (map (\<lambda>(i, share, cipher_key). local_SignerNode_run E ctx (of_nat i) share cipher_key)
        (numbered_secrets (gr_secrets (generate create generate_key n)) n)) ka = (kb, Done (map Inr nodes))"
      "local_LeaderNode_run E ctx (map sg_address nodes) kc = (kd, Done (Inr leader))"
      "env = EnvLocal ctx (gr_pk_set (generate create generate_key n)) leader nodes"
      by (auto simp: test_env_run_def env_host_def h_try_Inr h_check_Inr h_bind_Done Let_def res_map_id_Inr)
    from started_commands [OF 1(2) runs_signs(1)] runs_leads(1) [OF 1(3)] 1(1,4) show ?thesis
      by (auto simp: list_all2_map2 generate_def Let_def o_def)
  qed
  then show "\<exists>k1 k2. env_setup E k1 = (k2, Done (Inr (env_ctx env)))"
    and "list_all2 (\<lambda>i c. signs_with E i (create i) (generate_key i) (snd c)) [0..<unat n] (env_sign_commands env)"
    and "leads E (env_ctx env) (map fst (env_sign_commands env)) (env_leader_command env)"
    and "env_pk_set env = map (\<lambda>i. kp_public_key (create i)) [0..<unat n]" by blast+
qed

text \<open>The account creator of the environment has six keys, so the leader takes them from its command.\<close>

lemma relayer_creator_keys:
  "initialize_relayer D F N network relayer_id k = (k', Done (Inr c)) \<Longrightarrow> length (rx_creator_account_keys c) = 6"
  by (auto simp: initialize_relayer_def h_try_Inr dest!: rotating_keys_length)

lemma env_creator_keys:
  "env_setup E k = (k', Done (Inr ctx)) \<Longrightarrow> length (rx_creator_account_keys (ec_relayer_ctx ctx)) = 6"
  by (auto simp: env_setup_def h_try_Inr h_check_Inr h_bind_Done Let_def split: if_splits dest!: relayer_creator_keys)

lemma leader_configured:
  assumes "env_formats E L" and "env_setup E k = (k', Done (Inr ctx))" and "leads E ctx us c"
  obtains config relayer_url where "run_start_leader L c = Inr config" and "lc_sign_nodes config = us"
    and "length (lc_account_creator_signer config) = 6"
    and "lc_partners config = [\<lparr>fap_oidc_provider = \<lparr>op_issuer = ec_issuer ctx, op_audience = ec_audience_id ctx\<rparr>,
      fap_relayer = \<lparr>dar_url = relayer_url, dar_api_key = None\<rparr>\<rparr>]"
proof -
  from assms(3) obtain port rpc relayer_url url url' where "leader_command E ctx port us rpc relayer_url url url' = Inr c"
    unfolding leads_def by blast
  then obtain root sks where c: "res_map (el_reparse_sk E) (rx_creator_account_keys (ec_relayer_ctx ctx)) = Inr sks"
    "sl_sign_nodes c = us" "sl_account_creator_sk c = sks" "sl_fast_auth_partners_filepath c = None"
    "sl_fast_auth_partners c = Some (el_partners_json E (ec_issuer ctx) (ec_audience_id ctx) relayer_url)"
    by (auto simp: leader_command_def res_bind_eq_Inr)
  from c(1) env_creator_keys [OF assms(2)] have sks: "length sks = 6" by (auto simp: res_map_eq_Inr dest: list_all2_lengthD)
  then have "sks \<noteq> []" by auto
  obtain S where "cl_connect L (sl_env c) (sl_gcp_project_id c) (sl_gcp_datastore_url c) = Inr S"
    using assms(1) unfolding env_formats_def by blast
  with c sks \<open>sks \<noteq> []\<close> assms(1) show thesis
    by (intro that) (auto simp: run_start_leader_def load_account_creator_def load_entries_def env_formats_def)
qed


section \<open>Examples\<close>

text \<open>Services that start at once, at addresses of one machine.\<close>

definition ex_test_env :: "nat env_lib" where
  "ex_test_env = \<lparr>
     el_docker = \<lparr>dk_list_networks = (\<lambda>_. Inr [Some ''mpc_it_network'']), dk_create_network = (\<lambda>_ k. (k, Inr ())), dk_run = (\<lambda>_. h_return ''c''),
       dk_inspect = (\<lambda>_ _. Inr (Some (Some [(''mpc_it_network'', Some ''10.0.0.2'')]))), dk_host_port_ipv4 = (\<lambda>_ _ _. Done 4000),
       dk_host_port_ipv6 = (\<lambda>_ _ _. Done 4000), dk_create_exec = (\<lambda>_ _ k. (k, Inr ''x'')), dk_start_exec = (\<lambda>_ k. (k, Inr (Attached [Inr []]))),
       dk_poll = (\<lambda>_ _ _. h_return ())\<rparr>,
     el_files = \<lparr>fl_create_dir_all = (\<lambda>_ k. (k, Inr ())), fl_remove_dir_all = (\<lambda>_ k. (k, Inr ())), fl_create = (\<lambda>_ k. (k, Inr ())),
       fl_write_all = (\<lambda>_ _ k. (k, Inr ())), fl_canonicalize = (\<lambda>_ _. Inr []), fl_to_str = (\<lambda>_. Some []), fl_show_public_key = (\<lambda>_. []),
       fl_show_sk = (\<lambda>_. []), fl_key_json = (\<lambda>_. Inr []), fl_toml = (\<lambda>_. Inr [])\<rparr>,
     el_sandbox = \<lparr>sx_key_file = (\<lambda>_. Inr (''v'', ''k'')), sx_parse_account = Inr, sx_parse_sk = (\<lambda>_. Inr []), sx_connect = (\<lambda>a _ k. (k, Inr a)),
       sx_root_account = (\<lambda>_. Inr \<lparr>ac_id = ''test.near'', ac_secret_key = []\<rparr>), sx_mainnet = (\<lambda>_. Inr ()), sx_import_contract = (\<lambda>_ a k. (k, Inr a)),
       sx_deploy_linkdrop = (\<lambda>_ _ k. (k, Inr ())), sx_call = (\<lambda>_ _ _ k. (k, Inr ())),
       sx_create_subaccount = (\<lambda>_ _ prefix _ k. (k, Inr \<lparr>ac_id = prefix, ac_secret_key = []\<rparr>)), sx_add_keys = (\<lambda>_ _ _ k. (k, Inr ())),
       sx_from_seed = (\<lambda>k. (k, [1])), sx_public_key = ED25519\<rparr>,
     el_process = \<lparr>os_out_dir = [''repo'', ''target'', ''debug''], os_cargo = (\<lambda>_ k. (k, Inr True)), os_spawn = (\<lambda>_ _ k. (k, Inr ())),
       os_unused_port = (\<lambda>k. (k, Inr 5000)), os_get = (\<lambda>_ k. (k, Inr 200)), os_get_time = (\<lambda>_. 1), os_json_sks = (\<lambda>_. []), os_path_str = (\<lambda>_. None)\<rparr>,
     el_random_string = (\<lambda>k. (k, ''abc'')), el_key_pair_json = (\<lambda>p. Inr (ex_text (ex_write [kp_public_key p, kp_secret p]))), el_hex = ex_text, el_reparse_sk = Inr,
     el_partners_json = (\<lambda>i a u. ex_text (ex_write [ex_untext i, ex_untext a, ex_untext u]))\<rparr>"

definition ex_commands :: "ex_store cli_lib" where
  "ex_commands = \<lparr>cl_gcp = ex_gcp, cl_connect = (\<lambda>env project _. Inr \<lparr>gcp_env = env, gcp_project = project\<rparr>), cl_utf8 = (\<lambda>_. Inr []),
     cl_hex = (\<lambda>s. Inr (ex_untext s)),
     cl_key_pair = (\<lambda>s. let fs = ex_read 2 (ex_untext s) in Inr \<lparr>kp_public_key = fs ! 0, kp_secret = fs ! 1\<rparr>), cl_secret_keys = (\<lambda>_. Inl ''none''),
     cl_partners = (\<lambda>s. let fs = ex_read 3 (ex_untext s) in
       Inr [\<lparr>fap_oidc_provider = \<lparr>op_issuer = ex_text (fs ! 0), op_audience = ex_text (fs ! 1)\<rparr>,
             fap_relayer = \<lparr>dar_url = ex_text (fs ! 2), dar_api_key = None\<rparr>\<rparr>]), cl_read_file = (\<lambda>_. Inl ''none'')\<rparr>"

lemma ex_env_formats: "env_formats ex_test_env ex_commands"
  by (simp add: env_formats_def ex_test_env_def ex_commands_def ex_untext_text ex_text_untext ex_read_write)

lemma ex_env_docker:
  "run_in (el_docker ex_test_env) ''mpc_it_network'' img = h_return (Inr (''c'', ''10.0.0.2''))"
  "host_port (el_docker ex_test_env) c p = h_return 4000" "dk_poll (el_docker ex_test_env) c p w = h_return ()"
  "create_network (el_docker ex_test_env) ''mpc_it_network'' = h_return (Inr ())"
  "fetch_from_validator (el_docker ex_test_env) c f = h_return (Inr [])"
  by (rule ext, simp add: ex_test_env_def run_in_def get_network_ip_address_def ok_or_def h_read_def h_bind_def h_try_def host_port_def
      h_query_def create_network_def fetch_from_validator_def h_call_def)+

lemma ex_env_containers:
  "\<exists>c. Redis_run (el_docker ex_test_env) ''mpc_it_network'' = h_return (Inr c)"
  "\<exists>c. Sandbox_run (el_docker ex_test_env) ''mpc_it_network'' = h_return (Inr c)"
  "\<exists>c. Datastore_run (el_docker ex_test_env) ''mpc_it_network'' project = h_return (Inr c)"
  "\<exists>c. OidcProvider_run (el_docker ex_test_env) ''mpc_it_network'' = h_return (Inr c)"
  by (rule exI, rule ext, simp add: Redis_run_def Sandbox_run_def Datastore_run_def OidcProvider_run_def ex_env_docker h_try_def h_bind_def)+

lemma ex_env_files:
  "create_key_file_with_filepath (el_files ex_test_env) a sk path = h_return (Inr ())"
  "create_relayer_cofig_file (el_files ex_test_env) config path = h_return (Inr [])"
  by (rule ext, simp add: create_key_file_with_filepath_def create_relayer_cofig_file_def ex_test_env_def h_expect_def expect_def h_call_def
      h_read_def h_bind_def unwrap_def)+

lemma ex_env_keys: "\<exists>fs. create_relayer_keys (el_files ex_test_env) a dir i sks = h_return (Inr fs)"
proof (induction sks arbitrary: i)
  case (Cons sk sks)
  from Cons.IH [of "Suc i"] obtain fs where "create_relayer_keys (el_files ex_test_env) a dir (Suc i) sks = h_return (Inr fs)" by blast
  then show ?case by (intro exI ext) (simp add: ex_env_files Let_def h_try_def h_bind_def)
qed auto

lemma ex_env_relayer:
  "\<exists>c. Relayer_run (el_docker ex_test_env) (el_files ex_test_env) ''mpc_it_network'' rpc redis a sks b db sa sk name = h_return (Inr c)"
proof -
  obtain fs where "create_relayer_keys (el_files ex_test_env) a (''./tmp/'' @ name @ ''/account_keys'') 0 sks = h_return (Inr fs)"
    using ex_env_keys by blast
  then show ?thesis
    by (intro exI ext) (simp add: Relayer_run_def ex_env_docker ex_env_files create_key_file_def h_try_def h_bind_def Let_def,
      simp add: ex_test_env_def h_expect_def expect_def h_call_def h_read_def h_bind_def unwrap_def)
qed

lemma ex_env_batches: "\<exists>sks. add_batches (el_sandbox ex_test_env) w a cs keys = h_return (Inr sks)"
proof (induction cs arbitrary: keys)
  case (Cons c cs)
  have "\<exists>sks. draw_keys (el_sandbox ex_test_env) n = h_return sks" for n
  proof (induction n)
    case (Suc n)
    then obtain sks where "draw_keys (el_sandbox ex_test_env) n = h_return sks" by blast
    then show ?case by (intro exI ext) (simp add: h_bind_def h_call_def ex_test_env_def)
  qed auto
  then obtain sks where "draw_keys (el_sandbox ex_test_env) c = h_return sks" by blast
  moreover from Cons.IH obtain sks' where "add_batches (el_sandbox ex_test_env) w a cs (keys @ sks) = h_return (Inr sks')" by blast
  ultimately show ?case by (intro exI ext) (simp add: h_try_def h_bind_def h_call_def, simp add: ex_test_env_def)
qed auto

lemma ex_env_accounts:
  "initialize_social_db (el_sandbox ex_test_env) w = h_return (Inr ''social.near'')"
  "initialize_linkdrop (el_sandbox ex_test_env) w = h_return (Inr ())"
  "sandbox_create_account (el_sandbox ex_test_env) w prefix n = h_return (Inr \<lparr>ac_id = prefix, ac_secret_key = []\<rparr>)"
  "sandbox_worker (el_sandbox ex_test_env) addr key = h_return (Inr addr)"
  "fetch_validator_keys (el_docker ex_test_env) (el_sandbox ex_test_env) c = h_return (Inr (''v'', ''k''))"
  by (rule ext, simp add: initialize_social_db_def initialize_linkdrop_def sandbox_create_account_def sandbox_worker_def
      fetch_validator_keys_def ex_env_docker, simp add: ex_test_env_def h_try_def h_bind_def h_call_def h_read_def split: prod.split)+

lemma ex_env_relayer_ctx: "\<exists>c. initialize_relayer (el_docker ex_test_env) (el_files ex_test_env) (el_sandbox ex_test_env) ''mpc_it_network'' name = h_return (Inr c)"
proof -
  obtain sandbox where 1: "Sandbox_run (el_docker ex_test_env) ''mpc_it_network'' = h_return (Inr sandbox)" using ex_env_containers(2) by blast
  obtain redis where 2: "Redis_run (el_docker ex_test_env) ''mpc_it_network'' = h_return (Inr redis)" using ex_env_containers(1) by blast
  let ?w = "sb_local_address sandbox"
  obtain sks where 3: "add_batches (el_sandbox ex_test_env) ?w \<lparr>ac_id = ''relayer'', ac_secret_key = []\<rparr> (batch_counts 5) [[]] = h_return (Inr sks)"
    using ex_env_batches by blast
  obtain sks' where 4: "add_batches (el_sandbox ex_test_env) ?w \<lparr>ac_id = ''creator'', ac_secret_key = []\<rparr> (batch_counts 5) [[]] = h_return (Inr sks')"
    using ex_env_batches by blast
  obtain relayer where "Relayer_run (el_docker ex_test_env) (el_files ex_test_env) ''mpc_it_network'' (sb_address sandbox) (re_full_address redis) ''relayer''
      sks ''creator'' ''social.near'' ''social'' [] name = h_return (Inr relayer)"
    using ex_env_relayer by blast
  moreover have "initialize_sandbox (el_docker ex_test_env) (el_sandbox ex_test_env) ''mpc_it_network'' = h_return (Inr (sandbox, ?w))"
    using 1 by (intro ext) (simp add: initialize_sandbox_def ex_env_accounts h_try_def)
  ultimately show ?thesis
    using 2 3 4 by (intro exI ext) (simp add: initialize_relayer_def ex_env_accounts gen_rotating_keys_def)
qed

lemma ex_env_build: "mpc_build (el_process ex_test_env) True = h_return (Inr True)" "h_call (el_random_string ex_test_env) = h_return ''abc''"
  by (rule ext, simp add: mpc_build_def build_package_def h_call_def ex_test_env_def h_return_def)+

lemma ex_env_setup: "\<exists>ctx. env_setup ex_test_env = h_return (Inr ctx)"
proof -
  obtain relayer datastore oidc where
    "initialize_relayer (el_docker ex_test_env) (el_files ex_test_env) (el_sandbox ex_test_env) ''mpc_it_network'' ''abc'' = h_return (Inr relayer)"
    "Datastore_run (el_docker ex_test_env) ''mpc_it_network'' ''mpc-recovery-gcp-project'' = h_return (Inr datastore)"
    "OidcProvider_run (el_docker ex_test_env) ''mpc_it_network'' = h_return (Inr oidc)"
    using ex_env_relayer_ctx ex_env_containers(3,4) by metis
  then show ?thesis by (intro exI ext) (simp add: env_setup_def ex_env_build ex_env_docker)
qed

text \<open>One node on the host.\<close>

lemma ex_env_node:
  "\<exists>node. local_SignerNode_run ex_test_env ctx 0 ex_node_key (replicate 32 0) = h_return (Inr node)"
  "\<exists>leader. local_LeaderNode_run ex_test_env ctx us = h_return (Inr leader)"
proof -
  have port: "pick_unused_port (el_process ex_test_env) = h_return (Inr 5000)" by (rule ext) (simp add: pick_unused_port_def h_call_def ex_test_env_def)
  have "target_dir [''repo'', ''target'', ''debug''] = Some [''repo'', ''target'']" by (simp add: target_dir.simps)
  then have spawn: "\<exists>args. Cli_into_str_args (os_json_sks (el_process ex_test_env)) (os_path_str (el_process ex_test_env)) cli = Done args \<Longrightarrow>
      mpc_spawn (el_process ex_test_env) release name cli = h_return (Inr ())" for release name cli
    by (intro ext) (auto simp: mpc_spawn_def executable_def h_bind_def h_lift_def h_call_def ok_or_def context_err_def ex_test_env_def)
  have ping: "ping_until_ok (el_process ex_test_env) addr 60 = h_return (Inr ())" for addr
    by (rule ext) (simp add: ping_until_ok_def ping_loop.simps ex_test_env_def)
  have "sign_command ex_test_env ctx 0 5000 ex_node_key (replicate 32 0) url url' = Inr c \<Longrightarrow> mpc_spawn (el_process ex_test_env) release name (CliStartSign c) = h_return (Inr ())" for url url' c release name
    by (intro spawn) simp
  moreover obtain c where "sign_command ex_test_env ctx 0 5000 ex_node_key (replicate 32 0) (da_local_address (ec_datastore ctx))
      (oc_jwt_pk_local_url (ec_oidc_provider ctx)) = Inr c" by (simp add: sign_command_def ex_test_env_def)
  ultimately show "\<exists>node. local_SignerNode_run ex_test_env ctx 0 ex_node_key (replicate 32 0) = h_return (Inr node)"
    by (intro exI ext) (simp add: local_SignerNode_run_def port ping Let_def)
  have keys: "res_map (el_reparse_sk ex_test_env) sks = Inr sks" for sks
    by (induction sks) (simp_all add: ex_test_env_def)
  have "leader_command ex_test_env ctx port us rpc url url1 url2 = Inr c \<Longrightarrow> mpc_spawn (el_process ex_test_env) release name (CliStartLeader c) = h_return (Inr ())"
    for port rpc url url1 url2 c release name
    by (intro spawn) (auto simp: leader_command_def res_bind_eq_Inr)
  moreover obtain c where "leader_command ex_test_env ctx 5000 us (sb_local_address (rx_sandbox (ec_relayer_ctx ctx)))
      (rl_local_address (rx_relayer (ec_relayer_ctx ctx))) (da_local_address (ec_datastore ctx)) (oc_jwt_pk_local_url (ec_oidc_provider ctx)) = Inr c"
    by (simp add: leader_command_def keys) (simp add: ex_test_env_def)
  ultimately show "\<exists>leader. local_LeaderNode_run ex_test_env ctx us = h_return (Inr leader)"
    by (intro exI ext) (simp add: local_LeaderNode_run_def port ping Let_def)
qed

lemma ex_env_run:
  "\<exists>env c. test_env_run False ex_test_env (\<lambda>_. ex_node_key) (\<lambda>_. replicate 32 0) 1 0 = (0, Done (Inr env)) \<and>
     env_sign_commands env = [c] \<and> env_pk_set env = [[3]]"
proof -
  obtain ctx where ctx: "env_setup ex_test_env = h_return (Inr ctx)" using ex_env_setup by blast
  obtain node where node: "local_SignerNode_run ex_test_env ctx 0 ex_node_key (replicate 32 0) = h_return (Inr node)" using ex_env_node(1) by blast
  obtain leader where leader: "local_LeaderNode_run ex_test_env ctx [sg_address node] = h_return (Inr leader)" using ex_env_node(2) by blast
  have "numbered_secrets (gr_secrets (generate (\<lambda>_. ex_node_key) (\<lambda>_. replicate 32 0) 1)) 1 = [(0, ex_node_key, replicate 32 0)]"
    by (simp only: generated_secrets) simp
  then have "test_env_run False ex_test_env (\<lambda>_. ex_node_key) (\<lambda>_. replicate 32 0) 1 0 =
      (0, Done (Inr (EnvLocal ctx (gr_pk_set (generate (\<lambda>_. ex_node_key) (\<lambda>_. replicate 32 0) 1)) leader [node])))"
    using ctx node leader by (simp add: test_env_run_def env_host_def h_bind_def)
  then show ?thesis by (intro exI conjI) (assumption, simp_all add: generate_def ex_node_key_def)
qed


end
