(* ===== verification/Test_Identity.thy ===== *)
theory Test_Identity
  imports Test_Environment
begin

text \<open>
  The identity provider of the tests (\<^verbatim>\<open>test-oidc-provider/src/main.rs\<close>), the keys that the nodes fetch
  from it (\<^verbatim>\<open>oauth.rs\<close>), and the tokens that the tests make (\<^verbatim>\<open>sign_node/oidc.rs\<close>): the environment
  accepts them.
\<close>

section \<open>The provider\<close>

text \<open>\<open>hash_string\<close> is the hash of the standard library in decimal, \<open>public_key\<close> the text of the key in the source.\<close>

definition jwt_signature_public_keys :: "(string \<Rightarrow> u64) \<Rightarrow> string \<Rightarrow> (string \<times> string) list" where
  "jwt_signature_public_keys hash public_key = [(show_usize (hash public_key), public_key)]"

definition oidc_stub :: "(string \<Rightarrow> u64) \<Rightarrow> string \<Rightarrow> ((string \<times> string) list \<Rightarrow> bytes) \<Rightarrow> http_request \<Rightarrow> 'w \<Rightarrow> 'w \<times> http_response option" where
  "oidc_stub hash public_key json =
     (\<lambda>rq. answered (http_serve (\<lambda>_ _ h. h)
        [(''/jwt_signature_public_keys'', GET, \<lambda>_. h_return (200, json (jwt_signature_public_keys hash public_key)))] rq))"

text \<open>The keys behind a url; \<open>reqwest\<close> does not look at the status.\<close>

definition get_pagoda_firebase_public_keys ::
  "(bytes \<Rightarrow> anyhow_error + (string \<times> string) list) \<Rightarrow> http_response option \<Rightarrow> anyhow_error + string list" where
  "get_pagoda_firebase_public_keys from_json response =
     (case response of
        None \<Rightarrow> Inl ''error sending request''
      | Some (_, body) \<Rightarrow> res_bind (from_json body) (\<lambda>json. Inr (map snd json)))"

section \<open>Tokens of the tests\<close>

definition oidc_create_jwt_token :: "client_lib \<Rightarrow> string \<Rightarrow> string \<Rightarrow> int \<Rightarrow> string exec" where
  "oidc_create_jwt_token C pem_key rnd_sub now =
     (let aud = ''test_audience'';
          my_claims = \<lparr>itc_iss = ''https://securetoken.google.com/'' @ aud, itc_sub = rnd_sub, itc_aud = aud, itc_exp = of_int (now + 3600)\<rparr> in
      exec_bind (expect ''unwrap'' (cl_rsa_pem_key C (string_bytes pem_key))) (\<lambda>key.
      case cl_jwt_encode C RS256 my_claims key of
        Inr t \<Rightarrow> Done (token_data (OidcToken_new t))
      | Inl e \<Rightarrow> Panics (''Failed to encode token: '' @ e)))"

text \<open>\<open>random_valid\<close> and \<open>invalid\<close> differ in the private key that is written in the source.\<close>

definition OidcToken_from_pem :: "client_lib \<Rightarrow> string \<Rightarrow> string \<Rightarrow> int \<Rightarrow> OidcToken exec" where
  "OidcToken_from_pem C pem_key rnd_sub now =
     exec_bind (oidc_create_jwt_token C pem_key rnd_sub now) (\<lambda>data. Done \<lparr>token_data = data\<rparr>)"

section \<open>Laws\<close>

lemma fetched_test_keys:
  assumes "\<And>m. from_json (json m) = Inr m"
  shows "get_pagoda_firebase_public_keys from_json
    (snd (oidc_stub hash public_key json \<lparr>hr_method = GET, hr_path = ''/jwt_signature_public_keys'', hr_body = []\<rparr> w)) = Inr [public_key]"
  using assms by (simp add: oidc_stub_def http_serve_def answered_def h_bind_def for_method_def get_pagoda_firebase_public_keys_def jwt_signature_public_keys_def)

lemma env_setup_partner:
  "env_setup E k = (k', Done (Inr ctx)) \<Longrightarrow> ec_issuer ctx = ''https://securetoken.google.com/'' @ ec_audience_id ctx \<and> ec_audience_id ctx = ''test_audience''"
  by (auto simp: env_setup_def h_try_Inr h_check_Inr h_bind_Done Let_def split: if_splits)

text \<open>
  A token that the tests make with the private key of the provider is accepted with the keys
  that a node fetches from the provider, for the partner that the environment configures, and
  with the subject that was drawn for it.
\<close>

theorem test_token_accepted:
  assumes "\<And>m. from_json (json m) = Inr m" and "OidcToken_from_pem C pem_key sub now = Done token"
    and "\<And>key claims t. cl_rsa_pem_key C (string_bytes pem_key) = Inr key \<Longrightarrow> cl_jwt_encode C RS256 claims key = Inr t \<Longrightarrow>
      valid_under J None (OidcToken_new t) public_key claims"
    and "env_setup E k = (k', Done (Inr ctx))"
  shows "\<exists>claims. verify_oidc_token J (get_pagoda_firebase_public_keys from_json
      (snd (oidc_stub hash public_key json \<lparr>hr_method = GET, hr_path = ''/jwt_signature_public_keys'', hr_body = []\<rparr> w))) token
      (Some [\<lparr>op_issuer = ec_issuer ctx, op_audience = ec_audience_id ctx\<rparr>]) = Inr claims \<and> itc_sub claims = sub"
proof -
  let ?claims = "\<lparr>itc_iss = ''https://securetoken.google.com/'' @ ''test_audience'', itc_sub = sub, itc_aud = ''test_audience'', itc_exp = of_int (now + 3600)\<rparr>"
  from assms(2) obtain key t where "cl_rsa_pem_key C (string_bytes pem_key) = Inr key" "cl_jwt_encode C RS256 ?claims key = Inr t"
    "token = OidcToken_new t"
    by (auto simp: OidcToken_from_pem_def oidc_create_jwt_token_def Let_def expect_def OidcToken_new_def exec_bind_eq_Done split: sum.splits)
  with assms(3) have "valid_under J None token public_key ?claims" by blast
  then have "valid_under J (Some [\<lparr>op_issuer = ec_issuer ctx, op_audience = ec_audience_id ctx\<rparr>]) token public_key ?claims"
    using env_setup_partner [OF assms(4)] by (auto simp: valid_under_def OidcProviderList_contains_def)
  then show ?thesis
    unfolding fetched_test_keys [OF assms(1)] verify_oidc_token_def sum.case try_keys_Inr by (intro exI [of _ ?claims]) simp
qed

end
