(* ===== verification/Node_Http.thy ===== *)
theory Node_Http
  imports Recovery_Http Node_Services
begin

text \<open>
  The http server of a node (\<^verbatim>\<open>node/src/web/mod.rs\<close>) and the queue that posts to it
  (\<^verbatim>\<open>node/src/http_client.rs\<close>). The first theorem is about everything that may reach the server: what it
  passes on to the protocol was signed by a participant, and what it votes for was asked
  for. The second is about the queue of a node over servers and a network that loses
  requests and replies: what counts as sent has arrived, in order, possibly more than once.
\<close>

section \<open>The server\<close>

text \<open>
  What a request finds: the state of the protocol, whether its task still receives, and the
  outcome of transactions. What it can change: the channel to the protocol, and the votes
  made.
\<close>

record node_env =
  ne_state :: NodeState
  ne_receiver_open :: bool
  ne_send_tx :: "AccountId \<Rightarrow> string option"

record node_web =
  nw_channel :: "MpcMessage list"
  nw_calls :: "contract_call list"

record web_codec =
  wj_msg :: "bytes \<Rightarrow> (nat \<times> string) + Ciphered"
  wj_join :: "bytes \<Rightarrow> (nat \<times> string) + AccountId"
  wj_state :: "StateView \<Rightarrow> bytes"
  wj_text :: "string \<Rightarrow> bytes"
  wj_debug :: "web_error \<Rightarrow> string"

fun extracted :: "(nat \<times> string) + 'a \<Rightarrow> web_error + 'a" where
  "extracted (Inl (status, text)) = Inl (JsonExtractorRejection status text)"
| "extracted (Inr x) = Inr x"

definition web_answer :: "web_codec \<Rightarrow> web_error + unit \<Rightarrow> nat \<times> bytes" where
  "web_answer J r =
     (case r of
        Inl err \<Rightarrow> map_prod id (wj_text J) (web_response (wj_debug J) err)
      | Inr _ \<Rightarrow> (200, []))"

definition msg_route :: "wire_lib \<Rightarrow> hpke_lib \<Rightarrow> web_codec \<Rightarrow> bytes \<Rightarrow> node_env \<Rightarrow> bytes \<Rightarrow> (node_web, nat \<times> bytes) handler" where
  "msg_route W H J cipher_sk e body w =
     (case web_msg W H cipher_sk (ne_state e) (ne_receiver_open e) (nw_channel w) (extracted (wj_msg J body)) of
        (channel, r) \<Rightarrow> (w\<lparr>nw_channel := channel\<rparr>, Done (web_answer J r)))"

definition join_route :: "web_codec \<Rightarrow> node_env \<Rightarrow> bytes \<Rightarrow> (node_web, nat \<times> bytes) handler" where
  "join_route J e body w =
     (case web_join (ne_send_tx e) (ne_state e) (extracted (wj_join J body)) of
        (calls, r) \<Rightarrow> (w\<lparr>nw_calls := nw_calls w @ calls\<rparr>, Done (web_answer J r)))"

definition node_routes :: "wire_lib \<Rightarrow> hpke_lib \<Rightarrow> web_codec \<Rightarrow> bytes \<Rightarrow> node_env \<Rightarrow> node_web route list" where
  "node_routes W H J cipher_sk e =
     [(''/'', GET, health_check),
      (''/msg'', POST, msg_route W H J cipher_sk e),
      (''/join'', POST, join_route J e),
      (''/state'', GET, \<lambda>_. h_return (200, wj_state J (web_state (ne_state e))))]"

definition node_http ::
  "wire_lib \<Rightarrow> hpke_lib \<Rightarrow> web_codec \<Rightarrow> bytes \<Rightarrow> node_env \<times> http_request \<Rightarrow> node_web \<Rightarrow> node_web \<times> (nat \<times> bytes) option" where
  "node_http W H J cipher_sk = (\<lambda>(e, rq). answered (http_serve (\<lambda>_ _ h. h) (node_routes W H J cipher_sk e) rq))"

section \<open>What requests do\<close>

datatype web_event = MsgIn MpcMessage | JoinVote AccountId

definition accepted_msg :: "wire_lib \<Rightarrow> hpke_lib \<Rightarrow> web_codec \<Rightarrow> bytes \<Rightarrow> node_env \<Rightarrow> bytes \<Rightarrow> MpcMessage option" where
  "accepted_msg W H J cipher_sk e body =
     (if ne_receiver_open e
      then case wj_msg J body of
             Inl _ \<Rightarrow> None
           | Inr c \<Rightarrow> (case SignedMessage_decrypt W H cipher_sk (ne_state e) c of Inl _ \<Rightarrow> None | Inr m \<Rightarrow> Some m)
      else None)"

definition accepted_join :: "web_codec \<Rightarrow> node_env \<Rightarrow> bytes \<Rightarrow> AccountId option" where
  "accepted_join J e body =
     (case (wj_join J body, ne_state e) of
        (Inr a, NSRunning _) \<Rightarrow> if ne_send_tx e a = None then Some a else None
      | _ \<Rightarrow> None)"

definition web_event_of :: "wire_lib \<Rightarrow> hpke_lib \<Rightarrow> web_codec \<Rightarrow> bytes \<Rightarrow> node_env \<times> http_request \<Rightarrow> web_event option" where
  "web_event_of W H J cipher_sk = (\<lambda>(e, rq).
     if hr_method rq \<noteq> POST then None
     else if hr_path rq = ''/msg'' then map_option MsgIn (accepted_msg W H J cipher_sk e (hr_body rq))
     else if hr_path rq = ''/join'' then map_option JoinVote (accepted_join J e (hr_body rq))
     else None)"

fun web_step :: "web_event \<Rightarrow> node_web \<Rightarrow> node_web" where
  "web_step (MsgIn m) w = w\<lparr>nw_channel := nw_channel w @ [m]\<rparr>"
| "web_step (JoinVote a) w = w\<lparr>nw_calls := nw_calls w @ [CVoteJoin a]\<rparr>"

lemma msg_route_fst:
  "fst (msg_route W H J sk e body w) =
     (case accepted_msg W H J sk e body of None \<Rightarrow> w | Some m \<Rightarrow> web_step (MsgIn m) w)"
  by (cases "wj_msg J body") (auto simp: msg_route_def accepted_msg_def web_msg_def split: sum.split)

lemma join_route_fst:
  "fst (join_route J e body w) = (case accepted_join J e body of None \<Rightarrow> w | Some a \<Rightarrow> web_step (JoinVote a) w)"
  by (cases "wj_join J body"; cases "ne_state e") (auto simp: join_route_def accepted_join_def web_join_def split: option.split)

interpretation node_server: served "node_http W H J sk" "web_event_of W H J sk" web_step id for W H J sk
proof
  fix q :: "node_env \<times> http_request" and w
  obtain e rq where q: "q = (e, rq)" by (cases q)
  note serve = http_serve_fst [of id "\<lambda>_ _ h. h", simplified]
  show "id (fst (node_http W H J sk q w)) = (case web_event_of W H J sk q of None \<Rightarrow> id w | Some ev \<Rightarrow> web_step ev (id w))"
    by (auto simp: q node_http_def answered_fst serve node_routes_def health_check_def web_event_of_def msg_route_fst join_route_fst
        split: option.split)
qed

text \<open>The channel and the votes after any events.\<close>

lemma web_steps:
  "nw_channel (fold web_step es w) = nw_channel w @ List.map_filter (\<lambda>ev. case ev of MsgIn m \<Rightarrow> Some m | _ \<Rightarrow> None) es"
  "nw_calls (fold web_step es w) = nw_calls w @ List.map_filter (\<lambda>ev. case ev of JoinVote a \<Rightarrow> Some (CVoteJoin a) | _ \<Rightarrow> None) es"
  by (induction es arbitrary: w) (auto simp: List.map_filter_def split: web_event.splits)

section \<open>Sending over the network\<close>

text \<open>
  \<open>Node_State\<close> has the queue for given outcomes of the attempts; here the outcomes come from the
  servers of the addressees. What becomes of one attempt: a reply that is lost has done its
  work at the server.
\<close>

datatype fate = RequestLost string | ReplyLost string | ReplyBroken string | Arrives

definition attempt ::
  "(bytes \<Rightarrow> string + string) \<Rightarrow> fate \<Rightarrow> (node_web \<Rightarrow> node_web \<times> (nat \<times> bytes) option) \<Rightarrow> node_web \<Rightarrow> node_web \<times> Node_State.http_response" where
  "attempt utf8 f serve w =
     (case f of
        RequestLost err \<Rightarrow> (w, NoConnection err)
      | ReplyLost err \<Rightarrow> (fst (serve w), NoConnection err)
      | ReplyBroken err \<Rightarrow> (fst (serve w), BrokenBody err)
      | Arrives \<Rightarrow>
          (case serve w of
             (w', None) \<Rightarrow> (w', NoConnection ''connection closed before message completed'')
           | (w', Some (status, body)) \<Rightarrow>
               (w', case utf8 body of Inl err \<Rightarrow> NotUtf8 err | Inr t \<Rightarrow> Response (200 \<le> status \<and> status < 300) t)))"

text \<open>\<open>Retry::spawn\<close> of an action that changes a state.\<close>

fun retrying :: "nat \<Rightarrow> (nat \<Rightarrow> 's \<Rightarrow> 's \<times> 'e option) \<Rightarrow> nat \<Rightarrow> 's \<Rightarrow> 's \<times> 'e option" where
  "retrying 0 f i w = f i w"
| "retrying (Suc n) f i w = (case f i w of (w', None) \<Rightarrow> (w', None) | (w', Some _) \<Rightarrow> retrying n f (Suc i) w')"

text \<open>
  The nodes are known by their urls. \<open>send_env\<close> is all that a flush meets: for message \<open>i\<close> and attempt
  \<open>k\<close> the fate and what the addressee's server finds, the coins of the encryption of message
  \<open>i\<close>, and the secret keys of the nodes.
\<close>

record send_env =
  se_fate :: "nat \<Rightarrow> nat \<Rightarrow> fate"
  se_node :: "nat \<Rightarrow> nat \<Rightarrow> node_env"
  se_coins :: "nat \<Rightarrow> nat"
  se_cipher_sk :: "string \<Rightarrow> bytes"
  se_url :: "string \<Rightarrow> string + string"

record send_lib =
  sn_wire :: wire_lib
  sn_hpke :: hpke_lib
  sn_server :: web_codec
  sn_json :: "Ciphered \<Rightarrow> bytes"
  sn_utf8 :: "bytes \<Rightarrow> string + string"
  sn_show :: "CryptographicError \<Rightarrow> string"

definition post_msg ::
  "send_lib \<Rightarrow> send_env \<Rightarrow> nat \<Rightarrow> string \<Rightarrow> Ciphered \<Rightarrow> nat \<Rightarrow> (string \<Rightarrow> node_web) \<Rightarrow> (string \<Rightarrow> node_web) \<times> SendError option" where
  "post_msg B V i url encrypted k D =
     (case attempt (sn_utf8 B) (se_fate V i k)
             (node_http (sn_wire B) (sn_hpke B) (sn_server B) (se_cipher_sk V url)
               (se_node V i k, \<lparr>hr_method = POST, hr_path = ''/msg'', hr_body = sn_json B encrypted\<rparr>)) (D url) of
        (w, r) \<Rightarrow> (D(url := w), msg_response_error r))"

definition send_encrypted ::
  "send_lib \<Rightarrow> send_env \<Rightarrow> Participant \<Rightarrow> bytes \<Rightarrow> nat \<Rightarrow> NParticipantInfo \<times> MpcMessage \<Rightarrow> (string \<Rightarrow> node_web) \<Rightarrow>
     (string \<Rightarrow> node_web) \<times> SendError option" where
  "send_encrypted B V from sign_sk i m D =
     (case SignedMessage_encrypt (sn_wire B) (sn_hpke B) (se_coins V i) (snd m) from sign_sk (np_cipher_pk (fst m)) of
        Inl err \<Rightarrow> (D, Some (EncryptionError (sn_show B err)))
      | Inr encrypted \<Rightarrow>
          (case se_url V (np_url (fst m)) of
             Inl err \<Rightarrow> (D, Some (ReqwestClientError err))
           | Inr url \<Rightarrow> retrying 3 (post_msg B V i url encrypted) 0 D))"

fun MessageQueue_send_encrypted ::
  "send_lib \<Rightarrow> send_env \<Rightarrow> Participant \<Rightarrow> bytes \<Rightarrow> nat \<Rightarrow> MessageQueue \<Rightarrow> (string \<Rightarrow> node_web) \<Rightarrow>
     (string \<Rightarrow> node_web) \<times> MessageQueue \<times> (SendError + unit)" where
  "MessageQueue_send_encrypted B V from sign_sk i [] D = (D, [], Inr ())"
| "MessageQueue_send_encrypted B V from sign_sk i (m # q) D =
     (case send_encrypted B V from sign_sk i m D of
        (D', Some err) \<Rightarrow> (D', m # q, Inl err)
      | (D', None) \<Rightarrow> MessageQueue_send_encrypted B V from sign_sk (Suc i) q D')"

section \<open>Laws of the queue\<close>

definition deliver :: "string \<Rightarrow> MpcMessage \<Rightarrow> nat \<Rightarrow> (string \<Rightarrow> node_web) \<Rightarrow> (string \<Rightarrow> node_web)" where
  "deliver url m n D = D(url := (D url)\<lparr>nw_channel := nw_channel (D url) @ replicate n m\<rparr>)"

lemma deliver_0: "deliver url m 0 D = D"
  by (simp add: deliver_def fun_upd_idem)

lemma deliver_add: "deliver url m b (deliver url m a D) = deliver url m (a + b) D"
  by (simp add: deliver_def replicate_add)

lemma deliver_channel: "nw_channel (deliver url m n D u) = nw_channel (D u) @ (if u = url then replicate n m else [])"
  by (simp add: deliver_def)

text \<open>A post that is answered with success was accepted.\<close>

lemma msg_served:
  assumes "hr_method rq = POST" and "hr_path rq = ''/msg''" and "wj_msg J (hr_body rq) = Inr c"
    and "node_http W H J sk (e, rq) w = (w', r)"
  shows "w' = (case accepted_msg W H J sk e (hr_body rq) of None \<Rightarrow> w | Some m \<Rightarrow> web_step (MsgIn m) w)"
    and "r = Some (status, body) \<Longrightarrow> status < 300 \<Longrightarrow> accepted_msg W H J sk e (hr_body rq) \<noteq> None"
proof -
  have m: "msg_route W H J sk e (hr_body rq) w = (w', Done (the r)) \<and> r \<noteq> None"
    using assms by (auto simp: node_http_def http_serve_def node_routes_def answered_def h_bind_def for_method_def msg_route_def
        split: prod.splits exec.splits)
  then show "w' = (case accepted_msg W H J sk e (hr_body rq) of None \<Rightarrow> w | Some m \<Rightarrow> web_step (MsgIn m) w)"
    using msg_route_fst [of W H J sk e "hr_body rq" w] by simp
  assume "r = Some (status, body)" and "status < 300"
  with m assms(3) show "accepted_msg W H J sk e (hr_body rq) \<noteq> None"
    by (auto simp: msg_route_def web_msg_def accepted_msg_def web_answer_def split: sum.splits if_splits)
qed

lemma post_msg_delivers:
  assumes "wj_msg (sn_server B) (sn_json B c) = Inr c"
    and "\<And>st m. SignedMessage_decrypt (sn_wire B) (sn_hpke B) (se_cipher_sk V url) st c = Inr m \<Longrightarrow> m = msg"
    and "post_msg B V i url c k D = (D', r)"
  shows "\<exists>n \<le> 1. D' = deliver url msg n D \<and> (r = None \<longrightarrow> n = 1)"
proof -
  let ?rq = "\<lparr>hr_method = POST, hr_path = ''/msg'', hr_body = sn_json B c\<rparr>"
  let ?a = "accepted_msg (sn_wire B) (sn_hpke B) (sn_server B) (se_cipher_sk V url) (se_node V i k) (sn_json B c)"
  obtain w r1 where n: "node_http (sn_wire B) (sn_hpke B) (sn_server B) (se_cipher_sk V url) (se_node V i k, ?rq) (D url) = (w, r1)"
    by (metis surj_pair)
  note served = msg_served [OF _ _ _ n, simplified, OF assms(1)]
  have a: "?a = None \<or> ?a = Some msg" using assms(1,2) by (auto simp: accepted_msg_def split: sum.splits)
  then have w: "D(url := w) = deliver url msg (if ?a = None then 0 else 1) D"
    using served(1) by (auto simp: deliver_def fun_upd_idem)
  have post: "post_msg B V i url c k D = (case attempt (sn_utf8 B) (se_fate V i k)
      (node_http (sn_wire B) (sn_hpke B) (sn_server B) (se_cipher_sk V url) (se_node V i k, ?rq)) (D url) of
        (w, r) \<Rightarrow> (D(url := w), msg_response_error r))" by (simp add: post_msg_def)
  have "D' = D \<and> r \<noteq> None \<or> D' = D(url := w) \<and> (r = None \<longrightarrow> ?a \<noteq> None)"
  proof (cases "se_fate V i k")
    case Arrives
    show ?thesis
    proof (cases r1)
      case (Some x)
      obtain status body where x: "x = (status, body)" by (cases x)
      from served(2) [of status body] Some x have "status < 300 \<Longrightarrow> ?a \<noteq> None" by simp
      with assms(3) post n Arrives Some x show ?thesis by (auto simp: attempt_def split: sum.splits if_splits)
    qed (use assms(3) post n Arrives in \<open>simp add: attempt_def\<close>, metis option.distinct(1))
  next
    case (RequestLost err)
    with assms(3) post show ?thesis by (simp add: attempt_def) (metis fun_upd_idem option.distinct(1))
  next
    case (ReplyLost err)
    with assms(3) post n show ?thesis by (simp add: attempt_def) blast
  next
    case (ReplyBroken err)
    with assms(3) post n show ?thesis by (simp add: attempt_def) blast
  qed
  then show ?thesis
  proof
    assume "D' = D \<and> r \<noteq> None"
    then show ?thesis by (intro exI [of _ 0]) (simp add: deliver_0)
  next
    assume "D' = D(url := w) \<and> (r = None \<longrightarrow> ?a \<noteq> None)"
    with w show ?thesis by (intro exI [of _ "if ?a = None then 0 else 1"]) (cases r, auto)
  qed
qed

lemma retrying_delivers:
  assumes "\<And>k D D' r. f k D = (D', r) \<Longrightarrow> \<exists>n \<le> 1. D' = deliver url msg n D \<and> (r = None \<longrightarrow> n = 1)"
  shows "retrying a f i D = (D', r) \<Longrightarrow> \<exists>n \<le> Suc a. D' = deliver url msg n D \<and> (r = None \<longrightarrow> 1 \<le> n)"
proof (induction a arbitrary: i D)
  case 0
  with assms show ?case by fastforce
next
  case (Suc a)
  obtain D1 r1 where f: "f i D = (D1, r1)" by (metis surj_pair)
  obtain n where n: "n \<le> 1" "D1 = deliver url msg n D" "r1 = None \<longrightarrow> n = 1" using assms [OF f] by blast
  show ?case
  proof (cases r1)
    case None
    with Suc.prems f n show ?thesis by (intro exI [of _ n]) auto
  next
    case (Some e)
    with Suc f obtain n' where "n' \<le> Suc a" "D' = deliver url msg n' D1" "r = None \<longrightarrow> 1 \<le> n'" by fastforce
    with n show ?thesis by (intro exI [of _ "n + n'"]) (auto simp: deliver_add)
  qed
qed

definition reads_back :: "send_lib \<Rightarrow> send_env \<Rightarrow> Participant \<Rightarrow> bytes \<Rightarrow> NParticipantInfo \<times> MpcMessage \<Rightarrow> bool" where
  "reads_back B V from sign_sk m \<longleftrightarrow>
     (\<forall>coins c url st m'. SignedMessage_encrypt (sn_wire B) (sn_hpke B) coins (snd m) from sign_sk (np_cipher_pk (fst m)) = Inr c \<longrightarrow>
        se_url V (np_url (fst m)) = Inr url \<longrightarrow>
        SignedMessage_decrypt (sn_wire B) (sn_hpke B) (se_cipher_sk V url) st c = Inr m' \<longrightarrow> m' = snd m)"

lemma send_encrypted_delivers:
  assumes "\<forall>c. wj_msg (sn_server B) (sn_json B c) = Inr c" and "reads_back B V from sign_sk m"
    and "send_encrypted B V from sign_sk i m D = (D', r)"
  shows "\<exists>n \<le> 4. (\<forall>u. nw_channel (D' u) = nw_channel (D u) @ (if se_url V (np_url (fst m)) = Inr u then replicate n (snd m) else [])) \<and>
    (r = None \<longrightarrow> 1 \<le> n)"
proof (cases "SignedMessage_encrypt (sn_wire B) (sn_hpke B) (se_coins V i) (snd m) from sign_sk (np_cipher_pk (fst m))")
  case (Inr c)
  show ?thesis
  proof (cases "se_url V (np_url (fst m))")
    case url: (Inr url)
    have "\<exists>n \<le> Suc 3. D' = deliver url (snd m) n D \<and> (r = None \<longrightarrow> 1 \<le> n)"
    proof (rule retrying_delivers)
      show "retrying 3 (post_msg B V i url c) 0 D = (D', r)" using assms(3) Inr url by (simp add: send_encrypted_def)
    qed (rule post_msg_delivers, use assms(1,2) Inr url in \<open>auto simp: reads_back_def\<close>)
    then show ?thesis by (auto simp: deliver_channel url)
  qed (use assms(3) Inr in \<open>auto simp: send_encrypted_def\<close>)
qed (use assms(3) in \<open>auto simp: send_encrypted_def\<close>)

text \<open>What a queue brings to a url when each message arrives a number of times.\<close>

definition arrivals :: "(string \<Rightarrow> string + string) \<Rightarrow> string \<Rightarrow> MessageQueue \<Rightarrow> nat list \<Rightarrow> MpcMessage list" where
  "arrivals urls u q ns = concat (map (\<lambda>(m, n). if urls (np_url (fst m)) = Inr u then replicate n (snd m) else []) (zip q ns))"

lemma queue_delivers:
  assumes "\<forall>c. wj_msg (sn_server B) (sn_json B c) = Inr c" and "\<forall>m \<in> set q. reads_back B V from sign_sk m"
    and "MessageQueue_send_encrypted B V from sign_sk i q D = (D', rest, r)"
  shows "\<exists>sent ns. q = sent @ rest \<and> (r = Inr () \<longleftrightarrow> rest = []) \<and> length ns = length sent + (if rest = [] then 0 else 1) \<and>
    (\<forall>n \<in> set ns. n \<le> 4) \<and> (\<forall>n \<in> set (take (length sent) ns). 1 \<le> n) \<and>
    (\<forall>u. nw_channel (D' u) = nw_channel (D u) @ arrivals (se_url V) u q ns)"
  using assms(2,3)
proof (induction q arbitrary: i D)
  case Nil
  then show ?case by (auto simp: arrivals_def)
next
  case (Cons m q)
  obtain D1 r1 where s: "send_encrypted B V from sign_sk i m D = (D1, r1)" by (metis surj_pair)
  with send_encrypted_delivers [OF assms(1)] Cons.prems(1) obtain n where n: "n \<le> 4" "r1 = None \<longrightarrow> 1 \<le> n"
    "\<And>u. nw_channel (D1 u) = nw_channel (D u) @ (if se_url V (np_url (fst m)) = Inr u then replicate n (snd m) else [])"
    by (metis list.set_intros(1))
  show ?case
  proof (cases r1)
    case None
    with Cons.prems s have "MessageQueue_send_encrypted B V from sign_sk (Suc i) q D1 = (D', rest, r)" by simp
    from Cons.IH [OF _ this] Cons.prems(1) obtain sent ns where "q = sent @ rest" "r = Inr () \<longleftrightarrow> rest = []" "length ns = length sent + (if rest = [] then 0 else 1)"
      "\<forall>n \<in> set ns. n \<le> 4" "\<forall>n \<in> set (take (length sent) ns). 1 \<le> n"
      "\<forall>u. nw_channel (D' u) = nw_channel (D1 u) @ arrivals (se_url V) u q ns" by (metis list.set_intros(2))
    with n None show ?thesis by (intro exI [of _ "m # sent"] exI [of _ "n # ns"]) (auto simp: arrivals_def)
  next
    case (Some e)
    with Cons.prems s n show ?thesis by (intro exI [of _ "[]"] exI [of _ "[n]"]) (auto simp: arrivals_def)
  qed
qed

section \<open>Properties\<close>

lemma map_filter_set: "x \<in> set (List.map_filter f xs) \<longleftrightarrow> (\<exists>y \<in> set xs. f y = Some x)"
  by (force simp: List.map_filter_def image_iff)

text \<open>
  C21: Whatever requests reach the server of a node, in whatever states of its protocol: a
  message in the channel to the protocol was posted encrypted for this node, and at that
  moment its signature verified under the key of a participant; and a vote for a candidate was
  made only by a request for it that found the node running.
\<close>

theorem node_server_authenticates:
  assumes "w' = fst (http_run (node_http W H J cipher_sk) qs w)"
  shows "(\<forall>m \<in> set (nw_channel w') - set (nw_channel w).
      \<exists>(e, rq) \<in> set qs. \<exists>c payload signature sender info. hr_method rq = POST \<and> hr_path rq = ''/msg'' \<and> wj_msg J (hr_body rq) = Inr c \<and>
        res_bind (hpke_decrypt H cipher_sk c ASSOCIATED_DATA) (signed_from_slice W) = Inr (payload, signature, sender) \<and>
        NodeState_fetch_participant (ne_state e) sender = Inr info \<and>
        sig_verify W signature payload (np_sign_pk info) \<and> msg_from_slice W payload = Inr m) \<and>
    (\<forall>c \<in> set (nw_calls w') - set (nw_calls w).
      \<exists>(e, rq) \<in> set qs. \<exists>a s. hr_method rq = POST \<and> hr_path rq = ''/join'' \<and> wj_join J (hr_body rq) = Inr a \<and>
        ne_state e = NSRunning s \<and> c = CVoteJoin a)"
proof -
  have w': "w' = fold web_step (List.map_filter (web_event_of W H J cipher_sk) qs) w"
    using node_server.run_events [of W H J cipher_sk qs w] assms by simp
  show ?thesis
  proof (intro conjI ballI)
    fix m assume "m \<in> set (nw_channel w') - set (nw_channel w)"
    then obtain e rq c where "(e, rq) \<in> set qs" "hr_method rq = POST" "hr_path rq = ''/msg''" "wj_msg J (hr_body rq) = Inr c"
      "SignedMessage_decrypt W H cipher_sk (ne_state e) c = Inr m"
      by (auto simp: w' web_steps map_filter_set web_event_of_def accepted_msg_def split: web_event.splits if_splits sum.splits)
    moreover from decrypted_message_authenticated [OF this(5)] obtain payload signature sender info where
      "res_bind (hpke_decrypt H cipher_sk c ASSOCIATED_DATA) (signed_from_slice W) = Inr (payload, signature, sender)"
      "NodeState_fetch_participant (ne_state e) sender = Inr info" "sig_verify W signature payload (np_sign_pk info)"
      "msg_from_slice W payload = Inr m" by blast
    ultimately show "\<exists>(e, rq) \<in> set qs. \<exists>c payload signature sender info. hr_method rq = POST \<and> hr_path rq = ''/msg'' \<and>
        wj_msg J (hr_body rq) = Inr c \<and>
        res_bind (hpke_decrypt H cipher_sk c ASSOCIATED_DATA) (signed_from_slice W) = Inr (payload, signature, sender) \<and>
        NodeState_fetch_participant (ne_state e) sender = Inr info \<and>
        sig_verify W signature payload (np_sign_pk info) \<and> msg_from_slice W payload = Inr m"
      by (intro bexI [of _ "(e, rq)"]) auto
  next
    fix c assume "c \<in> set (nw_calls w') - set (nw_calls w)"
    then show "\<exists>(e, rq) \<in> set qs. \<exists>a s. hr_method rq = POST \<and> hr_path rq = ''/join'' \<and> wj_join J (hr_body rq) = Inr a \<and>
        ne_state e = NSRunning s \<and> c = CVoteJoin a"
      by (fastforce simp: w' web_steps map_filter_set web_event_of_def accepted_join_def split: web_event.splits if_splits sum.splits NodeState.splits)
  qed
qed

text \<open>
  C22: The queue of outgoing messages over a network that loses requests and replies. A flush
  takes a prefix of the queue and keeps the rest, and it fails exactly when something is left. Every
  message taken has arrived in the channel of its addressee, in the order of the queue; no message arrives more
  than four times, the one at which the flush stopped possibly as well, although it stays in the
  queue, and nothing behind it. Assumed: the server reads the json that the client writes, and an
  encrypted message decrypts to nothing else.
\<close>

theorem sent_messages_arrive:
  assumes "\<forall>c. wj_msg (sn_server B) (sn_json B c) = Inr c" and "\<forall>m \<in> set q. reads_back B V from sign_sk m"
    and "MessageQueue_send_encrypted B V from sign_sk 0 q D = (D', rest, r)"
  shows "\<exists>sent ns. q = sent @ rest \<and> (r = Inr () \<longleftrightarrow> rest = []) \<and> length ns = length sent + (if rest = [] then 0 else 1) \<and>
    (\<forall>n \<in> set ns. n \<le> 4) \<and> (\<forall>n \<in> set (take (length sent) ns). 1 \<le> n) \<and>
    (\<forall>u. nw_channel (D' u) = nw_channel (D u) @ arrivals (se_url V) u q ns)"
  by (rule queue_delivers [OF assms])

section \<open>Examples\<close>

definition ex_web :: web_codec where
  "ex_web = \<lparr>wj_msg = (\<lambda>b. case ex_dec b of (k, r) \<Rightarrow> case ex_dec r of (t, g) \<Rightarrow> Inr \<lparr>c_encapped_key = k, c_text = t, c_tag = g\<rparr>),
     wj_join = (\<lambda>_. Inl (422, [])), wj_state = (\<lambda>_. []), wj_text = (\<lambda>_. []), wj_debug = (\<lambda>_. [])\<rparr>"

definition ex_joining_env :: node_env where
  "ex_joining_env = \<lparr>ne_state = ex_joining, ne_receiver_open = True, ne_send_tx = (\<lambda>_. None)\<rparr>"

definition ex_send :: send_lib where
  "ex_send = \<lparr>sn_wire = ex_wire (snd ex_mail) 1, sn_hpke = ex_hpke, sn_server = ex_web,
     sn_json = (\<lambda>c. ex_enc (c_encapped_key c) @ ex_enc (c_text c) @ c_tag c), sn_utf8 = (\<lambda>_. Inr []), sn_show = (\<lambda>_. [])\<rparr>"

text \<open>The first reply is lost, and the message is posted again.\<close>

definition ex_flush :: send_env where
  "ex_flush = \<lparr>se_fate = (\<lambda>_ k. if k = 0 then ReplyLost [] else Arrives), se_node = (\<lambda>_ _. ex_joining_env), se_coins = (\<lambda>_. 0),
     se_cipher_sk = (\<lambda>_. []), se_url = Inr\<rparr>"

lemma ex_send_reads: "wj_msg (sn_server ex_send) (sn_json ex_send c) = Inr c"
  by (simp add: ex_send_def ex_web_def ex_dec_enc)

lemma ex_send_back: "reads_back ex_send ex_flush 1 sk ex_mail"
  by (auto simp: reads_back_def ex_send_def SignedMessage_decrypt_def ex_wire_def res_bind_eq_Inr Messages.map_err_def map_sum_eq_Inr split: if_splits)

lemma ex_accepted:
  "accepted_msg (ex_wire (snd ex_mail) 1) ex_hpke ex_web [] ex_joining_env (sn_json ex_send \<lparr>c_encapped_key = [], c_text = [2], c_tag = []\<rparr>) =
     Some (snd ex_mail)"
  using ex_joining_fetch ex_send_reads [of "\<lparr>c_encapped_key = [], c_text = [2], c_tag = []\<rparr>"]
  by (auto simp: accepted_msg_def ex_joining_env_def SignedMessage_decrypt_def hpke_decrypt_def ex_hpke_def ex_wire_def Messages.map_err_def ex_send_def)

lemma ex_post_msg:
  "node_http (ex_wire (snd ex_mail) 1) ex_hpke ex_web [] (ex_joining_env,
     \<lparr>hr_method = POST, hr_path = ''/msg'', hr_body = sn_json ex_send \<lparr>c_encapped_key = [], c_text = [2], c_tag = []\<rparr>\<rparr>) w =
     (w\<lparr>nw_channel := nw_channel w @ [snd ex_mail]\<rparr>, Some (200, []))"
  using ex_joining_fetch ex_send_reads [of "\<lparr>c_encapped_key = [], c_text = [2], c_tag = []\<rparr>"]
  by (auto simp: node_http_def http_serve_def node_routes_def answered_def h_bind_def for_method_def msg_route_def web_msg_def web_answer_def
      ex_joining_env_def SignedMessage_decrypt_def hpke_decrypt_def ex_hpke_def ex_wire_def Messages.map_err_def ex_send_def)

theorem node_server_authenticates_witness:
  "\<exists>w' payload signature sender info. w' = fst (http_run (node_http (ex_wire (snd ex_mail) 1) ex_hpke ex_web []) [(ex_joining_env,
       \<lparr>hr_method = POST, hr_path = ''/msg'', hr_body = sn_json ex_send \<lparr>c_encapped_key = [], c_text = [2], c_tag = []\<rparr>\<rparr>)]
       \<lparr>nw_channel = [], nw_calls = []\<rparr>) \<and> nw_channel w' = [snd ex_mail] \<and>
     NodeState_fetch_participant (ne_state ex_joining_env) sender = Inr info \<and>
     sig_verify (ex_wire (snd ex_mail) 1) signature payload (np_sign_pk info)"
proof -
  let ?rq = "\<lparr>hr_method = POST, hr_path = ''/msg'', hr_body = sn_json ex_send \<lparr>c_encapped_key = [], c_text = [2], c_tag = []\<rparr>\<rparr>"
  have "nw_channel (fst (http_run (node_http (ex_wire (snd ex_mail) 1) ex_hpke ex_web []) [(ex_joining_env, ?rq)] \<lparr>nw_channel = [], nw_calls = []\<rparr>)) =
      [snd ex_mail]" by (simp add: ex_post_msg)
  with node_server_authenticates [OF refl, of "ex_wire (snd ex_mail) 1" ex_hpke ex_web "[]" "[(ex_joining_env, ?rq)]" "\<lparr>nw_channel = [], nw_calls = []\<rparr>"]
  show ?thesis by (auto simp del: http_run.simps)
qed

theorem sent_messages_arrive_witness:
  "\<exists>D' ns. MessageQueue_send_encrypted ex_send ex_flush 1 [] 0 [ex_mail] (\<lambda>_. \<lparr>nw_channel = [], nw_calls = []\<rparr>) = (D', [], Inr ()) \<and>
     length ns = 1 \<and> (\<forall>n \<in> set ns. 1 \<le> n \<and> n \<le> 4) \<and> (\<forall>u. nw_channel (D' u) = arrivals Inr u [ex_mail] ns) \<and>
     nw_channel (D' (np_url (fst ex_mail))) = [snd ex_mail, snd ex_mail]"
proof -
  let ?D = "\<lambda>_. \<lparr>nw_channel = [], nw_calls = []\<rparr>" and ?u = "np_url (fst ex_mail)"
  have url: "se_url ex_flush x = Inr x" for x by (simp add: ex_flush_def)
  have "SignedMessage_encrypt (sn_wire ex_send) (sn_hpke ex_send) coins (snd ex_mail) 1 [] pk = Inr \<lparr>c_encapped_key = [], c_text = [2], c_tag = []\<rparr>"
    for coins pk by (simp add: SignedMessage_encrypt_def hpke_encrypt_def ex_hpke_def ex_wire_def Messages.map_err_def ex_send_def Let_def)
  moreover have post: "post_msg ex_send ex_flush 0 ?u \<lparr>c_encapped_key = [], c_text = [2], c_tag = []\<rparr> k D =
      (D(?u := (D ?u)\<lparr>nw_channel := nw_channel (D ?u) @ [snd ex_mail]\<rparr>), if k = 0 then Some (ReqwestClientError []) else None)" for k D
    using ex_post_msg [of "D ?u"] by (simp add: post_msg_def attempt_def ex_flush_def ex_send_def)
  ultimately have "MessageQueue_send_encrypted ex_send ex_flush 1 [] 0 [ex_mail] ?D =
      (?D(?u := \<lparr>nw_channel = [snd ex_mail, snd ex_mail], nw_calls = []\<rparr>), [], Inr ())"
    using url by (simp add: send_encrypted_def numeral_3_eq_3)
  moreover from sent_messages_arrive [OF _ _ this] ex_send_reads ex_send_back obtain sent ns where
    "length ns = 1" "\<forall>n \<in> set ns. n \<le> 4" "\<forall>n \<in> set (take 1 ns). 1 \<le> n"
    "\<forall>u. nw_channel ((?D(?u := \<lparr>nw_channel = [snd ex_mail, snd ex_mail], nw_calls = []\<rparr>)) u) = [] @ arrivals (se_url ex_flush) u [ex_mail] ns" by auto
  ultimately show ?thesis by (intro exI conjI) (assumption, auto simp: ex_flush_def)
qed

end
