(* ===== verification/Recovery_Logging.thy ===== *)
theory Recovery_Logging
  imports Recovery_Cli
begin

text \<open>
  The set-up of the logging of the recovery service (\<^verbatim>\<open>mpc-recovery/src/logging.rs\<close>): which
  layers a process installs for its options, and the cells that can be written once. What the
  layers print and export is up to \<^verbatim>\<open>tracing\<close> and \<^verbatim>\<open>opentelemetry\<close>.
\<close>

section \<open>Layers\<close>

text \<open>A filter of \<open>tracing\<close>: the directives it was built from, in order.\<close>

type_synonym EnvFilter = "string list"

datatype FmtSpan = ENTER | CLOSE

definition get_fmt_span :: "bool \<Rightarrow> FmtSpan list" where
  "get_fmt_span with_span_events = (if with_span_events then [ENTER, CLOSE] else [])"

datatype log_layer =
    FmtLayer (fl_ansi: bool) (fl_span_events: "FmtSpan list") (fl_filter: EnvFilter)
  | OtlpLayer (ol_endpoint: string) (ol_resource: "(string \<times> string) list") (ol_filter: EnvFilter)

type_synonym subscriber = "log_layer list"

definition add_non_blocking_log_layer :: "EnvFilter \<Rightarrow> bool \<Rightarrow> bool \<Rightarrow> subscriber \<Rightarrow> subscriber \<times> EnvFilter" where
  "add_non_blocking_log_layer env_filter ansi with_span_events subscriber =
     (subscriber @ [FmtLayer ansi (get_fmt_span with_span_events) env_filter], env_filter)"

definition otlp_filter :: "OpenTelemetryLevel \<Rightarrow> EnvFilter" where
  "otlp_filter level =
     (case level of OFF \<Rightarrow> [''off''] | INFO \<Rightarrow> [''info''] | DEBUG \<Rightarrow> [''debug''] | TRACE \<Rightarrow> [''trace'']) @
     [''otel::tracing=trace'', ''otel=debug'']"

definition otlp_resource :: "string \<Rightarrow> string \<Rightarrow> (string \<times> string) list" where
  "otlp_resource env node_id =
     [(''service.name'', ''mpc:'' @ env @ '':'' @ node_id), (''env'', env), (''node_id'', node_id)]"

section \<open>The process\<close>

text \<open>
  The cells of the process that are written once, the propagator and the default subscriber.
  \<open>install\<close> is the installation of the exporter.
\<close>

record log_globals =
  lg_log_handle :: "EnvFilter option"
  lg_otlp_handle :: "EnvFilter option"
  lg_default_level :: "OpenTelemetryLevel option"
  lg_propagator :: bool
  lg_global :: "subscriber option"
  lg_local :: "subscriber list"

definition log_fresh :: log_globals where
  "log_fresh = \<lparr>lg_log_handle = None, lg_otlp_handle = None, lg_default_level = None, lg_propagator = False, lg_global = None, lg_local = []\<rparr>"

definition set_once ::
  "(log_globals \<Rightarrow> 'a option) \<Rightarrow> ('a option \<Rightarrow> log_globals \<Rightarrow> log_globals) \<Rightarrow> string \<Rightarrow> 'a \<Rightarrow> (log_globals, unit) handler" where
  "set_once get_cell put_cell msg x g = (if get_cell g = None then (put_cell (Some x) g, Done ()) else (g, Panics msg))"

definition set_log_handle :: "EnvFilter \<Rightarrow> (log_globals, unit) handler" where
  "set_log_handle = set_once lg_log_handle (\<lambda>x g. g\<lparr>lg_log_handle := x\<rparr>) ''Failed to set Log Layer Filter''"

definition set_otlp_handle :: "EnvFilter \<Rightarrow> (log_globals, unit) handler" where
  "set_otlp_handle = set_once lg_otlp_handle (\<lambda>x g. g\<lparr>lg_otlp_handle := x\<rparr>) ''Failed to set OTLP Layer Filter''"

definition set_default_otlp_level :: "logging_Options \<Rightarrow> (log_globals, unit) handler" where
  "set_default_otlp_level options =
     set_once lg_default_level (\<lambda>x g. g\<lparr>lg_default_level := x\<rparr>) ''called `Result::unwrap()` on an `Err` value'' (lo_opentelemetry_level options)"

definition init_propagator :: "(log_globals, unit) handler" where
  "init_propagator g = (g\<lparr>lg_propagator := True\<rparr>, Done ())"

definition add_opentelemetry_layer ::
  "(string \<Rightarrow> (string \<times> string) list \<Rightarrow> string option) \<Rightarrow> OpenTelemetryLevel \<Rightarrow> string \<Rightarrow> string \<Rightarrow> string \<Rightarrow> subscriber \<Rightarrow>
     (log_globals, subscriber \<times> EnvFilter) handler" where
  "add_opentelemetry_layer install opentelemetry_level otlp_endpoint env node_id subscriber =
     (let flt = otlp_filter opentelemetry_level; resource = otlp_resource env node_id in
      case install otlp_endpoint resource of
        Some e \<Rightarrow> h_lift (Panics e)
      | None \<Rightarrow>
          h_bind init_propagator (\<lambda>_.
          h_return (subscriber @ [OtlpLayer otlp_endpoint resource flt], flt)))"

record DefaultSubscriberGuard =
  dg_subscriber :: "subscriber option"
  dg_local :: bool

definition guard_global :: "DefaultSubscriberGuard \<Rightarrow> (log_globals, DefaultSubscriberGuard) handler" where
  "guard_global self =
     (case dg_subscriber self of
        Some subscriber \<Rightarrow>
          h_bind (set_once lg_global (\<lambda>x g. g\<lparr>lg_global := x\<rparr>) ''could not set a global subscriber'' subscriber) (\<lambda>_.
          h_return (self\<lparr>dg_subscriber := None\<rparr>))
      | None \<Rightarrow> h_lift (Panics ''trying to set a default subscriber that has been already taken''))"

text \<open>The default of a thread shadows the one before it, until the guard is dropped.\<close>

definition guard_local :: "DefaultSubscriberGuard \<Rightarrow> (log_globals, DefaultSubscriberGuard) handler" where
  "guard_local self g =
     (case dg_subscriber self of
        Some subscriber \<Rightarrow> (g\<lparr>lg_local := subscriber # lg_local g\<rparr>, Done (self\<lparr>dg_subscriber := None, dg_local := True\<rparr>))
      | None \<Rightarrow> (g, Panics ''trying to set a default subscriber that has been already taken''))"

definition guard_drop :: "DefaultSubscriberGuard \<Rightarrow> log_globals \<Rightarrow> log_globals" where
  "guard_drop self g = (if dg_local self then g\<lparr>lg_local := tl (lg_local g)\<rparr> else g)"

text \<open>The surroundings of a process: NO_COLOR, whether stderr is a terminal, and the exporter.\<close>

record log_env =
  lv_no_color :: bool
  lv_terminal :: bool
  lv_install :: "string \<Rightarrow> (string \<times> string) list \<Rightarrow> string option"

definition default_subscriber_with_opentelemetry ::
  "log_env \<Rightarrow> EnvFilter \<Rightarrow> logging_Options \<Rightarrow> string \<Rightarrow> string \<Rightarrow> (log_globals, DefaultSubscriberGuard) handler" where
  "default_subscriber_with_opentelemetry E env_filter options env node_id =
     (let color_output = use_color_output (lv_no_color E) (lv_terminal E) options in
      h_bind (set_default_otlp_level options) (\<lambda>_.
      let (subscriber, handle) = add_non_blocking_log_layer env_filter color_output (lo_log_span_events options) [] in
      h_bind (set_log_handle handle) (\<lambda>_.
      h_bind (add_opentelemetry_layer (lv_install E) (lo_opentelemetry_level options) (lo_otlp_endpoint options) env node_id subscriber)
        (\<lambda>(subscriber, handle).
      h_bind (set_otlp_handle handle) (\<lambda>_.
      h_return \<lparr>dg_subscriber = Some subscriber, dg_local = False\<rparr>)))))"

datatype FeatureGuard = Noop | DefaultGuard DefaultSubscriberGuard

definition subscribe_global ::
  "bool \<Rightarrow> log_env \<Rightarrow> EnvFilter \<Rightarrow> logging_Options \<Rightarrow> string \<Rightarrow> string \<Rightarrow> (log_globals, FeatureGuard) handler" where
  "subscribe_global disabled E env_filter options env node_id =
     (if disabled then h_return Noop
      else
        h_bind (default_subscriber_with_opentelemetry E env_filter options env node_id) (\<lambda>guard.
        h_bind (guard_global guard) (\<lambda>subscriber_guard. h_return (DefaultGuard subscriber_guard))))"

section \<open>Laws\<close>

lemma subscribe_fresh:
  assumes "lv_install E (lo_otlp_endpoint options) (otlp_resource env node_id) = None"
  shows "subscribe_global False E env_filter options env node_id log_fresh =
    (\<lparr>lg_log_handle = Some env_filter, lg_otlp_handle = Some (otlp_filter (lo_opentelemetry_level options)),
      lg_default_level = Some (lo_opentelemetry_level options), lg_propagator = True,
      lg_global = Some [FmtLayer (use_color_output (lv_no_color E) (lv_terminal E) options) (get_fmt_span (lo_log_span_events options)) env_filter,
        OtlpLayer (lo_otlp_endpoint options) (otlp_resource env node_id) (otlp_filter (lo_opentelemetry_level options))],
      lg_local = []\<rparr>, Done (DefaultGuard \<lparr>dg_subscriber = None, dg_local = False\<rparr>))"
  using assms
  by (simp add: subscribe_global_def default_subscriber_with_opentelemetry_def guard_global_def add_opentelemetry_layer_def init_propagator_def
      add_non_blocking_log_layer_def set_default_otlp_level_def set_log_handle_def set_otlp_handle_def set_once_def h_bind_def log_fresh_def Let_def)

lemma subscribe_again:
  assumes "lg_default_level g \<noteq> None"
  shows "\<exists>msg. subscribe_global False E env_filter options env node_id g = (g, Panics msg)"
  using assms by (auto simp: subscribe_global_def default_subscriber_with_opentelemetry_def set_default_otlp_level_def set_once_def h_bind_def Let_def)

text \<open>A failed installation of the exporter: the level is recorded, so the process cannot try again.\<close>

lemma subscribe_failed:
  assumes "lv_install E (lo_otlp_endpoint options) (otlp_resource env node_id) = Some e"
    and "subscribe_global False E env_filter options env node_id log_fresh = (g, r)"
  shows "r = Panics e \<and> lg_global g = None \<and> lg_default_level g \<noteq> None"
  using assms
  by (auto simp: subscribe_global_def default_subscriber_with_opentelemetry_def add_opentelemetry_layer_def add_non_blocking_log_layer_def
      set_default_otlp_level_def set_log_handle_def set_once_def h_bind_def log_fresh_def Let_def)

fun subscribe_calls ::
  "(log_env \<times> EnvFilter \<times> logging_Options \<times> string \<times> string) list \<Rightarrow> log_globals \<Rightarrow> log_globals \<times> FeatureGuard exec list" where
  "subscribe_calls [] g = (g, [])"
| "subscribe_calls ((E, f, opts, env, node) # cs) g =
     (let (g1, r) = subscribe_global False E f opts env node g; (g2, rs) = subscribe_calls cs g1 in (g2, r # rs))"

lemma subscribe_calls_again:
  "lg_default_level g \<noteq> None \<Longrightarrow> fst (subscribe_calls cs g) = g \<and> (\<forall>r \<in> set (snd (subscribe_calls cs g)). \<exists>msg. r = Panics msg)"
proof (induction cs)
  case (Cons c cs)
  obtain E f opts env node where c: "c = (E, f, opts, env, node)" by (cases c)
  from subscribe_again [OF Cons.prems] obtain msg where "subscribe_global False E f opts env node g = (g, Panics msg)" by blast
  with Cons c show ?case by (auto split: prod.split)
qed simp

section \<open>Properties\<close>

text \<open>
  A process logs through the subscriber of its first call. If the exporter can be
  installed, the first \<open>subscribe_global\<close> of a process succeeds, and its default subscriber has
  the two layers of the given options: the log with the filter of the environment, and the
  spans, filtered by the level of the options and named by environment and node. However
  often it is called again, with whatever options, every further call panics and changes
  nothing.
\<close>

theorem first_subscriber_stays:
  assumes "lv_install E (lo_otlp_endpoint options) (otlp_resource env node_id) = None"
  shows "\<exists>g rs. subscribe_calls ((E, env_filter, options, env, node_id) # cs) log_fresh =
      (g, Done (DefaultGuard \<lparr>dg_subscriber = None, dg_local = False\<rparr>) # rs) \<and>
    lg_global g = Some [FmtLayer (use_color_output (lv_no_color E) (lv_terminal E) options) (get_fmt_span (lo_log_span_events options)) env_filter,
      OtlpLayer (lo_otlp_endpoint options) (otlp_resource env node_id) (otlp_filter (lo_opentelemetry_level options))] \<and>
    length rs = length cs \<and> (\<forall>r \<in> set rs. \<exists>msg. r = Panics msg)"
proof -
  have len: "length (snd (subscribe_calls cs g)) = length cs" for g
    by (induction cs g rule: subscribe_calls.induct) (auto split: prod.splits)
  obtain g rs where again: "subscribe_calls cs (fst (subscribe_global False E env_filter options env node_id log_fresh)) = (g, rs)" by fastforce
  with subscribe_calls_again [of "fst (subscribe_global False E env_filter options env node_id log_fresh)" cs] len [of "fst (subscribe_global False E env_filter options env node_id log_fresh)"]
  show ?thesis by (auto simp: subscribe_fresh [OF assms])
qed

theorem first_subscriber_stays_witness:
  "\<exists>g msg. subscribe_calls (replicate 2 (\<lparr>lv_no_color = False, lv_terminal = True, lv_install = (\<lambda>_ _. None)\<rparr>, [''info''], logging_default, ''dev'', ''leader''))
      log_fresh = (g, [Done (DefaultGuard \<lparr>dg_subscriber = None, dg_local = False\<rparr>), Panics msg]) \<and>
    lg_global g = Some [FmtLayer True [] [''info''], OtlpLayer ''http://localhost:4317''
      [(''service.name'', ''mpc:dev:leader''), (''env'', ''dev''), (''node_id'', ''leader'')] [''off'', ''otel::tracing=trace'', ''otel=debug'']]"
proof -
  let ?E = "\<lparr>lv_no_color = False, lv_terminal = True, lv_install = (\<lambda>_ _. None)\<rparr>"
  from first_subscriber_stays [of ?E logging_default "''dev''" "''leader''" "[''info'']"
      "[(?E, [''info''], logging_default, ''dev'', ''leader'')]"]
  obtain g rs where "subscribe_calls [(?E, [''info''], logging_default, ''dev'', ''leader''), (?E, [''info''], logging_default, ''dev'', ''leader'')] log_fresh =
      (g, Done (DefaultGuard \<lparr>dg_subscriber = None, dg_local = False\<rparr>) # rs)" "length rs = 1" "\<forall>r \<in> set rs. \<exists>msg. r = Panics msg"
    "lg_global g = Some [FmtLayer True [] [''info''], OtlpLayer ''http://localhost:4317''
      [(''service.name'', ''mpc:dev:leader''), (''env'', ''dev''), (''node_id'', ''leader'')] [''off'', ''otel::tracing=trace'', ''otel=debug'']]"
    by (auto simp: use_color_output_def logging_default_def otlp_resource_def otlp_filter_def get_fmt_span_def)
  then show ?thesis by (cases rs) (auto simp: numeral_eq_Suc)
qed

end
