(* ===== verification/Spec2Isabelle.thy ===== *)
theory Spec2Isabelle
  imports Multichain_Environment Bitcoin_Address Test_Identity Node_Http Recovery_Logging
begin

text \<open>
  \<^bold>\<open>The program.\<close> The repository holds two systems of multi-party computation for NEAR.

  \<^item> The \<^emph>\<open>multichain network\<close>: an on-chain contract (\<^verbatim>\<open>contract\<close>) keeps the membership, the
    threshold and the public key of a group of nodes, and takes requests for signatures; the
    nodes (\<^verbatim>\<open>node\<close>) follow the contract, run the threshold protocols of another crate for keys,
    triples, presignatures and signatures, exchange encrypted messages (\<^verbatim>\<open>keys\<close>) and publish
    the signatures.
  \<^item> The \<^emph>\<open>recovery service\<close> (\<^verbatim>\<open>mpc-recovery\<close>): sign nodes hold the shares of a recovery key for
    every user of an identity provider, and a leader collects from all of them the parts of
    Ed25519 signatures for users who prove the possession of a claimed identity token. A
    client (\<^verbatim>\<open>load-tests\<close>) plays such a user.

  \<^bold>\<open>The model.\<close> Data are records and datatypes with the fields and constructors of the source,
  \<open>u64\<close> and the other machine integers are words, every operation is a function from the state
  and its inputs to the new state and a result. A result of type \<open>exec\<close> is \<open>Done\<close> or a panic, an
  \<open>Err\<close> is \<open>Inl\<close>. \<open>BTreeMap\<close>s are sorted association lists, \<open>HashMap\<close>s are association lists in
  an order on which no statement depends. Code of other crates (curves, hashes, ciphers, json,
  borsh, http, the Google clients, the \<open>cait-sith\<close> protocols) is an argument: a record of
  functions, and, where a theorem relies on it, a predicate with its documented laws
  (\<open>borsh_ok\<close>, \<open>codec_ok\<close>, \<open>cipher_ok\<close>, \<open>datastore_ok\<close>, \<open>aggsig_ok\<close>, \<open>aggsig_sound\<close>, \<open>libs_ok\<close>,
  \<open>formats_ok\<close>, \<open>wire_ok\<close>), which the witnesses show to be satisfiable. What has to be up for a
  user to be served is \<open>libs_up\<close> and \<open>service_up\<close>. Randomness and time are inputs.

  \<^bold>\<open>The theories.\<close>

  \<^item> \<open>Prelude\<close>: words and bytes, the keyed collections with their common laws (locale
    \<open>keyed_map\<close>, interpreted on both), results, runs of a system with an invariant
    (\<open>invariant_system\<close>) and with a relation that holds from any state on (\<open>monotone_system\<close>).
  \<^item> \<open>Contract\<close>, \<open>Contract_Laws\<close>: the methods of \<^verbatim>\<open>contract/src/lib.rs\<close> as transactions, which
    change nothing when they panic. The contract refines an inductive relation of phases;
    votes, keys, thresholds and epochs are as they should be in every run; requests are
    answered; what follows from a response nobody asked for and from a membership below the
    threshold.
  \<^item> \<open>Node_Contract\<close>, \<open>Node_Contract_Laws\<close>: what a node reads of the contract
    (\<^verbatim>\<open>node/src/protocol/contract\<close>), and the numbering of participants.
  \<^item> \<open>Protocols\<close>: the protocols of the other crate as a codatatype of arbitrary behaviour, and the
    loop in which all managers poke them (locales \<open>poking\<close>, \<open>total_poking\<close>).
    \<open>Triple\<close>, \<open>Presignature\<close>, \<open>Signature\<close>, \<open>Kdf\<close>: the managers of
    \<^verbatim>\<open>node/src/protocol/triple.rs\<close>, \<^verbatim>\<open>presignature.rs\<close> and \<^verbatim>\<open>signature.rs\<close>, and the derivation of
    keys: ownership of triples and presignatures, their conservation, the choice of proposers,
    the arithmetic of re-randomisation.
  \<^item> \<open>Node_State\<close>, \<open>Messages\<close>, \<open>Cryptography\<close>, \<open>Consensus\<close>, \<open>Node_Run\<close>: the states of a node with
    its queues, the handling of messages, a round of the protocols, the steps that follow the
    contract, and the loop that composes them; \<open>Node_Services\<close>: the storage of the share, the
    indexer and the http endpoints. A node runs only in agreement with the contract, and
    messages are authenticated.
  \<^item> \<open>Network\<close>, \<open>Network_Rounds\<close>: the contract with any number of nodes. The inductive runs of
    \<open>Network\<close> interleave transactions, iterations on old states of the contract, messages and
    restarts, and running nodes agree in all of them. In \<open>Network_Rounds\<close> the nodes take turns:
    the locale \<open>vote_round\<close> holds what a round of votes brings about, and its interpretations
    show that key generation and resharing come to an end.
  \<^item> \<open>Multichain_Setup\<close>: the start of a node from its command line (\<^verbatim>\<open>node/src/cli.rs\<close>,
    \<^verbatim>\<open>indexer.rs\<close>) and the networks that \<^verbatim>\<open>integration-tests/src/multichain\<close> sets up, whose nodes
    can talk; \<open>Multichain_Environment\<close>: the builds and services before them. \<open>Bitcoin_Address\<close>: the address that \<^verbatim>\<open>testing-irfi\<close> derives from the root key.
  \<^item> \<open>Recovery_Base\<close>: errors, requests, digests, the allowlist and the retries of the recovery
    service, and the way its handlers are composed (\<open>h_bind\<close>, \<open>h_try\<close>): a handler maps a state
    to a state and a result. The locale \<open>state_order\<close> carries a reflexive and transitive
    relation through handlers; it is interpreted in \<open>Sign_Node\<close>, \<open>Recovery_System\<close>
    and \<open>Recovery_Signatures\<close>.
  \<^item> \<open>Gcp\<close>, \<open>Oidc\<close>, \<open>Credentials\<close>: the datastore and its values (locale \<open>stored_entity\<close>, interpreted
    on the three kinds of entities), identity tokens, and the encrypted credentials with the
    rotation of their cipher.
  \<^item> \<open>Aggregate_Signer\<close>, \<open>Sign_Node\<close>: the signer of \<^verbatim>\<open>sign_node/aggregate_signer.rs\<close> and the
    endpoints of \<^verbatim>\<open>sign_node/mod.rs\<close>. Runs interleave requests, with lookups and inserts of the
    datastore as separate steps: tokens and accounts belong to one key, ephemeral keys sign
    once, and only the owner of a token gets a commitment.
  \<^item> \<open>Relayer\<close>, \<open>Leader\<close>: the client of the relayer and the leader of \<^verbatim>\<open>leader_node/mod.rs\<close> with
    \<^verbatim>\<open>transaction.rs\<close> and \<^verbatim>\<open>key_recovery.rs\<close>, over arbitrary answers of the sign nodes.
  \<^item> \<open>Recovery_System\<close>: the leader over the sign nodes of this development. The start makes the
    nodes ready, and what all of them grant is signed. \<open>Recovery_Signatures\<close>: the signatures
    belong to the recovery key that the leader reports for the user.
  \<^item> \<open>Recovery_Client\<close>, \<open>Recovery_Liveness\<close>: the user of \<^verbatim>\<open>load-tests\<close> with its session and
    transactions, and that it is served when the parts of the service are up.
  \<^item> \<open>Recovery_Http\<close>: the routers of the sign nodes and of the leader, json bodies, and the
    counters of \<^verbatim>\<open>metrics.rs\<close>. The locale \<open>served\<close> relates the requests of the network to events
    of the program; it is interpreted on both servers, and on that of a node in \<open>Node_Http\<close>,
    where the queue of \<^verbatim>\<open>node/src/http_client.rs\<close> posts to such servers over a network that loses
    requests and replies: what reaches the protocol is authenticated, and what counts as
    sent has arrived, in order and at least once. \<open>Recovery_Logging\<close>: the set-up of
    \<^verbatim>\<open>logging.rs\<close>, of which the first call of a process counts.
  \<^item> \<open>Recovery_Cli\<close>: the commands of \<^verbatim>\<open>mpc-recovery/src/lib.rs\<close> and \<^verbatim>\<open>node/src/cli.rs\<close>, their
    arguments, the secrets they load and the configurations they start.
  \<^item> \<open>Recovery_Api\<close>: the helpers with which \<^verbatim>\<open>integration-tests\<close> talk to the service
    (\<^verbatim>\<open>env/containers.rs\<close>, \<^verbatim>\<open>util.rs\<close>), against the leader over http: the flow of the tests succeeds
    and the recovery key cannot be deleted. \<open>Test_Containers\<close>, \<open>Test_Environment\<close>: the containers, accounts,
    files and processes of the tests and the environment made of them (\<^verbatim>\<open>env\<close>, \<^verbatim>\<open>sandbox.rs\<close>, \<^verbatim>\<open>lib.rs\<close>,
    \<^verbatim>\<open>mpc.rs\<close>): its commands make a service that is ready, with the generated keys.
    \<open>Test_Identity\<close>: the identity provider of the tests (\<^verbatim>\<open>test-oidc-provider\<close>), whose tokens that
    environment accepts.

  \<^bold>\<open>Bounds.\<close> The loop that drives a protocol may not end, as the protocol may ask to be poked for
  ever: it has fuel, and \<open>triple_poke_total\<close> gives the fuel that is enough when the protocols
  settle. The gathering of keys by the leader ends with its budget of a minute, for every
  attempt is followed by a second of waiting, and the wait for a process of the tests with its
  timeout in the same way. All other recursions are over data.

  \<^bold>\<open>Not modelled.\<close> The insides of the http library, of tracing, OpenTelemetry and Prometheus; the
  construction of the clients of Google and NEAR; the stream of blocks itself; the delays
  between retries and the timeout of the client's requests; the parsing of command lines
  (clap); the cryptography itself; docker, the operating system and the sandbox, which are
  arguments of the environments; the feature \<open>flamegraph\<close> that runs a node in a thread; and the printing
  of logs and of environments, the tests themselves and the provisioning. Futures that are awaited
  together run one after the other where an environment is set up.
\<close>

end
